(* ===== verification/Prelude.thy ===== *)
theory Prelude
  imports Main "HOL-Library.Word" "HOL-Library.Multiset"
begin

text \<open>
  Shared vocabulary of the development: Rust's integer widths as words, \<open>Result\<close> as a
  sum type, the std operations on integers and lists that the modelled code calls, and the
  generic list lemmas the component theories share.
\<close>

unbundle bit_operations_syntax

named_theorems wire_simps \<open>evaluation rules of the byte codec\<close>
named_theorems inv_intros \<open>invariant preservation rules, one per operation\<close>

type_synonym u8 = "8 word"
type_synonym u16 = "16 word"
type_synonym u32 = "32 word"
type_synonym u64 = "64 word"
type_synonym bytes = "u8 list"

text \<open>\<open>Result<T, E>\<close>: \<open>Inl\<close> carries the error, \<open>Inr\<close> the value.\<close>

abbreviation Ok :: "'a \<Rightarrow> 'e + 'a" where "Ok \<equiv> Inr"
abbreviation Err :: "'e \<Rightarrow> 'e + 'a" where "Err \<equiv> Inl"

definition rbind :: "'e + 'a \<Rightarrow> ('a \<Rightarrow> 'e + 'b) \<Rightarrow> 'e + 'b" where
  "rbind m f = (case m of Inl e \<Rightarrow> Inl e | Inr x \<Rightarrow> f x)"

lemma rbind_simps [simp]:
  "rbind (Inl e) f = Inl e"
  "rbind (Inr x) f = f x"
  by (simp_all add: rbind_def)

lemma rbind_eq_Inr: "rbind m f = Inr y \<longleftrightarrow> (\<exists>x. m = Inr x \<and> f x = Inr y)"
  by (cases m) auto

lemma rbind_assoc: "rbind (rbind m f) g = rbind m (\<lambda>x. rbind (f x) g)"
  by (cases m) auto

definition ok_or :: "'e \<Rightarrow> 'a option \<Rightarrow> 'e + 'a" where
  "ok_or e m = (case m of None \<Rightarrow> Inl e | Some x \<Rightarrow> Inr x)"

lemma ok_or_simps [simp]:
  "ok_or e None = Inl e"
  "ok_or e (Some x) = Inr x"
  by (simp_all add: ok_or_def)

text \<open>\<open>slice::first\<close> and \<open>Vec::retain\<close>.\<close>

definition first :: "'a list \<Rightarrow> 'a option" where
  "first xs = (case xs of [] \<Rightarrow> None | x # _ \<Rightarrow> Some x)"

lemma first_simps [simp]: "first [] = None" "first (x # xs) = Some x"
  by (simp_all add: first_def)

lemma first_eq_None [simp]: "first xs = None \<longleftrightarrow> xs = []"
  by (cases xs) auto

lemma first_in_set: "first xs = Some x \<Longrightarrow> x \<in> set xs"
  by (cases xs) auto

definition retain :: "('a \<Rightarrow> bool) \<Rightarrow> 'a list \<Rightarrow> 'a list" where
  "retain P xs = filter P xs"

lemma set_retain [simp]: "set (retain P xs) = {x \<in> set xs. P x}"
  by (auto simp: retain_def)

lemma distinct_retain [simp]: "distinct xs \<Longrightarrow> distinct (retain P xs)"
  by (simp add: retain_def)

text \<open>
  Inserting \<open>y\<close> right after the first \<open>x\<close>: what splitting a pane does to the left-to-right
  order of panes.
\<close>

fun insert_after :: "'a \<Rightarrow> 'a \<Rightarrow> 'a list \<Rightarrow> 'a list" where
  "insert_after x y [] = []"
| "insert_after x y (z # zs) = (if z = x then z # y # zs else z # insert_after x y zs)"

lemma insert_after_append:
  "insert_after x y (xs @ ys) =
    (if x \<in> set xs then insert_after x y xs @ ys else xs @ insert_after x y ys)"
  by (induction xs) auto

lemma mset_insert_after: "x \<in> set xs \<Longrightarrow> mset (insert_after x y xs) = add_mset y (mset xs)"
  by (induction xs) auto

lemma set_insert_after: "x \<in> set xs \<Longrightarrow> set (insert_after x y xs) = insert y (set xs)"
  by (induction xs) auto

lemma insert_after_absent [simp]: "x \<notin> set xs \<Longrightarrow> insert_after x y xs = xs"
  by (induction xs) auto

lemma distinct_insert_after:
  assumes "x \<in> set xs"
  shows "distinct (insert_after x y xs) \<longleftrightarrow> distinct xs \<and> y \<notin> set xs"
  using assms by (induction xs) (auto simp: set_insert_after)

lemma filter_insert_after:
  "y \<notin> set xs \<Longrightarrow> filter (\<lambda>z. z \<noteq> y) (insert_after x y xs) = xs"
  by (induction xs) (auto simp: filter_id_conv)

lemma filter_ne_absent: "x \<notin> set xs \<Longrightarrow> filter (\<lambda>z. z \<noteq> x) xs = xs"
  by (induction xs) auto

end
