(* ===== verification/Pane_Tree.thy ===== *)
theory Pane_Tree
  imports Prelude
begin

text \<open>
  The contract of a split tree over panes, as its clients use it: the left-to-right order of
  the leaves, seeding, splitting a leaf and removing one. Two crates implement it with code of
  their own (\<open>phux-core\<close>'s window tree and \<open>phux-client-core\<close>'s layout mirror); each is an
  interpretation. \<open>kill\<close> answers \<open>None\<close> when the pane is absent, \<open>Some None\<close> when it was the
  only one.
\<close>

locale pane_tree =
  fixes leaves :: "'t \<Rightarrow> 'r list"
    and seed :: "'r \<Rightarrow> 't"
    and split :: "'t \<Rightarrow> 'r \<Rightarrow> 'r \<Rightarrow> 't option"
    and kill :: "'t \<Rightarrow> 'r \<Rightarrow> 't option option"
  assumes leaves_nonempty: "leaves t \<noteq> []"
    and leaves_seed: "leaves (seed x) = [x]"
    and split_hit: "x \<in> set (leaves t) \<Longrightarrow>
      \<exists>t'. split t x y = Some t' \<and> leaves t' = insert_after x y (leaves t)"
    and split_miss: "x \<notin> set (leaves t) \<Longrightarrow> split t x y = None"
    and kill_miss: "x \<notin> set (leaves t) \<Longrightarrow> kill t x = None"
    and kill_last: "kill t x = Some None \<longleftrightarrow> leaves t = [x]"
    and kill_some: "kill t x = Some (Some t') \<Longrightarrow> distinct (leaves t) \<Longrightarrow>
      leaves t' = filter (\<lambda>z. z \<noteq> x) (leaves t)"
    and kill_hit: "x \<in> set (leaves t) \<Longrightarrow> kill t x \<noteq> None"
    and kill_split: "split t x y = Some t' \<Longrightarrow> y \<notin> set (leaves t) \<Longrightarrow> kill t' y = Some (Some t)"
begin

text \<open>The panes of an optional tree, and agreement of a slot list with a tree.\<close>

definition panes :: "'t option \<Rightarrow> 'r list" where
  "panes t = (case t of None \<Rightarrow> [] | Some t \<Rightarrow> leaves t)"

definition agrees :: "'r list \<Rightarrow> 't option \<Rightarrow> bool" where
  "agrees slots t \<longleftrightarrow> distinct slots \<and> mset slots = mset (panes t)"

lemma agrees_empty: "agrees [] None"
  by (simp add: agrees_def panes_def)

lemma agrees_seed: "agrees [x] (Some (seed x))"
  by (simp add: agrees_def panes_def leaves_seed)

lemma agrees_None_iff: "agrees slots t \<Longrightarrow> t = None \<longleftrightarrow> slots = []"
  by (cases t) (auto simp: agrees_def panes_def leaves_nonempty)

lemma agrees_set: "agrees slots (Some t) \<Longrightarrow> set (leaves t) = set slots"
  by (auto simp: agrees_def panes_def dest: mset_eq_setD)

lemma agrees_distinct: "agrees slots (Some t) \<Longrightarrow> distinct (leaves t)"
  by (auto simp: agrees_def panes_def dest: mset_eq_imp_distinct_iff)

lemma agrees_split:
  assumes a: "agrees slots (Some t)" and x: "x \<in> set slots" and y: "y \<notin> set slots"
  shows "\<exists>t'. split t x y = Some t' \<and> agrees (slots @ [y]) (Some t')"
proof -
  from a x have "x \<in> set (leaves t)" by (simp add: agrees_set)
  then obtain t' where "split t x y = Some t'" and l: "leaves t' = insert_after x y (leaves t)"
    using split_hit by blast
  moreover from a y \<open>x \<in> set (leaves t)\<close> have "agrees (slots @ [y]) (Some t')"
    by (simp add: agrees_def panes_def l mset_insert_after)
  ultimately show ?thesis by blast
qed

lemma agrees_kill:
  assumes a: "agrees slots (Some t)" and x: "x \<in> set slots"
  shows "\<exists>t'. kill t x = Some t' \<and> agrees (filter (\<lambda>z. z \<noteq> x) slots) t'"
proof -
  from a x have in_t: "x \<in> set (leaves t)" by (simp add: agrees_set)
  from a have d: "distinct (leaves t)" by (rule agrees_distinct)
  from a have m: "mset slots = mset (leaves t)" by (simp add: agrees_def panes_def)
  obtain t' where t': "kill t x = Some t'"
    using kill_hit [OF in_t] by auto
  have "mset (filter (\<lambda>z. z \<noteq> x) slots) = mset (panes t')"
  proof (cases t')
    case None
    with t' have "leaves t = [x]" by (simp add: kill_last)
    with m have "slots = [x]" by simp
    with None show ?thesis by (simp add: panes_def)
  next
    case (Some u)
    with t' d have "leaves u = filter (\<lambda>z. z \<noteq> x) (leaves t)" using kill_some by blast
    with Some m show ?thesis by (simp add: panes_def)
  qed
  with t' a show ?thesis by (auto simp: agrees_def)
qed

end

end
