(* ===== verification/F32.thy ===== *)
theory F32
  imports Prelude
begin

text \<open>
  Rust's \<open>f32\<close> as the code uses it: a 32-bit IEEE-754 word. The wire moves the bits
  unchanged; the split ratio is compared (\<open>is_nan\<close>, \<open><=\<close>, \<open>>=\<close>) and multiplied by a \<open>u16\<close>
  and rounded. Comparison reads the bits; the product is computed exactly on significand and
  exponent and then rounded to nearest-even, as the hardware does.
\<close>

type_synonym f32 = u32

definition f32_sign :: "f32 \<Rightarrow> bool" where
  "f32_sign x = (unat x \<ge> 2 ^ 31)"

definition f32_exp :: "f32 \<Rightarrow> nat" where
  "f32_exp x = (unat x div 2 ^ 23) mod 256"

definition f32_mant :: "f32 \<Rightarrow> nat" where
  "f32_mant x = unat x mod 2 ^ 23"

definition f32_is_nan :: "f32 \<Rightarrow> bool" where
  "f32_is_nan x = (f32_exp x = 255 \<and> f32_mant x \<noteq> 0)"

definition f32_is_finite :: "f32 \<Rightarrow> bool" where
  "f32_is_finite x \<longleftrightarrow> f32_exp x \<noteq> 255"

definition f32_zero :: f32 where "f32_zero = 0"
definition f32_half :: f32 where "f32_half = 0x3F000000"
definition f32_one :: f32 where "f32_one = 0x3F800000"

text \<open>
  On non-NaN values the IEEE order is the order of the signed magnitudes: the exponent sits
  above the mantissa, so the 31 magnitude bits compare as a number, and both zeros have
  magnitude 0.
\<close>

definition f32_key :: "f32 \<Rightarrow> int" where
  "f32_key x = (if f32_sign x then - int (unat x mod 2 ^ 31) else int (unat x mod 2 ^ 31))"

definition f32_le :: "f32 \<Rightarrow> f32 \<Rightarrow> bool" where
  "f32_le x y = (\<not> f32_is_nan x \<and> \<not> f32_is_nan y \<and> f32_key x \<le> f32_key y)"

definition f32_lt :: "f32 \<Rightarrow> f32 \<Rightarrow> bool" where
  "f32_lt x y = (\<not> f32_is_nan x \<and> \<not> f32_is_nan y \<and> f32_key x < f32_key y)"

section \<open>Values and the product\<close>

text \<open>\<open>FFin s m e\<close> stands for \<open>(-1)^s * m * 2^e\<close>.\<close>

datatype fval = FNan | FInf bool | FFin bool nat int

definition f32_decode :: "f32 \<Rightarrow> fval" where
  "f32_decode x =
     (if f32_exp x = 255
      then (if f32_mant x = 0 then FInf (f32_sign x) else FNan)
      else if f32_exp x = 0 then FFin (f32_sign x) (f32_mant x) (-149)
      else FFin (f32_sign x) (f32_mant x + 2 ^ 23) (int (f32_exp x) - 150))"

fun bits_len :: "nat \<Rightarrow> nat" where
  "bits_len n = (if n = 0 then 0 else Suc (bits_len (n div 2)))"

declare bits_len.simps [simp del]

text \<open>Round \<open>m * 2^e\<close> to 24 significant bits, ties to even, subnormals at exponent -149.\<close>

definition f32_round_nearest :: "bool \<Rightarrow> nat \<Rightarrow> int \<Rightarrow> fval" where
  "f32_round_nearest s m e =
     (let sh = max (int (bits_len m) - 24) (-149 - e) in
      if sh \<le> 0
      then (if 0 \<le> e \<and> 2 ^ 128 \<le> m * 2 ^ nat e then FInf s else FFin s m e)
      else
        (let k = nat sh; q = m div 2 ^ k; r = m mod 2 ^ k; half = 2 ^ (k - 1);
             q' = (if half < r \<or> (r = half \<and> odd q) then q + 1 else q); e' = e + sh
         in if 0 \<le> e' \<and> 2 ^ 128 \<le> q' * 2 ^ nat e' then FInf s else FFin s q' e'))"

fun f32_mul :: "fval \<Rightarrow> fval \<Rightarrow> fval" where
  "f32_mul FNan _ = FNan"
| "f32_mul _ FNan = FNan"
| "f32_mul (FInf s) (FInf t) = FInf (s \<noteq> t)"
| "f32_mul (FInf s) (FFin t m e) = (if m = 0 then FNan else FInf (s \<noteq> t))"
| "f32_mul (FFin s m e) (FInf t) = (if m = 0 then FNan else FInf (s \<noteq> t))"
| "f32_mul (FFin s m e) (FFin t n f) = f32_round_nearest (s \<noteq> t) (m * n) (e + f)"

text \<open>\<open>f32::from(u16)\<close> is exact.\<close>

definition f32_of_u16 :: "u16 \<Rightarrow> fval" where
  "f32_of_u16 n = FFin False (unat n) 0"

text \<open>\<open>f32::round\<close>: half away from zero. The result is an integer, so its exponent is 0.\<close>

fun f32_round :: "fval \<Rightarrow> fval" where
  "f32_round FNan = FNan"
| "f32_round (FInf s) = FInf s"
| "f32_round (FFin s m e) =
     (if 0 \<le> e then FFin s (m * 2 ^ nat e) 0
      else FFin s ((m + 2 ^ (nat (- e) - 1)) div 2 ^ nat (- e)) 0)"

lemma f32_half_decode: "f32_decode f32_half = FFin False (2 ^ 23) (-24)"
  by (simp add: f32_decode_def f32_half_def f32_exp_def f32_mant_def f32_sign_def)

lemma f32_one_decode: "f32_decode f32_one = FFin False (2 ^ 23) (-23)"
  by (simp add: f32_decode_def f32_one_def f32_exp_def f32_mant_def f32_sign_def)

section \<open>Doubles\<close>

text \<open>\<open>f64\<close> values are only decoded, compared and truncated.\<close>

definition f64_decode :: "u64 \<Rightarrow> fval" where
  "f64_decode x =
     (let s = (unat x \<ge> 2 ^ 63); ex = (unat x div 2 ^ 52) mod 2048; m = unat x mod 2 ^ 52
      in if ex = 2047 then (if m = 0 then FInf s else FNan)
         else if ex = 0 then FFin s m (-1074)
         else FFin s (m + 2 ^ 52) (int ex - 1075))"

text \<open>The integer part of a non-negative value \<open>m * 2^e\<close>.\<close>

definition fin_trunc :: "nat \<Rightarrow> int \<Rightarrow> nat" where
  "fin_trunc m e = (if 0 \<le> e then m * 2 ^ nat e else m div 2 ^ nat (- e))"

end
