(* ===== verification/Core_Window.thy ===== *)
theory Core_Window
  imports Pane_Tree F32
begin

text \<open>
  The server-side window (\<open>crates/phux-core/src/window.rs\<close>): an ordered list of slots, a
  binary split tree over the same panes, and the focused pane. Operations that mutate the
  window in place return the new window beside their \<open>Result\<close>.
\<close>

section \<open>Identifiers and data\<close>

text \<open>
  The three slotmap key types of \<open>ids.rs\<close>. Keys are opaque cookies: the model only
  compares them.
\<close>

datatype session_id = SessionId nat
datatype window_id = WindowId nat
datatype resource_id = ResourceId nat

datatype split_dir = Horizontal | Vertical

datatype direction = Up | Down | Left | Right

datatype layout_node =
    Leaf resource_id
  | Split split_dir f32 layout_node layout_node

datatype layout_error =
    PaneNotInLayout resource_id
  | InvalidRatio f32
  | LastPane

record window =
  win_id :: window_id
  win_session :: session_id
  win_slots :: "resource_id list"
  win_layout :: "layout_node option"
  win_active :: "resource_id option"

section \<open>The split tree\<close>

fun contains :: "layout_node \<Rightarrow> resource_id \<Rightarrow> bool" where
  "contains (Leaf p) pane = (p = pane)"
| "contains (Split _ _ left right) pane = (contains left pane \<or> contains right pane)"

fun collect_leaves :: "layout_node \<Rightarrow> resource_id list \<Rightarrow> resource_id list" where
  "collect_leaves (Leaf p) out = out @ [p]"
| "collect_leaves (Split _ _ left right) out = collect_leaves right (collect_leaves left out)"

definition leaves :: "layout_node \<Rightarrow> resource_id list" where
  "leaves node = collect_leaves node []"

fun split_at :: "layout_node \<Rightarrow> resource_id \<Rightarrow> resource_id \<Rightarrow> split_dir \<Rightarrow> f32
    \<Rightarrow> (layout_error + unit) \<times> layout_node" where
  "split_at (Leaf p) target new_pane dir ratio =
     (if p = target
      then (Ok (), Split dir ratio (Leaf target) (Leaf new_pane))
      else (Err (PaneNotInLayout target), Leaf p))"
| "split_at (Split d r left right) target new_pane dir ratio =
     (if contains left target
      then (let (res, left') = split_at left target new_pane dir ratio
            in (res, Split d r left' right))
      else if contains right target
      then (let (res, right') = split_at right target new_pane dir ratio
            in (res, Split d r left right'))
      else (Err (PaneNotInLayout target), Split d r left right))"

definition validate_ratio :: "f32 \<Rightarrow> layout_error + unit" where
  "validate_ratio ratio =
     (if f32_is_nan ratio \<or> f32_le ratio f32_zero \<or> f32_le f32_one ratio
      then Err (InvalidRatio ratio) else Ok ())"

fun collapse :: "layout_node \<Rightarrow> resource_id \<Rightarrow> layout_node \<times> bool" where
  "collapse (Leaf p) target = (Leaf p, False)"
| "collapse (Split dir ratio left right) target =
     (if left = Leaf target then (right, True)
      else if right = Leaf target then (left, True)
      else (let (new_left, found_l) = collapse left target in
            if found_l then (Split dir ratio new_left right, True)
            else (let (new_right, found_r) = collapse right target in
                  (Split dir ratio new_left new_right, found_r))))"

section \<open>Window operations\<close>

definition split :: "window \<Rightarrow> resource_id \<Rightarrow> resource_id \<Rightarrow> split_dir \<Rightarrow> f32
    \<Rightarrow> (layout_error + unit) \<times> window" where
  "split w target new_pane dir ratio =
     (case validate_ratio ratio of
        Inl e \<Rightarrow> (Err e, w)
      | Inr _ \<Rightarrow>
          (case win_layout w of
             None \<Rightarrow> (Err (PaneNotInLayout target), w)
           | Some layout \<Rightarrow>
               (let (res, layout') = split_at layout target new_pane dir ratio
                in (res, w\<lparr>win_layout := Some layout'\<rparr>))))"

definition seed_layout :: "window \<Rightarrow> resource_id \<Rightarrow> (layout_error + unit) \<times> window" where
  "seed_layout w pane =
     (if win_layout w \<noteq> None then (Err (PaneNotInLayout pane), w)
      else (Ok (), w\<lparr>win_layout := Some (Leaf pane)\<rparr>))"

definition kill_pane :: "window \<Rightarrow> resource_id \<Rightarrow> (layout_error + unit) \<times> window" where
  "kill_pane w target =
     (case win_layout w of
        None \<Rightarrow> (Err (PaneNotInLayout target), w)
      | Some (Leaf p) \<Rightarrow>
          (if p = target then (Err LastPane, w\<lparr>win_layout := None\<rparr>)
           else (Err (PaneNotInLayout target), w))
      | Some (Split d r left right) \<Rightarrow>
          (let (new_root, found) = collapse (Split d r left right) target;
               w' = w\<lparr>win_layout := Some new_root\<rparr>
           in if found then (Ok (), w') else (Err (PaneNotInLayout target), w')))"

section \<open>Directional focus\<close>

datatype child_side = SideLeft | SideRight

type_synonym node_path = "(split_dir \<times> child_side) list"

text \<open>The \<open>out\<close> vector is pushed and popped exactly as the Rust code does.\<close>

fun record_path :: "layout_node \<Rightarrow> resource_id \<Rightarrow> node_path \<Rightarrow> bool \<times> node_path" where
  "record_path (Leaf p) target out = (p = target, out)"
| "record_path (Split sd _ left right) target out =
     (let (found_l, out1) = record_path left target (out @ [(sd, SideLeft)]) in
      if found_l then (True, out1)
      else (let (found_r, out2) = record_path right target (butlast out1 @ [(sd, SideRight)]) in
            if found_r then (True, out2) else (False, butlast out2)))"

fun matches_to_sibling :: "split_dir \<Rightarrow> direction \<Rightarrow> child_side \<Rightarrow> bool" where
  "matches_to_sibling Horizontal Right SideLeft = True"
| "matches_to_sibling Horizontal Left SideRight = True"
| "matches_to_sibling Vertical Down SideLeft = True"
| "matches_to_sibling Vertical Up SideRight = True"
| "matches_to_sibling _ _ _ = False"

fun axis_parallel :: "split_dir \<Rightarrow> direction \<Rightarrow> bool" where
  "axis_parallel Horizontal Left = True"
| "axis_parallel Horizontal Right = True"
| "axis_parallel Vertical Up = True"
| "axis_parallel Vertical Down = True"
| "axis_parallel _ _ = False"

fun perpendicular_axis :: "direction \<Rightarrow> split_dir" where
  "perpendicular_axis Left = Vertical"
| "perpendicular_axis Right = Vertical"
| "perpendicular_axis Up = Horizontal"
| "perpendicular_axis Down = Horizontal"

text \<open>
  The walk along \<open>path[..depth]\<close>, then the child that \<open>path[depth]\<close> did not take.
  \<open>path[depth]\<close> is in range at the only call site; out of range the Rust code panics, which
  the model does not distinguish from \<open>None\<close>.
\<close>

fun sibling_at_depth :: "layout_node \<Rightarrow> node_path \<Rightarrow> nat \<Rightarrow> layout_node option" where
  "sibling_at_depth (Split _ _ left right) ((_, side) # path) 0 =
     Some (case side of SideLeft \<Rightarrow> right | SideRight \<Rightarrow> left)"
| "sibling_at_depth (Split _ _ left right) ((_, side) # path) (Suc depth) =
     sibling_at_depth (case side of SideLeft \<Rightarrow> left | SideRight \<Rightarrow> right) path depth"
| "sibling_at_depth _ _ _ = None"

text \<open>The descent loop: \<open>hints\<close> is the vector, \<open>hint_idx\<close> the cursor into it.\<close>

fun descend_loop :: "layout_node \<Rightarrow> direction \<Rightarrow> child_side list \<Rightarrow> nat \<Rightarrow> resource_id" where
  "descend_loop (Leaf p) dir hints hint_idx = p"
| "descend_loop (Split sd _ left right) dir hints hint_idx =
     (if axis_parallel sd dir
      then (if dir = Right \<or> dir = Down
            then descend_loop left dir hints hint_idx
            else descend_loop right dir hints hint_idx)
      else (let side = (if hint_idx < length hints then hints ! hint_idx else SideLeft) in
            case side of
              SideLeft \<Rightarrow> descend_loop left dir hints (hint_idx + 1)
            | SideRight \<Rightarrow> descend_loop right dir hints (hint_idx + 1)))"

definition descend_to_leaf :: "layout_node \<Rightarrow> direction \<Rightarrow> node_path \<Rightarrow> resource_id" where
  "descend_to_leaf node dir suffix =
     (let perp = perpendicular_axis dir;
          hints = map snd (filter (\<lambda>(sd, side). sd = perp) suffix)
      in descend_loop node dir hints 0)"

text \<open>The loop \<open>for i in (0..path.len()).rev()\<close>; \<open>n\<close> counts the iterations left.\<close>

fun focus_loop :: "layout_node \<Rightarrow> node_path \<Rightarrow> direction \<Rightarrow> nat \<Rightarrow> resource_id option" where
  "focus_loop layout path dir 0 = None"
| "focus_loop layout path dir (Suc i) =
     (let (split_dir, came_from) = path ! i in
      if matches_to_sibling split_dir dir came_from
      then (case sibling_at_depth layout path i of
              None \<Rightarrow> None
            | Some sibling \<Rightarrow> Some (descend_to_leaf sibling dir (drop (i + 1) path)))
      else focus_loop layout path dir i)"

definition focus_direction :: "window \<Rightarrow> resource_id \<Rightarrow> direction \<Rightarrow> resource_id option" where
  "focus_direction w current dir =
     (case win_layout w of
        None \<Rightarrow> None
      | Some layout \<Rightarrow>
          (let (found, path) = record_path layout current [] in
           if \<not> found then None else focus_loop layout path dir (length path)))"

section \<open>Leaves and lookups\<close>

lemma collect_leaves_append: "collect_leaves t out = out @ collect_leaves t []"
proof (induction t arbitrary: out)
  case (Split d r left right)
  from Split.IH(1) Split.IH(2) show ?case
    by (metis append.assoc collect_leaves.simps(2))
qed simp

lemma leaves_simps [simp]:
  "leaves (Leaf p) = [p]"
  "leaves (Split d r left right) = leaves left @ leaves right"
  by (simp_all add: leaves_def, metis collect_leaves_append)

lemma leaves_nonempty [simp]: "leaves t \<noteq> []"
  by (induction t) auto

lemma contains_iff [simp]: "contains t p \<longleftrightarrow> p \<in> set (leaves t)"
  by (induction t) auto

section \<open>Splitting and removing a leaf\<close>

lemma split_at_hit:
  "target \<in> set (leaves t) \<Longrightarrow>
     \<exists>t'. split_at t target new_pane dir ratio = (Ok (), t')
          \<and> leaves t' = insert_after target new_pane (leaves t)"
  by (induction t) (auto simp: insert_after_append)

text \<open>The subtrees of a tree, itself included.\<close>

fun subtrees :: "layout_node \<Rightarrow> layout_node set" where
  "subtrees (Leaf p) = {Leaf p}"
| "subtrees (Split d r left right) = insert (Split d r left right) (subtrees left \<union> subtrees right)"

lemma split_at_subtree:
  "target \<in> set (leaves t) \<Longrightarrow>
     Split dir ratio (Leaf target) (Leaf new_pane) \<in> subtrees (snd (split_at t target new_pane dir ratio))"
  by (induction t) (auto simp: case_prod_beta)

lemma split_at_miss:
  "target \<notin> set (leaves t) \<Longrightarrow>
     split_at t target new_pane dir ratio = (Err (PaneNotInLayout target), t)"
  by (cases t) auto

lemma collapse_found_iff: "snd (collapse t x) \<longleftrightarrow> x \<in> set (leaves t) \<and> t \<noteq> Leaf x"
  by (induction t) (auto simp: Let_def split: prod.splits)

lemma collapse_miss: "\<not> snd (collapse t x) \<Longrightarrow> fst (collapse t x) = t"
  by (induction t) (auto simp: Let_def split: prod.splits if_splits)

lemma collapse_absent: "x \<notin> set (leaves t) \<Longrightarrow> collapse t x = (t, False)"
  using collapse_found_iff [of t x] collapse_miss [of t x] by (cases "collapse t x") auto

lemma collapse_leaves:
  "snd (collapse t x) \<Longrightarrow> distinct (leaves t) \<Longrightarrow>
     leaves (fst (collapse t x)) = filter (\<lambda>z. z \<noteq> x) (leaves t)"
proof (induction t)
  case (Split d r left right)
  show ?case
  proof (cases "left = Leaf x \<or> right = Leaf x")
    case True
    with Split.prems show ?thesis by (auto simp: filter_ne_absent)
  next
    case False
    show ?thesis
    proof (cases "snd (collapse left x)")
      case True
      then have "x \<in> set (leaves left)" by (simp add: collapse_found_iff)
      with Split.prems have "x \<notin> set (leaves right)" by auto
      with True False Split show ?thesis
        by (auto simp: Let_def filter_ne_absent split: prod.splits)
    next
      case nl: False
      with False have "x \<notin> set (leaves left)" by (auto simp: collapse_found_iff)
      moreover from nl have "fst (collapse left x) = left" by (rule collapse_miss)
      ultimately show ?thesis
        using nl False Split by (auto simp: Let_def filter_ne_absent split: prod.splits)
    qed
  qed
qed simp

text \<open>Removing a pane that a split just created gives the tree back, ratios included.\<close>

lemma collapse_split_at:
  "target \<in> set (leaves t) \<Longrightarrow> new_pane \<notin> set (leaves t) \<Longrightarrow>
     collapse (snd (split_at t target new_pane dir ratio)) new_pane = (t, True)"
proof (induction t)
  case (Leaf p)
  then show ?case by auto
next
  case (Split d r left right)
  have ne: "snd (split_at u target new_pane dir ratio) \<noteq> Leaf new_pane"
    if "target \<in> set (leaves u)" for u
    using that by (cases u) (auto split: prod.splits)
  have nl: "left \<noteq> Leaf new_pane" "right \<noteq> Leaf new_pane"
    using Split.prems by auto
  have lm: "collapse left new_pane = (left, False)"
    using Split.prems by (simp add: collapse_absent)
  show ?case
  proof (cases "target \<in> set (leaves left)")
    case True
    with Split ne [OF True] nl show ?thesis
      by (auto simp: split: prod.splits)
  next
    case False
    with Split.prems have r: "target \<in> set (leaves right)" by simp
    with Split False ne [OF r] nl lm show ?thesis
      by (auto simp: split: prod.splits)
  qed
qed

text \<open>The tree-level view of \<open>split\<close> and \<open>kill_pane\<close> that the pane-tree contract speaks of.\<close>

definition layout_split :: "split_dir \<Rightarrow> f32 \<Rightarrow> layout_node \<Rightarrow> resource_id \<Rightarrow> resource_id
    \<Rightarrow> layout_node option" where
  "layout_split dir ratio t x y =
     (case split_at t x y dir ratio of (Inl _, _) \<Rightarrow> None | (Inr _, t') \<Rightarrow> Some t')"

definition layout_kill :: "layout_node \<Rightarrow> resource_id \<Rightarrow> layout_node option option" where
  "layout_kill t x =
     (case t of
        Leaf p \<Rightarrow> (if p = x then Some None else None)
      | Split _ _ _ _ \<Rightarrow> (let (t', found) = collapse t x in if found then Some (Some t') else None))"

lemma layout_kill_collapse:
  "t \<noteq> Leaf x \<Longrightarrow>
     layout_kill t x = (if snd (collapse t x) then Some (Some (fst (collapse t x))) else None)"
  by (cases t) (auto simp: layout_kill_def split: prod.splits)

lemma layout_kill_eq_last: "layout_kill t x = Some None \<longleftrightarrow> t = Leaf x"
  by (cases t) (auto simp: layout_kill_def split: prod.splits)

lemma leaves_single_iff: "leaves t = [x] \<longleftrightarrow> t = Leaf x"
  by (cases t) (auto simp: append_eq_Cons_conv)

interpretation core_tree: pane_tree leaves Leaf "layout_split dir ratio" layout_kill
  for dir ratio
proof (unfold_locales, goal_cases)
  case (3 x t y)
  then show ?case
    using split_at_hit [of x t y dir ratio] by (auto simp: layout_split_def)
next
  case (4 x t y)
  then show ?case by (simp add: layout_split_def split_at_miss)
next
  case (5 x t)
  then show ?case by (cases t) (auto simp: layout_kill_def collapse_absent simp del: collapse.simps)
next
  case (6 t x)
  show ?case by (simp add: layout_kill_eq_last leaves_single_iff)
next
  case (7 t x t')
  then have "t \<noteq> Leaf x" by (auto simp: layout_kill_def)
  with 7 show ?case by (auto simp: layout_kill_collapse collapse_leaves split: if_splits)
next
  case (8 x t)
  then show ?case
    using layout_kill_eq_last [of t x]
    by (cases "t = Leaf x") (auto simp: layout_kill_collapse collapse_found_iff)
next
  case (9 t x y t')
  then have x: "x \<in> set (leaves t)"
    by (cases "x \<in> set (leaves t)") (auto simp: layout_split_def split_at_miss)
  from 9 have t': "t' = snd (split_at t x y dir ratio)"
    by (auto simp: layout_split_def split: prod.splits sum.splits)
  have c: "collapse t' y = (t, True)"
    using collapse_split_at [OF x 9(2)] t' by simp
  moreover from c have "t' \<noteq> Leaf y" by auto
  ultimately show ?case by (simp add: layout_kill_collapse)
qed auto

section \<open>The path to a leaf and the focus walk\<close>

text \<open>Reference: the first root-to-leaf path, without the mutable \<open>out\<close> vector.\<close>

fun path_to :: "layout_node \<Rightarrow> resource_id \<Rightarrow> node_path option" where
  "path_to (Leaf p) x = (if p = x then Some [] else None)"
| "path_to (Split sd _ left right) x =
     (case path_to left x of
        Some p \<Rightarrow> Some ((sd, SideLeft) # p)
      | None \<Rightarrow> map_option (\<lambda>p. (sd, SideRight) # p) (path_to right x))"

lemma record_path_eq:
  "record_path t x out = (case path_to t x of Some p \<Rightarrow> (True, out @ p) | None \<Rightarrow> (False, out))"
  by (induction t arbitrary: out) (auto simp: Let_def split: option.splits)

lemma path_to_None_iff: "path_to t x = None \<longleftrightarrow> x \<notin> set (leaves t)"
  by (induction t) (auto split: option.splits)

lemma sibling_some:
  "path_to t x = Some path \<Longrightarrow> i < length path \<Longrightarrow>
     \<exists>s. sibling_at_depth t path i = Some s \<and> set (leaves s) \<subseteq> set (leaves t)
         \<and> (distinct (leaves t) \<longrightarrow> x \<notin> set (leaves s))"
proof (induction t arbitrary: path i)
  case (Split sd r left right)
  show ?case
  proof (cases "path_to left x")
    case None
    with Split.prems obtain p where p: "path_to right x = Some p" "path = (sd, SideRight) # p"
      by auto
    from None have xl: "x \<notin> set (leaves left)" by (simp add: path_to_None_iff)
    show ?thesis
    proof (cases i)
      case 0
      with p xl show ?thesis by auto
    next
      case (Suc j)
      with p Split.prems have "j < length p" by simp
      from Split.IH(2) [OF p(1) this] p Suc show ?thesis by auto
    qed
  next
    case (Some p)
    with Split.prems have p: "path = (sd, SideLeft) # p" by auto
    from Some have xl: "x \<in> set (leaves left)" by (metis option.distinct(1) path_to_None_iff)
    show ?thesis
    proof (cases i)
      case 0
      with p xl show ?thesis by auto
    next
      case (Suc j)
      with p Split.prems have "j < length p" by simp
      from Split.IH(1) [OF Some this] p Suc show ?thesis by auto
    qed
  qed
qed (auto split: if_splits)

lemma descend_loop_in: "descend_loop t dir hints i \<in> set (leaves t)"
  by (induction t arbitrary: i) (auto simp: Let_def split: child_side.splits)

section \<open>Window-level behaviour\<close>

lemma split_eq:
  "split w target new_pane dir ratio =
     (case validate_ratio ratio of
        Inl e \<Rightarrow> (Err e, w)
      | Inr _ \<Rightarrow>
          (case Option.bind (win_layout w) (\<lambda>t. layout_split dir ratio t target new_pane) of
             None \<Rightarrow> (Err (PaneNotInLayout target), w)
           | Some t' \<Rightarrow> (Ok (), w\<lparr>win_layout := Some t'\<rparr>)))"
proof (cases "win_layout w")
  case (Some t)
  show ?thesis
  proof (cases "target \<in> set (leaves t)")
    case True
    with split_at_hit [OF True, of new_pane dir ratio] Some show ?thesis
      by (auto simp: split_def layout_split_def split: sum.splits)
  next
    case False
    moreover from Some have "w\<lparr>win_layout := Some t\<rparr> = w" by simp
    ultimately show ?thesis
      using Some by (simp add: split_def layout_split_def split_at_miss split: sum.splits)
  qed
qed (simp add: split_def split: sum.splits)

lemma kill_pane_layout:
  "win_layout (snd (kill_pane w target)) =
     (case win_layout w of None \<Rightarrow> None
      | Some t \<Rightarrow> (case layout_kill t target of None \<Rightarrow> Some t | Some t' \<Rightarrow> t'))"
proof (cases "win_layout w")
  case (Some t)
  show ?thesis
  proof (cases t)
    case (Leaf p)
    with Some show ?thesis by (auto simp: kill_pane_def layout_kill_def)
  next
    case (Split d r left right)
    with Some show ?thesis
      using collapse_miss [of t target]
      by (auto simp: kill_pane_def layout_kill_def Let_def simp del: collapse.simps split: prod.splits)
  qed
qed (simp add: kill_pane_def)

lemma kill_pane_frame:
  "snd (kill_pane w target) = w\<lparr>win_layout := win_layout (snd (kill_pane w target))\<rparr>"
  by (auto simp: kill_pane_def Let_def split: option.splits layout_node.splits prod.splits)

lemma kill_pane_result:
  "fst (kill_pane w target) =
     (case Option.bind (win_layout w) (\<lambda>t. layout_kill t target) of
        None \<Rightarrow> Err (PaneNotInLayout target)
      | Some None \<Rightarrow> Err LastPane
      | Some (Some _) \<Rightarrow> Ok ())"
  by (auto simp: kill_pane_def layout_kill_def Let_def
      split: option.splits layout_node.splits prod.splits)

lemma validate_half: "validate_ratio f32_half = Ok ()"
  by (simp add: validate_ratio_def f32_le_def f32_is_nan_def f32_key_def f32_sign_def f32_exp_def
      f32_mant_def f32_half_def f32_zero_def f32_one_def)

section \<open>Properties\<close>

text \<open>
  C1. Splitting a pane, on every branch. A ratio that is not a number strictly between 0 and 1 is
  reported as \<open>InvalidRatio\<close>, a pane that is not in the layout as \<open>PaneNotInLayout\<close>, and both leave
  the window as it was. Otherwise the split succeeds: the new pane comes right after the split one
  in left-to-right order, no other pane moves, the two share a split of the given direction and
  ratio, and nothing of the window but its layout changes.
\<close>

theorem split_inserts_after:
  "if \<not> (f32_lt f32_zero ratio \<and> f32_lt ratio f32_one)
   then split w target new_pane dir ratio = (Err (InvalidRatio ratio), w)
   else (case win_layout w of
       None \<Rightarrow> split w target new_pane dir ratio = (Err (PaneNotInLayout target), w)
     | Some t \<Rightarrow>
         if target \<notin> set (leaves t)
         then split w target new_pane dir ratio = (Err (PaneNotInLayout target), w)
         else \<exists>t'. split w target new_pane dir ratio = (Ok (), w\<lparr>win_layout := Some t'\<rparr>)
                \<and> leaves t' = insert_after target new_pane (leaves t)
                \<and> Split dir ratio (Leaf target) (Leaf new_pane) \<in> subtrees t')"
proof (cases "f32_lt f32_zero ratio \<and> f32_lt ratio f32_one")
  case True
  then have v: "validate_ratio ratio = Ok ()" by (auto simp: validate_ratio_def f32_lt_def f32_le_def)
  show ?thesis
  proof (cases "win_layout w")
    case (Some t)
    show ?thesis
    proof (cases "target \<in> set (leaves t)")
      case in_t: True
      from split_at_hit [OF this, of new_pane dir ratio] obtain t' where
        "split_at t target new_pane dir ratio = (Ok (), t')" "leaves t' = insert_after target new_pane (leaves t)"
        by blast
      with True v Some in_t split_at_subtree [OF in_t, of dir ratio new_pane] show ?thesis by (auto simp: split_def)
    qed (use True v Some in \<open>simp add: split_eq layout_split_def split_at_miss\<close>)
  qed (use True v in \<open>simp add: split_def\<close>)
next
  case False
  have "\<not> f32_is_nan f32_zero" "\<not> f32_is_nan f32_one"
    by (simp_all add: f32_is_nan_def f32_exp_def f32_mant_def f32_zero_def f32_one_def)
  with False have "validate_ratio ratio = Err (InvalidRatio ratio)"
    by (auto simp: validate_ratio_def f32_lt_def f32_le_def)
  with False show ?thesis by (simp add: split_def)
qed

definition example_window :: window where
  "example_window = \<lparr>win_id = WindowId 0, win_session = SessionId 0,
     win_slots = [ResourceId 1, ResourceId 2],
     win_layout = Some (Split Vertical f32_half (Leaf (ResourceId 1)) (Leaf (ResourceId 2))),
     win_active = Some (ResourceId 1)\<rparr>"

text \<open>
  C2. Killing the pane a split just created undoes the split exactly: the window, ratios
  included, is the one before.
\<close>

theorem kill_undoes_split:
  assumes "win_layout w = Some t" and "new_pane \<notin> set (leaves t)"
    and "split w target new_pane dir ratio = (Ok (), w')"
  shows "kill_pane w' new_pane = (Ok (), w)"
proof -
  from assms obtain t' where t': "layout_split dir ratio t target new_pane = Some t'"
    and w': "w' = w\<lparr>win_layout := Some t'\<rparr>"
    by (auto simp: split_eq split: sum.splits option.splits)
  have k: "layout_kill t' new_pane = Some (Some t)"
    using core_tree.kill_split [OF t' assms(2)] .
  then have "fst (kill_pane w' new_pane) = Ok ()"
    by (simp add: kill_pane_result w')
  moreover from k have "win_layout (snd (kill_pane w' new_pane)) = Some t"
    by (simp add: kill_pane_layout w')
  with kill_pane_frame [of w' new_pane] have "snd (kill_pane w' new_pane) = w"
    using assms(1) by (simp add: w')
  ultimately show ?thesis by (simp add: prod_eq_iff)
qed

theorem kill_undoes_split_witness:
  "kill_pane (snd (split example_window (ResourceId 2) (ResourceId 3) Horizontal f32_half))
     (ResourceId 3) = (Ok (), example_window)"
  using kill_undoes_split [of example_window
      "Split Vertical f32_half (Leaf (ResourceId 1)) (Leaf (ResourceId 2))"
      "ResourceId 3" "ResourceId 2" Horizontal f32_half
      "snd (split example_window (ResourceId 2) (ResourceId 3) Horizontal f32_half)"]
  by (simp add: example_window_def split_eq validate_half layout_split_def)

text \<open>
  C3. \<open>kill_pane\<close> on a window whose layout, if it has one, holds every pane once: a pane that is not
  in the layout is reported as \<open>PaneNotInLayout\<close> and nothing changes; the only pane empties the
  layout and reports \<open>LastPane\<close>; any other pane is removed and the remaining panes keep their order.
\<close>

theorem kill_pane_spec:
  assumes "distinct (case win_layout w of None \<Rightarrow> [] | Some t \<Rightarrow> leaves t)"
  shows "case win_layout w of
      None \<Rightarrow> kill_pane w x = (Err (PaneNotInLayout x), w)
    | Some t \<Rightarrow>
        if x \<notin> set (leaves t) then kill_pane w x = (Err (PaneNotInLayout x), w)
        else if leaves t = [x] then kill_pane w x = (Err LastPane, w\<lparr>win_layout := None\<rparr>)
        else \<exists>t'. kill_pane w x = (Ok (), w\<lparr>win_layout := Some t'\<rparr>)
               \<and> leaves t' = filter (\<lambda>z. z \<noteq> x) (leaves t)"
proof (cases "win_layout w")
  case None
  then show ?thesis by (simp add: kill_pane_def)
next
  case t: (Some t)
  note res = kill_pane_result [of w x] and lay = kill_pane_layout [of w x]
    and fr = kill_pane_frame [of w x]
  consider (miss) "x \<notin> set (leaves t)" | (last) "leaves t = [x]"
    | (hit) "x \<in> set (leaves t)" "leaves t \<noteq> [x]" by blast
  then show ?thesis
  proof cases
    case miss
    with t have "kill_pane w x = (Err (PaneNotInLayout x), w)"
      using res lay fr by (simp add: core_tree.kill_miss prod_eq_iff)
    with t miss show ?thesis by simp
  next
    case last
    then have "layout_kill t x = Some None" by (simp add: core_tree.kill_last)
    with t have "kill_pane w x = (Err LastPane, w\<lparr>win_layout := None\<rparr>)"
      using res lay fr by (simp add: prod_eq_iff)
    with t last show ?thesis by simp
  next
    case hit
    then have "layout_kill t x \<noteq> None" "layout_kill t x \<noteq> Some None"
      using core_tree.kill_hit core_tree.kill_last by auto
    then obtain t' where k: "layout_kill t x = Some (Some t')" by auto
    from assms t have "distinct (leaves t)" by simp
    from core_tree.kill_some [OF k this] k t hit res lay fr show ?thesis by (auto simp: prod_eq_iff)
  qed
qed

theorem kill_pane_spec_witness:
  "\<exists>t'. kill_pane example_window (ResourceId 1) = (Ok (), example_window\<lparr>win_layout := Some t'\<rparr>)
     \<and> leaves t' = [ResourceId 2]"
  using kill_pane_spec [of example_window "ResourceId 1"]
  by (simp add: example_window_def)

end
