(* ===== verification/Core_Registry.thy ===== *)
theory Core_Registry
  imports Core_Window
begin

text \<open>
  The server's domain registry (\<open>crates/phux-core/src/registry.rs\<close>, with \<open>session.rs\<close>,
  \<open>resource.rs\<close> and \<open>terminal.rs\<close>): sessions, windows and resources in three slotmaps, with
  cascading removal. The third-party \<open>SlotMap\<close> is a parameter in two places. The key that
  \<open>insert_with_key\<close> issues is an argument of the creating operations, and theorems that need it
  assume it is not a live key. The order in which \<open>iter\<close> visits entries is an argument
  \<open>iter\<close> of the removing operations, and theorems that need it assume \<open>slotmap_iter iter\<close>: every
  live key once. Between these calls a slotmap is its key-to-value map.
\<close>

section \<open>Data\<close>

record session =
  sess_id :: session_id
  sess_name :: string
  sess_windows :: "window_id list"
  sess_active :: "window_id option"
  sess_created_at :: nat
  sess_keep_empty :: bool

datatype resource_kind = Terminal | AgentSession

record terminal_facet =
  dims :: "u16 \<times> u16"
  cwd :: string
  title :: "string option"

record agent_facet =
  provider :: string
  native_id :: "string option"
  agent_state :: "string option"

record resource_descriptor =
  res_id :: resource_id
  res_kind :: resource_kind
  res_parent :: "resource_id option"
  res_window :: "window_id option"
  res_terminal :: "terminal_facet option"
  res_agent :: "agent_facet option"

datatype registry_error =
    UnknownSession session_id
  | UnknownWindow window_id
  | UnknownResource resource_id
  | ParentKindMismatch resource_id resource_kind resource_kind

record registry =
  sessions :: "session_id \<rightharpoonup> session"
  windows :: "window_id \<rightharpoonup> window"
  resources :: "resource_id \<rightharpoonup> resource_descriptor"

type_synonym slot_order = "(resource_id \<rightharpoonup> resource_descriptor) \<Rightarrow> resource_id list"

definition slotmap_iter :: "slot_order \<Rightarrow> bool" where
  "slotmap_iter iter \<longleftrightarrow> (\<forall>m. finite (dom m) \<longrightarrow> distinct (iter m) \<and> set (iter m) = dom m)"

definition new_registry :: registry where
  "new_registry = \<lparr>sessions = Map.empty, windows = Map.empty, resources = Map.empty\<rparr>"

section \<open>Slots of one window\<close>

definition place_in_window :: "window \<Rightarrow> resource_id \<Rightarrow> window" where
  "place_in_window w rid =
     (let target = win_active w;
          w1 = w\<lparr>win_slots := win_slots w @ [rid]\<rparr>
      in case target of
           None \<Rightarrow> (snd (seed_layout w1 rid))\<lparr>win_active := Some rid\<rparr>
         | Some t \<Rightarrow> snd (split w1 t rid Horizontal f32_half))"

definition vacate_slot :: "window \<Rightarrow> resource_id \<Rightarrow> window" where
  "vacate_slot w rid =
     (let w1 = w\<lparr>win_slots := retain (\<lambda>p. p \<noteq> rid) (win_slots w)\<rparr>;
          w2 = snd (kill_pane w1 rid)
      in if win_active w2 = Some rid then w2\<lparr>win_active := first (win_slots w2)\<rparr> else w2)"

section \<open>Creation\<close>

definition new_session :: "registry \<Rightarrow> session_id \<Rightarrow> nat \<Rightarrow> string \<Rightarrow> session_id \<times> registry" where
  "new_session reg key now name =
     (key, reg\<lparr>sessions := (sessions reg)(key \<mapsto>
        \<lparr>sess_id = key, sess_name = name, sess_windows = [], sess_active = None,
         sess_created_at = now, sess_keep_empty = False\<rparr>)\<rparr>)"

definition new_window :: "registry \<Rightarrow> window_id \<Rightarrow> session_id
    \<Rightarrow> (registry_error + window_id) \<times> registry" where
  "new_window reg key session =
     (if sessions reg session = None then (Err (UnknownSession session), reg)
      else
        (let reg1 = reg\<lparr>windows := (windows reg)(key \<mapsto>
               \<lparr>win_id = key, win_session = session, win_slots = [], win_layout = None,
                win_active = None\<rparr>)\<rparr>
         in case sessions reg1 session of
              None \<Rightarrow> (Ok key, reg1)
            | Some s \<Rightarrow>
                (let s1 = s\<lparr>sess_windows := sess_windows s @ [key]\<rparr>;
                     s2 = (if sess_active s1 = None then s1\<lparr>sess_active := Some key\<rparr> else s1)
                 in (Ok key, reg1\<lparr>sessions := (sessions reg1)(session \<mapsto> s2)\<rparr>))))"

definition new_terminal :: "registry \<Rightarrow> resource_id \<Rightarrow> window_id
    \<Rightarrow> (registry_error + resource_id) \<times> registry" where
  "new_terminal reg key window =
     (if windows reg window = None then (Err (UnknownWindow window), reg)
      else
        (let reg1 = reg\<lparr>resources := (resources reg)(key \<mapsto>
               \<lparr>res_id = key, res_kind = Terminal, res_parent = None, res_window = Some window,
                res_terminal = Some \<lparr>dims = (80, 24), cwd = [], title = None\<rparr>,
                res_agent = None\<rparr>)\<rparr>
         in case windows reg1 window of
              None \<Rightarrow> (Ok key, reg1)
            | Some w \<Rightarrow>
                (Ok key, reg1\<lparr>windows := (windows reg1)(window \<mapsto> place_in_window w key)\<rparr>)))"

definition new_agent_session :: "registry \<Rightarrow> resource_id \<Rightarrow> resource_id \<Rightarrow> agent_facet
    \<Rightarrow> (registry_error + resource_id) \<times> registry" where
  "new_agent_session reg key parent agent =
     (case resources reg parent of
        None \<Rightarrow> (Err (UnknownResource parent), reg)
      | Some r \<Rightarrow>
          (if res_kind r \<noteq> Terminal
           then (Err (ParentKindMismatch parent (res_kind r) Terminal), reg)
           else (Ok key, reg\<lparr>resources := (resources reg)(key \<mapsto>
                  \<lparr>res_id = key, res_kind = AgentSession, res_parent = Some parent,
                   res_window = None, res_terminal = None, res_agent = Some agent\<rparr>)\<rparr>)))"

definition move_terminal :: "registry \<Rightarrow> resource_id \<Rightarrow> window_id
    \<Rightarrow> (registry_error + unit) \<times> registry" where
  "move_terminal reg rid window =
     (if windows reg window = None then (Err (UnknownWindow window), reg)
      else
        (case Option.bind (resources reg rid) res_window of
           None \<Rightarrow> (Err (UnknownResource rid), reg)
         | Some source \<Rightarrow>
             (if source = window then (Ok (), reg)
              else
                (let reg1 = (case windows reg source of
                               None \<Rightarrow> reg
                             | Some w \<Rightarrow> reg\<lparr>windows := (windows reg)(source \<mapsto> vacate_slot w rid)\<rparr>);
                     reg2 = (case resources reg1 rid of
                               None \<Rightarrow> reg1
                             | Some t \<Rightarrow> reg1\<lparr>resources := (resources reg1)
                                  (rid \<mapsto> t\<lparr>res_window := Some window\<rparr>)\<rparr>);
                     reg3 = (case windows reg2 window of
                               None \<Rightarrow> reg2
                             | Some w \<Rightarrow> reg2\<lparr>windows := (windows reg2)
                                  (window \<mapsto> place_in_window w rid)\<rparr>)
                 in (Ok (), reg3)))))"

section \<open>Lookups\<close>

definition children :: "slot_order \<Rightarrow> registry \<Rightarrow> resource_id \<Rightarrow> resource_id list" where
  "children iter reg parent =
     filter (\<lambda>k. case resources reg k of None \<Rightarrow> False | Some r \<Rightarrow> res_parent r = Some parent)
       (iter (resources reg))"

definition terminal :: "registry \<Rightarrow> resource_id \<Rightarrow> terminal_facet option" where
  "terminal reg rid = Option.bind (resources reg rid) res_terminal"

text \<open>
  \<open>session_mut\<close>, \<open>window_mut\<close>, \<open>resource_mut\<close> and \<open>terminal_mut\<close> hand out a mutable borrow;
  the model applies what the borrower does with it.
\<close>

definition session_mut :: "registry \<Rightarrow> session_id \<Rightarrow> (session \<Rightarrow> session) \<Rightarrow> registry" where
  "session_mut reg sid f =
     (case sessions reg sid of
        None \<Rightarrow> reg
      | Some s \<Rightarrow> reg\<lparr>sessions := (sessions reg)(sid \<mapsto> f s)\<rparr>)"

definition window_mut :: "registry \<Rightarrow> window_id \<Rightarrow> (window \<Rightarrow> window) \<Rightarrow> registry" where
  "window_mut reg wid f =
     (case windows reg wid of
        None \<Rightarrow> reg
      | Some w \<Rightarrow> reg\<lparr>windows := (windows reg)(wid \<mapsto> f w)\<rparr>)"

definition resource_mut :: "registry \<Rightarrow> resource_id \<Rightarrow> (resource_descriptor \<Rightarrow> resource_descriptor)
    \<Rightarrow> registry" where
  "resource_mut reg rid f =
     (case resources reg rid of
        None \<Rightarrow> reg
      | Some r \<Rightarrow> reg\<lparr>resources := (resources reg)(rid \<mapsto> f r)\<rparr>)"

text \<open>
  The state word an agent stream's evidence writes into the facet of its session, as
  \<open>resource_commands.rs\<close> does through \<open>resource_mut\<close>.
\<close>

definition set_agent_state :: "string option \<Rightarrow> resource_descriptor \<Rightarrow> resource_descriptor" where
  "set_agent_state word r = r\<lparr>res_agent := map_option (\<lambda>a. a\<lparr>agent_state := word\<rparr>) (res_agent r)\<rparr>"

definition terminal_mut :: "registry \<Rightarrow> resource_id \<Rightarrow> (terminal_facet \<Rightarrow> terminal_facet)
    \<Rightarrow> registry" where
  "terminal_mut reg rid f =
     (case resources reg rid of
        None \<Rightarrow> reg
      | Some r \<Rightarrow>
          (case res_terminal r of
             None \<Rightarrow> reg
           | Some t \<Rightarrow> reg\<lparr>resources := (resources reg)
                (rid \<mapsto> r\<lparr>res_terminal := Some (f t)\<rparr>)\<rparr>))"

section \<open>Removal\<close>

definition remove_key :: "registry \<Rightarrow> resource_id \<Rightarrow> registry" where
  "remove_key reg rid = reg\<lparr>resources := (resources reg)(rid := None)\<rparr>"

definition remove_children_of :: "slot_order \<Rightarrow> registry \<Rightarrow> resource_id \<Rightarrow> registry" where
  "remove_children_of iter reg parent =
     fold (\<lambda>child r. remove_key r child) (children iter reg parent) reg"

definition remove_resource :: "slot_order \<Rightarrow> registry \<Rightarrow> resource_id
    \<Rightarrow> resource_descriptor option \<times> registry" where
  "remove_resource iter reg rid =
     (case resources reg rid of
        None \<Rightarrow> (None, reg)
      | Some resource \<Rightarrow>
          (let reg1 = remove_children_of iter (remove_key reg rid) rid;
               reg2 = (case res_window resource of
                         None \<Rightarrow> reg1
                       | Some wid \<Rightarrow>
                           (case windows reg1 wid of
                              None \<Rightarrow> reg1
                            | Some w \<Rightarrow> reg1\<lparr>windows := (windows reg1)
                                 (wid \<mapsto> vacate_slot w rid)\<rparr>))
           in (Some resource, reg2)))"

definition remove_slots :: "slot_order \<Rightarrow> resource_id list \<Rightarrow> registry \<Rightarrow> registry" where
  "remove_slots iter slots reg =
     fold (\<lambda>t r. remove_children_of iter (remove_key r t) t) slots reg"

definition remove_window :: "slot_order \<Rightarrow> registry \<Rightarrow> window_id
    \<Rightarrow> window option \<times> registry" where
  "remove_window iter reg wid =
     (case windows reg wid of
        None \<Rightarrow> (None, reg)
      | Some window \<Rightarrow>
          (let reg1 = remove_slots iter (win_slots window)
                        (reg\<lparr>windows := (windows reg)(wid := None)\<rparr>);
               reg2 = (case sessions reg1 (win_session window) of
                         None \<Rightarrow> reg1
                       | Some s \<Rightarrow>
                           (let s1 = s\<lparr>sess_windows := retain (\<lambda>w. w \<noteq> wid) (sess_windows s)\<rparr>;
                                s2 = (if sess_active s1 = Some wid
                                      then s1\<lparr>sess_active := first (sess_windows s1)\<rparr> else s1)
                            in reg1\<lparr>sessions := (sessions reg1)(win_session window \<mapsto> s2)\<rparr>))
           in (Some window, reg2)))"

definition remove_session :: "slot_order \<Rightarrow> registry \<Rightarrow> session_id
    \<Rightarrow> session option \<times> registry" where
  "remove_session iter reg sid =
     (case sessions reg sid of
        None \<Rightarrow> (None, reg)
      | Some session \<Rightarrow>
          (let reg1 = reg\<lparr>sessions := (sessions reg)(sid := None)\<rparr>
           in (Some session,
               fold (\<lambda>wid r. case windows r wid of
                               None \<Rightarrow> r
                             | Some window \<Rightarrow>
                                 remove_slots iter (win_slots window)
                                   (r\<lparr>windows := (windows r)(wid := None)\<rparr>))
                 (sess_windows session) reg1)))"

section \<open>The registry invariant\<close>

definition active_ok :: "'a option \<Rightarrow> 'a list \<Rightarrow> bool" where
  "active_ok a xs \<longleftrightarrow> (a = None \<longleftrightarrow> xs = []) \<and> (\<forall>x. a = Some x \<longrightarrow> x \<in> set xs)"

definition layout_panes :: "layout_node option \<Rightarrow> resource_id list" where
  "layout_panes t = (case t of None \<Rightarrow> [] | Some t \<Rightarrow> leaves t)"

definition wf_window :: "window \<Rightarrow> bool" where
  "wf_window w \<longleftrightarrow> distinct (win_slots w)
     \<and> mset (win_slots w) = mset (layout_panes (win_layout w))
     \<and> active_ok (win_active w) (win_slots w)"

definition facet_ok :: "resource_descriptor \<Rightarrow> bool" where
  "facet_ok r \<longleftrightarrow>
     (case res_kind r of
        Terminal \<Rightarrow> res_parent r = None \<and> res_window r \<noteq> None \<and> res_terminal r \<noteq> None
                    \<and> res_agent r = None
      | AgentSession \<Rightarrow> res_parent r \<noteq> None \<and> res_window r = None \<and> res_terminal r = None
                    \<and> res_agent r \<noteq> None)"

definition wf_sessions :: "registry \<Rightarrow> bool" where
  "wf_sessions reg \<longleftrightarrow> (\<forall>s S. sessions reg s = Some S \<longrightarrow>
     sess_id S = s \<and> distinct (sess_windows S) \<and> active_ok (sess_active S) (sess_windows S)
     \<and> (\<forall>w \<in> set (sess_windows S). \<exists>W. windows reg w = Some W \<and> win_session W = s))"

definition wf_windows :: "registry \<Rightarrow> bool" where
  "wf_windows reg \<longleftrightarrow> (\<forall>w W. windows reg w = Some W \<longrightarrow>
     win_id W = w \<and> wf_window W
     \<and> (\<exists>S. sessions reg (win_session W) = Some S \<and> w \<in> set (sess_windows S))
     \<and> (\<forall>r \<in> set (win_slots W). \<exists>R. resources reg r = Some R \<and> res_window R = Some w))"

definition wf_resources :: "registry \<Rightarrow> bool" where
  "wf_resources reg \<longleftrightarrow> (\<forall>r R. resources reg r = Some R \<longrightarrow>
     res_id R = r \<and> facet_ok R
     \<and> (\<forall>w. res_window R = Some w \<longrightarrow> (\<exists>W. windows reg w = Some W \<and> r \<in> set (win_slots W)))
     \<and> (\<forall>p. res_parent R = Some p \<longrightarrow>
           (\<exists>P. resources reg p = Some P \<and> res_kind P = Terminal)))"

definition wf_registry :: "registry \<Rightarrow> bool" where
  "wf_registry reg \<longleftrightarrow>
     finite (dom (resources reg)) \<and> wf_sessions reg \<and> wf_windows reg \<and> wf_resources reg"

end
