(* ===== verification/Core_Registry_Inv.thy ===== *)
theory Core_Registry_Inv
  imports Core_Registry
begin

text \<open>
  The registry keeps its invariant: every operation of \<open>registry.rs\<close> preserves
  \<open>wf_registry\<close>, removal cascades exactly to what the removed entry owns, and failed operations
  change nothing.
\<close>

section \<open>One window\<close>

lemma agrees_iff: "core_tree.agrees slots t \<longleftrightarrow> distinct slots \<and> mset slots = mset (layout_panes t)"
  by (simp add: core_tree.agrees_def core_tree.panes_def layout_panes_def)

lemma wf_window_agrees:
  "wf_window w \<longleftrightarrow> core_tree.agrees (win_slots w) (win_layout w)
     \<and> active_ok (win_active w) (win_slots w)"
  by (simp add: wf_window_def agrees_iff)

lemma place_frame [simp]:
  "win_slots (place_in_window w rid) = win_slots w @ [rid]"
  "win_id (place_in_window w rid) = win_id w"
  "win_session (place_in_window w rid) = win_session w"
  by (auto simp: place_in_window_def seed_layout_def split_eq Let_def
      split: option.splits sum.splits)

lemma place_in_window_wf [inv_intros]:
  assumes w: "wf_window w" and new: "rid \<notin> set (win_slots w)"
  shows "wf_window (place_in_window w rid)"
proof (cases "win_active w")
  case None
  with w have "win_slots w = []" by (simp add: wf_window_def active_ok_def)
  moreover from w this have "win_layout w = None"
    using core_tree.agrees_None_iff [of "win_slots w" "win_layout w"] by (simp add: wf_window_agrees)
  ultimately show ?thesis
    using None by (simp add: place_in_window_def seed_layout_def wf_window_def layout_panes_def active_ok_def)
next
  case (Some x)
  with w have x: "x \<in> set (win_slots w)" by (simp add: wf_window_def active_ok_def)
  then obtain t where t: "win_layout w = Some t"
    using w core_tree.agrees_None_iff [of "win_slots w" "win_layout w"] by (auto simp: wf_window_agrees)
  with w have "core_tree.agrees (win_slots w) (Some t)" by (simp add: wf_window_agrees)
  from core_tree.agrees_split [OF this x new, of Horizontal f32_half] obtain t' where
    "layout_split Horizontal f32_half t x rid = Some t'"
    "core_tree.agrees (win_slots w @ [rid]) (Some t')" by blast
  with Some t x show ?thesis
    by (simp add: place_in_window_def split_eq validate_half wf_window_agrees active_ok_def)
qed

lemma vacate_frame [simp]:
  "win_slots (vacate_slot w rid) = filter (\<lambda>p. p \<noteq> rid) (win_slots w)"
  "win_id (vacate_slot w rid) = win_id w"
  "win_session (vacate_slot w rid) = win_session w"
  using kill_pane_frame [of "w\<lparr>win_slots := retain (\<lambda>p. p \<noteq> rid) (win_slots w)\<rparr>" rid]
  by (auto simp: vacate_slot_def Let_def retain_def dest: arg_cong [where f = win_slots]
      arg_cong [where f = win_id] arg_cong [where f = win_session])

lemma vacate_layout:
  "win_layout (vacate_slot w rid) =
     (case win_layout w of None \<Rightarrow> None
      | Some t \<Rightarrow> (case layout_kill t rid of None \<Rightarrow> Some t | Some t' \<Rightarrow> t'))"
  by (simp add: vacate_slot_def Let_def kill_pane_layout)

lemma vacate_active:
  "win_active (vacate_slot w rid) =
     (if win_active w = Some rid then first (filter (\<lambda>p. p \<noteq> rid) (win_slots w)) else win_active w)"
  using kill_pane_frame [of "w\<lparr>win_slots := retain (\<lambda>p. p \<noteq> rid) (win_slots w)\<rparr>" rid]
  by (auto simp: vacate_slot_def Let_def retain_def dest: arg_cong [where f = win_slots]
      arg_cong [where f = win_active])

lemma active_ok_remove:
  "active_ok a xs \<Longrightarrow>
     active_ok (if a = Some x then first (filter (\<lambda>p. p \<noteq> x) xs) else a) (filter (\<lambda>p. p \<noteq> x) xs)"
  by (auto simp: active_ok_def filter_empty_conv dest: first_in_set)

lemma vacate_slot_wf [inv_intros]:
  assumes w: "wf_window w" and x: "rid \<in> set (win_slots w)"
  shows "wf_window (vacate_slot w rid)"
proof -
  from x obtain t where t: "win_layout w = Some t"
    using w core_tree.agrees_None_iff [of "win_slots w" "win_layout w"] by (auto simp: wf_window_agrees)
  with w have "core_tree.agrees (win_slots w) (Some t)" by (simp add: wf_window_agrees)
  from core_tree.agrees_kill [OF this x] obtain t' where
    "layout_kill t rid = Some t'" "core_tree.agrees (filter (\<lambda>z. z \<noteq> rid) (win_slots w)) t'"
    by blast
  with t w show ?thesis
    by (simp add: wf_window_agrees vacate_layout vacate_active active_ok_remove)
qed

section \<open>Reading the invariant\<close>

lemma wf_registryI:
  assumes "finite (dom (resources reg))"
    and "\<And>s S. sessions reg s = Some S \<Longrightarrow>
      sess_id S = s \<and> distinct (sess_windows S) \<and> active_ok (sess_active S) (sess_windows S)
      \<and> (\<forall>w \<in> set (sess_windows S). \<exists>W. windows reg w = Some W \<and> win_session W = s)"
    and "\<And>w W. windows reg w = Some W \<Longrightarrow>
      win_id W = w \<and> wf_window W
      \<and> (\<exists>S. sessions reg (win_session W) = Some S \<and> w \<in> set (sess_windows S))
      \<and> (\<forall>r \<in> set (win_slots W). \<exists>R. resources reg r = Some R \<and> res_window R = Some w)"
    and "\<And>r R. resources reg r = Some R \<Longrightarrow>
      res_id R = r \<and> facet_ok R
      \<and> (\<forall>w. res_window R = Some w \<longrightarrow> (\<exists>W. windows reg w = Some W \<and> r \<in> set (win_slots W)))
      \<and> (\<forall>p. res_parent R = Some p \<longrightarrow> (\<exists>P. resources reg p = Some P \<and> res_kind P = Terminal))"
  shows "wf_registry reg"
  using assms unfolding wf_registry_def wf_sessions_def wf_windows_def wf_resources_def by blast

lemma wf_sessionD:
  assumes "wf_registry reg" "sessions reg s = Some S"
  shows "sess_id S = s" "distinct (sess_windows S)" "active_ok (sess_active S) (sess_windows S)"
    "\<And>w. w \<in> set (sess_windows S) \<Longrightarrow> \<exists>W. windows reg w = Some W \<and> win_session W = s"
  using assms by (auto simp: wf_registry_def wf_sessions_def)

lemma wf_windowD:
  assumes "wf_registry reg" "windows reg w = Some W"
  shows "win_id W = w" "wf_window W"
    "\<exists>S. sessions reg (win_session W) = Some S \<and> w \<in> set (sess_windows S)"
    "\<And>r. r \<in> set (win_slots W) \<Longrightarrow> \<exists>R. resources reg r = Some R \<and> res_window R = Some w"
  using assms by (auto simp: wf_registry_def wf_windows_def)

lemma wf_resourceD:
  assumes "wf_registry reg" "resources reg r = Some R"
  shows "res_id R = r" "facet_ok R"
    "\<And>w. res_window R = Some w \<Longrightarrow> \<exists>W. windows reg w = Some W \<and> r \<in> set (win_slots W)"
    "\<And>p. res_parent R = Some p \<Longrightarrow> \<exists>P. resources reg p = Some P \<and> res_kind P = Terminal"
  using assms by (auto simp: wf_registry_def wf_resources_def)

lemma facet_okD:
  assumes "facet_ok R"
  shows "res_kind R = Terminal \<longleftrightarrow> res_window R \<noteq> None"
    and "res_kind R = Terminal \<longleftrightarrow> res_parent R = None"
    and "res_kind R = Terminal \<longleftrightarrow> res_terminal R \<noteq> None"
  using assms by (auto simp: facet_ok_def split: resource_kind.splits)

lemma slot_is_terminal:
  assumes "wf_registry reg" "windows reg w = Some W" "r \<in> set (win_slots W)"
  shows "\<exists>R. resources reg r = Some R \<and> res_window R = Some w \<and> res_kind R = Terminal
           \<and> res_parent R = None"
proof -
  obtain R where R: "resources reg r = Some R" "res_window R = Some w"
    using wf_windowD(4) [OF assms(1,2,3)] by blast
  then show ?thesis
    using facet_okD [OF wf_resourceD(2) [OF assms(1) R(1)]] by auto
qed

lemma wf_new_registry [inv_intros]: "wf_registry new_registry"
  by (simp add: wf_registry_def wf_sessions_def wf_windows_def wf_resources_def new_registry_def)

section \<open>Creation\<close>

lemma new_session_wf [inv_intros]:
  assumes "wf_registry reg" "sessions reg key = None"
  shows "wf_registry (snd (new_session reg key now name))"
  using assms
  by (auto simp: wf_registry_def wf_sessions_def wf_windows_def wf_resources_def new_session_def
      active_ok_def) fastforce

lemma new_window_wf [inv_intros]:
  assumes wf: "wf_registry reg" and key: "windows reg key = None"
  shows "wf_registry (snd (new_window reg key session))"
proof (cases "sessions reg session")
  case None
  with wf show ?thesis by (simp add: new_window_def)
next
  case (Some S)
  have key_S: "key \<notin> set (sess_windows T)" if "sessions reg t = Some T" for t T
    using wf_sessionD(4) [OF wf that] key by fastforce
  define S2 where "S2 = S\<lparr>sess_windows := sess_windows S @ [key],
     sess_active := if sess_active S = None then Some key else sess_active S\<rparr>"
  have eq: "snd (new_window reg key session) =
     reg\<lparr>windows := (windows reg)(key \<mapsto> \<lparr>win_id = key, win_session = session, win_slots = [],
            win_layout = None, win_active = None\<rparr>),
         sessions := (sessions reg)(session \<mapsto> S2)\<rparr>"
    using Some by (auto simp: new_window_def Let_def S2_def)
  show ?thesis
  proof (rule wf_registryI, goal_cases)
    case 1
    from wf show ?case by (simp add: eq wf_registry_def)
  next
    case (2 s T)
    show ?case
    proof (cases "s = session")
      case True
      with 2 wf_sessionD [OF wf Some] key_S [OF Some] show ?thesis
        by (auto simp: eq S2_def active_ok_def)
    next
      case False
      with 2 have T: "sessions reg s = Some T" by (simp add: eq)
      with wf_sessionD [OF wf T] key_S [OF T] show ?thesis by (fastforce simp: eq)
    qed
  next
    case (3 w W)
    show ?case
    proof (cases "w = key")
      case True
      with 3 show ?thesis
        by (auto simp: eq S2_def wf_window_def layout_panes_def active_ok_def)
    next
      case False
      with 3 have W: "windows reg w = Some W" by (simp add: eq)
      with wf_windowD [OF wf W] Some show ?thesis by (auto simp: eq S2_def)
    qed
  next
    case (4 r R)
    then have R: "resources reg r = Some R" by (simp add: eq)
    with wf_resourceD [OF wf R] key show ?case by (fastforce simp: eq)
  qed
qed

text \<open>
  Placing a terminal key in a window, from a registry where no window shows that key: the common
  second half of \<open>new_terminal\<close> and \<open>move_terminal\<close>.
\<close>

lemma place_wf:
  assumes fin: "finite (dom (resources reg))"
    and ses: "wf_sessions reg"
    and win: "wf_windows reg"
    and res: "\<And>r R. resources reg r = Some R \<Longrightarrow> r \<noteq> key \<Longrightarrow>
      res_id R = r \<and> facet_ok R
      \<and> (\<forall>w. res_window R = Some w \<longrightarrow> (\<exists>W. windows reg w = Some W \<and> r \<in> set (win_slots W)))
      \<and> (\<forall>p. res_parent R = Some p \<longrightarrow> (\<exists>P. resources reg p = Some P \<and> res_kind P = Terminal))"
    and key: "resources reg key = Some K" "res_id K = key" "facet_ok K" "res_window K = Some wid"
    and free: "\<And>w W. windows reg w = Some W \<Longrightarrow> key \<notin> set (win_slots W)"
    and W: "windows reg wid = Some W"
  shows "wf_registry (reg\<lparr>windows := (windows reg)(wid \<mapsto> place_in_window W key)\<rparr>)"
proof (rule wf_registryI, goal_cases)
  case 1
  from fin show ?case by simp
next
  case (2 s S)
  then show ?case using ses W by (fastforce simp: wf_sessions_def)
next
  case (3 w V)
  show ?case
  proof (cases "w = wid")
    case True
    with win W free [OF W] key 3 show ?thesis
      by (auto simp: wf_windows_def intro: place_in_window_wf)
  next
    case False
    with win 3 show ?thesis by (fastforce simp: wf_windows_def)
  qed
next
  case (4 r R)
  show ?case
  proof (cases "r = key")
    case True
    with 4 key W facet_okD [OF key(3)] show ?thesis by auto
  next
    case False
    with 4 res [of r R] W show ?thesis by fastforce
  qed
qed

lemma new_terminal_wf [inv_intros]:
  assumes wf: "wf_registry reg" and key: "resources reg key = None"
  shows "wf_registry (snd (new_terminal reg key window))"
proof (cases "windows reg window")
  case None
  with wf show ?thesis by (simp add: new_terminal_def)
next
  case (Some W)
  let ?K = "\<lparr>res_id = key, res_kind = Terminal, res_parent = None, res_window = Some window,
    res_terminal = Some \<lparr>dims = (80, 24), cwd = [], title = None\<rparr>, res_agent = None\<rparr>"
  let ?reg = "reg\<lparr>resources := (resources reg)(key \<mapsto> ?K)\<rparr>"
  have free: "key \<notin> set (win_slots V)" if "windows reg w = Some V" for w V
    using wf_windowD(4) [OF wf that] key by fastforce
  have "wf_registry (?reg\<lparr>windows := (windows ?reg)(window \<mapsto> place_in_window W key)\<rparr>)"
  proof (rule place_wf [where K = ?K], goal_cases)
    case 1
    from wf show ?case by (simp add: wf_registry_def)
  next
    case 2
    from wf show ?case by (simp add: wf_registry_def wf_sessions_def)
  next
    case 3
    from wf key show ?case by (fastforce simp: wf_registry_def wf_windows_def)
  next
    case (4 r R)
    then have "resources reg r = Some R" by simp
    with wf_resourceD [OF wf this] key show ?case by fastforce
  qed (use Some free in \<open>auto simp: facet_ok_def\<close>)
  with Some show ?thesis by (simp add: new_terminal_def)
qed

lemma new_agent_session_wf [inv_intros]:
  assumes wf: "wf_registry reg" and key: "resources reg key = None"
  shows "wf_registry (snd (new_agent_session reg key parent agent))"
proof (cases "\<exists>P. resources reg parent = Some P \<and> res_kind P = Terminal")
  case False
  with wf show ?thesis by (auto simp: new_agent_session_def split: option.splits)
next
  case True
  then obtain P where P: "resources reg parent = Some P" "res_kind P = Terminal" by blast
  show ?thesis
  proof (rule wf_registryI, goal_cases)
    case 1
    from wf P show ?case by (simp add: new_agent_session_def wf_registry_def)
  next
    case (2 s S)
    with P have "sessions reg s = Some S" by (simp add: new_agent_session_def)
    with wf_sessionD [OF wf this] P show ?case by (simp add: new_agent_session_def)
  next
    case (3 w W)
    with P have "windows reg w = Some W" by (simp add: new_agent_session_def)
    with wf_windowD [OF wf this] P key show ?case by (fastforce simp: new_agent_session_def)
  next
    case (4 r R)
    show ?case
    proof (cases "r = key")
      case True
      with 4 P key show ?thesis by (auto simp: new_agent_session_def facet_ok_def)
    next
      case False
      with 4 P have "resources reg r = Some R" by (simp add: new_agent_session_def)
      with wf_resourceD [OF wf this] P key show ?thesis by (fastforce simp: new_agent_session_def)
    qed
  qed
qed

lemma move_terminal_wf [inv_intros]:
  assumes wf: "wf_registry reg"
  shows "wf_registry (snd (move_terminal reg rid window))"
proof (cases "\<exists>W2 R source. windows reg window = Some W2 \<and> resources reg rid = Some R
    \<and> res_window R = Some source \<and> source \<noteq> window")
  case False
  with wf show ?thesis by (auto simp: move_terminal_def split: option.splits bind_splits)
next
  case True
  then obtain W2 R source where W2: "windows reg window = Some W2"
    and R: "resources reg rid = Some R" "res_window R = Some source" and ne: "source \<noteq> window"
    by blast
  obtain W1 where W1: "windows reg source = Some W1" "rid \<in> set (win_slots W1)"
    using wf_resourceD(3) [OF wf R] by blast
  let ?K = "R\<lparr>res_window := Some window\<rparr>"
  let ?reg = "reg\<lparr>windows := (windows reg)(source \<mapsto> vacate_slot W1 rid),
                  resources := (resources reg)(rid \<mapsto> ?K)\<rparr>"
  have only: "rid \<notin> set (win_slots V)" if "windows reg w = Some V" "w \<noteq> source" for w V
    using wf_windowD(4) [OF wf that(1)] that(2) R by fastforce
  have "wf_registry (?reg\<lparr>windows := (windows ?reg)(window \<mapsto> place_in_window W2 rid)\<rparr>)"
  proof (rule place_wf [where K = ?K], goal_cases)
    case 1
    from wf show ?case by (simp add: wf_registry_def)
  next
    case 2
    from wf W1 show ?case by (fastforce simp: wf_registry_def wf_sessions_def)
  next
    case 3
    show ?case unfolding wf_windows_def
    proof (intro allI impI)
      fix w V
      assume V: "windows ?reg w = Some V"
      show "win_id V = w \<and> wf_window V
        \<and> (\<exists>S. sessions ?reg (win_session V) = Some S \<and> w \<in> set (sess_windows S))
        \<and> (\<forall>r\<in>set (win_slots V). \<exists>R. resources ?reg r = Some R \<and> res_window R = Some w)"
      proof (cases "w = source")
        case True
        with V wf_windowD [OF wf W1(1)] W1 show ?thesis by (auto intro: vacate_slot_wf)
      next
        case False
        with V have V': "windows reg w = Some V" by simp
        with wf_windowD [OF wf V'] only [OF V' False] show ?thesis by auto
      qed
    qed
  next
    case (4 r R')
    then have R': "resources reg r = Some R'" by simp
    with wf_resourceD [OF wf R'] 4(2) R W1 show ?case by fastforce
  next
    case (8)
    show ?case by simp
  next
    case (9 w V)
    then show ?case using only [of w V] by (auto split: if_splits)
  qed (use R W2 ne wf_resourceD(1,2) [OF wf R(1)] in
      \<open>auto simp: facet_ok_def split: resource_kind.splits\<close>)
  with W1 W2 R ne show ?thesis by (simp add: move_terminal_def fun_upd_twist)
qed

lemma terminal_mut_wf [inv_intros]:
  assumes wf: "wf_registry reg"
  shows "wf_registry (terminal_mut reg rid f)"
proof (cases "\<exists>R t. resources reg rid = Some R \<and> res_terminal R = Some t")
  case False
  with wf show ?thesis by (auto simp: terminal_mut_def split: option.splits)
next
  case True
  then obtain R t where R: "resources reg rid = Some R" "res_terminal R = Some t" by blast
  let ?R = "R\<lparr>res_terminal := Some (f t)\<rparr>"
  have kind: "res_kind R = Terminal" "res_parent R = None"
    using facet_okD [OF wf_resourceD(2) [OF wf R(1)]] R(2) by auto
  have eq: "terminal_mut reg rid f = reg\<lparr>resources := (resources reg)(rid \<mapsto> ?R)\<rparr>"
    using R by (simp add: terminal_mut_def)
  show ?thesis
  proof (rule wf_registryI, goal_cases)
    case 1
    from wf show ?case by (simp add: eq wf_registry_def)
  next
    case (2 s S)
    then have "sessions reg s = Some S" by (simp add: eq)
    with wf_sessionD [OF wf this] show ?case by (simp add: eq)
  next
    case (3 w W)
    then have "windows reg w = Some W" by (simp add: eq)
    with wf_windowD [OF wf this] R show ?case by (fastforce simp: eq)
  next
    case (4 r Q)
    show ?case
    proof (cases "r = rid")
      case True
      with 4 R wf_resourceD(1-3) [OF wf R(1)] kind show ?thesis
        by (auto simp: eq facet_ok_def)
    next
      case False
      with 4 have "resources reg r = Some Q" by (simp add: eq)
      with wf_resourceD [OF wf this] R show ?thesis by (fastforce simp: eq)
    qed
  qed
qed

text \<open>
  A borrower of \<open>session_mut\<close> keeps the invariant when it leaves identity and the window list
  alone and points \<open>active\<close> at a listed window; renaming, keep-empty and the creation time are of
  this kind.
\<close>

lemma session_mut_wf:
  assumes wf: "wf_registry reg"
    and f: "\<And>S. sess_id (f S) = sess_id S \<and> sess_windows (f S) = sess_windows S
      \<and> (active_ok (sess_active S) (sess_windows S) \<longrightarrow> active_ok (sess_active (f S)) (sess_windows S))"
  shows "wf_registry (session_mut reg sid f)"
proof (cases "sessions reg sid")
  case None
  with wf show ?thesis by (simp add: session_mut_def)
next
  case (Some S)
  then have eq: "session_mut reg sid f = reg\<lparr>sessions := (sessions reg)(sid \<mapsto> f S)\<rparr>"
    by (simp add: session_mut_def)
  show ?thesis
  proof (rule wf_registryI, goal_cases)
    case 1
    from wf show ?case by (simp add: eq wf_registry_def)
  next
    case (2 s T)
    with wf_sessionD [OF wf Some] wf_sessionD [OF wf, of s T] f [of S] show ?case
      by (auto simp: eq split: if_splits)
  next
    case (3 w W)
    then have "windows reg w = Some W" by (simp add: eq)
    with wf_windowD [OF wf this] Some f [of S] show ?case by (auto simp: eq)
  next
    case (4 r R)
    then have "resources reg r = Some R" by (simp add: eq)
    with wf_resourceD [OF wf this] show ?case by (simp add: eq)
  qed
qed

lemma session_field_edits_wf [inv_intros]:
  assumes "wf_registry reg"
  shows "wf_registry (session_mut reg sid (\<lambda>S. S\<lparr>sess_name := name\<rparr>))"
    and "wf_registry (session_mut reg sid (\<lambda>S. S\<lparr>sess_keep_empty := keep\<rparr>))"
    and "wf_registry (session_mut reg sid (\<lambda>S. S\<lparr>sess_created_at := created\<rparr>))"
  by (rule session_mut_wf [OF assms]; simp)+

text \<open>The agent facet's state word is not part of the invariant; its presence is.\<close>

lemma set_agent_state_sel [simp]:
  "res_id (set_agent_state word r) = res_id r" "res_kind (set_agent_state word r) = res_kind r"
  "res_parent (set_agent_state word r) = res_parent r" "res_window (set_agent_state word r) = res_window r"
  "res_terminal (set_agent_state word r) = res_terminal r"
  "res_agent (set_agent_state word r) = None \<longleftrightarrow> res_agent r = None"
  by (simp_all add: set_agent_state_def)

lemma facet_ok_set_agent_state [simp]: "facet_ok (set_agent_state word r) = facet_ok r"
  by (cases "res_kind r") (simp_all add: facet_ok_def)

lemma resource_mut_agent_wf [inv_intros]:
  assumes wf: "wf_registry reg"
  shows "wf_registry (resource_mut reg rid (set_agent_state word))"
proof (cases "resources reg rid")
  case None
  with wf show ?thesis by (simp add: resource_mut_def)
next
  case (Some R)
  then have eq: "resource_mut reg rid (set_agent_state word) =
      reg\<lparr>resources := (resources reg)(rid \<mapsto> set_agent_state word R)\<rparr>"
    by (simp add: resource_mut_def)
  show ?thesis
  proof (rule wf_registryI, goal_cases)
    case 1
    from wf show ?case by (simp add: eq wf_registry_def)
  next
    case (2 s S)
    then have "sessions reg s = Some S" by (simp add: eq)
    with wf_sessionD [OF wf this] show ?case by (simp add: eq)
  next
    case (3 w W)
    then have "windows reg w = Some W" by (simp add: eq)
    with wf_windowD [OF wf this] Some show ?case by (fastforce simp: eq)
  next
    case (4 r Q)
    have "\<exists>P. resources reg r = Some P \<and> res_id Q = res_id P \<and> facet_ok Q = facet_ok P
        \<and> res_window Q = res_window P \<and> res_parent Q = res_parent P"
      using 4 Some by (auto simp: eq split: if_splits)
    then obtain P where P: "resources reg r = Some P" "res_id Q = res_id P" "facet_ok Q = facet_ok P"
        "res_window Q = res_window P" "res_parent Q = res_parent P" by blast
    have "\<exists>B. resources (resource_mut reg rid (set_agent_state word)) p = Some B \<and> res_kind B = Terminal"
      if "res_parent Q = Some p" for p
      using wf_resourceD(4) [OF wf P(1), of p] that P(5) Some by (cases "p = rid") (auto simp: eq)
    with wf_resourceD(1-3) [OF wf P(1)] P show ?case by (simp add: eq)
  qed
qed

section \<open>Removal\<close>

text \<open>The resources left when those in \<open>A\<close> go, with every resource bound to one of them.\<close>

definition drop_bound :: "resource_id set \<Rightarrow> (resource_id \<rightharpoonup> resource_descriptor)
    \<Rightarrow> (resource_id \<rightharpoonup> resource_descriptor)" where
  "drop_bound A m = (\<lambda>r. case m r of
     None \<Rightarrow> None
   | Some R \<Rightarrow> if r \<in> A \<or> (\<exists>p \<in> A. res_parent R = Some p) then None else Some R)"

lemma drop_bound_Some_iff:
  "drop_bound A m r = Some R \<longleftrightarrow>
     m r = Some R \<and> r \<notin> A \<and> (\<forall>p \<in> A. res_parent R \<noteq> Some p)"
  by (auto simp: drop_bound_def split: option.splits)

lemma drop_bound_empty [simp]: "drop_bound {} m = m"
  by (auto simp: drop_bound_def fun_eq_iff split: option.splits)

lemma drop_bound_drop_bound [simp]: "drop_bound A (drop_bound B m) = drop_bound (B \<union> A) m"
  by (auto simp: drop_bound_def fun_eq_iff split: option.splits)

lemma finite_drop_bound [simp]: "finite (dom m) \<Longrightarrow> finite (dom (drop_bound A m))"
  by (erule rev_finite_subset) (auto simp: drop_bound_def split: option.splits if_splits)

lemma remove_key_simps [simp]:
  "resources (remove_key reg k) = (resources reg)(k := None)"
  "windows (remove_key reg k) = windows reg"
  "sessions (remove_key reg k) = sessions reg"
  by (simp_all add: remove_key_def)

lemma fold_remove_key:
  "resources (fold (\<lambda>c r. remove_key r c) cs reg) = (\<lambda>k. if k \<in> set cs then None else resources reg k)"
  "windows (fold (\<lambda>c r. remove_key r c) cs reg) = windows reg"
  "sessions (fold (\<lambda>c r. remove_key r c) cs reg) = sessions reg"
  by (induction cs arbitrary: reg) (auto simp: fun_eq_iff)

lemma remove_bound:
  assumes "slotmap_iter iter" and "finite (dom (resources reg))"
  shows "remove_children_of iter (remove_key reg t) t
    = reg\<lparr>resources := drop_bound {t} (resources reg)\<rparr>"
proof -
  have "set (iter ((resources reg)(t := None))) = dom ((resources reg)(t := None))"
    using assms by (simp add: slotmap_iter_def)
  then have c: "k \<in> set (children iter (remove_key reg t) t) \<longleftrightarrow>
      k \<noteq> t \<and> (\<exists>R. resources reg k = Some R \<and> res_parent R = Some t)" for k
    by (auto simp: children_def split: option.splits if_splits)
  have "resources (remove_children_of iter (remove_key reg t) t) = drop_bound {t} (resources reg)"
    by (auto simp: remove_children_of_def fold_remove_key c fun_eq_iff drop_bound_def
        split: option.splits)
  then show ?thesis
    by (intro registry.equality) (simp_all add: remove_children_of_def fold_remove_key)
qed

lemma remove_slots_eq:
  assumes "slotmap_iter iter"
  shows "finite (dom (resources reg)) \<Longrightarrow>
    remove_slots iter slots reg = reg\<lparr>resources := drop_bound (set slots) (resources reg)\<rparr>"
proof (induction slots arbitrary: reg)
  case Nil
  then show ?case by (simp add: remove_slots_def)
next
  case (Cons t ts)
  have "remove_slots iter (t # ts) reg
      = remove_slots iter ts (reg\<lparr>resources := drop_bound {t} (resources reg)\<rparr>)"
    by (simp add: remove_slots_def remove_bound [OF assms Cons.prems])
  also have "\<dots> = reg\<lparr>resources := drop_bound (set (t # ts)) (resources reg)\<rparr>"
    using Cons.IH [of "reg\<lparr>resources := drop_bound {t} (resources reg)\<rparr>"] Cons.prems by simp
  finally show ?case .
qed

text \<open>The slots of a set of windows.\<close>

definition slots_of :: "registry \<Rightarrow> window_id set \<Rightarrow> resource_id set" where
  "slots_of reg A = {r. \<exists>w \<in> A. \<exists>W. windows reg w = Some W \<and> r \<in> set (win_slots W)}"

lemma slots_of_insert:
  "windows reg w = Some W \<Longrightarrow> slots_of reg (insert w A) = set (win_slots W) \<union> slots_of reg (A - {w})"
  by (auto simp: slots_of_def)

lemma slots_of_upd:
  "slots_of (reg\<lparr>windows := (windows reg)(w := None), resources := m\<rparr>) A = slots_of reg (A - {w})"
  by (auto simp: slots_of_def)

lemma slots_of_window:
  assumes "wf_registry reg" "resources reg r = Some R" "res_window R = Some w"
  shows "r \<in> slots_of reg A \<longleftrightarrow> w \<in> A"
proof
  assume "r \<in> slots_of reg A"
  then obtain v W where v: "v \<in> A" "windows reg v = Some W" "r \<in> set (win_slots W)"
    by (auto simp: slots_of_def)
  from wf_windowD(4) [OF assms(1) v(2,3)] assms(2,3) v(1) show "w \<in> A" by auto
next
  assume "w \<in> A"
  with wf_resourceD(3) [OF assms] show "r \<in> slots_of reg A" by (auto simp: slots_of_def)
qed

lemma drop_bound_terminal:
  assumes "wf_registry reg" "resources reg r = Some R" "res_kind R = Terminal" "r \<notin> A"
  shows "drop_bound A (resources reg) r = Some R"
  using assms facet_okD [OF wf_resourceD(2) [OF assms(1,2)]] by (simp add: drop_bound_Some_iff)

text \<open>
  Closing a set of windows with everything in them: the common shape of \<open>remove_window\<close> and
  \<open>remove_session\<close>.
\<close>

lemma close_windows_wf:
  assumes wf: "wf_registry reg"
    and win: "windows reg' = (\<lambda>w. if w \<in> A then None else windows reg w)"
    and res: "resources reg' = drop_bound (slots_of reg A) (resources reg)"
    and ses: "\<And>s S. sessions reg' s = Some S \<Longrightarrow>
      sess_id S = s \<and> distinct (sess_windows S) \<and> active_ok (sess_active S) (sess_windows S)
      \<and> (\<forall>w \<in> set (sess_windows S). w \<notin> A \<and> (\<exists>W. windows reg w = Some W \<and> win_session W = s))"
    and own: "\<And>w W. w \<notin> A \<Longrightarrow> windows reg w = Some W \<Longrightarrow>
      \<exists>S. sessions reg' (win_session W) = Some S \<and> w \<in> set (sess_windows S)"
  shows "wf_registry reg'"
proof (rule wf_registryI, goal_cases)
  case 1
  from wf show ?case by (simp add: res wf_registry_def)
next
  case (2 s S)
  with ses [OF 2] show ?case by (simp add: win)
next
  case (3 w W)
  then have w: "w \<notin> A" "windows reg w = Some W" by (auto simp: win split: if_splits)
  have "\<exists>R. resources reg' r = Some R \<and> res_window R = Some w" if r: "r \<in> set (win_slots W)" for r
  proof -
    obtain R where R: "resources reg r = Some R" "res_window R = Some w" "res_kind R = Terminal"
      using slot_is_terminal [OF wf w(2) r] by blast
    moreover from R w have "r \<notin> slots_of reg A" by (simp add: slots_of_window [OF wf])
    ultimately show ?thesis using drop_bound_terminal [OF wf R(1,3)] by (simp add: res)
  qed
  with wf_windowD [OF wf w(2)] own [OF w] show ?case by blast
next
  case (4 r R)
  then have R: "resources reg r = Some R" "r \<notin> slots_of reg A"
    and par: "\<forall>p \<in> slots_of reg A. res_parent R \<noteq> Some p"
    by (auto simp: res drop_bound_Some_iff)
  have "\<exists>W. windows reg' w = Some W \<and> r \<in> set (win_slots W)" if "res_window R = Some w" for w
    using wf_resourceD(3) [OF wf R(1) that] slots_of_window [OF wf R(1) that] R(2) by (simp add: win)
  moreover have "\<exists>P. resources reg' p = Some P \<and> res_kind P = Terminal" if p: "res_parent R = Some p" for p
  proof -
    obtain P where P: "resources reg p = Some P" "res_kind P = Terminal"
      using wf_resourceD(4) [OF wf R(1) p] by blast
    from p par have "p \<notin> slots_of reg A" by auto
    with drop_bound_terminal [OF wf P] P show ?thesis by (simp add: res)
  qed
  ultimately show ?case using wf_resourceD(1,2) [OF wf R(1)] by blast
qed

lemma remove_window_eq:
  assumes "slotmap_iter iter" "wf_registry reg" "windows reg wid = Some W"
    "sessions reg (win_session W) = Some S"
  shows "remove_window iter reg wid =
    (Some W, reg\<lparr>windows := (windows reg)(wid := None),
       resources := drop_bound (set (win_slots W)) (resources reg),
       sessions := (sessions reg)(win_session W \<mapsto>
         S\<lparr>sess_windows := filter (\<lambda>w. w \<noteq> wid) (sess_windows S),
           sess_active := if sess_active S = Some wid
             then first (filter (\<lambda>w. w \<noteq> wid) (sess_windows S)) else sess_active S\<rparr>)\<rparr>)"
proof -
  from assms(2) have "finite (dom (resources (reg\<lparr>windows := (windows reg)(wid := None)\<rparr>)))"
    by (simp add: wf_registry_def)
  from remove_slots_eq [OF assms(1) this] assms(3,4) show ?thesis
    by (auto simp: remove_window_def retain_def)
qed

lemma remove_window_wf [inv_intros]:
  assumes iter: "slotmap_iter iter" and wf: "wf_registry reg"
  shows "wf_registry (snd (remove_window iter reg wid))"
proof (cases "windows reg wid")
  case None
  with wf show ?thesis by (simp add: remove_window_def)
next
  case (Some W)
  obtain S where S: "sessions reg (win_session W) = Some S" "wid \<in> set (sess_windows S)"
    using wf_windowD(3) [OF wf Some] by blast
  have other: "wid \<notin> set (sess_windows T)" if "sessions reg t = Some T" "t \<noteq> win_session W" for t T
    using wf_sessionD(4) [OF wf that(1)] Some that(2) by fastforce
  note eq = remove_window_eq [OF iter wf Some S(1)]
  show ?thesis
  proof (rule close_windows_wf [OF wf, where A = "{wid}"], goal_cases)
    case 1
    show ?case by (auto simp: eq)
  next
    case 2
    from Some have "slots_of reg {wid} = set (win_slots W)" by (auto simp: slots_of_def)
    then show ?case by (simp add: eq)
  next
    case (3 t T)
    show ?case
    proof (cases "t = win_session W")
      case True
      with 3 wf_sessionD [OF wf S(1)] active_ok_remove [of "sess_active S" "sess_windows S" wid]
      show ?thesis by (auto simp: eq)
    next
      case False
      with 3 have T: "sessions reg t = Some T" by (simp add: eq)
      with wf_sessionD [OF wf T] other [OF T False] show ?thesis by auto
    qed
  next
    case (4 w V)
    with wf_windowD(3) [OF wf 4(2)] S show ?case by (auto simp: eq)
  qed
qed

lemma close_fold_eq:
  assumes iter: "slotmap_iter iter"
  shows "finite (dom (resources reg)) \<Longrightarrow>
    fold (\<lambda>wid r. case windows r wid of None \<Rightarrow> r
            | Some window \<Rightarrow> remove_slots iter (win_slots window)
                (r\<lparr>windows := (windows r)(wid := None)\<rparr>)) wids reg
    = reg\<lparr>windows := (\<lambda>w. if w \<in> set wids then None else windows reg w),
          resources := drop_bound (slots_of reg (set wids)) (resources reg)\<rparr>"
proof (induction wids arbitrary: reg)
  case Nil
  then show ?case by (simp add: slots_of_def)
next
  case (Cons w ws)
  show ?case
  proof (cases "windows reg w")
    case None
    then have "slots_of reg (set (w # ws)) = slots_of reg (set ws)"
      and "(\<lambda>v. if v \<in> set (w # ws) then None else windows reg v)
        = (\<lambda>v. if v \<in> set ws then None else windows reg v)"
      by (auto simp: slots_of_def fun_eq_iff)
    with Cons None show ?thesis by simp
  next
    case (Some W)
    let ?reg = "reg\<lparr>windows := (windows reg)(w := None),
                    resources := drop_bound (set (win_slots W)) (resources reg)\<rparr>"
    have step: "remove_slots iter (win_slots W) (reg\<lparr>windows := (windows reg)(w := None)\<rparr>) = ?reg"
      using remove_slots_eq [OF iter, of "reg\<lparr>windows := (windows reg)(w := None)\<rparr>" "win_slots W"]
        Cons.prems by simp
    have sl: "set (win_slots W) \<union> slots_of ?reg (set ws) = slots_of reg (set (w # ws))"
      using Some by (simp add: slots_of_insert slots_of_upd)
    have "(\<lambda>v. if v \<in> set ws then None else windows ?reg v)
        = (\<lambda>v. if v \<in> set (w # ws) then None else windows reg v)"
      by (auto simp: fun_eq_iff)
    with Cons.IH [of ?reg] Cons.prems Some step sl show ?thesis by simp
  qed
qed

lemma remove_session_eq:
  assumes "slotmap_iter iter" "wf_registry reg" "sessions reg sid = Some S"
  shows "remove_session iter reg sid =
    (Some S, reg\<lparr>sessions := (sessions reg)(sid := None),
       windows := (\<lambda>w. if w \<in> set (sess_windows S) then None else windows reg w),
       resources := drop_bound (slots_of reg (set (sess_windows S))) (resources reg)\<rparr>)"
proof -
  let ?reg = "reg\<lparr>sessions := (sessions reg)(sid := None)\<rparr>"
  have "finite (dom (resources ?reg))" and "slots_of ?reg A = slots_of reg A" for A
    using assms(2) by (simp_all add: wf_registry_def slots_of_def)
  with close_fold_eq [OF assms(1), of ?reg "sess_windows S"] assms(3) show ?thesis
    by (simp add: remove_session_def cong: if_cong)
qed

lemma remove_session_wf [inv_intros]:
  assumes iter: "slotmap_iter iter" and wf: "wf_registry reg"
  shows "wf_registry (snd (remove_session iter reg sid))"
proof (cases "sessions reg sid")
  case None
  with wf show ?thesis by (simp add: remove_session_def)
next
  case (Some S)
  note eq = remove_session_eq [OF iter wf Some]
  have owner: "w \<in> set (sess_windows S) \<longleftrightarrow> win_session W = sid" if "windows reg w = Some W" for w W
    using wf_sessionD(4) [OF wf Some, of w] wf_windowD(3) [OF wf that] that Some by auto
  show ?thesis
  proof (rule close_windows_wf [OF wf, where A = "set (sess_windows S)"], goal_cases)
    case (3 t T)
    then have T: "t \<noteq> sid" "sessions reg t = Some T" by (auto simp: eq split: if_splits)
    with wf_sessionD [OF wf T(2)] owner show ?case by fastforce
  next
    case (4 w W)
    with owner [OF 4(2)] wf_windowD(3) [OF wf 4(2)] show ?case by (simp add: eq)
  qed (simp_all add: eq)
qed

lemma remove_resource_wf [inv_intros]:
  assumes iter: "slotmap_iter iter" and wf: "wf_registry reg"
  shows "wf_registry (snd (remove_resource iter reg rid))"
proof (cases "resources reg rid")
  case None
  with wf show ?thesis by (simp add: remove_resource_def)
next
  case (Some X)
  from wf have fin: "finite (dom (resources reg))" by (simp add: wf_registry_def)
  note bound = remove_bound [OF iter fin, of rid]
  have keep: "drop_bound {rid} (resources reg) p = Some P"
    if "resources reg p = Some P" "res_kind P = Terminal" "p \<noteq> rid" for p P
    using drop_bound_terminal [OF wf that(1,2)] that(3) by simp
  define f where "f = (\<lambda>w. if res_window X = Some w
    then map_option (\<lambda>W. vacate_slot W rid) (windows reg w) else windows reg w)"
  have f: "snd (remove_resource iter reg rid) =
      reg\<lparr>resources := drop_bound {rid} (resources reg), windows := f\<rparr>"
  proof (cases "res_window X")
    case None
    with Some show ?thesis by (simp add: remove_resource_def bound f_def)
  next
    case w: (Some w)
    show ?thesis
    proof (cases "windows reg w")
      case None
      with w have "f = windows reg" by (auto simp: f_def fun_eq_iff)
      with None w Some show ?thesis by (simp add: remove_resource_def bound)
    next
      case (Some W)
      with w have "f = (windows reg)(w \<mapsto> vacate_slot W rid)" by (auto simp: f_def)
      with \<open>resources reg rid = Some X\<close> w Some show ?thesis
        by (simp add: remove_resource_def bound)
    qed
  qed
  have only: "rid \<in> set (win_slots W) \<longleftrightarrow> res_window X = Some w" if "windows reg w = Some W" for w W
  proof
    assume "rid \<in> set (win_slots W)"
    from wf_windowD(4) [OF wf that this] Some show "res_window X = Some w" by simp
  next
    assume "res_window X = Some w"
    from wf_resourceD(3) [OF wf Some this] that show "rid \<in> set (win_slots W)" by simp
  qed
  show ?thesis unfolding f
  proof (rule wf_registryI, goal_cases)
    case 1
    from fin show ?case by simp
  next
    case (2 s S)
    then have S: "sessions reg s = Some S" by simp
    have "\<exists>W. f w = Some W \<and> win_session W = s" if "w \<in> set (sess_windows S)" for w
      using wf_sessionD(4) [OF wf S that] by (auto simp: f_def)
    with wf_sessionD(1-3) [OF wf S] show ?case by simp
  next
    case (3 w W)
    then obtain V where V: "windows reg w = Some V"
      and W: "W = (if res_window X = Some w then vacate_slot V rid else V)"
      by (auto simp: f_def split: if_splits)
    have slots: "\<exists>R. drop_bound {rid} (resources reg) r = Some R \<and> res_window R = Some w"
      if "r \<in> set (win_slots W)" for r
    proof -
      have r: "r \<in> set (win_slots V)" "r \<noteq> rid"
        using that only [OF V] unfolding W by (auto split: if_splits)
      show ?thesis using slot_is_terminal [OF wf V r(1)] keep [OF _ _ r(2)] by blast
    qed
    have "wf_window W"
      using wf_windowD(2) [OF wf V] vacate_slot_wf [OF wf_windowD(2) [OF wf V]] only [OF V]
      unfolding W by simp
    moreover have "win_id W = w" "win_session W = win_session V"
      using wf_windowD(1) [OF wf V] unfolding W by simp_all
    ultimately show ?case using wf_windowD(3) [OF wf V] slots by simp
  next
    case (4 r R)
    then have R: "resources reg r = Some R" "r \<noteq> rid" "res_parent R \<noteq> Some rid"
      by (auto simp: drop_bound_Some_iff)
    have "\<exists>W. f w = Some W \<and> r \<in> set (win_slots W)" if "res_window R = Some w" for w
      using wf_resourceD(3) [OF wf R(1) that] R(2) by (auto simp: f_def)
    moreover have "\<exists>P. drop_bound {rid} (resources reg) p = Some P \<and> res_kind P = Terminal"
      if "res_parent R = Some p" for p
      using wf_resourceD(4) [OF wf R(1) that] keep R(3) that by blast
    ultimately show ?case using wf_resourceD(1,2) [OF wf R(1)] by simp
  qed
qed

section \<open>Reachable registries\<close>

text \<open>
  One step of the owner of a registry: any structural operation of \<open>registry.rs\<close> with any
  arguments, the slotmap issuing an unused key where it creates, or one of the field edits the
  running server makes through a mutable borrow: a session's name (\<open>SessionTable::rename\<close>),
  keep-empty mark (\<open>seed_empty\<close>, \<open>set_session_keep_empty\<close>, \<open>release_keep_empty_covered_by\<close>) and
  creation time, the state word of an agent session, and anything in a Terminal facet. The one other
  use of a borrow, the relinking of window and session lists when a server is rebuilt from an upgrade
  blob (\<open>relink_window_contents\<close>, \<open>relink_session_windows\<close>), trusts the blob and is not a step.
\<close>

inductive registry_step :: "slot_order \<Rightarrow> registry \<Rightarrow> registry \<Rightarrow> bool"
  for iter :: slot_order where
  step_new_session: "sessions reg key = None \<Longrightarrow>
    registry_step iter reg (snd (new_session reg key now name))"
| step_new_window: "windows reg key = None \<Longrightarrow>
    registry_step iter reg (snd (new_window reg key sid))"
| step_new_terminal: "resources reg key = None \<Longrightarrow>
    registry_step iter reg (snd (new_terminal reg key wid))"
| step_new_agent_session: "resources reg key = None \<Longrightarrow>
    registry_step iter reg (snd (new_agent_session reg key parent agent))"
| step_move_terminal: "registry_step iter reg (snd (move_terminal reg rid wid))"
| step_terminal_mut: "registry_step iter reg (terminal_mut reg rid f)"
| step_session_name: "registry_step iter reg (session_mut reg sid (\<lambda>S. S\<lparr>sess_name := name\<rparr>))"
| step_session_keep_empty: "registry_step iter reg (session_mut reg sid (\<lambda>S. S\<lparr>sess_keep_empty := keep\<rparr>))"
| step_session_created_at: "registry_step iter reg (session_mut reg sid (\<lambda>S. S\<lparr>sess_created_at := created\<rparr>))"
| step_agent_state: "registry_step iter reg (resource_mut reg rid (set_agent_state word))"
| step_remove_resource: "registry_step iter reg (snd (remove_resource iter reg rid))"
| step_remove_window: "registry_step iter reg (snd (remove_window iter reg wid))"
| step_remove_session: "registry_step iter reg (snd (remove_session iter reg sid))"

inductive registry_reachable :: "slot_order \<Rightarrow> registry \<Rightarrow> bool"
  for iter :: slot_order where
  reach_new: "registry_reachable iter new_registry"
| reach_step: "registry_reachable iter reg \<Longrightarrow> registry_step iter reg reg' \<Longrightarrow>
    registry_reachable iter reg'"

lemma registry_step_wf:
  assumes "registry_step iter reg reg'" and "slotmap_iter iter" and "wf_registry reg"
  shows "wf_registry reg'"
  using assms by (cases rule: registry_step.cases) (simp_all add: inv_intros)

text \<open>A concrete iteration order, by key index.\<close>

definition index_order :: slot_order where
  "index_order m = map ResourceId (sorted_list_of_set {n. m (ResourceId n) \<noteq> None})"

lemma slotmap_iter_index_order: "slotmap_iter index_order"
  unfolding slotmap_iter_def
proof (intro allI impI)
  fix m :: "resource_id \<rightharpoonup> resource_descriptor"
  assume "finite (dom m)"
  moreover have img: "ResourceId ` {n. m (ResourceId n) \<noteq> None} = dom m"
    by (auto simp: image_iff dom_def) (metis resource_id.exhaust)
  ultimately have "finite {n. m (ResourceId n) \<noteq> None}"
    by (metis (no_types, lifting) finite_imageD inj_onI resource_id.inject)
  with img show "distinct (index_order m) \<and> set (index_order m) = dom m"
    by (simp add: index_order_def distinct_map inj_on_def)
qed

section \<open>Properties\<close>

text \<open>
  C5. Whatever sequence of structural operations and of the field edits of the running server built
  it, starting from an empty registry, a registry is well formed: back-references agree in both
  directions between sessions, windows and resources, every window's slot list holds exactly the panes
  of its split tree, focus points at a listed entry and is empty only for an empty list, exactly the
  facet of a resource's kind is present, and every bound resource has a live Terminal parent.
\<close>

theorem reachable_registry_wf:
  assumes "slotmap_iter iter" and "registry_reachable iter reg"
  shows "wf_registry reg"
  using assms(2)
proof (induction rule: registry_reachable.induct)
  case reach_new
  show ?case by (rule wf_new_registry)
next
  case (reach_step reg reg')
  with assms(1) show ?case by (blast intro: registry_step_wf)
qed

definition example_registry :: registry where
  "example_registry =
     snd (new_terminal (snd (new_window (snd (new_session new_registry (SessionId 0) 7 ''main''))
       (WindowId 0) (SessionId 0))) (ResourceId 0) (WindowId 0))"

theorem reachable_registry_wf_witness:
  "registry_reachable index_order example_registry \<and> wf_registry example_registry"
proof -
  have "registry_reachable index_order example_registry"
    unfolding example_registry_def
    by (rule reach_step [OF reach_step [OF reach_step [OF reach_new step_new_session]
          step_new_window] step_new_terminal])
      (simp_all add: new_registry_def new_session_def new_window_def)
  with reachable_registry_wf [OF slotmap_iter_index_order this] show ?thesis by simp
qed

text \<open>
  C6. Removing a session removes exactly that session, exactly its windows, and exactly the
  resources in those windows' slots together with the resources bound to them; everything else
  keeps its value.
\<close>

theorem remove_session_cascade:
  assumes "slotmap_iter iter" and "wf_registry reg" and "sessions reg sid = Some S"
  shows "fst (remove_session iter reg sid) = Some S
    \<and> sessions (snd (remove_session iter reg sid)) = (sessions reg)(sid := None)
    \<and> (\<forall>w. windows (snd (remove_session iter reg sid)) w =
         (case windows reg w of
            None \<Rightarrow> None
          | Some W \<Rightarrow> if win_session W = sid then None else Some W))
    \<and> (\<forall>r. resources (snd (remove_session iter reg sid)) r =
         (case resources reg r of
            None \<Rightarrow> None
          | Some R \<Rightarrow>
              (let lives_in = (\<lambda>q. \<exists>Q w W. resources reg q = Some Q \<and> res_window Q = Some w
                                     \<and> windows reg w = Some W \<and> win_session W = sid)
               in if lives_in r \<or> (\<exists>p. res_parent R = Some p \<and> lives_in p) then None
                  else Some R)))"
proof -
  note eq = remove_session_eq [OF assms]
  have owner: "w \<in> set (sess_windows S) \<longleftrightarrow> (\<exists>W. windows reg w = Some W \<and> win_session W = sid)" for w
    using wf_sessionD(4) [OF assms(2,3), of w] wf_windowD(3) [OF assms(2), of w] assms(3) by fastforce
  have slot: "r \<in> slots_of reg (set (sess_windows S)) \<longleftrightarrow>
      (\<exists>Q w W. resources reg r = Some Q \<and> res_window Q = Some w \<and> windows reg w = Some W
         \<and> win_session W = sid)" for r
  proof
    assume "r \<in> slots_of reg (set (sess_windows S))"
    then obtain w W where "w \<in> set (sess_windows S)" "windows reg w = Some W" "r \<in> set (win_slots W)"
      by (auto simp: slots_of_def)
    with wf_windowD(4) [OF assms(2), of w W r] owner show "\<exists>Q w W. resources reg r = Some Q
        \<and> res_window Q = Some w \<and> windows reg w = Some W \<and> win_session W = sid" by fastforce
  next
    assume "\<exists>Q w W. resources reg r = Some Q \<and> res_window Q = Some w \<and> windows reg w = Some W
         \<and> win_session W = sid"
    then show "r \<in> slots_of reg (set (sess_windows S))"
      using slots_of_window [OF assms(2)] owner by blast
  qed
  show ?thesis
  proof (intro conjI allI)
    show "windows (snd (remove_session iter reg sid)) w =
         (case windows reg w of None \<Rightarrow> None
          | Some W \<Rightarrow> if win_session W = sid then None else Some W)" for w
      by (simp add: eq owner split: option.split)
    show "resources (snd (remove_session iter reg sid)) r =
         (case resources reg r of
            None \<Rightarrow> None
          | Some R \<Rightarrow>
              (let lives_in = (\<lambda>q. \<exists>Q w W. resources reg q = Some Q \<and> res_window Q = Some w
                                     \<and> windows reg w = Some W \<and> win_session W = sid)
               in if lives_in r \<or> (\<exists>p. res_parent R = Some p \<and> lives_in p) then None
                  else Some R))" for r
      unfolding Let_def slot [symmetric] by (simp add: eq drop_bound_def Bex_def conj_commute split: option.split)
  qed (simp_all add: eq)
qed

theorem remove_session_cascade_witness:
  "wf_registry example_registry
   \<and> resources (snd (remove_session index_order example_registry (SessionId 0))) (ResourceId 0) = None"
proof -
  have wf: "wf_registry example_registry"
    unfolding example_registry_def
    by (intro inv_intros) (simp_all add: new_registry_def new_session_def new_window_def)
  obtain S where "sessions example_registry (SessionId 0) = Some S"
    by (simp add: example_registry_def new_terminal_def new_window_def new_session_def)
  from remove_session_cascade [OF slotmap_iter_index_order wf this] wf show ?thesis
    by (simp add: example_registry_def new_terminal_def new_window_def new_session_def new_registry_def)
qed

text \<open>
  C7. Moving a terminal between windows: on an unknown window or a resource without a window
  slot the error names it and nothing changes; moving it to the window it is already in changes
  nothing; otherwise the terminal leaves its old window's
  slots, is appended to the new one's, and every other window and resource keeps its value.
\<close>

theorem move_terminal_spec:
  fixes reg :: registry
  shows "(windows reg wid = None \<longrightarrow> move_terminal reg rid wid = (Err (UnknownWindow wid), reg))
    \<and> (\<forall>W. windows reg wid = Some W \<longrightarrow> Option.bind (resources reg rid) res_window = None \<longrightarrow>
          move_terminal reg rid wid = (Err (UnknownResource rid), reg))
    \<and> (\<forall>W. windows reg wid = Some W \<longrightarrow> Option.bind (resources reg rid) res_window = Some wid \<longrightarrow>
          move_terminal reg rid wid = (Ok (), reg))
    \<and> (\<forall>W R src V. windows reg wid = Some W \<longrightarrow> resources reg rid = Some R \<longrightarrow>
          res_window R = Some src \<longrightarrow> src \<noteq> wid \<longrightarrow> windows reg src = Some V \<longrightarrow>
          (\<exists>V' W'. move_terminal reg rid wid =
               (Ok (), reg\<lparr>windows := (windows reg)(src \<mapsto> V', wid \<mapsto> W'),
                  resources := (resources reg)(rid \<mapsto> R\<lparr>res_window := Some wid\<rparr>)\<rparr>)
             \<and> win_slots V' = filter (\<lambda>x. x \<noteq> rid) (win_slots V)
             \<and> win_slots W' = win_slots W @ [rid]))"
proof (intro conjI allI impI)
  fix W R src V
  assume a: "windows reg wid = Some W" "resources reg rid = Some R" "res_window R = Some src"
    "src \<noteq> wid" "windows reg src = Some V"
  have "move_terminal reg rid wid = (Ok (), reg\<lparr>
      windows := (windows reg)(src \<mapsto> vacate_slot V rid, wid \<mapsto> place_in_window W rid),
      resources := (resources reg)(rid \<mapsto> R\<lparr>res_window := Some wid\<rparr>)\<rparr>)"
    using a by (simp add: move_terminal_def)
  moreover have "win_slots (vacate_slot V rid) = filter (\<lambda>x. x \<noteq> rid) (win_slots V)"
    "win_slots (place_in_window W rid) = win_slots W @ [rid]"
    by simp_all
  ultimately show "\<exists>V' W'. move_terminal reg rid wid =
       (Ok (), reg\<lparr>windows := (windows reg)(src \<mapsto> V', wid \<mapsto> W'),
          resources := (resources reg)(rid \<mapsto> R\<lparr>res_window := Some wid\<rparr>)\<rparr>)
     \<and> win_slots V' = filter (\<lambda>x. x \<noteq> rid) (win_slots V)
     \<and> win_slots W' = win_slots W @ [rid]"
    by blast
qed (simp_all add: move_terminal_def)

theorem move_terminal_spec_witness:
  "let reg = snd (new_window example_registry (WindowId 1) (SessionId 0));
       reg' = snd (move_terminal reg (ResourceId 0) (WindowId 1))
   in map_option win_slots (windows reg (WindowId 0)) = Some [ResourceId 0]
      \<and> map_option win_slots (windows reg' (WindowId 0)) = Some []
      \<and> map_option win_slots (windows reg' (WindowId 1)) = Some [ResourceId 0]"
proof -
  define reg where "reg = snd (new_window example_registry (WindowId 1) (SessionId 0))"
  obtain R V W where facts: "resources reg (ResourceId 0) = Some R" "res_window R = Some (WindowId 0)"
    "windows reg (WindowId 0) = Some V" "win_slots V = [ResourceId 0]"
    "windows reg (WindowId 1) = Some W" "win_slots W = []"
    by (simp add: reg_def example_registry_def new_terminal_def new_window_def new_session_def
        new_registry_def place_in_window_def seed_layout_def Let_def)
  obtain V' W' where "snd (move_terminal reg (ResourceId 0) (WindowId 1)) =
      reg\<lparr>windows := (windows reg)(WindowId 0 \<mapsto> V', WindowId 1 \<mapsto> W'),
        resources := (resources reg)(ResourceId 0 \<mapsto> R\<lparr>res_window := Some (WindowId 1)\<rparr>)\<rparr>"
    "win_slots V' = []" "win_slots W' = [ResourceId 0]"
    using move_terminal_spec [of reg "WindowId 1" "ResourceId 0"] facts by fastforce
  with facts show ?thesis unfolding reg_def [symmetric] Let_def by simp
qed

end
