(* ===== verification/Core_Window_Focus.thy ===== *)
theory Core_Window_Focus
  imports Core_Window Complex_Main
begin

text \<open>
  Directional focus, \<open>focus_direction\<close> of \<open>phux-core/src/window.rs\<close>, against the geometry of the
  panes: the tree is laid out in a rectangle of real coordinates and the pane focus lands on is
  described by the edges of the areas.
\<close>

section \<open>Panes as areas\<close>

text \<open>
  A pane's place when the tree is laid out in a rectangle: coordinates grow to the right and
  downwards, a horizontal split puts its children side by side and a vertical one puts them one
  above the other, and \<open>share\<close> says which part of the rectangle goes to the first child.
\<close>

record area =
  ax0 :: real
  ay0 :: real
  ax1 :: real
  ay1 :: real

fun first_area :: "split_dir \<Rightarrow> real \<Rightarrow> area \<Rightarrow> area" where
  "first_area Horizontal k a = a\<lparr>ax1 := ax0 a + k * (ax1 a - ax0 a)\<rparr>"
| "first_area Vertical k a = a\<lparr>ay1 := ay0 a + k * (ay1 a - ay0 a)\<rparr>"

fun second_area :: "split_dir \<Rightarrow> real \<Rightarrow> area \<Rightarrow> area" where
  "second_area Horizontal k a = a\<lparr>ax0 := ax0 a + k * (ax1 a - ax0 a)\<rparr>"
| "second_area Vertical k a = a\<lparr>ay0 := ay0 a + k * (ay1 a - ay0 a)\<rparr>"

fun pane_area :: "(f32 \<Rightarrow> real) \<Rightarrow> layout_node \<Rightarrow> area \<Rightarrow> resource_id \<Rightarrow> area option" where
  "pane_area share (Leaf p) a x = (if p = x then Some a else None)"
| "pane_area share (Split d r left right) a x =
     (case pane_area share left (first_area d (share r) a) x of
        Some b \<Rightarrow> Some b
      | None \<Rightarrow> pane_area share right (second_area d (share r) a) x)"

fun edge :: "direction \<Rightarrow> area \<Rightarrow> real" where
  "edge Left a = ax0 a"
| "edge Right a = ax1 a"
| "edge Up a = ay0 a"
| "edge Down a = ay1 a"

fun opposite :: "direction \<Rightarrow> direction" where
  "opposite Left = Right"
| "opposite Right = Left"
| "opposite Up = Down"
| "opposite Down = Up"

lemma pane_area_None_iff: "pane_area share t a x = None \<longleftrightarrow> x \<notin> set (leaves t)"
proof (induction t arbitrary: a)
  case (Split d r left right)
  from Split.IH(1) [of "first_area d (share r) a"] Split.IH(2) [of "second_area d (share r) a"] show ?case
    by (cases "pane_area share left (first_area d (share r) a) x") auto
qed simp

lemma cut_between:
  fixes lo hi k :: real
  assumes "lo < hi" "0 < k" "k < 1"
  shows "lo < lo + k * (hi - lo)" "lo + k * (hi - lo) < hi"
proof -
  have "k * (hi - lo) < 1 * (hi - lo)" using assms by (intro mult_strict_right_mono) auto
  then show "lo + k * (hi - lo) < hi" by simp
  show "lo < lo + k * (hi - lo)" using assms by simp
qed

lemma areas_proper:
  assumes "\<forall>r. 0 < share r \<and> share r < (1 :: real)" "ax0 a < ax1 a" "ay0 a < ay1 a"
  shows "ax0 (first_area d (share r) a) < ax1 (first_area d (share r) a)"
    and "ay0 (first_area d (share r) a) < ay1 (first_area d (share r) a)"
    and "ax0 (second_area d (share r) a) < ax1 (second_area d (share r) a)"
    and "ay0 (second_area d (share r) a) < ay1 (second_area d (share r) a)"
  using assms cut_between [of "ax0 a" "ax1 a" "share r"] cut_between [of "ay0 a" "ay1 a" "share r"]
  by (cases d; simp)+

lemma areas_inside:
  assumes "\<forall>r. 0 < share r \<and> share r < (1 :: real)" "ax0 a < ax1 a" "ay0 a < ay1 a"
  shows "ax0 a \<le> ax0 (first_area d (share r) a) \<and> ay0 a \<le> ay0 (first_area d (share r) a)
      \<and> ax1 (first_area d (share r) a) \<le> ax1 a \<and> ay1 (first_area d (share r) a) \<le> ay1 a"
    and "ax0 a \<le> ax0 (second_area d (share r) a) \<and> ay0 a \<le> ay0 (second_area d (share r) a)
      \<and> ax1 (second_area d (share r) a) \<le> ax1 a \<and> ay1 (second_area d (share r) a) \<le> ay1 a"
  using assms cut_between [of "ax0 a" "ax1 a" "share r"] cut_between [of "ay0 a" "ay1 a" "share r"]
  by (cases d; simp add: less_imp_le)+

lemma pane_area_inside:
  assumes "pane_area share t a x = Some b" "\<forall>r. 0 < share r \<and> share r < 1" "ax0 a < ax1 a" "ay0 a < ay1 a"
  shows "ax0 a \<le> ax0 b \<and> ax0 b < ax1 b \<and> ax1 b \<le> ax1 a \<and> ay0 a \<le> ay0 b \<and> ay0 b < ay1 b \<and> ay1 b \<le> ay1 a"
  using assms
proof (induction t arbitrary: a)
  case (Split d r left right)
  note p = areas_proper [OF Split.prems(2-4), of d r] and i = areas_inside [OF Split.prems(2-4), of d r]
  show ?case
  proof (cases "pane_area share left (first_area d (share r) a) x")
    case None
    with Split.prems(1) have "pane_area share right (second_area d (share r) a) x = Some b" by simp
    from Split.IH(2) [OF this Split.prems(2) p(3,4)] i(2) show ?thesis by linarith
  next
    case (Some c)
    with Split.prems(1) have "pane_area share left (first_area d (share r) a) x = Some b" by simp
    from Split.IH(1) [OF this Split.prems(2) p(1,2)] i(1) show ?thesis by linarith
  qed
qed (auto split: if_splits)

text \<open>Descending towards the side one comes from stays at that side's edge.\<close>

lemma descend_loop_touches:
  "distinct (leaves t) \<Longrightarrow>
     \<exists>c. pane_area share t a (descend_loop t dir hints i) = Some c \<and> edge (opposite dir) c = edge (opposite dir) a"
proof (induction t arbitrary: a i)
  case (Split d r left right)
  let ?y = "descend_loop (Split d r left right) dir hints i"
  have in_left: "\<exists>c. pane_area share (Split d r left right) a (descend_loop left dir hints j) = Some c
      \<and> edge (opposite dir) c = edge (opposite dir) (first_area d (share r) a)" for j
    using Split.IH(1) [of "first_area d (share r) a" j] Split.prems by auto
  have in_right: "\<exists>c. pane_area share (Split d r left right) a (descend_loop right dir hints j) = Some c
      \<and> edge (opposite dir) c = edge (opposite dir) (second_area d (share r) a)" for j
  proof -
    have "descend_loop right dir hints j \<notin> set (leaves left)"
      using Split.prems descend_loop_in [of right dir hints j] by auto
    then have "pane_area share left (first_area d (share r) a) (descend_loop right dir hints j) = None"
      by (simp add: pane_area_None_iff)
    with Split.IH(2) [of "second_area d (share r) a" j] Split.prems show ?thesis by auto
  qed
  show ?case
  proof (cases "axis_parallel d dir")
    case True
    with in_left [of i] in_right [of i] show ?thesis by (cases d; cases dir) auto
  next
    case False
    with in_left [of "i + 1"] in_right [of "i + 1"] show ?thesis
      by (cases d; cases dir) (auto simp: Let_def split: child_side.splits)
  qed
qed simp

text \<open>The loop over the path, seen from the root: the deeper turns come first.\<close>

lemma focus_loop_Cons:
  assumes "path_to (case side of SideLeft \<Rightarrow> left | SideRight \<Rightarrow> right) x = Some p" and "n \<le> length p"
  shows "focus_loop (Split d r left right) ((d, side) # p) dir (Suc n) =
    (case focus_loop (case side of SideLeft \<Rightarrow> left | SideRight \<Rightarrow> right) p dir n of
       Some y \<Rightarrow> Some y
     | None \<Rightarrow> (if matches_to_sibling d dir side
         then Some (descend_to_leaf (case side of SideLeft \<Rightarrow> right | SideRight \<Rightarrow> left) dir p) else None))"
  using assms(2)
proof (induction n)
  case (Suc n)
  then have n: "n < length p" by simp
  from sibling_some [OF assms(1) this] obtain s where
    "sibling_at_depth (case side of SideLeft \<Rightarrow> left | SideRight \<Rightarrow> right) p n = Some s" by blast
  with Suc.IH n show ?case by (simp add: case_prod_beta Let_def)
qed simp

lemma crossing_edges:
  "matches_to_sibling d dir SideRight \<Longrightarrow> edge (opposite dir) (first_area d k a) = edge dir (second_area d k a)"
  "matches_to_sibling d dir SideLeft \<Longrightarrow> edge (opposite dir) (second_area d k a) = edge dir (first_area d k a)"
  "\<not> matches_to_sibling d dir SideRight \<Longrightarrow> edge dir (second_area d k a) = edge dir a"
  "\<not> matches_to_sibling d dir SideLeft \<Longrightarrow> edge dir (first_area d k a) = edge dir a"
  by (cases d; cases dir; simp)+

lemma focus_loop_touches:
  assumes "path_to t x = Some path" "pane_area share t a x = Some b" "distinct (leaves t)"
    "\<forall>r. 0 < share r \<and> share r < 1" "ax0 a < ax1 a" "ay0 a < ay1 a"
  shows "case focus_loop t path dir (length path) of
      None \<Rightarrow> edge dir b = edge dir a
    | Some y \<Rightarrow> \<exists>c. pane_area share t a y = Some c \<and> edge (opposite dir) c = edge dir b"
  using assms
proof (induction t arbitrary: path a)
  case (Split d r left right)
  note proper = areas_proper [OF Split.prems(4-6), of d r]
  let ?fa = "first_area d (share r) a" and ?sa = "second_area d (share r) a"
  have lift_l: "pane_area share (Split d r left right) a y = Some c" if "pane_area share left ?fa y = Some c" for y c
    using that by simp
  have lift_r: "pane_area share (Split d r left right) a y = Some c" if "pane_area share right ?sa y = Some c" for y c
  proof -
    from that have "y \<in> set (leaves right)" using pane_area_None_iff [of share right ?sa y] by auto
    with Split.prems(3) have "pane_area share left ?fa y = None" by (auto simp: pane_area_None_iff)
    with that show ?thesis by simp
  qed
  note land_l = descend_loop_touches [of left share ?fa dir] and land_r = descend_loop_touches [of right share ?sa dir]
  have dist: "distinct (leaves left)" "distinct (leaves right)" using Split.prems(3) by auto
  show ?case
  proof (cases "path_to left x")
    case None
    with Split.prems(1) obtain p where p: "path_to right x = Some p" "path = (d, SideRight) # p" by auto
    from None have "pane_area share left ?fa x = None" by (simp add: path_to_None_iff pane_area_None_iff)
    with Split.prems(2) have b: "pane_area share right ?sa x = Some b" by simp
    note ih = Split.IH(2) [OF p(1) b dist(2) Split.prems(4) proper(3,4)]
    have f: "focus_loop (Split d r left right) path dir (length path) = (case focus_loop right p dir (length p) of
        Some y \<Rightarrow> Some y | None \<Rightarrow> (if matches_to_sibling d dir SideRight then Some (descend_to_leaf left dir p) else None))"
      using focus_loop_Cons [where side = SideRight and left = left and right = right and x = x and p = p and n = "length p"
        and d = d and r = r and dir = dir] p by (simp del: focus_loop.simps cong: option.case_cong)
    show ?thesis
    proof (cases "focus_loop right p dir (length p)")
      case None
      with ih have e: "edge dir b = edge dir ?sa" by simp
      obtain c where "pane_area share (Split d r left right) a (descend_to_leaf left dir p) = Some c"
          "edge (opposite dir) c = edge (opposite dir) ?fa"
        using land_l [OF dist(1)] lift_l unfolding descend_to_leaf_def Let_def by blast
      with e None f crossing_edges [where d = d and dir = dir and k = "share r" and a = a] show ?thesis
        by (cases "matches_to_sibling d dir SideRight") auto
    qed (use ih f lift_r in auto)
  next
    case (Some p)
    with Split.prems(1) have path: "path = (d, SideLeft) # p" by simp
    have "pane_area share left ?fa x \<noteq> None"
      using Some by (metis option.distinct(1) pane_area_None_iff path_to_None_iff)
    with Split.prems(2) have b: "pane_area share left ?fa x = Some b" by auto
    note ih = Split.IH(1) [OF Some b dist(1) Split.prems(4) proper(1,2)]
    have f: "focus_loop (Split d r left right) path dir (length path) = (case focus_loop left p dir (length p) of
        Some y \<Rightarrow> Some y | None \<Rightarrow> (if matches_to_sibling d dir SideLeft then Some (descend_to_leaf right dir p) else None))"
      using focus_loop_Cons [where side = SideLeft and left = left and right = right and x = x and p = p and n = "length p"
        and d = d and r = r and dir = dir] Some path by (simp del: focus_loop.simps cong: option.case_cong)
    show ?thesis
    proof (cases "focus_loop left p dir (length p)")
      case None
      with ih have e: "edge dir b = edge dir ?fa" by simp
      obtain c where "pane_area share (Split d r left right) a (descend_to_leaf right dir p) = Some c"
          "edge (opposite dir) c = edge (opposite dir) ?sa"
        using land_r [OF dist(2)] lift_r unfolding descend_to_leaf_def Let_def by blast
      with e None f crossing_edges [where d = d and dir = dir and k = "share r" and a = a] show ?thesis
        by (cases "matches_to_sibling d dir SideLeft") auto
    qed (use ih f lift_l in auto)
  qed
qed (auto split: if_splits)

section \<open>Properties\<close>

text \<open>
  C4. Directional focus is geometric. Lay the tree out in any rectangle, each split putting its
  divider anywhere strictly inside, left of right or top above bottom. Then focus finds nothing
  exactly when the pane is absent or already touches the border of the rectangle on the side of the
  direction; otherwise it lands on another pane, whose facing edge is the very line on which the
  current pane ends in that direction.
\<close>

theorem focus_direction_spec:
  assumes "win_layout w = Some t" and "distinct (leaves t)"
    and "\<forall>r. 0 < share r \<and> share r < 1" and "ax0 a < ax1 a" and "ay0 a < ay1 a"
  shows "case pane_area share t a x of
      None \<Rightarrow> focus_direction w x dir = None
    | Some b \<Rightarrow> (case focus_direction w x dir of
          None \<Rightarrow> edge dir b = edge dir a
        | Some y \<Rightarrow> edge dir b \<noteq> edge dir a \<and> y \<noteq> x
            \<and> (\<exists>c. pane_area share t a y = Some c \<and> edge (opposite dir) c = edge dir b))"
proof (cases "path_to t x")
  case None
  with assms(1) show ?thesis
    using pane_area_None_iff [of share t a x] path_to_None_iff [of t x]
    by (simp add: focus_direction_def record_path_eq)
next
  case (Some path)
  with assms(1) have f: "focus_direction w x dir = focus_loop t path dir (length path)"
    by (simp add: focus_direction_def record_path_eq)
  have "x \<in> set (leaves t)" using Some path_to_None_iff [of t x] by auto
  then obtain b where b: "pane_area share t a x = Some b" using pane_area_None_iff [of share t a x] by auto
  note touch = focus_loop_touches [OF Some b assms(2-5), of dir]
  show ?thesis
  proof (cases "focus_loop t path dir (length path)")
    case (Some y)
    with touch obtain c where c: "pane_area share t a y = Some c" "edge (opposite dir) c = edge dir b" by auto
    have "edge dir b \<noteq> edge dir a"
      using pane_area_inside [OF c(1) assms(3-5)] c(2) by (cases dir) auto
    moreover have "y \<noteq> x"
      using pane_area_inside [OF b assms(3-5)] b c by (cases dir) auto
    ultimately show ?thesis using b c Some f by simp
  qed (use touch b f in simp)
qed

theorem focus_direction_spec_witness:
  "focus_direction example_window (ResourceId 1) Down = Some (ResourceId 2)
   \<and> focus_direction example_window (ResourceId 1) Right = None
   \<and> pane_area (\<lambda>_. 1 / 2) (Split Vertical f32_half (Leaf (ResourceId 1)) (Leaf (ResourceId 2)))
       \<lparr>ax0 = 0, ay0 = 0, ax1 = 8, ay1 = 4\<rparr> (ResourceId 2) = Some \<lparr>ax0 = 0, ay0 = 2, ax1 = 8, ay1 = 4\<rparr>"
  using focus_direction_spec [of example_window
      "Split Vertical f32_half (Leaf (ResourceId 1)) (Leaf (ResourceId 2))" "\<lambda>_. 1 / 2"
      "\<lparr>ax0 = 0, ay0 = 0, ax1 = 8, ay1 = 4\<rparr>" "ResourceId 1" Right]
  by (simp add: example_window_def focus_direction_def descend_to_leaf_def split: option.splits)

end
