(* ===== verification/Wire_Prim.thy ===== *)
theory Wire_Prim
  imports Prelude F32
begin

text \<open>
  The primitive layer of the wire protocol: \<open>phux-protocol/src/wire/encode.rs\<close> and the
  primitive half of \<open>wire/decode.rs\<close>. An \<open>Encoder\<close> method is modelled by the bytes it
  appends to the buffer, a \<open>Decoder\<close> method by a reader: a function from the decoder state to
  an error or a value with the advanced state. The relation \<open>reads r bs x\<close> says that the reader
  consumes exactly \<open>bs\<close> and returns \<open>x\<close> wherever they stand in the input; it composes along
  \<open>bind_r\<close>, which is what carries the round trips of the message codec.
\<close>

section \<open>Errors, limits and the decoder state\<close>

datatype decode_error =
    UnexpectedEof
  | InvalidUtf8
  | CompressedFrameInvalid
  | UnknownFrameKind u16
  | LengthOverflow
  | UnsupportedSatelliteRoute
  | UnknownEnumValue string u32
  | InvalidInputOperationId
  | ApplyInputLimitExceeded
  | InputTerminalReplyLimitExceeded
  | InvalidFileUploadId
  | FileUploadLimitExceeded
  | InvalidStreamId
  | InvalidBootstrapId
  | InvalidHistoryPageSequence
  | HistoryRowLimitExceeded
  | BootstrapLimitExceeded
  | InvalidBootstrapProfile
  | AppendResourceOutputLimitExceeded
  | InvalidSpawnForKind u8 u32 bool
  | AgentFacetLimitExceeded
  | DirectoryEntryLimitExceeded
  | LayoutTooDeep
  | MalformedLayoutRatio f32

definition max_frame_len :: u32 where
  "max_frame_len = 16 * 1024 * 1024"

definition max_bootstrap_chunk_bytes :: u32 where
  "max_bootstrap_chunk_bytes = 8 * 1024 * 1024"

definition max_history_page_bytes :: u32 where
  "max_history_page_bytes = 8 * 1024 * 1024"

record decoder =
  dec_input :: bytes
  dec_pos :: nat
  dec_body_end :: "nat option"
  dec_max_chunk :: u32
  dec_max_page :: u32

type_synonym 'a reader = "decoder \<Rightarrow> decode_error + 'a \<times> decoder"

definition decoder_new :: "bytes \<Rightarrow> decoder" where
  "decoder_new input = \<lparr>dec_input = input, dec_pos = 0, dec_body_end = None,
     dec_max_chunk = max_bootstrap_chunk_bytes, dec_max_page = max_history_page_bytes\<rparr>"

definition at_body_end :: "decoder \<Rightarrow> bool" where
  "at_body_end d \<longleftrightarrow>
     (case dec_body_end d of None \<Rightarrow> length (dec_input d) | Some e \<Rightarrow> e) \<le> dec_pos d"

definition remaining :: "decoder \<Rightarrow> bytes" where
  "remaining d = drop (dec_pos d) (dec_input d)"

definition remaining_in_body :: "decoder \<Rightarrow> nat" where
  "remaining_in_body d =
     (case dec_body_end d of None \<Rightarrow> length (dec_input d) | Some e \<Rightarrow> e) - dec_pos d"

text \<open>The \<open>?\<close> operator on readers.\<close>

definition ret_r :: "'a \<Rightarrow> 'a reader" where
  "ret_r x d = Ok (x, d)"

definition fail_r :: "decode_error \<Rightarrow> 'a reader" where
  "fail_r e d = Err e"

definition bind_r :: "'a reader \<Rightarrow> ('a \<Rightarrow> 'b reader) \<Rightarrow> 'b reader" where
  "bind_r m f d = (case m d of Inl e \<Rightarrow> Err e | Inr (x, d') \<Rightarrow> f x d')"

definition get_r :: "(decoder \<Rightarrow> 'a) \<Rightarrow> 'a reader" where
  "get_r g d = Ok (g d, d)"

definition lift_r :: "decode_error + 'a \<Rightarrow> 'a reader" where
  "lift_r m d = (case m of Inl e \<Rightarrow> Err e | Inr x \<Rightarrow> Ok (x, d))"

section \<open>Fixed-width integers\<close>

text \<open>\<open>usize\<close> is 64 bits wide: \<open>checked_add\<close> fails from \<open>2 ^ 64\<close> on.\<close>

definition take_r :: "nat \<Rightarrow> bytes reader" where
  "take_r n d =
     (let end = dec_pos d + n in
      if 2 ^ 64 \<le> end then Err LengthOverflow
      else if length (dec_input d) < end then Err UnexpectedEof
      else Ok (take n (drop (dec_pos d) (dec_input d)), d\<lparr>dec_pos := end\<rparr>))"

fun to_be :: "nat \<Rightarrow> 'a::len word \<Rightarrow> bytes" where
  "to_be 0 w = []"
| "to_be (Suc n) w = ucast (drop_bit (8 * n) w) # to_be n w"

definition from_be :: "bytes \<Rightarrow> 'a::len word" where
  "from_be bs = foldl (\<lambda>acc b. push_bit 8 acc OR ucast b) 0 bs"

definition write_u8 :: "u8 \<Rightarrow> bytes" where
  "write_u8 v = [v]"

definition write_u16_be :: "u16 \<Rightarrow> bytes" where
  "write_u16_be v = to_be 2 v"

definition write_u32_be :: "u32 \<Rightarrow> bytes" where
  "write_u32_be v = to_be 4 v"

definition write_u64_be :: "u64 \<Rightarrow> bytes" where
  "write_u64_be v = to_be 8 v"

definition write_f32_be :: "f32 \<Rightarrow> bytes" where
  "write_f32_be v = to_be 4 v"

definition read_u8 :: "u8 reader" where
  "read_u8 = bind_r (take_r 1) (\<lambda>s. ret_r (s ! 0))"

definition read_u16_be :: "u16 reader" where
  "read_u16_be = bind_r (take_r 2) (\<lambda>s. ret_r (from_be s))"

definition read_u32_be :: "u32 reader" where
  "read_u32_be = bind_r (take_r 4) (\<lambda>s. ret_r (from_be s))"

definition read_u64_be :: "u64 reader" where
  "read_u64_be = bind_r (take_r 8) (\<lambda>s. ret_r (from_be s))"

definition read_f32_be :: "f32 reader" where
  "read_f32_be = bind_r (take_r 4) (\<lambda>s. ret_r (from_be s))"

text \<open>
  \<open>i64\<close> and \<open>f64\<close> travel as their 64-bit patterns: two's complement and IEEE-754
  reinterpretation are the identity on the word that models the value.
\<close>

type_synonym i64 = u64
type_synonym f64 = u64

definition write_i64_be :: "i64 \<Rightarrow> bytes" where
  "write_i64_be v = to_be 8 v"

definition write_f64_be :: "f64 \<Rightarrow> bytes" where
  "write_f64_be v = to_be 8 v"

definition read_i64_be :: "i64 reader" where
  "read_i64_be = bind_r (take_r 8) (\<lambda>s. ret_r (from_be s))"

definition read_f64_be :: "f64 reader" where
  "read_f64_be = bind_r (take_r 8) (\<lambda>s. ret_r (from_be s))"

section \<open>Length-prefixed bytes and strings\<close>

definition write_bytes :: "bytes \<Rightarrow> bytes" where
  "write_bytes v =
     write_u32_be (if length v < 2 ^ 32 then of_nat (length v) else 2 ^ 32 - 1) @ v"

definition read_bytes :: "bytes reader" where
  "read_bytes = bind_r read_u32_be (\<lambda>len.
     if max_frame_len < len then fail_r LengthOverflow else take_r (unat len))"

text \<open>
  A Rust string is a byte sequence that \<open>core::str::from_utf8\<close> accepts: the well-formed
  sequences of RFC 3629, with no overlong form, no surrogate and nothing above U+10FFFF.
\<close>

type_synonym str = bytes

definition continuation :: "u8 \<Rightarrow> bool" where
  "continuation b \<longleftrightarrow> 0x80 \<le> b \<and> b \<le> 0xBF"

fun utf8_valid :: "bytes \<Rightarrow> bool" where
  "utf8_valid [] = True"
| "utf8_valid (a # bs) =
     (if a \<le> 0x7F then utf8_valid bs
      else if 0xC2 \<le> a \<and> a \<le> 0xDF then
        (case bs of b # cs \<Rightarrow> continuation b \<and> utf8_valid cs | _ \<Rightarrow> False)
      else if 0xE0 \<le> a \<and> a \<le> 0xEF then
        (case bs of
           b # c # ds \<Rightarrow>
             (if a = 0xE0 then 0xA0 \<le> b \<and> b \<le> 0xBF
              else if a = 0xED then 0x80 \<le> b \<and> b \<le> 0x9F
              else continuation b) \<and> continuation c \<and> utf8_valid ds
         | _ \<Rightarrow> False)
      else if 0xF0 \<le> a \<and> a \<le> 0xF4 then
        (case bs of
           b # c # d # es \<Rightarrow>
             (if a = 0xF0 then 0x90 \<le> b \<and> b \<le> 0xBF
              else if a = 0xF4 then 0x80 \<le> b \<and> b \<le> 0x8F
              else continuation b) \<and> continuation c \<and> continuation d \<and> utf8_valid es
         | _ \<Rightarrow> False)
      else False)"

definition from_utf8 :: "bytes \<Rightarrow> decode_error + str" where
  "from_utf8 bs = (if utf8_valid bs then Ok bs else Err InvalidUtf8)"

definition write_str :: "str \<Rightarrow> bytes" where
  "write_str v = write_bytes v"

definition read_str :: "str reader" where
  "read_str = bind_r read_bytes (\<lambda>bs. lift_r (from_utf8 bs))"

section \<open>Varints\<close>

function write_varint :: "u64 \<Rightarrow> bytes" where
  "write_varint v =
     (let byte = ucast (v AND 0x7F); v' = drop_bit 7 v
      in if v' = 0 then [byte] else (byte OR 0x80) # write_varint v')"
  by pat_completeness auto

lemma drop_bit_7_less:
  assumes "drop_bit 7 (v :: u64) \<noteq> 0"
  shows "unat (drop_bit 7 v) < unat v"
proof -
  have eq: "unat (drop_bit 7 v) = unat v div 128"
    by (simp only: unat_drop_bit_eq) (simp add: drop_bit_eq_div)
  moreover have "unat (drop_bit 7 v) \<noteq> 0" using assms unat_eq_0 [of "drop_bit 7 v"] by blast
  ultimately show ?thesis by linarith
qed

termination write_varint
  by (relation "measure unat") (auto intro: drop_bit_7_less)

declare write_varint.simps [simp del]

function read_varint_loop :: "u64 \<Rightarrow> nat \<Rightarrow> u64 reader" where
  "read_varint_loop result shift d =
     (if 64 \<le> shift then Err LengthOverflow
      else case read_u8 d of
             Inl e \<Rightarrow> Err e
           | Inr (byte, d') \<Rightarrow>
               (let result' = result OR push_bit shift (ucast (byte AND 0x7F))
                in if byte AND 0x80 = 0 then Ok (result', d')
                   else read_varint_loop result' (shift + 7) d'))"
  by pat_completeness auto

termination read_varint_loop
  by (relation "measure (\<lambda>(result, shift, d). 64 - shift)") auto

declare read_varint_loop.simps [simp del]

definition read_varint :: "u64 reader" where
  "read_varint = read_varint_loop 0 0"

section \<open>TLV fields\<close>

definition wire_type_bytes :: u8 where
  "wire_type_bytes = 4"

definition write_field :: "u32 \<Rightarrow> bytes \<Rightarrow> bytes" where
  "write_field field_id v =
     write_varint (ucast field_id) @ write_u8 wire_type_bytes
       @ write_varint (of_nat (length v)) @ v"

definition read_field :: "(u32 \<times> bytes) option reader" where
  "read_field = bind_r (get_r at_body_end) (\<lambda>done.
     if done then ret_r None
     else bind_r read_varint (\<lambda>fid.
       if 2 ^ 32 \<le> fid then fail_r LengthOverflow
       else bind_r read_u8 (\<lambda>wire_type.
         bind_r read_varint (\<lambda>len.
           if ucast max_frame_len < len then fail_r LengthOverflow
           else bind_r (take_r (unat len)) (\<lambda>v. ret_r (Some (ucast fid, v)))))))"

section \<open>Readers stay inside the input\<close>

text \<open>
  Every reader keeps the input, the frame boundary and the negotiated limits, moves the cursor
  forward only, and never past the end of the input.
\<close>

definition bounded :: "'a reader \<Rightarrow> bool" where
  "bounded r \<longleftrightarrow> (\<forall>d x d'. r d = Ok (x, d') \<longrightarrow>
     (\<exists>n. d' = d\<lparr>dec_pos := dec_pos d + n\<rparr>) \<and>
     (dec_pos d \<le> length (dec_input d) \<longrightarrow> dec_pos d' \<le> length (dec_input d)))"

lemma decoder_stays: "\<exists>n. d = d\<lparr>dec_pos := dec_pos d + n\<rparr>" for d :: decoder
  by (rule exI [of _ 0]) simp

lemma bounded_ret [inv_intros]: "bounded (ret_r x)"
  by (simp add: bounded_def ret_r_def decoder_stays)

lemma bounded_get [inv_intros]: "bounded (get_r g)"
  by (simp add: bounded_def get_r_def decoder_stays)

lemma bounded_fail [inv_intros]: "bounded (fail_r e)"
  by (simp add: bounded_def fail_r_def)

lemma bounded_lift [inv_intros]: "bounded (lift_r m)"
  by (cases m) (simp_all add: bounded_def lift_r_def decoder_stays)

lemma bounded_take [inv_intros]: "bounded (take_r n)"
  by (auto simp: bounded_def take_r_def Let_def split: if_splits)

lemma bounded_bind [inv_intros]:
  assumes "bounded m" and "\<And>x. bounded (f x)"
  shows "bounded (bind_r m f)"
  unfolding bounded_def
proof (intro allI impI)
  fix d y d'
  assume "bind_r m f d = Ok (y, d')"
  then obtain x e where m: "m d = Ok (x, e)" and f: "f x e = Ok (y, d')"
    by (auto simp: bind_r_def split: sum.splits)
  from assms(1) m obtain n where e: "e = d\<lparr>dec_pos := dec_pos d + n\<rparr>"
    and le: "dec_pos d \<le> length (dec_input d) \<longrightarrow> dec_pos e \<le> length (dec_input d)"
    unfolding bounded_def by blast
  from assms(2) [of x] f obtain k where d': "d' = e\<lparr>dec_pos := dec_pos e + k\<rparr>"
    and le': "dec_pos e \<le> length (dec_input e) \<longrightarrow> dec_pos d' \<le> length (dec_input e)"
    unfolding bounded_def by blast
  from e d' have "d' = d\<lparr>dec_pos := dec_pos d + (n + k)\<rparr>" by simp
  with e le le' show "(\<exists>n. d' = d\<lparr>dec_pos := dec_pos d + n\<rparr>) \<and>
     (dec_pos d \<le> length (dec_input d) \<longrightarrow> dec_pos d' \<le> length (dec_input d))" by auto
qed

lemma bounded_if [inv_intros]: "bounded a \<Longrightarrow> bounded b \<Longrightarrow> bounded (if c then a else b)"
  by simp

lemma bounded_prims [inv_intros]:
  "bounded read_u8" "bounded read_u16_be" "bounded read_u32_be" "bounded read_u64_be"
  "bounded read_f32_be" "bounded read_i64_be" "bounded read_f64_be"
  unfolding read_u8_def read_u16_be_def read_u32_be_def read_u64_be_def read_f32_be_def
    read_i64_be_def read_f64_be_def
  by (intro inv_intros)+

lemma bounded_read_bytes [inv_intros]: "bounded read_bytes" "bounded read_str"
  unfolding read_str_def read_bytes_def by (intro inv_intros)+

lemma read_varint_loop_eq:
  "read_varint_loop result shift = (if 64 \<le> shift then fail_r LengthOverflow
     else bind_r read_u8 (\<lambda>byte. let result' = result OR push_bit shift (ucast (byte AND 0x7F))
            in if byte AND 0x80 = 0 then ret_r result' else read_varint_loop result' (shift + 7)))"
  by (rule ext, subst read_varint_loop.simps)
    (auto simp: fail_r_def bind_r_def ret_r_def Let_def split: sum.splits)

lemma bounded_read_varint_loop: "bounded (read_varint_loop result shift)"
proof (induction "64 - shift" arbitrary: result shift rule: less_induct)
  case less
  note eq = read_varint_loop_eq [of result shift]
  have "bounded (read_varint_loop r (shift + 7))" if "\<not> 64 \<le> shift" for r
    using less [of "shift + 7" r] that by simp
  then show ?case unfolding eq Let_def by (cases "64 \<le> shift") (auto intro!: inv_intros)
qed

lemma bounded_read_varint [inv_intros]: "bounded read_varint"
  unfolding read_varint_def by (rule bounded_read_varint_loop)

lemma bounded_read_field [inv_intros]: "bounded read_field"
  unfolding read_field_def by (intro inv_intros)

lemma boundedD:
  assumes "bounded r" and "r d = Ok (x, d')"
  shows "dec_input d' = dec_input d" and "dec_body_end d' = dec_body_end d"
    and "dec_max_chunk d' = dec_max_chunk d" and "dec_max_page d' = dec_max_page d"
    and "dec_pos d \<le> dec_pos d'"
    and "dec_pos d \<le> length (dec_input d) \<Longrightarrow> dec_pos d' \<le> length (dec_input d)"
  using assms unfolding bounded_def by (fastforce)+

lemma read_u8_advances:
  assumes "read_u8 d = Ok (b, d')"
  shows "dec_pos d' = Suc (dec_pos d)" and "dec_pos d' \<le> length (dec_input d)"
  using assms by (auto simp: read_u8_def bind_r_def take_r_def ret_r_def Let_def split: if_splits)

lemma read_field_advances:
  assumes "read_field d = Ok (Some fv, d')"
  shows "dec_pos d < dec_pos d'" and "dec_pos d' \<le> length (dec_input d)"
    and "dec_input d' = dec_input d"
proof -
  from assms obtain fid d1 w d2 len d3 v where
    1: "read_varint d = Ok (fid, d1)" and 2: "read_u8 d1 = Ok (w, d2)"
    and 3: "read_varint d2 = Ok (len, d3)" and 4: "take_r (unat len) d3 = Ok (v, d')"
    by (auto simp: read_field_def bind_r_def get_r_def ret_r_def fail_r_def split: if_splits sum.splits)
  note b1 = boundedD [OF bounded_read_varint 1] and b3 = boundedD [OF bounded_read_varint 3]
    and b2 = boundedD [OF bounded_prims(1) 2] and b4 = boundedD [OF bounded_take 4]
  show "dec_pos d < dec_pos d'" using b1 b3 b4 read_u8_advances [OF 2] by simp
  show "dec_pos d' \<le> length (dec_input d)" using b1 b2 b3 b4 read_u8_advances [OF 2] by simp
  show "dec_input d' = dec_input d" using b1 b2 b3 b4 by simp
qed

lemma read_field_measure:
  assumes "Inr (Some fv, d') = read_field d"
  shows "length (dec_input d') - dec_pos d' < length (dec_input d) - dec_pos d"
  using read_field_advances [OF assms [symmetric]] by simp

section \<open>Message bodies\<close>

text \<open>
  The body loop every message decoder runs, \<open>while let Some((id, value)) = self.read_field()?\<close>,
  with the match on the field id as the step, and the macro \<open>sub!\<close>, which runs a fresh decoder
  over one field's bytes and drops what it leaves.
\<close>

definition sub_r :: "'a reader \<Rightarrow> bytes \<Rightarrow> decode_error + 'a" where
  "sub_r r v = (case r (decoder_new v) of Inl e \<Rightarrow> Err e | Inr (x, _) \<Rightarrow> Ok x)"

function fields_loop :: "('s \<Rightarrow> u32 \<Rightarrow> bytes \<Rightarrow> decode_error + 's) \<Rightarrow> 's \<Rightarrow> 's reader" where
  "fields_loop step s d =
     (case read_field d of
        Inl e \<Rightarrow> Err e
      | Inr (None, d') \<Rightarrow> Ok (s, d')
      | Inr (Some (fid, v), d') \<Rightarrow>
          (case step s fid v of Inl e \<Rightarrow> Err e | Inr s' \<Rightarrow> fields_loop step s' d'))"
  by pat_completeness auto

termination fields_loop
  by (relation "measure (\<lambda>(step, s, d). length (dec_input d) - dec_pos d)")
    (auto intro: read_field_measure [simplified])

declare fields_loop.simps [simp del]

lemma bounded_fields_loop [inv_intros]: "bounded (fields_loop step s)"
proof -
  have "(\<exists>n. d' = d\<lparr>dec_pos := dec_pos d + n\<rparr>) \<and>
     (dec_pos d \<le> length (dec_input d) \<longrightarrow> dec_pos d' \<le> length (dec_input d))"
    if "fields_loop step s d = Ok (x, d')" for d x d'
    using that
  proof (induction step s d rule: fields_loop.induct)
    case (1 step s d)
    from 1(2) obtain f e where f: "read_field d = Ok (f, e)"
      by (subst (asm) fields_loop.simps) (auto split: sum.splits)
    from bounded_read_field f obtain n where e: "e = d\<lparr>dec_pos := dec_pos d + n\<rparr>"
      and le: "dec_pos d \<le> length (dec_input d) \<longrightarrow> dec_pos e \<le> length (dec_input d)"
      unfolding bounded_def by blast
    show ?case
    proof (cases f)
      case None
      with 1(2) f e le show ?thesis by (subst (asm) fields_loop.simps) auto
    next
      case (Some fv)
      obtain fid v where fv: "fv = (fid, v)" by (cases fv)
      with 1(2) f Some obtain s' where s': "step s fid v = Ok s'" and l: "fields_loop step s' e = Ok (x, d')"
        by (subst (asm) fields_loop.simps) (auto split: sum.splits)
      from 1(1) [OF f refl Some fv [symmetric] s' l] obtain k where
        "d' = e\<lparr>dec_pos := dec_pos e + k\<rparr>" and "dec_pos e \<le> length (dec_input e) \<longrightarrow> dec_pos d' \<le> length (dec_input e)"
        by blast
      with e le show ?thesis by (auto intro: exI [of _ "n + k"])
    qed
  qed
  then show ?thesis unfolding bounded_def by blast
qed

text \<open>A message body as the encoder writes it, field by field, and a message decoder: the loop, then the assembly.\<close>

type_synonym fields = "(u32 \<times> bytes) list"

definition write_fields :: "fields \<Rightarrow> bytes" where
  "write_fields fs = concat (map (\<lambda>(fid, v). write_field fid v) fs)"

definition message :: "('s \<Rightarrow> u32 \<Rightarrow> bytes \<Rightarrow> decode_error + 's) \<Rightarrow> 's \<Rightarrow> ('s \<Rightarrow> decode_error + 'a) \<Rightarrow> 'a reader" where
  "message step init finish = bind_r (fields_loop step init) (\<lambda>s. lift_r (finish s))"

lemma bounded_message [inv_intros]: "bounded (message step init finish)"
  unfolding message_def by (intro inv_intros)

text \<open>
  The idioms of the message decoders: \<open>slot = Some(sub!(value, r))\<close>, which stores a decoded field,
  and \<open>slot.ok_or(DecodeError::UnexpectedEof)?\<close>, which insists on a required one. The encoder
  writes an optional field only when it is there.
\<close>

definition put :: "('x \<Rightarrow> 's) \<Rightarrow> decode_error + 'x \<Rightarrow> decode_error + 's" where
  "put f m = rbind m (\<lambda>x. Ok (f x))"

definition req :: "'x option \<Rightarrow> ('x \<Rightarrow> decode_error + 'a) \<Rightarrow> decode_error + 'a" where
  "req m k = rbind (ok_or UnexpectedEof m) k"

definition opt_field :: "u32 \<Rightarrow> ('a \<Rightarrow> bytes) \<Rightarrow> 'a option \<Rightarrow> fields" where
  "opt_field fid w x = (case x of None \<Rightarrow> [] | Some y \<Rightarrow> [(fid, w y)])"

lemma put_simps [simp]: "put f (Inr x) = Ok (f x)" "put f (Inl e) = Err e"
  by (simp_all add: put_def)

lemma req_simps [simp]: "req (Some x) k = k x" "req None k = Err UnexpectedEof"
  by (simp_all add: req_def)

lemma opt_field_simps [simp]: "opt_field fid w None = []" "opt_field fid w (Some y) = [(fid, w y)]"
  by (simp_all add: opt_field_def)

section \<open>Options, lists and enumerations\<close>

definition write_opt :: "('a \<Rightarrow> bytes) \<Rightarrow> 'a option \<Rightarrow> bytes" where
  "write_opt w x = (case x of None \<Rightarrow> write_u8 0 | Some y \<Rightarrow> write_u8 1 @ w y)"

definition read_opt :: "string \<Rightarrow> 'a reader \<Rightarrow> 'a option reader" where
  "read_opt label r = bind_r read_u8 (\<lambda>tag.
     if tag = 0 then ret_r None
     else if tag = 1 then bind_r r (\<lambda>x. ret_r (Some x))
     else fail_r (UnknownEnumValue label (ucast tag)))"

definition write_all :: "('a \<Rightarrow> bytes) \<Rightarrow> 'a list \<Rightarrow> bytes" where
  "write_all w xs = concat (map w xs)"

fun read_n :: "'a reader \<Rightarrow> nat \<Rightarrow> 'a list reader" where
  "read_n r 0 = ret_r []"
| "read_n r (Suc n) = bind_r r (\<lambda>x. bind_r (read_n r n) (\<lambda>xs. ret_r (x # xs)))"

definition known_or :: "decode_error \<Rightarrow> 'a option \<Rightarrow> 'a reader" where
  "known_or e m = lift_r (ok_or e m)"

lemma bounded_read_opt [inv_intros]: "bounded r \<Longrightarrow> bounded (read_opt label r)"
  unfolding read_opt_def by (intro inv_intros)

lemma bounded_read_n [inv_intros]: "bounded r \<Longrightarrow> bounded (read_n r n)"
  by (induction n) (auto intro!: inv_intros)

lemma bounded_known_or [inv_intros]: "bounded (known_or e m)"
  unfolding known_or_def by (intro inv_intros)

text \<open>A list whose count is saturated to \<open>u32\<close>; within one frame the count is exact.\<close>

definition write_count32 :: "nat \<Rightarrow> bytes" where
  "write_count32 n = write_u32_be (if n < 2 ^ 32 then of_nat n else 2 ^ 32 - 1)"

definition read_list32 :: "'a reader \<Rightarrow> 'a list reader" where
  "read_list32 r = bind_r read_u32_be (\<lambda>n. read_n r (unat n))"

lemma bounded_read_list32 [inv_intros]: "bounded r \<Longrightarrow> bounded (read_list32 r)"
  unfolding read_list32_def by (intro inv_intros)

end
