(* ===== verification/Wire_Types.thy ===== *)
theory Wire_Types
  imports Wire_Prim
begin

text \<open>
  Identifiers and the layout tree as the wire protocol and the clients know them:
  \<open>phux-protocol/src/ids.rs\<close> and the tree of \<open>wire/info.rs\<close>. Strings are UTF-8 byte lists.
\<close>

datatype wire_session_id = WireSessionId u32
datatype wire_window_id = WireWindowId u32
datatype client_id = ClientId u32
datatype group_id = GroupId u32

text \<open>\<open>NonZeroU64\<close>: the constructor functions refuse the reserved zero.\<close>

datatype stream_id = StreamId u64
datatype bootstrap_id = BootstrapId u64

definition stream_id_new :: "u64 \<Rightarrow> stream_id option" where
  "stream_id_new raw = (if raw = 0 then None else Some (StreamId raw))"

definition bootstrap_id_new :: "u64 \<Rightarrow> bootstrap_id option" where
  "bootstrap_id_new raw = (if raw = 0 then None else Some (BootstrapId raw))"

datatype wire_resource_id =
    Local u32
  | Satellite str u32

definition local_id :: "wire_resource_id \<Rightarrow> u32 option" where
  "local_id rid = (case rid of Local n \<Rightarrow> Some n | Satellite _ _ \<Rightarrow> None)"

definition resource_host :: "wire_resource_id \<Rightarrow> str option" where
  "resource_host rid = (case rid of Local _ \<Rightarrow> None | Satellite host _ \<Rightarrow> Some host)"

datatype wire_split_dir = WHorizontal | WVertical

datatype wire_layout =
    WLeaf wire_resource_id
  | WSplit wire_split_dir f32 wire_layout wire_layout

text \<open>ASCII literals of the source as byte strings.\<close>

definition ascii :: "string \<Rightarrow> bytes" where
  "ascii s = map (\<lambda>c. of_nat (of_char c)) s"

end
