(* ===== verification/Client_Layout.thy ===== *)
theory Client_Layout
  imports Wire_Types Pane_Tree
begin

text \<open>
  The client's own copy of the split tree, \<open>phux-client-core/src/layout/mod.rs\<close>: free functions
  over the wire tree that mirror \<open>phux_core::window\<close>. The functions are translated from the
  client's source, independently of the server-side model; the correspondence between the two is
  proved in \<open>Layout_Mirror\<close>.
\<close>

section \<open>Data\<close>

datatype cl_direction = CUp | CDown | CLeft | CRight

datatype cl_layout_error =
    ClPaneNotInLayout wire_resource_id
  | ClInvalidRatio f32
  | ClLastPane

datatype node_step = StepLeft | StepRight

section \<open>Tree operations\<close>

fun cl_contains :: "wire_layout \<Rightarrow> wire_resource_id \<Rightarrow> bool" where
  "cl_contains (WLeaf p) target = (p = target)"
| "cl_contains (WSplit _ _ left right) target =
     (cl_contains left target \<or> cl_contains right target)"

fun cl_collect_leaves :: "wire_layout \<Rightarrow> wire_resource_id list \<Rightarrow> wire_resource_id list" where
  "cl_collect_leaves (WLeaf p) out = out @ [p]"
| "cl_collect_leaves (WSplit _ _ left right) out =
     cl_collect_leaves right (cl_collect_leaves left out)"

definition cl_leaves :: "wire_layout \<Rightarrow> wire_resource_id list" where
  "cl_leaves node = cl_collect_leaves node []"

definition cl_validate_ratio :: "f32 \<Rightarrow> cl_layout_error + unit" where
  "cl_validate_ratio ratio =
     (if f32_is_nan ratio \<or> f32_le ratio f32_zero \<or> f32_le f32_one ratio
      then Err (ClInvalidRatio ratio) else Ok ())"

fun split_inner :: "wire_layout \<Rightarrow> wire_resource_id \<Rightarrow> wire_resource_id \<Rightarrow> wire_split_dir \<Rightarrow> f32
    \<Rightarrow> wire_layout" where
  "split_inner (WLeaf p) target new_pane dir ratio =
     (if p = target then WSplit dir ratio (WLeaf target) (WLeaf new_pane) else WLeaf p)"
| "split_inner (WSplit sd r left right) target new_pane dir ratio =
     (if cl_contains left target
      then WSplit sd r (split_inner left target new_pane dir ratio) right
      else WSplit sd r left (split_inner right target new_pane dir ratio))"

definition cl_split_at :: "wire_layout \<Rightarrow> wire_resource_id \<Rightarrow> wire_resource_id \<Rightarrow> wire_split_dir
    \<Rightarrow> f32 \<Rightarrow> cl_layout_error + wire_layout" where
  "cl_split_at tree target new_pane dir ratio =
     rbind (cl_validate_ratio ratio) (\<lambda>_.
       if \<not> cl_contains tree target then Err (ClPaneNotInLayout target)
       else Ok (split_inner tree target new_pane dir ratio))"

fun set_ratio_inner :: "wire_layout \<Rightarrow> node_step list \<Rightarrow> f32 \<Rightarrow> wire_layout option" where
  "set_ratio_inner (WSplit dir r left right) [] ratio = Some (WSplit dir ratio left right)"
| "set_ratio_inner (WSplit dir r left right) (StepLeft # rest) ratio =
     (case set_ratio_inner left rest ratio of
        None \<Rightarrow> None
      | Some new_left \<Rightarrow> Some (WSplit dir r new_left right))"
| "set_ratio_inner (WSplit dir r left right) (StepRight # rest) ratio =
     (case set_ratio_inner right rest ratio of
        None \<Rightarrow> None
      | Some new_right \<Rightarrow> Some (WSplit dir r left new_right))"
| "set_ratio_inner (WLeaf _) _ ratio = None"

definition set_ratio_at :: "wire_layout \<Rightarrow> node_step list \<Rightarrow> f32 \<Rightarrow> wire_layout option" where
  "set_ratio_at tree path ratio = set_ratio_inner tree path ratio"

fun cl_collapse :: "wire_layout \<Rightarrow> wire_resource_id \<Rightarrow> wire_layout \<times> bool" where
  "cl_collapse (WLeaf p) target = (WLeaf p, False)"
| "cl_collapse (WSplit dir ratio left right) target =
     (if left = WLeaf target then (right, True)
      else if right = WLeaf target then (left, True)
      else (let (new_left, found_l) = cl_collapse left target in
            if found_l then (WSplit dir ratio new_left right, True)
            else (let (new_right, found_r) = cl_collapse right target in
                  (WSplit dir ratio new_left new_right, found_r))))"

definition cl_kill_pane :: "wire_layout \<Rightarrow> wire_resource_id
    \<Rightarrow> cl_layout_error + wire_layout option" where
  "cl_kill_pane tree target =
     (case tree of
        WLeaf p \<Rightarrow> (if p = target then Ok None else Err (ClPaneNotInLayout target))
      | WSplit _ _ _ _ \<Rightarrow>
          (let (new_root, found) = cl_collapse tree target
           in if found then Ok (Some new_root) else Err (ClPaneNotInLayout target)))"

section \<open>Directional focus\<close>

datatype cl_side = ClLeft | ClRight

type_synonym cl_path = "(wire_split_dir \<times> cl_side) list"

fun cl_record_path :: "wire_layout \<Rightarrow> wire_resource_id \<Rightarrow> cl_path \<Rightarrow> bool \<times> cl_path" where
  "cl_record_path (WLeaf p) target out = (p = target, out)"
| "cl_record_path (WSplit sd _ left right) target out =
     (let (found_l, out1) = cl_record_path left target (out @ [(sd, ClLeft)]) in
      if found_l then (True, out1)
      else (let (found_r, out2) = cl_record_path right target (butlast out1 @ [(sd, ClRight)]) in
            if found_r then (True, out2) else (False, butlast out2)))"

fun cl_matches_to_sibling :: "wire_split_dir \<Rightarrow> cl_direction \<Rightarrow> cl_side \<Rightarrow> bool" where
  "cl_matches_to_sibling WHorizontal CRight ClLeft = True"
| "cl_matches_to_sibling WHorizontal CLeft ClRight = True"
| "cl_matches_to_sibling WVertical CDown ClLeft = True"
| "cl_matches_to_sibling WVertical CUp ClRight = True"
| "cl_matches_to_sibling _ _ _ = False"

fun cl_axis_parallel :: "wire_split_dir \<Rightarrow> cl_direction \<Rightarrow> bool" where
  "cl_axis_parallel WHorizontal CLeft = True"
| "cl_axis_parallel WHorizontal CRight = True"
| "cl_axis_parallel WVertical CUp = True"
| "cl_axis_parallel WVertical CDown = True"
| "cl_axis_parallel _ _ = False"

fun cl_perpendicular_axis :: "cl_direction \<Rightarrow> wire_split_dir" where
  "cl_perpendicular_axis CLeft = WVertical"
| "cl_perpendicular_axis CRight = WVertical"
| "cl_perpendicular_axis CUp = WHorizontal"
| "cl_perpendicular_axis CDown = WHorizontal"

text \<open>\<open>path[depth]\<close> is in range at the only call site.\<close>

fun cl_sibling_at_depth :: "wire_layout \<Rightarrow> cl_path \<Rightarrow> nat \<Rightarrow> wire_layout option" where
  "cl_sibling_at_depth (WSplit _ _ left right) ((_, side) # path) 0 =
     Some (case side of ClLeft \<Rightarrow> right | ClRight \<Rightarrow> left)"
| "cl_sibling_at_depth (WSplit _ _ left right) ((_, side) # path) (Suc depth) =
     cl_sibling_at_depth (case side of ClLeft \<Rightarrow> left | ClRight \<Rightarrow> right) path depth"
| "cl_sibling_at_depth _ _ _ = None"

fun cl_descend_loop :: "wire_layout \<Rightarrow> cl_direction \<Rightarrow> cl_side list \<Rightarrow> nat \<Rightarrow> wire_resource_id" where
  "cl_descend_loop (WLeaf p) dir hints hint_idx = p"
| "cl_descend_loop (WSplit sd _ left right) dir hints hint_idx =
     (if cl_axis_parallel sd dir
      then (if dir = CRight \<or> dir = CDown
            then cl_descend_loop left dir hints hint_idx
            else cl_descend_loop right dir hints hint_idx)
      else (let side = (if hint_idx < length hints then hints ! hint_idx else ClLeft) in
            case side of
              ClLeft \<Rightarrow> cl_descend_loop left dir hints (hint_idx + 1)
            | ClRight \<Rightarrow> cl_descend_loop right dir hints (hint_idx + 1)))"

definition cl_descend_to_leaf :: "wire_layout \<Rightarrow> cl_direction \<Rightarrow> cl_path \<Rightarrow> wire_resource_id" where
  "cl_descend_to_leaf node dir suffix =
     (let perp = cl_perpendicular_axis dir;
          hints = map snd (filter (\<lambda>(sd, side). sd = perp) suffix)
      in cl_descend_loop node dir hints 0)"

fun cl_focus_loop :: "wire_layout \<Rightarrow> cl_path \<Rightarrow> cl_direction \<Rightarrow> nat \<Rightarrow> wire_resource_id option" where
  "cl_focus_loop tree path dir 0 = None"
| "cl_focus_loop tree path dir (Suc i) =
     (let (split_dir, came_from) = path ! i in
      if cl_matches_to_sibling split_dir dir came_from
      then (case cl_sibling_at_depth tree path i of
              None \<Rightarrow> None
            | Some sibling \<Rightarrow> Some (cl_descend_to_leaf sibling dir (drop (i + 1) path)))
      else cl_focus_loop tree path dir i)"

definition cl_focus_direction :: "wire_layout \<Rightarrow> wire_resource_id \<Rightarrow> cl_direction
    \<Rightarrow> wire_resource_id option" where
  "cl_focus_direction tree current dir =
     (let (found, path) = cl_record_path tree current [] in
      if \<not> found then None else cl_focus_loop tree path dir (length path))"

end
