(* ===== verification/Layout_Mirror.thy ===== *)
theory Layout_Mirror
  imports Client_Layout Core_Window
begin

text \<open>
  The client's tree functions (\<open>Client_Layout\<close>) implement the server's window operations
  (\<open>Core_Window\<close>): under any naming of wire ids by registry keys that is injective on the panes
  involved, both sides compute the same trees, the same errors and the same focus moves. The
  client functions also satisfy the pane-tree contract.
\<close>

section \<open>The correspondence\<close>

fun core_dir :: "wire_split_dir \<Rightarrow> split_dir" where
  "core_dir WHorizontal = Horizontal"
| "core_dir WVertical = Vertical"

fun core_direction :: "cl_direction \<Rightarrow> direction" where
  "core_direction CUp = Up"
| "core_direction CDown = Down"
| "core_direction CLeft = Left"
| "core_direction CRight = Right"

fun core_side :: "cl_side \<Rightarrow> child_side" where
  "core_side ClLeft = SideLeft"
| "core_side ClRight = SideRight"

fun core_layout :: "(wire_resource_id \<Rightarrow> resource_id) \<Rightarrow> wire_layout \<Rightarrow> layout_node" where
  "core_layout g (WLeaf p) = Leaf (g p)"
| "core_layout g (WSplit d r left right) =
     Split (core_dir d) r (core_layout g left) (core_layout g right)"

definition core_path :: "cl_path \<Rightarrow> node_path" where
  "core_path = map (map_prod core_dir core_side)"

lemma core_path_simps [simp]:
  "core_path [] = []"
  "core_path ((sd, side) # p) = (core_dir sd, core_side side) # core_path p"
  "core_path (p @ q) = core_path p @ core_path q"
  "length (core_path p) = length p"
  "core_path (drop n p) = drop n (core_path p)"
  "core_path (butlast p) = butlast (core_path p)"
  by (simp_all add: core_path_def drop_map map_butlast)

lemma core_dir_eq [simp]: "core_dir a = core_dir b \<longleftrightarrow> a = b"
  by (cases a; cases b) auto

lemma cl_collect_append: "cl_collect_leaves t out = out @ cl_collect_leaves t []"
proof (induction t arbitrary: out)
  case (WSplit d r left right)
  from WSplit.IH(1) WSplit.IH(2) show ?case
    by (metis append.assoc cl_collect_leaves.simps(2))
qed simp

lemma cl_leaves_simps [simp]:
  "cl_leaves (WLeaf p) = [p]"
  "cl_leaves (WSplit d r left right) = cl_leaves left @ cl_leaves right"
  by (simp_all add: cl_leaves_def, metis cl_collect_append)

lemma cl_leaves_nonempty [simp]: "cl_leaves t \<noteq> []"
  by (induction t) auto

lemma cl_contains_iff [simp]: "cl_contains t p \<longleftrightarrow> p \<in> set (cl_leaves t)"
  by (induction t) auto

lemma leaves_core [simp]: "leaves (core_layout g t) = map g (cl_leaves t)"
  by (induction t) auto

text \<open>\<open>g\<close> tells the pane \<open>x\<close> apart from every other pane of the tree.\<close>

definition names :: "(wire_resource_id \<Rightarrow> resource_id) \<Rightarrow> wire_resource_id \<Rightarrow> wire_layout \<Rightarrow> bool" where
  "names g x t \<longleftrightarrow> (\<forall>p \<in> set (cl_leaves t). g p = g x \<longrightarrow> p = x)"

lemma names_simps [simp]:
  "names g x (WLeaf p) \<longleftrightarrow> (g p = g x \<longrightarrow> p = x)"
  "names g x (WSplit d r left right) \<longleftrightarrow> names g x left \<and> names g x right"
  by (auto simp: names_def)

lemma names_member: "names g x t \<Longrightarrow> g x \<in> g ` set (cl_leaves t) \<longleftrightarrow> x \<in> set (cl_leaves t)"
  unfolding names_def by force

lemma names_leaf: "names g x t \<Longrightarrow> core_layout g t = Leaf (g x) \<longleftrightarrow> t = WLeaf x"
  by (cases t) auto

section \<open>Splitting and killing\<close>

lemma split_inner_core:
  "names g x t \<Longrightarrow> x \<in> set (cl_leaves t) \<Longrightarrow>
    split_at (core_layout g t) (g x) (g y) (core_dir d) r = (Ok (), core_layout g (split_inner t x y d r))"
  by (induction t) (auto simp: names_member)

lemma collapse_core:
  "names g x t \<Longrightarrow> collapse (core_layout g t) (g x) = map_prod (core_layout g) id (cl_collapse t x)"
  by (induction t) (auto simp: names_leaf Let_def split: prod.splits)

lemma split_core:
  assumes "win_layout w = Some (core_layout g t)" and "names g x t"
  shows "split w (g x) (g y) (core_dir d) r =
    (case cl_split_at t x y d r of
       Inl (ClInvalidRatio q) \<Rightarrow> (Err (InvalidRatio q), w)
     | Inl (ClPaneNotInLayout p) \<Rightarrow> (Err (PaneNotInLayout (g p)), w)
     | Inl ClLastPane \<Rightarrow> (Err LastPane, w)
     | Inr t' \<Rightarrow> (Ok (), w\<lparr>win_layout := Some (core_layout g t')\<rparr>))"
proof (cases "x \<in> set (cl_leaves t)")
  case True
  with assms show ?thesis
    by (auto simp: split_def cl_split_at_def cl_validate_ratio_def validate_ratio_def split_inner_core)
next
  case False
  then have "g x \<notin> set (leaves (core_layout g t))" using names_member [OF assms(2)] by simp
  from split_at_miss [OF this] False assms(1) show ?thesis
    by (simp add: split_def cl_split_at_def cl_validate_ratio_def validate_ratio_def)
qed

lemma kill_core:
  assumes "win_layout w = Some (core_layout g t)" and "names g x t"
  shows "kill_pane w (g x) =
    (case cl_kill_pane t x of
       Inl _ \<Rightarrow> (Err (PaneNotInLayout (g x)), w)
     | Inr None \<Rightarrow> (Err LastPane, w\<lparr>win_layout := None\<rparr>)
     | Inr (Some t') \<Rightarrow> (Ok (), w\<lparr>win_layout := Some (core_layout g t')\<rparr>))"
proof (cases t)
  case (WLeaf p)
  with assms show ?thesis by (auto simp: kill_pane_def cl_kill_pane_def)
next
  case (WSplit d r a b)
  have miss: "w\<lparr>win_layout := Some (fst (collapse (core_layout g t) (g x)))\<rparr> = w"
    if "\<not> snd (collapse (core_layout g t) (g x))"
    using collapse_miss [OF that] assms(1) by simp
  have "kill_pane w (g x) = (let c = collapse (core_layout g t) (g x) in
      if snd c then (Ok (), w\<lparr>win_layout := Some (fst c)\<rparr>) else (Err (PaneNotInLayout (g x)), w))"
    using assms(1) miss WSplit
    by (simp add: kill_pane_def Let_def case_prod_beta del: collapse.simps)
  with collapse_core [OF assms(2)] WSplit show ?thesis
    by (simp add: cl_kill_pane_def Let_def case_prod_beta del: cl_collapse.simps collapse.simps)
qed

section \<open>Focus\<close>

lemma record_path_core:
  "names g x t \<Longrightarrow> record_path (core_layout g t) (g x) (core_path out) =
     apsnd core_path (cl_record_path t x out)"
proof (induction t arbitrary: out)
  case (WSplit d r a b)
  from WSplit.IH(1) [of "out @ [(d, ClLeft)]"] WSplit.prems
  have 1: "record_path (core_layout g a) (g x) (core_path out @ [(core_dir d, SideLeft)]) =
      apsnd core_path (cl_record_path a x (out @ [(d, ClLeft)]))" by simp
  from WSplit.IH(2) [of "butlast (snd (cl_record_path a x (out @ [(d, ClLeft)]))) @ [(d, ClRight)]"] WSplit.prems
  have 2: "record_path (core_layout g b) (g x)
      (butlast (core_path (snd (cl_record_path a x (out @ [(d, ClLeft)])))) @ [(core_dir d, SideRight)]) =
      apsnd core_path (cl_record_path b x
        (butlast (snd (cl_record_path a x (out @ [(d, ClLeft)]))) @ [(d, ClRight)]))" by simp
  show ?case using 2 by (simp add: 1 Let_def case_prod_beta)
qed auto

lemma matches_core [simp]:
  "matches_to_sibling (core_dir sd) (core_direction dir) (core_side s) = cl_matches_to_sibling sd dir s"
  by (cases sd; cases dir; cases s) auto

lemma axis_core [simp]: "axis_parallel (core_dir sd) (core_direction dir) = cl_axis_parallel sd dir"
  by (cases sd; cases dir) auto

lemma perp_core [simp]: "perpendicular_axis (core_direction dir) = core_dir (cl_perpendicular_axis dir)"
  by (cases dir) auto

lemma sibling_core:
  "sibling_at_depth (core_layout g t) (core_path path) i = map_option (core_layout g) (cl_sibling_at_depth t path i)"
proof (induction t path i rule: cl_sibling_at_depth.induct)
  case (1 uu uv left right uw side path)
  then show ?case by (cases side) auto
next
  case (2 ux uy left right uz side path depth)
  then show ?case by (cases side) auto
qed (auto simp: core_path_def)

lemma descend_core:
  "descend_loop (core_layout g t) (core_direction dir) (map core_side hints) i =
     g (cl_descend_loop t dir hints i)"
proof (induction t arbitrary: i)
  case (WSplit d r a b)
  have "(core_direction dir = Right \<or> core_direction dir = Down) \<longleftrightarrow> (dir = CRight \<or> dir = CDown)"
    by (cases dir) auto
  with WSplit show ?case by (auto simp: Let_def split: cl_side.splits)
qed auto

lemma focus_loop_core:
  "n \<le> length path \<Longrightarrow> focus_loop (core_layout g t) (core_path path) (core_direction dir) n =
     map_option g (cl_focus_loop t path dir n)"
proof (induction n)
  case (Suc n)
  then have nth: "core_path path ! n = map_prod core_dir core_side (path ! n)"
    by (simp add: core_path_def)
  have hints: "map snd (filter (\<lambda>(sd, side). sd = core_dir p) (core_path q)) =
      map core_side (map snd (filter (\<lambda>(sd, side). sd = p) q))" for p q
    by (induction q) (auto simp: core_path_def)
  have "descend_to_leaf (core_layout g s) (core_direction dir) (drop (Suc n) (core_path path)) =
      g (cl_descend_to_leaf s dir (drop (Suc n) path))" for s
    unfolding core_path_simps(5) [symmetric] descend_to_leaf_def cl_descend_to_leaf_def Let_def perp_core
      hints descend_core ..
  with Suc show ?case
    by (simp add: nth sibling_core case_prod_beta split: option.splits)
qed simp

lemma focus_core:
  assumes "win_layout w = Some (core_layout g t)" and "names g x t"
  shows "focus_direction w (g x) (core_direction dir) = map_option g (cl_focus_direction t x dir)"
  using assms record_path_core [OF assms(2), of "[]"] focus_loop_core [OF order_refl]
  by (simp add: focus_direction_def cl_focus_direction_def case_prod_beta)

section \<open>The pane-tree contract of the client\<close>

definition cl_layout_split :: "wire_split_dir \<Rightarrow> f32 \<Rightarrow> wire_layout \<Rightarrow> wire_resource_id
    \<Rightarrow> wire_resource_id \<Rightarrow> wire_layout option" where
  "cl_layout_split dir ratio t x y =
     (if cl_contains t x then Some (split_inner t x y dir ratio) else None)"

definition cl_layout_kill :: "wire_layout \<Rightarrow> wire_resource_id \<Rightarrow> wire_layout option option" where
  "cl_layout_kill t x = (case cl_kill_pane t x of Inl _ \<Rightarrow> None | Inr t' \<Rightarrow> Some t')"

lemma split_inner_leaves:
  "x \<in> set (cl_leaves t) \<Longrightarrow> cl_leaves (split_inner t x y dir ratio) = insert_after x y (cl_leaves t)"
  by (induction t) (auto simp: insert_after_append)

lemma cl_collapse_found: "snd (cl_collapse t x) \<longleftrightarrow> x \<in> set (cl_leaves t) \<and> t \<noteq> WLeaf x"
  by (induction t) (auto simp: Let_def split: prod.splits)

lemma cl_collapse_miss: "\<not> snd (cl_collapse t x) \<Longrightarrow> fst (cl_collapse t x) = t"
  by (induction t) (auto simp: Let_def split: prod.splits if_splits)

lemma cl_collapse_leaves:
  "snd (cl_collapse t x) \<Longrightarrow> distinct (cl_leaves t) \<Longrightarrow>
     cl_leaves (fst (cl_collapse t x)) = filter (\<lambda>z. z \<noteq> x) (cl_leaves t)"
proof (induction t)
  case (WSplit d r a b)
  show ?case
  proof (cases "a = WLeaf x \<or> b = WLeaf x")
    case True
    with WSplit.prems show ?thesis by (auto simp: filter_ne_absent)
  next
    case False
    note fa = cl_collapse_found [of a x] and fb = cl_collapse_found [of b x]
    show ?thesis
    proof (cases "snd (cl_collapse a x)")
      case True
      with fa WSplit.prems have "x \<notin> set (cl_leaves b)" by auto
      with True False WSplit show ?thesis
        by (auto simp: Let_def filter_ne_absent split: prod.splits)
    next
      case nl: False
      with False fa have "x \<notin> set (cl_leaves a)" by auto
      with nl False WSplit cl_collapse_miss [OF nl] show ?thesis
        by (auto simp: Let_def filter_ne_absent split: prod.splits)
    qed
  qed
qed simp

lemma cl_collapse_split:
  "x \<in> set (cl_leaves t) \<Longrightarrow> y \<notin> set (cl_leaves t) \<Longrightarrow>
     cl_collapse (split_inner t x y dir ratio) y = (t, True)"
proof (induction t)
  case (WSplit d r a b)
  have ne: "split_inner u x y dir ratio \<noteq> WLeaf y" if "x \<in> set (cl_leaves u)" for u
    using that by (cases u) auto
  have "cl_collapse a y = (a, False)"
    using WSplit.prems cl_collapse_found [of a y] cl_collapse_miss [of a y]
    by (cases "cl_collapse a y") auto
  with WSplit ne show ?case by auto
qed auto

lemma cl_kill_eq:
  "cl_layout_kill t x = (if t = WLeaf x then Some None
     else if snd (cl_collapse t x) then Some (Some (fst (cl_collapse t x))) else None)"
  by (cases t) (auto simp: cl_layout_kill_def cl_kill_pane_def Let_def case_prod_beta
      simp del: cl_collapse.simps(2))

interpretation client_tree: pane_tree cl_leaves WLeaf "cl_layout_split dir ratio" cl_layout_kill
  for dir ratio
proof (unfold_locales, goal_cases)
  case (3 x t y)
  then show ?case by (simp add: cl_layout_split_def split_inner_leaves)
next
  case (4 x t y)
  then show ?case by (simp add: cl_layout_split_def)
next
  case (5 x t)
  then show ?case by (auto simp: cl_kill_eq cl_collapse_found)
next
  case (6 t x)
  show ?case by (cases t) (auto simp: cl_kill_eq append_eq_Cons_conv)
next
  case (7 t x t')
  then show ?case by (auto simp: cl_kill_eq cl_collapse_leaves split: if_splits)
next
  case (8 x t)
  then show ?case by (auto simp: cl_kill_eq cl_collapse_found)
next
  case (9 t x y t')
  then have t': "x \<in> set (cl_leaves t)" "t' = split_inner t x y dir ratio"
    by (auto simp: cl_layout_split_def split: if_splits)
  moreover have "t' \<noteq> WLeaf y" using t' by (cases t) auto
  ultimately show ?case using cl_collapse_split [of x t y dir ratio] 9 by (simp add: cl_kill_eq)
qed auto

section \<open>Properties\<close>

text \<open>
  C11. The client's copy of the layout algorithms mirrors the server's. Over corresponding
  trees, with pane names injective on the panes concerned: \<open>split_at\<close> and \<open>Window::split\<close> return
  corresponding trees or the same error, \<open>kill_pane\<close> agrees up to the way the last pane is
  signalled, and directional focus moves to corresponding panes.
\<close>

theorem client_mirrors_core:
  assumes "win_layout w = Some (core_layout g t)"
    and "\<forall>p \<in> set (cl_leaves t). g p = g x \<longrightarrow> p = x"
  shows "split w (g x) (g y) (core_dir d) r =
      (case cl_split_at t x y d r of
         Inl (ClInvalidRatio q) \<Rightarrow> (Err (InvalidRatio q), w)
       | Inl (ClPaneNotInLayout p) \<Rightarrow> (Err (PaneNotInLayout (g p)), w)
       | Inl ClLastPane \<Rightarrow> (Err LastPane, w)
       | Inr t' \<Rightarrow> (Ok (), w\<lparr>win_layout := Some (core_layout g t')\<rparr>))
    \<and> kill_pane w (g x) =
      (case cl_kill_pane t x of
         Inl _ \<Rightarrow> (Err (PaneNotInLayout (g x)), w)
       | Inr None \<Rightarrow> (Err LastPane, w\<lparr>win_layout := None\<rparr>)
       | Inr (Some t') \<Rightarrow> (Ok (), w\<lparr>win_layout := Some (core_layout g t')\<rparr>))
    \<and> focus_direction w (g x) (core_direction dir) = map_option g (cl_focus_direction t x dir)"
proof -
  from assms(2) have "names g x t" unfolding names_def .
  with assms(1) show ?thesis by (simp add: split_core kill_core focus_core)
qed

theorem client_mirrors_core_witness:
  "let g = (\<lambda>r. case r of Local n \<Rightarrow> ResourceId (unat n) | Satellite _ n \<Rightarrow> ResourceId (unat n + 100));
       t = WSplit WVertical f32_half (WLeaf (Local 1)) (WLeaf (Local 2))
   in core_layout g t = the (win_layout example_window)
      \<and> focus_direction example_window (g (Local 1)) Down = map_option g (cl_focus_direction t (Local 1) CDown)"
proof -
  define g where "g = (\<lambda>r. case r of Local n \<Rightarrow> ResourceId (unat n) | Satellite _ n \<Rightarrow> ResourceId (unat n + 100))"
  define t where "t = WSplit WVertical f32_half (WLeaf (Local 1)) (WLeaf (Local 2))"
  have l: "win_layout example_window = Some (core_layout g t)"
    by (simp add: example_window_def g_def t_def)
  moreover have "\<forall>p \<in> set (cl_leaves t). g p = g (Local 1) \<longrightarrow> p = Local 1"
    by (simp add: g_def t_def)
  ultimately have "focus_direction example_window (g (Local 1)) (core_direction CDown) =
      map_option g (cl_focus_direction t (Local 1) CDown)"
    using client_mirrors_core [of example_window g t "Local 1"] by blast
  with l show ?thesis unfolding Let_def g_def [symmetric] t_def [symmetric] by simp
qed

end
