(* ===== verification/Client_Workspace.thy ===== *)
theory Client_Workspace
  imports Layout_Mirror
begin

text \<open>
  The client's workspace, \<open>phux-client-core/src/layout/mod.rs\<close> with \<open>identity.rs\<close> and
  \<open>serialize.rs\<close>: the windows with their layouts, the active index, durable window identities
  and the persisted envelope. SHA-256 (\<open>sha2\<close>) and the CBOR serializer (\<open>ciborium\<close>) are other
  packages: they are arguments of the definitions that call them.
\<close>

section \<open>State\<close>

record layout_state =
  ls_tree :: "wire_layout option"
  ls_focus :: "wire_resource_id option"

record window_state =
  ws_id :: bytes
  ws_name :: str
  ws_state :: layout_state

record workspace =
  wk_windows :: "window_state list"
  wk_active :: nat

definition layout_single :: "wire_resource_id \<Rightarrow> layout_state" where
  "layout_single pane = \<lparr>ls_tree = Some (WLeaf pane), ls_focus = Some pane\<rparr>"

definition seeded :: "window_state \<Rightarrow> bool" where
  "seeded w \<longleftrightarrow> ls_tree (ws_state w) \<noteq> None"

section \<open>Window identities\<close>

type_synonym digest = "bytes \<Rightarrow> bytes"

definition zero_id :: bytes where
  "zero_id = replicate 16 0"

fun terminal_id_input :: "wire_resource_id \<Rightarrow> bytes" where
  "terminal_id_input (Local n) = ascii ''phux.layout.window-id/v1'' @ [0] @ [0] @ to_be 4 n"
| "terminal_id_input (Satellite host n) =
     ascii ''phux.layout.window-id/v1'' @ [0] @ [1] @ host @ [0] @ to_be 4 n"

definition terminal_id :: "digest \<Rightarrow> wire_resource_id \<Rightarrow> bytes" where
  "terminal_id sha256 terminal = take 16 (sha256 (terminal_id_input terminal))"

definition tree_id :: "digest \<Rightarrow> wire_layout \<Rightarrow> bytes" where
  "tree_id sha256 tree =
     (case first (cl_leaves tree) of None \<Rightarrow> zero_id | Some t \<Rightarrow> terminal_id sha256 t)"

definition seed_id :: "digest \<Rightarrow> layout_state \<Rightarrow> bytes" where
  "seed_id sha256 state =
     (case ls_tree state of None \<Rightarrow> zero_id | Some tree \<Rightarrow> tree_id sha256 tree)"

definition window_state_new :: "digest \<Rightarrow> str \<Rightarrow> layout_state \<Rightarrow> window_state" where
  "window_state_new sha256 name state =
     \<lparr>ws_id = seed_id sha256 state, ws_name = name, ws_state = state\<rparr>"

definition rehash :: "digest \<Rightarrow> bytes \<Rightarrow> bytes" where
  "rehash sha256 wid =
     take 16 (sha256 (ascii ''phux.layout.window-id/collision/v1'' @ [0] @ wid))"

text \<open>The loop that replaces an identity already taken; nothing bounds it in the source.\<close>

partial_function (option) fresh_loop :: "digest \<Rightarrow> window_state list \<Rightarrow> bytes \<Rightarrow> bytes option" where
  "fresh_loop sha256 windows wid =
     (if wid = zero_id \<or> (\<exists>w \<in> set windows. ws_id w = wid)
      then fresh_loop sha256 windows (rehash sha256 wid) else Some wid)"

definition fresh_id :: "digest \<Rightarrow> wire_resource_id \<Rightarrow> window_state list \<Rightarrow> bytes option" where
  "fresh_id sha256 seed windows = fresh_loop sha256 windows (terminal_id sha256 seed)"

section \<open>Workspace operations\<close>

definition workspace_new :: workspace where
  "workspace_new = \<lparr>wk_windows = [], wk_active = 0\<rparr>"

definition workspace_single :: "digest \<Rightarrow> wire_resource_id \<Rightarrow> workspace" where
  "workspace_single sha256 pane =
     \<lparr>wk_windows = [\<lparr>ws_id = terminal_id sha256 pane, ws_name = ascii ''1'',
        ws_state = layout_single pane\<rparr>], wk_active = 0\<rparr>"

definition get :: "'a list \<Rightarrow> nat \<Rightarrow> 'a option" where
  "get xs i = (if i < length xs then Some (xs ! i) else None)"

definition active_window :: "workspace \<Rightarrow> layout_state option" where
  "active_window wk = map_option ws_state (get (wk_windows wk) (wk_active wk))"

definition active_window_mut :: "workspace \<Rightarrow> (layout_state \<Rightarrow> layout_state) \<Rightarrow> workspace" where
  "active_window_mut wk f =
     (case get (wk_windows wk) (wk_active wk) of
        None \<Rightarrow> wk
      | Some w \<Rightarrow> wk\<lparr>wk_windows := (wk_windows wk)[wk_active wk := w\<lparr>ws_state := f (ws_state w)\<rparr>]\<rparr>)"

definition render_window :: "workspace \<Rightarrow> wire_resource_id option \<Rightarrow> layout_state option" where
  "render_window wk zoomed =
     (case active_window wk of
        None \<Rightarrow> None
      | Some active \<Rightarrow>
          (case zoomed of
             None \<Rightarrow> Some active
           | Some rid \<Rightarrow>
               (case ls_tree active of
                  None \<Rightarrow> Some active
                | Some t \<Rightarrow> if rid \<in> set (cl_leaves t) then Some (layout_single rid) else Some active)))"

definition add_window :: "digest \<Rightarrow> workspace \<Rightarrow> str \<Rightarrow> wire_resource_id \<Rightarrow> workspace option" where
  "add_window sha256 wk name seed =
     (case fresh_id sha256 seed (wk_windows wk) of
        None \<Rightarrow> None
      | Some wid \<Rightarrow>
          (let windows = wk_windows wk @ [\<lparr>ws_id = wid, ws_name = name, ws_state = layout_single seed\<rparr>]
           in Some \<lparr>wk_windows = windows, wk_active = length windows - 1\<rparr>))"

definition prune_empty_windows :: "workspace \<Rightarrow> bool \<times> workspace" where
  "prune_empty_windows wk =
     (if list_all seeded (wk_windows wk) then (False, wk)
      else
        (let active_survives = (case get (wk_windows wk) (wk_active wk) of
                                  None \<Rightarrow> False | Some w \<Rightarrow> seeded w);
             survivors_before = length (filter seeded
               (take (min (wk_active wk) (length (wk_windows wk))) (wk_windows wk)));
             windows = retain seeded (wk_windows wk);
             active = (if windows = [] then 0
                       else if active_survives then survivors_before
                       else min survivors_before (length windows - 1))
         in (True, \<lparr>wk_windows = windows, wk_active = active\<rparr>)))"

definition workspace_next :: "workspace \<Rightarrow> workspace" where
  "workspace_next wk =
     (if wk_windows wk \<noteq> []
      then wk\<lparr>wk_active := (wk_active wk + 1) mod length (wk_windows wk)\<rparr> else wk)"

definition workspace_prev :: "workspace \<Rightarrow> workspace" where
  "workspace_prev wk =
     (if wk_windows wk \<noteq> []
      then wk\<lparr>wk_active := (wk_active wk + length (wk_windows wk) - 1) mod length (wk_windows wk)\<rparr>
      else wk)"

definition workspace_select :: "workspace \<Rightarrow> nat \<Rightarrow> bool \<times> workspace" where
  "workspace_select wk idx =
     (if idx < length (wk_windows wk) then (True, wk\<lparr>wk_active := idx\<rparr>) else (False, wk))"

definition rename_active :: "workspace \<Rightarrow> str \<Rightarrow> workspace" where
  "rename_active wk name =
     (case get (wk_windows wk) (wk_active wk) of
        None \<Rightarrow> wk
      | Some w \<Rightarrow> wk\<lparr>wk_windows := (wk_windows wk)[wk_active wk := w\<lparr>ws_name := name\<rparr>]\<rparr>)"

text \<open>\<open>u32::from_str\<close>: an optional plus sign, then decimal digits, refusing overflow.\<close>

fun parse_digits :: "nat \<Rightarrow> bytes \<Rightarrow> nat option" where
  "parse_digits acc [] = Some acc"
| "parse_digits acc (b # bs) =
     (if 0x30 \<le> b \<and> b \<le> 0x39 then
        (let acc' = acc * 10 + (unat b - 0x30)
         in if acc' < 2 ^ 32 then parse_digits acc' bs else None)
      else None)"

definition parse_u32 :: "str \<Rightarrow> nat option" where
  "parse_u32 s =
     (let digits = (case s of b # bs \<Rightarrow> if b = 0x2B then bs else s | [] \<Rightarrow> [])
      in if digits = [] then None else parse_digits 0 digits)"

fun print_nat :: "nat \<Rightarrow> str" where
  "print_nat n =
     (if n < 10 then [of_nat (0x30 + n)] else print_nat (n div 10) @ [of_nat (0x30 + n mod 10)])"

function find_unused :: "nat set \<Rightarrow> nat \<Rightarrow> nat option" where
  "find_unused used n =
     (if 2 ^ 32 \<le> n then None else if n \<in> used then find_unused used (n + 1) else Some n)"
  by pat_completeness auto

termination find_unused
  by (relation "measure (\<lambda>(used, n). 2 ^ 32 - n)") auto

declare find_unused.simps [simp del] print_nat.simps [simp del]

definition default_window_name :: "workspace \<Rightarrow> str" where
  "default_window_name wk =
     (let used = set (List.map_filter (\<lambda>w. parse_u32 (ws_name w)) (wk_windows wk))
      in print_nat (case find_unused used 1 of None \<Rightarrow> 1 | Some n \<Rightarrow> n))"

section \<open>The persisted envelope\<close>

datatype cbor_split_dir = CborHorizontal | CborVertical

datatype cbor_resource_id = CborLocal u32 | CborSatellite str u32

datatype cbor_layout_node =
    CborLeaf cbor_resource_id
  | CborSplit cbor_split_dir f32 cbor_layout_node cbor_layout_node

record cbor_window =
  cw_id :: bytes
  cw_name :: str
  cw_root :: cbor_layout_node
  cw_focused :: cbor_resource_id

record cbor_envelope =
  ce_version :: u8
  ce_windows :: "cbor_window list"
  ce_focused :: u32

datatype layout_decode_error =
    UnsupportedVersion u8
  | MalformedRatio f32
  | CborDecode string
  | NonTerminalLeaf wire_resource_id

datatype layout_encode_error = EmptyLayout | CborEncode string

definition layout_envelope_version :: u8 where
  "layout_envelope_version = 3"

fun cbor_dir :: "wire_split_dir \<Rightarrow> cbor_split_dir" where
  "cbor_dir WHorizontal = CborHorizontal"
| "cbor_dir WVertical = CborVertical"

fun wire_dir :: "cbor_split_dir \<Rightarrow> wire_split_dir" where
  "wire_dir CborHorizontal = WHorizontal"
| "wire_dir CborVertical = WVertical"

fun cbor_rid :: "wire_resource_id \<Rightarrow> cbor_resource_id" where
  "cbor_rid (Local n) = CborLocal n"
| "cbor_rid (Satellite host n) = CborSatellite host n"

fun wire_rid :: "cbor_resource_id \<Rightarrow> wire_resource_id" where
  "wire_rid (CborLocal n) = Local n"
| "wire_rid (CborSatellite host n) = Satellite host n"

fun cbor_node :: "wire_layout \<Rightarrow> cbor_layout_node" where
  "cbor_node (WLeaf pane) = CborLeaf (cbor_rid pane)"
| "cbor_node (WSplit dir ratio left right) =
     CborSplit (cbor_dir dir) ratio (cbor_node left) (cbor_node right)"

fun into_layout_node :: "cbor_layout_node \<Rightarrow> layout_decode_error + wire_layout" where
  "into_layout_node (CborLeaf pane) = Ok (WLeaf (wire_rid pane))"
| "into_layout_node (CborSplit dir ratio left right) =
     (if \<not> f32_is_finite ratio \<or> \<not> (f32_le f32_zero ratio \<and> f32_le ratio f32_one)
      then Err (MalformedRatio ratio)
      else rbind (into_layout_node left) (\<lambda>l.
             rbind (into_layout_node right) (\<lambda>r. Ok (WSplit (wire_dir dir) ratio l r))))"

fun encode_windows :: "window_state list \<Rightarrow> layout_encode_error + cbor_window list" where
  "encode_windows [] = Ok []"
| "encode_windows (w # ws) =
     (if ws_id w = zero_id then Err EmptyLayout
      else case (ls_tree (ws_state w), ls_focus (ws_state w)) of
             (Some tree, Some focus) \<Rightarrow>
               rbind (encode_windows ws) (\<lambda>rest.
                 Ok (\<lparr>cw_id = ws_id w, cw_name = ws_name w, cw_root = cbor_node tree,
                      cw_focused = cbor_rid focus\<rparr> # rest))
           | _ \<Rightarrow> Err EmptyLayout)"

definition encode_topology_cbor :: "(cbor_envelope \<Rightarrow> string + bytes) \<Rightarrow> workspace
    \<Rightarrow> layout_encode_error + bytes" where
  "encode_topology_cbor into_writer wk =
     rbind (encode_windows (wk_windows wk)) (\<lambda>windows.
       case into_writer \<lparr>ce_version = layout_envelope_version, ce_windows = windows,
              ce_focused = (if wk_active wk < 2 ^ 32 then of_nat (wk_active wk) else 0)\<rparr> of
         Inl e \<Rightarrow> Err (CborEncode e)
       | Inr buf \<Rightarrow> Ok buf)"

definition encode_cbor :: "(cbor_envelope \<Rightarrow> string + bytes) \<Rightarrow> workspace
    \<Rightarrow> layout_encode_error + bytes" where
  "encode_cbor into_writer wk =
     (if wk_windows wk = [] then Err EmptyLayout else encode_topology_cbor into_writer wk)"

fun decode_windows :: "cbor_window list \<Rightarrow> layout_decode_error + window_state list" where
  "decode_windows [] = Ok []"
| "decode_windows (w # ws) =
     rbind (into_layout_node (cw_root w)) (\<lambda>tree.
       rbind (decode_windows ws) (\<lambda>rest.
         Ok (\<lparr>ws_id = cw_id w, ws_name = cw_name w,
              ws_state = \<lparr>ls_tree = Some tree, ls_focus = Some (wire_rid (cw_focused w))\<rparr>\<rparr> # rest)))"

text \<open>The \<open>HashSet\<close> of identities seen so far, with the early exit of \<open>any\<close>.\<close>

fun validate_ids :: "bytes set \<Rightarrow> window_state list \<Rightarrow> bool" where
  "validate_ids seen [] = True"
| "validate_ids seen (w # ws) =
     (if ws_id w = zero_id \<or> ws_id w \<in> seen then False
      else validate_ids (insert (ws_id w) seen) ws)"

definition validate :: "window_state list \<Rightarrow> layout_decode_error + unit" where
  "validate windows =
     (if validate_ids {} windows then Ok ()
      else Err (CborDecode ''zero or duplicate layout window identity''))"

definition decode_current :: "(bytes \<Rightarrow> string + cbor_envelope) \<Rightarrow> bytes
    \<Rightarrow> layout_decode_error + workspace" where
  "decode_current from_reader bytes =
     (case from_reader bytes of
        Inl e \<Rightarrow> Err (CborDecode e)
      | Inr envelope \<Rightarrow>
          rbind (decode_windows (ce_windows envelope)) (\<lambda>windows.
            rbind (validate windows) (\<lambda>_.
              Ok \<lparr>wk_windows = windows,
                 wk_active = min (unat (ce_focused envelope)) (length windows - 1)\<rparr>)))"

definition decode_cbor :: "(bytes \<Rightarrow> string + u8) \<Rightarrow> (bytes \<Rightarrow> string + cbor_envelope) \<Rightarrow> bytes
    \<Rightarrow> layout_decode_error + workspace" where
  "decode_cbor read_version from_reader bytes =
     (case read_version bytes of
        Inl e \<Rightarrow> Err (CborDecode e)
      | Inr version \<Rightarrow>
          (if version \<noteq> layout_envelope_version then Err (UnsupportedVersion version)
           else decode_current from_reader bytes))"

definition decode_cbor_checked :: "(bytes \<Rightarrow> string + u8) \<Rightarrow> (bytes \<Rightarrow> string + cbor_envelope)
    \<Rightarrow> bytes \<Rightarrow> (wire_resource_id \<Rightarrow> bool) \<Rightarrow> layout_decode_error + workspace" where
  "decode_cbor_checked read_version from_reader bytes is_terminal =
     rbind (decode_cbor read_version from_reader bytes) (\<lambda>wk.
       case find (\<lambda>leaf. \<not> is_terminal leaf)
              (concat (map cl_leaves (List.map_filter (\<lambda>w. ls_tree (ws_state w)) (wk_windows wk)))) of
         None \<Rightarrow> Ok wk
       | Some leaf \<Rightarrow> Err (NonTerminalLeaf leaf))"

section \<open>The workspace invariant\<close>

text \<open>
  The active index names a window whenever there is one and identities are pairwise different; the
  all-zero identity, which stands for no identity, may occur only if \<open>zero\<close>.
\<close>

definition wf_windows :: "bool \<Rightarrow> workspace \<Rightarrow> bool" where
  "wf_windows zero wk \<longleftrightarrow> (wk_windows wk \<noteq> [] \<longrightarrow> wk_active wk < length (wk_windows wk))
     \<and> distinct (map ws_id (wk_windows wk)) \<and> (zero_id \<in> set (map ws_id (wk_windows wk)) \<longrightarrow> zero)"

definition wf_workspace :: "workspace \<Rightarrow> bool" where
  "wf_workspace wk \<longleftrightarrow> (wk_windows wk \<noteq> [] \<longrightarrow> wk_active wk < length (wk_windows wk))
     \<and> distinct (map ws_id (wk_windows wk)) \<and> zero_id \<notin> set (map ws_id (wk_windows wk))"

lemma get_simps [simp]: "i < length xs \<Longrightarrow> get xs i = Some (xs ! i)" "\<not> i < length xs \<Longrightarrow> get xs i = None"
  by (simp_all add: get_def)

lemma get_append [simp]: "get (xs @ w # ys) (length xs) = Some w"
  by (simp add: get_def)

lemma fresh_loop_fresh:
  assumes "fresh_loop sha256 windows wid = Some r"
  shows "r \<noteq> zero_id \<and> r \<notin> ws_id ` set windows"
proof (rule fresh_loop.raw_induct [OF _ assms,
      of "\<lambda>sha256 windows wid r. r \<noteq> zero_id \<and> r \<notin> ws_id ` set windows"])
  fix f sha256 windows wid r
  assume "\<And>sha256 windows wid r. f sha256 windows wid = Some r \<Longrightarrow>
      r \<noteq> zero_id \<and> r \<notin> ws_id ` set windows"
    and "(if wid = zero_id \<or> (\<exists>w \<in> set windows. ws_id w = wid)
      then f sha256 windows (rehash sha256 wid) else Some wid) = Some r"
  then show "r \<noteq> zero_id \<and> r \<notin> ws_id ` set windows"
    by (cases "wid = zero_id \<or> (\<exists>w \<in> set windows. ws_id w = wid)") auto
qed

text \<open>The identities the loop tries, in order.\<close>

fun tried :: "digest \<Rightarrow> bytes \<Rightarrow> nat \<Rightarrow> bytes list" where
  "tried sha256 wid 0 = []"
| "tried sha256 wid (Suc n) = wid # tried sha256 (rehash sha256 wid) n"

lemma length_tried [simp]: "length (tried sha256 wid n) = n"
  by (induction n arbitrary: wid) auto

lemma fresh_loop_returns:
  "\<exists>r \<in> set (tried sha256 wid n). r \<noteq> zero_id \<and> r \<notin> ws_id ` set windows \<Longrightarrow>
     \<exists>r. fresh_loop sha256 windows wid = Some r"
proof (induction n arbitrary: wid)
  case (Suc n)
  show ?case
  proof (cases "wid = zero_id \<or> (\<exists>w \<in> set windows. ws_id w = wid)")
    case True
    with Suc.prems have "\<exists>r \<in> set (tried sha256 (rehash sha256 wid) n).
        r \<noteq> zero_id \<and> r \<notin> ws_id ` set windows" by auto
    from Suc.IH [OF this] True show ?thesis by (simp add: fresh_loop.simps [of sha256 windows wid])
  next
    case False
    then show ?thesis by (simp add: fresh_loop.simps [of sha256 windows wid])
  qed
qed simp

end
