(* ===== verification/Client_Workspace_Inv.thy ===== *)
theory Client_Workspace_Inv
  imports Client_Workspace
begin

text \<open>
  Correctness of the client's workspace: identities stay distinct and non-zero, the active index
  stays in range and on the same window, and default names are unused.
\<close>

section \<open>Pruning\<close>

lemma prune_eq:
  assumes "wk_windows wk = xs @ w # ys" and "wk_active wk = length xs"
  shows "snd (prune_empty_windows wk) = \<lparr>wk_windows = filter seeded (xs @ w # ys),
     wk_active = (if filter seeded (xs @ w # ys) = [] then 0
        else if seeded w then length (filter seeded xs)
        else min (length (filter seeded xs)) (length (filter seeded (xs @ w # ys)) - 1))\<rparr>"
proof (cases "list_all seeded (xs @ w # ys)")
  case True
  then have "filter seeded (xs @ w # ys) = xs @ w # ys" "filter seeded xs = xs" "seeded w"
    by (auto simp: list_all_iff filter_id_conv)
  with assms True show ?thesis by (simp add: prune_empty_windows_def)
next
  case False
  with assms show ?thesis
    by (auto simp: prune_empty_windows_def Let_def retain_def)
qed

lemma prune_windows: "wk_windows (snd (prune_empty_windows wk)) = filter seeded (wk_windows wk)"
  by (auto simp: prune_empty_windows_def Let_def retain_def list_all_iff filter_id_conv)

lemma wf_split:
  assumes "wf_windows zero wk" and "wk_windows wk \<noteq> []"
  obtains xs w ys where "wk_windows wk = xs @ w # ys" "wk_active wk = length xs"
proof -
  from assms have "wk_active wk < length (wk_windows wk)" by (simp add: wf_windows_def)
  then have "wk_windows wk = take (wk_active wk) (wk_windows wk) @ wk_windows wk ! wk_active wk
      # drop (Suc (wk_active wk)) (wk_windows wk)" "length (take (wk_active wk) (wk_windows wk)) = wk_active wk"
    by (simp_all add: id_take_nth_drop)
  with that show thesis by metis
qed

section \<open>Every operation keeps the invariant\<close>

lemma wf_new [inv_intros]: "wf_windows zero workspace_new"
  by (simp add: wf_windows_def workspace_new_def)

lemma wf_single [inv_intros]:
  "(terminal_id sha256 pane = zero_id \<Longrightarrow> zero) \<Longrightarrow> wf_windows zero (workspace_single sha256 pane)"
  by (auto simp: wf_windows_def workspace_single_def)

lemma wf_add [inv_intros]:
  "wf_windows zero wk \<Longrightarrow> add_window sha256 wk name seed = Some wk' \<Longrightarrow> wf_windows zero wk'"
  using fresh_loop_fresh
  by (fastforce simp: wf_windows_def add_window_def fresh_id_def Let_def split: option.splits)

lemma wf_prune [inv_intros]: "wf_windows zero wk \<Longrightarrow> wf_windows zero (snd (prune_empty_windows wk))"
proof (cases "wk_windows wk = []")
  case True
  then have "snd (prune_empty_windows wk) = wk" by (simp add: prune_empty_windows_def)
  then show "wf_windows zero wk \<Longrightarrow> ?thesis" by simp
next
  case False
  assume wf: "wf_windows zero wk"
  obtain xs w ys where wk: "wk_windows wk = xs @ w # ys" "wk_active wk = length xs"
    using wf_split [OF wf False] .
  have "distinct (map ws_id (filter seeded (wk_windows wk)))"
    using wf by (simp add: wf_windows_def distinct_map_filter)
  moreover have "zero_id \<in> set (map ws_id (filter seeded (wk_windows wk))) \<longrightarrow> zero"
    using wf by (auto simp: wf_windows_def)
  moreover have "wk_active (snd (prune_empty_windows wk)) < length (filter seeded (wk_windows wk))"
    if ne: "filter seeded (wk_windows wk) \<noteq> []"
  proof (cases "seeded w")
    case True
    with wk show ?thesis by (simp add: prune_eq [OF wk])
  next
    case False
    with ne have "wk_active (snd (prune_empty_windows wk)) \<le> length (filter seeded (wk_windows wk)) - 1"
      unfolding prune_eq [OF wk] wk(1) by simp
    with ne show ?thesis by (cases "filter seeded (wk_windows wk)") auto
  qed
  ultimately show ?thesis unfolding wf_windows_def prune_windows by blast
qed

lemma wf_next [inv_intros]: "wf_windows zero wk \<Longrightarrow> wf_windows zero (workspace_next wk)"
  by (simp add: wf_windows_def workspace_next_def)

lemma wf_prev [inv_intros]: "wf_windows zero wk \<Longrightarrow> wf_windows zero (workspace_prev wk)"
  by (simp add: wf_windows_def workspace_prev_def)

lemma wf_select [inv_intros]: "wf_windows zero wk \<Longrightarrow> wf_windows zero (snd (workspace_select wk idx))"
  by (simp add: wf_windows_def workspace_select_def)

lemma map_id_update: "i < length ws \<Longrightarrow> ws_id w' = ws_id (ws ! i) \<Longrightarrow> map ws_id (ws[i := w']) = map ws_id ws"
  by (simp add: map_update list_update_same_conv)

lemma wf_update:
  assumes "wf_windows zero wk" and "i < length (wk_windows wk)"
    and "ws_id w' = ws_id (wk_windows wk ! i)"
  shows "wf_windows zero (wk\<lparr>wk_windows := (wk_windows wk)[i := w']\<rparr>)"
  using assms map_id_update [OF assms(2,3)] unfolding wf_windows_def
  by (simp flip: set_map)

lemma wf_rename [inv_intros]: "wf_windows zero wk \<Longrightarrow> wf_windows zero (rename_active wk name)"
  using wf_update by (auto simp: rename_active_def get_def split: option.splits if_splits)

lemma wf_active_mut [inv_intros]: "wf_windows zero wk \<Longrightarrow> wf_windows zero (active_window_mut wk f)"
  using wf_update by (auto simp: active_window_mut_def get_def split: option.splits if_splits)

text \<open>
  The attached client also writes the layout of a window it looked up by its panes, active or not:
  \<open>workspace.windows[index].state\<close> in \<open>run_action.rs\<close> and \<open>server_frame/handler.rs\<close>.
\<close>

definition window_state_mut :: "workspace \<Rightarrow> nat \<Rightarrow> (layout_state \<Rightarrow> layout_state) \<Rightarrow> workspace" where
  "window_state_mut wk i f =
     (case get (wk_windows wk) i of
        None \<Rightarrow> wk
      | Some w \<Rightarrow> wk\<lparr>wk_windows := (wk_windows wk)[i := w\<lparr>ws_state := f (ws_state w)\<rparr>]\<rparr>)"

lemma wf_window_state_mut [inv_intros]: "wf_windows zero wk \<Longrightarrow> wf_windows zero (window_state_mut wk i f)"
  using wf_update by (auto simp: window_state_mut_def get_def split: option.splits if_splits)

lemma validate_ids_iff:
  "validate_ids seen ws \<longleftrightarrow> zero_id \<notin> ws_id ` set ws \<and> distinct (map ws_id ws) \<and> seen \<inter> ws_id ` set ws = {}"
  by (induction ws arbitrary: seen) auto

lemma wf_decode [inv_intros]:
  assumes "decode_cbor read_version from_reader bs = Ok wk"
  shows "wf_windows zero wk"
  using assms
  by (auto simp: decode_cbor_def decode_current_def rbind_eq_Inr validate_def validate_ids_iff wf_windows_def
      min_less_iff_disj split: sum.splits if_splits)

lemma wf_decode_checked [inv_intros]:
  assumes "decode_cbor_checked read_version from_reader bs is_terminal = Ok wk"
  shows "wf_windows zero wk"
  using assms wf_decode [of read_version from_reader bs wk zero]
  by (auto simp: decode_cbor_checked_def rbind_eq_Inr split: option.splits)

section \<open>Reachable workspaces\<close>

text \<open>
  A workspace the layout module built: one of its constructors or decoders, then any of its methods
  and any layout edit of any window. What the parsers of \<open>ciborium\<close> make of a document is left
  open.
\<close>

inductive workspace_reachable :: "digest \<Rightarrow> (bytes \<Rightarrow> string + u8) \<Rightarrow> (bytes \<Rightarrow> string + cbor_envelope)
    \<Rightarrow> workspace \<Rightarrow> bool"
  for sha256 :: digest and read_version :: "bytes \<Rightarrow> string + u8"
    and from_reader :: "bytes \<Rightarrow> string + cbor_envelope" where
  wk_new: "workspace_reachable sha256 read_version from_reader workspace_new"
| wk_single: "workspace_reachable sha256 read_version from_reader (workspace_single sha256 pane)"
| wk_decode: "decode_cbor read_version from_reader bs = Ok wk \<Longrightarrow>
    workspace_reachable sha256 read_version from_reader wk"
| wk_decode_checked: "decode_cbor_checked read_version from_reader bs is_terminal = Ok wk \<Longrightarrow>
    workspace_reachable sha256 read_version from_reader wk"
| wk_add: "workspace_reachable sha256 read_version from_reader wk \<Longrightarrow>
    add_window sha256 wk name seed = Some wk' \<Longrightarrow> workspace_reachable sha256 read_version from_reader wk'"
| wk_prune: "workspace_reachable sha256 read_version from_reader wk \<Longrightarrow>
    workspace_reachable sha256 read_version from_reader (snd (prune_empty_windows wk))"
| wk_next: "workspace_reachable sha256 read_version from_reader wk \<Longrightarrow>
    workspace_reachable sha256 read_version from_reader (workspace_next wk)"
| wk_prev: "workspace_reachable sha256 read_version from_reader wk \<Longrightarrow>
    workspace_reachable sha256 read_version from_reader (workspace_prev wk)"
| wk_select: "workspace_reachable sha256 read_version from_reader wk \<Longrightarrow>
    workspace_reachable sha256 read_version from_reader (snd (workspace_select wk idx))"
| wk_rename: "workspace_reachable sha256 read_version from_reader wk \<Longrightarrow>
    workspace_reachable sha256 read_version from_reader (rename_active wk name)"
| wk_edit: "workspace_reachable sha256 read_version from_reader wk \<Longrightarrow>
    workspace_reachable sha256 read_version from_reader (active_window_mut wk f)"
| wk_edit_at: "workspace_reachable sha256 read_version from_reader wk \<Longrightarrow>
    workspace_reachable sha256 read_version from_reader (window_state_mut wk i f)"

lemma reachable_wf_windows:
  assumes "workspace_reachable sha256 read_version from_reader wk"
  shows "wf_windows (\<exists>pane. terminal_id sha256 pane = zero_id) wk"
  using assms by (induction rule: workspace_reachable.induct) (auto intro: inv_intros)

section \<open>Names\<close>

lemma parse_print_aux:
  "n < 2 ^ 32 \<Longrightarrow> parse_digits 0 (print_nat n @ s) = parse_digits n s"
proof (induction n arbitrary: s rule: print_nat.induct)
  case (1 n)
  have d: "0x30 \<le> (of_nat (0x30 + m) :: u8)" "(of_nat (0x30 + m) :: u8) \<le> 0x39"
    "unat (of_nat (0x30 + m) :: u8) - 0x30 = m" if "m < 10" for m
  proof -
    have u: "unat (of_nat (0x30 + m) :: u8) = 0x30 + m"
      using that by (subst unat_of_nat) simp
    from u that show "0x30 \<le> (of_nat (0x30 + m) :: u8)" "(of_nat (0x30 + m) :: u8) \<le> 0x39"
      "unat (of_nat (0x30 + m) :: u8) - 0x30 = m"
      unfolding word_le_nat_alt u by simp_all
  qed
  show ?case
  proof (cases "n < 10")
    case True
    with d [OF True] 1(2) show ?thesis by (simp add: print_nat.simps [of n] del: of_nat_add)
  next
    case False
    have m: "n mod 10 < 10" by simp
    have "parse_digits 0 (print_nat n @ s) = parse_digits (n div 10) (of_nat (0x30 + n mod 10) # s)"
      using 1(1) [OF False, of "of_nat (0x30 + n mod 10) # s"] 1(2) False
      by (simp add: print_nat.simps [of n] del: of_nat_add)
    also have "\<dots> = parse_digits n s"
      using d [OF m] 1(2) by (simp add: Let_def del: of_nat_add)
    finally show ?thesis .
  qed
qed

lemma print_nat_head: "\<exists>b bs. print_nat n = b # bs \<and> b \<noteq> 0x2B"
proof (induction n rule: print_nat.induct)
  case (1 n)
  show ?case
  proof (cases "n < 10")
    case True
    then have u: "unat (of_nat (0x30 + n) :: u8) = 0x30 + n" by (subst unat_of_nat) simp
    have "(of_nat (0x30 + n) :: u8) \<noteq> 0x2B"
    proof
      assume eq: "(of_nat (0x30 + n) :: u8) = 0x2B"
      show False using arg_cong [OF eq, of unat] unfolding u by simp
    qed
    with True show ?thesis by (simp add: print_nat.simps [of n] del: of_nat_add)
  next
    case False
    with 1 show ?thesis by (auto simp: print_nat.simps [of n])
  qed
qed

lemma parse_print: "n < 2 ^ 32 \<Longrightarrow> parse_u32 (print_nat n) = Some n"
  using print_nat_head [of n] parse_print_aux [of n "[]"] by (auto simp: parse_u32_def)

lemma find_unused_Some:
  "find_unused used n = Some m \<Longrightarrow> n \<le> m \<and> m < 2 ^ 32 \<and> m \<notin> used \<and> (\<forall>k. n \<le> k \<and> k < m \<longrightarrow> k \<in> used)"
proof (induction used n rule: find_unused.induct)
  case (1 used n)
  show ?case
  proof (cases "2 ^ 32 \<le> n \<or> n \<notin> used")
    case True
    with 1 show ?thesis by (auto simp: find_unused.simps [of used n] split: if_splits)
  next
    case False
    with 1(2) have "find_unused used (n + 1) = Some m" by (simp add: find_unused.simps [of used n])
    with 1(1) False have "n + 1 \<le> m \<and> m < 2 ^ 32 \<and> m \<notin> used \<and> (\<forall>k. n + 1 \<le> k \<and> k < m \<longrightarrow> k \<in> used)"
      by auto
    moreover have "k = n \<or> n + 1 \<le> k" if "n \<le> k" for k using that by linarith
    ultimately show ?thesis using False by (metis add_leD1)
  qed
qed

lemma find_unused_None: "find_unused used n = None \<Longrightarrow> {n..<2 ^ 32} \<subseteq> used"
proof (induction used n rule: find_unused.induct)
  case (1 used n)
  show ?case
  proof (cases "2 ^ 32 \<le> n")
    case False
    with 1 have "n \<in> used" "{n + 1..<2 ^ 32} \<subseteq> used"
      by (auto simp: find_unused.simps [of used n] split: if_splits)
    moreover have "{n..<2 ^ 32} = insert n {n + 1..<2 ^ 32}" using False by auto
    ultimately show ?thesis by simp
  qed simp
qed

section \<open>Properties\<close>

text \<open>
  C12. However the layout module built it, from scratch or from a stored document, and whatever layout
  edits followed, a workspace's active index names a window whenever there is one, and its windows have
  pairwise different identities; the all-zero identity occurs only if the digest maps some
  Terminal to it.
\<close>

theorem reachable_workspace_wf:
  assumes "workspace_reachable sha256 read_version from_reader wk"
  shows "(wk_windows wk \<noteq> [] \<longrightarrow> wk_active wk < length (wk_windows wk))
    \<and> distinct (map ws_id (wk_windows wk))
    \<and> (zero_id \<in> set (map ws_id (wk_windows wk)) \<longrightarrow> (\<exists>pane. terminal_id sha256 pane = zero_id))"
  using reachable_wf_windows [OF assms] by (simp add: wf_windows_def)

definition example_digest :: digest where
  "example_digest input = replicate 32 (last input + 1)"

definition example_workspace :: workspace where
  "example_workspace = workspace_single example_digest (Local 1)"

lemma example_workspace_eq:
  "example_workspace = \<lparr>wk_windows = [\<lparr>ws_id = replicate 16 2, ws_name = [0x31],
     ws_state = \<lparr>ls_tree = Some (WLeaf (Local 1)), ls_focus = Some (Local 1)\<rparr>\<rparr>], wk_active = 0\<rparr>"
  by code_simp

theorem reachable_workspace_wf_witness:
  "let readable = \<lparr>ce_version = 3, ce_windows = [\<lparr>cw_id = replicate 16 2, cw_name = [0x31],
         cw_root = CborLeaf (CborLocal 1), cw_focused = CborLocal 1\<rparr>], ce_focused = 9\<rparr>;
       wk = workspace_next (workspace_single example_digest (Local 1))
   in (\<exists>stored. decode_cbor (\<lambda>_. Ok 3) (\<lambda>_. Ok readable) [] = Ok stored
         \<and> workspace_reachable example_digest (\<lambda>_. Ok 3) (\<lambda>_. Ok readable) stored
         \<and> wk_active stored < length (wk_windows stored))
      \<and> wk_active wk < length (wk_windows wk)"
proof -
  define e where "e = \<lparr>ce_version = 3, ce_windows = [\<lparr>cw_id = replicate 16 2, cw_name = [0x31],
         cw_root = CborLeaf (CborLocal 1), cw_focused = CborLocal 1\<rparr>], ce_focused = (9 :: u32)\<rparr>"
  have ne: "replicate 16 (2 :: u8) \<noteq> zero_id" by code_simp
  have dec: "decode_cbor (\<lambda>_. Ok 3) (\<lambda>_. Ok e) [] = Ok example_workspace"
    using ne by (simp add: decode_cbor_def decode_current_def e_def layout_envelope_version_def validate_def
        example_workspace_eq)
  note r = wk_decode [OF this]
  have n: "workspace_reachable example_digest (\<lambda>_. Ok 3) (\<lambda>_. Ok e) (workspace_next example_workspace)"
    unfolding example_workspace_def by (intro wk_next wk_single)
  from reachable_workspace_wf [OF r, of example_digest] reachable_workspace_wf [OF n] dec r
  show ?thesis unfolding Let_def e_def [symmetric] example_workspace_def [symmetric]
    by (simp add: example_workspace_eq workspace_next_def)
qed

text \<open>
  C13. A new window always gets an identity, different from zero and from every identity in
  use, provided the digest does not cycle among the first \<open>length windows + 2\<close> values it is
  asked for.
\<close>

theorem fresh_id_is_fresh:
  assumes "distinct (tried sha256 (terminal_id sha256 seed) (length windows + 2))"
  shows "\<exists>wid. fresh_id sha256 seed windows = Some wid \<and> wid \<noteq> zero_id \<and> wid \<notin> ws_id ` set windows"
proof -
  let ?t = "set (tried sha256 (terminal_id sha256 seed) (length windows + 2))"
  let ?used = "insert zero_id (ws_id ` set windows)"
  have "card ?used \<le> Suc (length windows)"
    by (rule order_trans [OF card_insert_le_m1 [of "Suc (length windows)"]])
      (auto intro: order_trans [OF card_image_le] card_length)
  also have "\<dots> < card ?t" using distinct_card [OF assms] by simp
  finally have "\<not> ?t \<subseteq> ?used" using card_mono [of ?used ?t] by fastforce
  then have "\<exists>r \<in> ?t. r \<noteq> zero_id \<and> r \<notin> ws_id ` set windows" by auto
  from fresh_loop_returns [OF this] obtain r where "fresh_id sha256 seed windows = Some r"
    by (auto simp: fresh_id_def)
  with fresh_loop_fresh [of sha256 windows "terminal_id sha256 seed" r] show ?thesis
    by (simp add: fresh_id_def)
qed

theorem fresh_id_is_fresh_witness:
  "\<exists>wid. fresh_id example_digest (Local 1) (wk_windows example_workspace) = Some wid
     \<and> wid \<noteq> zero_id \<and> wid \<notin> ws_id ` set (wk_windows example_workspace)"
proof -
  have "distinct (tried example_digest (terminal_id example_digest (Local 1))
      (length (wk_windows example_workspace) + 2))"
    unfolding example_workspace_eq by code_simp
  from fresh_id_is_fresh [OF this] show ?thesis .
qed

text \<open>
  C14. Pruning keeps exactly the windows that still have a layout, in order, and keeps the
  active window active; when that one died, the next survivor becomes active, or the last one
  when none follows.
\<close>

theorem prune_keeps_active:
  assumes "wk_windows wk = xs @ w # ys" and "wk_active wk = length xs"
  shows "wk_windows (snd (prune_empty_windows wk)) = filter seeded (wk_windows wk)
    \<and> fst (prune_empty_windows wk) = (\<exists>v \<in> set (wk_windows wk). \<not> seeded v)
    \<and> get (wk_windows (snd (prune_empty_windows wk))) (wk_active (snd (prune_empty_windows wk))) =
        (if seeded w then Some w
         else if filter seeded ys \<noteq> [] then Some (hd (filter seeded ys))
         else if filter seeded xs \<noteq> [] then Some (last (filter seeded xs)) else None)"
proof (intro conjI)
  show "wk_windows (snd (prune_empty_windows wk)) = filter seeded (wk_windows wk)"
    by (rule prune_windows)
  show "fst (prune_empty_windows wk) = (\<exists>v \<in> set (wk_windows wk). \<not> seeded v)"
    by (simp add: prune_empty_windows_def Let_def list_all_iff)
  show "get (wk_windows (snd (prune_empty_windows wk))) (wk_active (snd (prune_empty_windows wk))) =
        (if seeded w then Some w
         else if filter seeded ys \<noteq> [] then Some (hd (filter seeded ys))
         else if filter seeded xs \<noteq> [] then Some (last (filter seeded xs)) else None)"
  proof -
    have "\<not> length (filter seeded xs) \<le> length (filter seeded xs) - Suc 0" if "filter seeded xs \<noteq> []"
      using that by (cases "filter seeded xs") auto
    then show ?thesis unfolding prune_eq [OF assms]
      by (cases "filter seeded ys"; cases "filter seeded xs = []")
        (simp_all add: get_def nth_append last_conv_nth min_def)
  qed
qed

theorem prune_keeps_active_witness:
  "let dead = \<lparr>ws_id = [1], ws_name = [], ws_state = \<lparr>ls_tree = None, ls_focus = None\<rparr>\<rparr>;
       alive = hd (wk_windows example_workspace);
       wk = \<lparr>wk_windows = [dead, alive], wk_active = 1\<rparr>
   in get (wk_windows (snd (prune_empty_windows wk))) (wk_active (snd (prune_empty_windows wk))) = Some alive"
  using prune_keeps_active [of "\<lparr>wk_windows = [\<lparr>ws_id = [1], ws_name = [],
        ws_state = \<lparr>ls_tree = None, ls_focus = None\<rparr>\<rparr>, hd (wk_windows example_workspace)], wk_active = 1\<rparr>"
      "[\<lparr>ws_id = [1], ws_name = [], ws_state = \<lparr>ls_tree = None, ls_focus = None\<rparr>\<rparr>]"
      "hd (wk_windows example_workspace)" "[]"]
  by (auto simp: example_workspace_eq seeded_def Let_def)

text \<open>
  C15. The default name for a new window is the decimal form of the least positive integer no
  window's name parses to, so no window has that name yet.
\<close>

theorem default_window_name_unused:
  assumes "length (wk_windows wk) + 1 < 2 ^ 32"
  shows "\<exists>n \<ge> 1. default_window_name wk = print_nat n
    \<and> print_nat n \<notin> ws_name ` set (wk_windows wk)
    \<and> (\<forall>m. 1 \<le> m \<and> m < n \<longrightarrow> (\<exists>w \<in> set (wk_windows wk). parse_u32 (ws_name w) = Some m))"
proof -
  define used where "used = set (List.map_filter (\<lambda>w. parse_u32 (ws_name w)) (wk_windows wk))"
  have used: "m \<in> used \<longleftrightarrow> (\<exists>w \<in> set (wk_windows wk). parse_u32 (ws_name w) = Some m)" for m
    by (force simp: used_def List.map_filter_def)
  have "card used \<le> length (wk_windows wk)"
    unfolding used_def List.map_filter_def by (rule order_trans [OF card_length]) simp
  moreover have "card {1..<2 ^ 32 :: nat} = 2 ^ 32 - 1" by simp
  ultimately have "\<not> {1..<2 ^ 32} \<subseteq> used"
    using assms card_mono [of used "{1..<2 ^ 32}"] by (auto simp: used_def)
  then obtain n where n: "find_unused used 1 = Some n"
    using find_unused_None [of used 1] by (cases "find_unused used 1") auto
  note f = find_unused_Some [OF n]
  have "print_nat n \<notin> ws_name ` set (wk_windows wk)"
    using parse_print [of n] f used by auto
  moreover have "default_window_name wk = print_nat n"
    unfolding default_window_name_def used_def [symmetric] Let_def n by simp
  ultimately show ?thesis using f used by auto
qed

theorem default_window_name_unused_witness:
  "default_window_name example_workspace \<notin> ws_name ` set (wk_windows example_workspace)"
  using default_window_name_unused [of example_workspace] by (auto simp: example_workspace_eq)

end
