(* ===== verification/Net_Addr.thy ===== *)
theory Net_Addr
  imports Wire_Types
begin

text \<open>
  The textual form of IP addresses the ssh origin of a \<open>HELLO\<close> carries. \<open>ip().to_string()\<close> and
  \<open>str::parse::<IpAddr>()\<close> are the standard library's, modelled here after its documented
  grammar: dotted decimal for IPv4; for IPv6 lower-case hexadecimal groups with the first
  longest run of at least two zero groups written \<open>::\<close>, and the IPv4-mapped form. A parser step
  takes the remaining text and gives a value with what it leaves, or \<open>None\<close> with nothing read.
\<close>

datatype ip_addr =
    IpV4 u8 u8 u8 u8
  | IpV6 "u16 list"

datatype socket_addr =
    SocketV4 u8 u8 u8 u8 u16
  | SocketV6 "u16 list" u16 u32 u32

definition socket_ip :: "socket_addr \<Rightarrow> ip_addr" where
  "socket_ip s = (case s of SocketV4 a b c d _ \<Rightarrow> IpV4 a b c d | SocketV6 gs _ _ _ \<Rightarrow> IpV6 gs)"

definition socket_port :: "socket_addr \<Rightarrow> u16" where
  "socket_port s = (case s of SocketV4 _ _ _ _ p \<Rightarrow> p | SocketV6 _ p _ _ \<Rightarrow> p)"

definition socket_addr_new :: "ip_addr \<Rightarrow> u16 \<Rightarrow> socket_addr" where
  "socket_addr_new ip port = (case ip of IpV4 a b c d \<Rightarrow> SocketV4 a b c d port | IpV6 gs \<Rightarrow> SocketV6 gs port 0 0)"

section \<open>Display\<close>

definition dot :: u8 where "dot = 46"
definition colon :: u8 where "colon = 58"

definition digit_char :: "nat \<Rightarrow> u8" where
  "digit_char d = (if d < 10 then of_nat (48 + d) else of_nat (87 + d))"

function to_radix :: "nat \<Rightarrow> nat \<Rightarrow> bytes" where
  "to_radix r n = (if r < 2 \<or> n < r then [digit_char n] else to_radix r (n div r) @ [digit_char (n mod r)])"
  by pat_completeness auto

termination to_radix
  by (relation "measure snd") (auto simp: not_less intro!: div_less_dividend)

declare to_radix.simps [simp del]

definition ipv4_display :: "u8 \<Rightarrow> u8 \<Rightarrow> u8 \<Rightarrow> u8 \<Rightarrow> bytes" where
  "ipv4_display a b c d = to_radix 10 (unat a) @ dot # to_radix 10 (unat b) @ dot #
     to_radix 10 (unat c) @ dot # to_radix 10 (unat d)"

fun fmt_subslice :: "u16 list \<Rightarrow> bytes" where
  "fmt_subslice [] = []"
| "fmt_subslice [g] = to_radix 16 (unat g)"
| "fmt_subslice (g # gs) = to_radix 16 (unat g) @ colon # fmt_subslice gs"

text \<open>The scan for the longest run of zeroes: \<open>(start, len)\<close> of the longest and of the current one.\<close>

fun zero_span :: "nat \<Rightarrow> nat \<times> nat \<Rightarrow> nat \<times> nat \<Rightarrow> u16 list \<Rightarrow> nat \<times> nat" where
  "zero_span i longest current [] = longest"
| "zero_span i longest current (g # gs) =
     (if g = 0 then
        let current' = (if snd current = 0 then i else fst current, snd current + 1)
        in zero_span (Suc i) (if snd longest < snd current' then current' else longest) current' gs
      else zero_span (Suc i) longest (0, 0) gs)"

definition to_ipv4_mapped :: "u16 list \<Rightarrow> (u8 \<times> u8 \<times> u8 \<times> u8) option" where
  "to_ipv4_mapped gs =
     (if length gs = 8 \<and> take 6 gs = [0, 0, 0, 0, 0, 0xFFFF]
      then Some (ucast (drop_bit 8 (gs ! 6)), ucast (gs ! 6), ucast (drop_bit 8 (gs ! 7)), ucast (gs ! 7))
      else None)"

definition ipv6_display :: "u16 list \<Rightarrow> bytes" where
  "ipv6_display gs =
     (case to_ipv4_mapped gs of
        Some (a, b, c, d) \<Rightarrow> colon # colon # fmt_subslice [0xFFFF] @ colon # ipv4_display a b c d
      | None \<Rightarrow>
          (let (start, len) = zero_span 0 (0, 0) (0, 0) gs
           in if 1 < len
              then fmt_subslice (take start gs) @ colon # colon # fmt_subslice (drop (start + len) gs)
              else fmt_subslice gs))"

definition ip_to_string :: "ip_addr \<Rightarrow> str" where
  "ip_to_string ip = (case ip of IpV4 a b c d \<Rightarrow> ipv4_display a b c d | IpV6 gs \<Rightarrow> ipv6_display gs)"

section \<open>Parsing\<close>

definition to_digit :: "nat \<Rightarrow> u8 \<Rightarrow> nat option" where
  "to_digit r b =
     (let d = (if 48 \<le> b \<and> b \<le> 57 then Some (unat b - 48)
               else if 97 \<le> b \<and> b \<le> 122 then Some (unat b - 87)
               else if 65 \<le> b \<and> b \<le> 90 then Some (unat b - 55) else None)
      in case d of Some n \<Rightarrow> if n < r then Some n else None | None \<Rightarrow> None)"

fun read_digits :: "nat \<Rightarrow> nat \<Rightarrow> nat \<Rightarrow> nat \<Rightarrow> nat \<Rightarrow> bytes \<Rightarrow> (nat \<times> nat \<times> bytes) option" where
  "read_digits r maxd limit res cnt [] = Some (res, cnt, [])"
| "read_digits r maxd limit res cnt (b # bs) =
     (case to_digit r b of
        None \<Rightarrow> Some (res, cnt, b # bs)
      | Some d \<Rightarrow>
          (if limit \<le> res * r + d \<or> maxd < cnt + 1 then None
           else read_digits r maxd limit (res * r + d) (cnt + 1) bs))"

definition read_number :: "nat \<Rightarrow> nat \<Rightarrow> bool \<Rightarrow> nat \<Rightarrow> bytes \<Rightarrow> (nat \<times> bytes) option" where
  "read_number r maxd allow_zero_prefix limit p =
     (case read_digits r maxd limit 0 0 p of
        None \<Rightarrow> None
      | Some (res, cnt, q) \<Rightarrow>
          (if cnt = 0 then None
           else if \<not> allow_zero_prefix \<and> hd p = 48 \<and> 1 < cnt then None
           else Some (res, q)))"

definition read_given_char :: "u8 \<Rightarrow> bytes \<Rightarrow> bytes option" where
  "read_given_char c p = (case p of b # q \<Rightarrow> if b = c then Some q else None | [] \<Rightarrow> None)"

definition read_separator :: "u8 \<Rightarrow> nat \<Rightarrow> (bytes \<Rightarrow> ('a \<times> bytes) option) \<Rightarrow> bytes \<Rightarrow> ('a \<times> bytes) option" where
  "read_separator sep i inner p =
     (if 0 < i then (case read_given_char sep p of None \<Rightarrow> None | Some q \<Rightarrow> inner q) else inner p)"

definition read_octet :: "nat \<Rightarrow> bytes \<Rightarrow> (nat \<times> bytes) option" where
  "read_octet i = read_separator dot i (read_number 10 3 False 256)"

definition read_ipv4_addr :: "bytes \<Rightarrow> ((u8 \<times> u8 \<times> u8 \<times> u8) \<times> bytes) option" where
  "read_ipv4_addr p =
     (case read_octet 0 p of None \<Rightarrow> None | Some (a, p1) \<Rightarrow>
      case read_octet 1 p1 of None \<Rightarrow> None | Some (b, p2) \<Rightarrow>
      case read_octet 2 p2 of None \<Rightarrow> None | Some (c, p3) \<Rightarrow>
      case read_octet 3 p3 of None \<Rightarrow> None | Some (d, p4) \<Rightarrow>
        Some ((of_nat a, of_nat b, of_nat c, of_nat d), p4))"

definition pair16 :: "u8 \<Rightarrow> u8 \<Rightarrow> u16" where
  "pair16 a b = push_bit 8 (ucast a) OR ucast b"

text \<open>\<open>m + 1\<close> groups are left of the limit at group \<open>i\<close>; an embedded IPv4 address fills two of them.\<close>

fun read_groups :: "nat \<Rightarrow> nat \<Rightarrow> bytes \<Rightarrow> u16 list \<times> bool \<times> bytes" where
  "read_groups 0 i p = ([], False, p)"
| "read_groups (Suc m) i p =
     (case (if 0 < m then read_separator colon i read_ipv4_addr p else None) of
        Some ((a, b, c, d), q) \<Rightarrow> ([pair16 a b, pair16 c d], True, q)
      | None \<Rightarrow>
          (case read_separator colon i (read_number 16 4 True 65536) p of
             None \<Rightarrow> ([], False, p)
           | Some (g, q) \<Rightarrow> (case read_groups m (Suc i) q of (gs, v4, q') \<Rightarrow> (of_nat g # gs, v4, q'))))"

definition read_ipv6_addr :: "bytes \<Rightarrow> (u16 list \<times> bytes) option" where
  "read_ipv6_addr p =
     (case read_groups 8 0 p of (head, head_ipv4, p1) \<Rightarrow>
        if length head = 8 then Some (head, p1)
        else if head_ipv4 then None
        else case read_given_char colon p1 of None \<Rightarrow> None | Some p2 \<Rightarrow>
             case read_given_char colon p2 of None \<Rightarrow> None | Some p3 \<Rightarrow>
             case read_groups (8 - (length head + 1)) 0 p3 of (tail, _, p4) \<Rightarrow>
               Some (head @ replicate (8 - length head - length tail) 0 @ tail, p4))"

definition ip_parse :: "bytes \<Rightarrow> ip_addr option" where
  "ip_parse p =
     (case (case read_ipv4_addr p of
              Some ((a, b, c, d), q) \<Rightarrow> Some (IpV4 a b c d, q)
            | None \<Rightarrow> map_option (\<lambda>(gs, q). (IpV6 gs, q)) (read_ipv6_addr p)) of
        Some (ip, []) \<Rightarrow> Some ip
      | _ \<Rightarrow> None)"

section \<open>Reading back what was displayed\<close>

lemma to_digit_char: "d < r \<Longrightarrow> r \<le> 16 \<Longrightarrow> to_digit r (digit_char d) = Some d"
proof -
  assume "d < r" "r \<le> 16"
  have "\<forall>d<16. to_digit 16 (digit_char d) = Some d" by code_simp
  moreover have "to_digit r b = (case to_digit 16 b of Some n \<Rightarrow> if n < r then Some n else None | None \<Rightarrow> None)"
    if "r \<le> 16" for b using that by (auto simp: to_digit_def Let_def)
  ultimately show ?thesis using \<open>d < r\<close> \<open>r \<le> 16\<close> by simp
qed

text \<open>Where the digits of a number end.\<close>

definition stops :: "nat \<Rightarrow> bytes \<Rightarrow> bool" where
  "stops r q \<longleftrightarrow> (case q of [] \<Rightarrow> True | b # _ \<Rightarrow> to_digit r b = None)"

lemma stops_simps [simp]: "stops r []" "stops 10 (dot # q)" "r = 10 \<or> r = 16 \<Longrightarrow> stops r (colon # q)"
  by (auto simp: stops_def to_digit_def dot_def colon_def)

lemma read_digits_radix:
  assumes "2 \<le> r" "r \<le> 16" "n < limit" "length (to_radix r n) + cnt \<le> maxd"
  shows "read_digits r maxd limit 0 cnt (to_radix r n @ q) =
    read_digits r maxd limit n (cnt + length (to_radix r n)) q"
  using assms(3-)
proof (induction n arbitrary: q rule: less_induct)
  case (less n)
  show ?case
  proof (cases "n < r")
    case True
    then have "to_radix r n = [digit_char n]" using assms(1) by (subst to_radix.simps) simp
    with less.prems True assms show ?thesis by (simp add: to_digit_char)
  next
    case False
    then have d: "n div r < n" "n mod r < r" using assms(1) by simp_all
    have eq: "to_radix r n = to_radix r (n div r) @ [digit_char (n mod r)]"
      using False assms(1) by (subst to_radix.simps) simp
    from less.IH [OF d(1), of "digit_char (n mod r) # q"] less.prems eq d
    have "read_digits r maxd limit 0 cnt (to_radix r n @ q) =
      read_digits r maxd limit (n div r) (cnt + length (to_radix r (n div r))) (digit_char (n mod r) # q)"
      by simp
    also have "\<dots> = read_digits r maxd limit n (cnt + length (to_radix r n)) q"
      using less.prems eq d assms by (simp add: to_digit_char div_mult_mod_eq)
    finally show ?thesis .
  qed
qed

lemma length_to_radix: "2 \<le> r \<Longrightarrow> n < r ^ Suc k \<Longrightarrow> length (to_radix r n) \<le> Suc k"
proof (induction k arbitrary: n)
  case 0
  then show ?case by (subst to_radix.simps) simp
next
  case (Suc k)
  then have "n div r < r ^ Suc k" by (simp add: less_mult_imp_div_less mult.commute)
  with Suc show ?case by (subst to_radix.simps) auto
qed

lemma to_radix_nonempty [simp]: "to_radix r n \<noteq> []"
  by (subst to_radix.simps) simp

lemma digit_char_zero: "d < 16 \<Longrightarrow> digit_char d = 48 \<longleftrightarrow> d = 0"
proof -
  have "\<forall>d<16. digit_char d = 48 \<longleftrightarrow> d = 0" by code_simp
  then show "d < 16 \<Longrightarrow> digit_char d = 48 \<longleftrightarrow> d = 0" by blast
qed

lemma leading_zero: "2 \<le> r \<Longrightarrow> r \<le> 16 \<Longrightarrow> hd (to_radix r n) = 48 \<Longrightarrow> length (to_radix r n) = 1"
proof (induction n rule: less_induct)
  case (less n)
  show ?case
  proof (cases "n < r")
    case True
    then show ?thesis using less.prems by (subst to_radix.simps) simp
  next
    case False
    then have eq: "to_radix r n = to_radix r (n div r) @ [digit_char (n mod r)]" and d: "n div r < n"
      using less.prems by (simp_all add: to_radix.simps [of r n])
    with less.prems less.IH [OF d] have "length (to_radix r (n div r)) = 1" "hd (to_radix r (n div r)) = 48" by simp_all
    then have "n div r < r \<and> digit_char (n div r) = 48"
      using less.prems by (cases "n div r < r") (auto simp: to_radix.simps [of r "n div r"])
    with less.prems digit_char_zero [of "n div r"] False show ?thesis by (simp add: div_eq_0_iff)
  qed
qed

lemma read_number_radix:
  assumes "2 \<le> r" "r \<le> 16" "n < limit" "n < r ^ maxd" "0 < maxd" "stops r q"
  shows "read_number r maxd azp limit (to_radix r n @ q) = Some (n, q)"
proof -
  obtain k where k: "maxd = Suc k" using assms(5) by (cases maxd) auto
  have l: "length (to_radix r n) \<le> maxd" using length_to_radix [of r n k] assms k by simp
  have "read_digits r maxd limit 0 0 (to_radix r n @ q) = Some (n, length (to_radix r n), q)"
    using read_digits_radix [of r n limit 0 maxd q] assms l
    by (cases q) (auto simp: stops_def)
  moreover have "hd (to_radix r n @ q) = hd (to_radix r n)" by simp
  ultimately show ?thesis using leading_zero [of r n] assms by (auto simp: read_number_def)
qed

lemma read_octet_display:
  assumes "stops 10 q"
  shows "read_octet 0 (to_radix 10 (unat (a :: u8)) @ q) = Some (unat a, q)"
    and "0 < i \<Longrightarrow> read_octet i (dot # to_radix 10 (unat (a :: u8)) @ q) = Some (unat a, q)"
proof -
  have "unat a < 256" using unsigned_less [of a] by simp
  then have "read_number 10 3 False 256 (to_radix 10 (unat a) @ q) = Some (unat a, q)"
    by (intro read_number_radix) (simp_all add: assms)
  then show "read_octet 0 (to_radix 10 (unat a) @ q) = Some (unat a, q)"
    and "0 < i \<Longrightarrow> read_octet i (dot # to_radix 10 (unat a) @ q) = Some (unat a, q)"
    by (simp_all add: read_octet_def read_separator_def read_given_char_def)
qed

lemma read_ipv4_display:
  "stops 10 q \<Longrightarrow> read_ipv4_addr (ipv4_display a b c d @ q) = Some ((a, b, c, d), q)"
  by (simp add: read_ipv4_addr_def ipv4_display_def read_octet_display)

lemma read_digits_suffix:
  "read_digits r maxd limit res cnt p = Some (x, n, q) \<Longrightarrow> set q \<subseteq> set p"
proof (induction r maxd limit res cnt p rule: read_digits.induct)
  case (2 r maxd limit res cnt b bs)
  then show ?case by (cases "to_digit r b") (auto split: if_splits)
qed simp

lemma read_ipv4_needs_dot: "dot \<notin> set p \<Longrightarrow> read_ipv4_addr p = None"
proof (cases "read_octet 0 p")
  case (Some r)
  assume no: "dot \<notin> set p"
  obtain a q where r: "r = (a, q)" by (cases r)
  with Some have "set q \<subseteq> set p"
    by (auto simp: read_octet_def read_separator_def read_number_def split: option.splits if_splits
        dest!: read_digits_suffix)
  with no have "read_octet 1 q = None"
    by (cases q) (auto simp: read_octet_def read_separator_def read_given_char_def)
  with Some r show ?thesis by (simp add: read_ipv4_addr_def)
qed (simp add: read_ipv4_addr_def)

lemma digit_char_not_dot: "d < 16 \<Longrightarrow> digit_char d \<noteq> dot \<and> digit_char d \<le> 0x7F"
proof -
  have "\<forall>d<16. digit_char d \<noteq> dot \<and> digit_char d \<le> 0x7F" by code_simp
  then show "d < 16 \<Longrightarrow> digit_char d \<noteq> dot \<and> digit_char d \<le> 0x7F" by blast
qed

lemma to_radix_chars: "2 \<le> r \<Longrightarrow> r \<le> 16 \<Longrightarrow> b \<in> set (to_radix r n) \<Longrightarrow> b \<noteq> dot \<and> b \<le> 0x7F"
proof (induction n rule: less_induct)
  case (less n)
  show ?case
  proof (cases "n < r")
    case True
    with less.prems digit_char_not_dot [of n] show ?thesis by (subst (asm) to_radix.simps) auto
  next
    case False
    then have "n div r < n" "n mod r < r" using less.prems by simp_all
    moreover from this have "n mod r < 16" using less.prems by linarith
    moreover have "to_radix r n = to_radix r (n div r) @ [digit_char (n mod r)]"
      using False less.prems by (subst to_radix.simps) simp
    ultimately show ?thesis using less digit_char_not_dot [of "n mod r"] by auto
  qed
qed

lemma fmt_subslice_chars: "b \<in> set (fmt_subslice gs) \<Longrightarrow> b \<noteq> dot \<and> b \<le> 0x7F"
proof (induction gs rule: fmt_subslice.induct)
  case (3 g h gs)
  have "colon \<noteq> dot \<and> colon \<le> 0x7F" by (simp add: colon_def dot_def)
  with 3 to_radix_chars [of 16 b "unat g"] show ?case by auto
next
  case (2 g)
  with to_radix_chars [of 16 b "unat g"] show ?case by simp
qed simp

lemma no_dot [simp]: "dot \<notin> set (to_radix 16 n)" "dot \<notin> set (fmt_subslice gs)" "colon \<noteq> dot" "dot \<noteq> colon"
  using to_radix_chars [of 16 dot n] fmt_subslice_chars [of dot gs] by (auto simp: colon_def dot_def)

text \<open>Groups separated by colons are read up to a text that no group starts.\<close>

definition no_group :: "bytes \<Rightarrow> bool" where
  "no_group q \<longleftrightarrow> q = [] \<or> (\<exists>q'. q = colon # colon # q')"

lemma no_group_stops: "no_group q \<Longrightarrow> stops 16 q"
  by (auto simp: no_group_def)

lemma read_colon: "read_number r maxd azp limit (colon # q) = None" if "r = 10 \<or> r = 16"
  using that by (auto simp: read_number_def to_digit_def colon_def)

lemma read_groups_stop:
  assumes "no_group q"
  shows "read_groups m i q = ([], False, q)"
proof (cases m)
  case (Suc k)
  have "read_separator colon i read_ipv4_addr q = None" "read_separator colon i (read_number 16 4 True 65536) q = None"
    using assms read_colon
    by (auto simp: no_group_def read_separator_def read_given_char_def read_ipv4_addr_def read_octet_def
        read_number_def [of _ _ _ _ "[]"])
  with Suc show ?thesis by simp
qed simp

lemma read_group_display:
  assumes "stops 16 q"
  shows "read_number 16 4 True 65536 (to_radix 16 (unat (g :: u16)) @ q) = Some (unat g, q)"
  using unsigned_less [of g] assms by (intro read_number_radix) simp_all

lemma read_groups_display:
  assumes "dot \<notin> set q" "no_group q" "length gs \<le> m" "gs \<noteq> []"
  shows "read_groups m i ((if 0 < i then [colon] else []) @ fmt_subslice gs @ q) = (gs, False, q)"
  using assms(3,4)
proof (induction gs arbitrary: i m rule: fmt_subslice.induct)
  case (2 g)
  then obtain k where m: "m = Suc k" by (cases m) auto
  have nd: "dot \<notin> set (to_radix 16 (unat g) @ q)" using assms(1) by simp
  from read_ipv4_needs_dot [OF nd] read_group_display [OF no_group_stops [OF assms(2)], of g]
  show ?case using assms(2) by (simp add: m read_separator_def read_given_char_def read_groups_stop)
next
  case (3 g h gs)
  then obtain k where m: "m = Suc k" by (cases m) auto
  let ?t = "colon # fmt_subslice (h # gs) @ q"
  have nd: "dot \<notin> set (to_radix 16 (unat g) @ ?t)"
    using assms(1) by simp
  have "stops 16 ?t" by simp
  from read_ipv4_needs_dot [OF nd] read_group_display [OF this, of g] "3.IH" [of k "Suc i"] "3.prems"
  show ?case by (cases i) (simp_all add: m read_separator_def read_given_char_def)
qed simp

text \<open>The span the scan finds lies inside the groups and holds zeroes only.\<close>

definition zero_at :: "u16 list \<Rightarrow> nat \<times> nat \<Rightarrow> bool" where
  "zero_at gs sp \<longleftrightarrow> fst sp + snd sp \<le> length gs \<and> (\<forall>k. fst sp \<le> k \<and> k < fst sp + snd sp \<longrightarrow> gs ! k = 0)"

lemma zero_span_at:
  assumes "zero_at (pre @ gs) longest" "zero_at (pre @ gs) current"
    "snd current = 0 \<or> fst current + snd current = length pre"
  shows "zero_at (pre @ gs) (zero_span (length pre) longest current gs)"
  using assms
proof (induction gs arbitrary: pre longest current)
  case (Cons g gs)
  show ?case
  proof (cases "g = 0")
    case True
    define c where "c = (if snd current = 0 then length pre else fst current, snd current + 1)"
    have c: "zero_at ((pre @ [g]) @ gs) c" "fst c + snd c = length (pre @ [g])"
      using Cons.prems(2,3) True by (auto simp: c_def zero_at_def nth_append less_Suc_eq)
    have "zero_span (length pre) longest current (g # gs) =
        zero_span (length (pre @ [g])) (if snd longest < snd c then c else longest) c gs"
      using True by (simp add: Let_def c_def)
    moreover have "zero_at ((pre @ [g]) @ gs) (if snd longest < snd c then c else longest)"
      using Cons.prems(1) c by simp
    ultimately show ?thesis using Cons.IH [of "pre @ [g]" _ c] c by simp
  next
    case False
    have "zero_at ((pre @ [g]) @ gs) (0, 0)" by (simp add: zero_at_def)
    then show ?thesis using Cons.IH [of "pre @ [g]" longest "(0, 0)"] Cons.prems(1) False by simp
  qed
qed simp

lemma zero_span_replicate:
  assumes "zero_span 0 (0, 0) (0, 0) gs = (start, len)"
  shows "start + len \<le> length gs" and "gs = take start gs @ replicate len 0 @ drop (start + len) gs"
proof -
  have z: "zero_at gs (start, len)"
    using zero_span_at [of "[]" gs "(0, 0)" "(0, 0)"] assms by (simp add: zero_at_def)
  then show le: "start + len \<le> length gs" by (simp add: zero_at_def)
  have "take len (drop start gs) = replicate len 0"
    using z le by (intro nth_equalityI) (simp_all add: zero_at_def)
  then have "drop start gs = replicate len 0 @ drop (start + len) gs"
    by (metis append_take_drop_id drop_drop add.commute)
  then show "gs = take start gs @ replicate len 0 @ drop (start + len) gs"
    by (metis append_take_drop_id)
qed

lemma read_groups_fmt:
  assumes "dot \<notin> set q" "no_group q" "length gs \<le> m"
  shows "read_groups m 0 (fmt_subslice gs @ q) = (gs, False, q)"
  using read_groups_display [OF assms(1-3), of 0] assms read_groups_stop [of q m 0] by (cases gs) auto

lemma read_ipv6_display:
  assumes "length gs = 8" "to_ipv4_mapped gs = None"
  shows "read_ipv6_addr (ipv6_display gs) = Some (gs, [])" and "dot \<notin> set (ipv6_display gs)"
proof -
  obtain start len where sp: "zero_span 0 (0, 0) (0, 0) gs = (start, len)" by fastforce
  note z = zero_span_replicate [OF sp]
  let ?a = "take start gs" and ?b = "drop (start + len) gs"
  show "dot \<notin> set (ipv6_display gs)" using assms sp by (simp add: ipv6_display_def Let_def)
  show "read_ipv6_addr (ipv6_display gs) = Some (gs, [])"
  proof (cases "1 < len")
    case True
    have "read_groups 8 0 (fmt_subslice ?a @ colon # colon # fmt_subslice ?b) = (?a, False, colon # colon # fmt_subslice ?b)"
      using assms by (intro read_groups_fmt) (auto simp: no_group_def)
    moreover have "read_groups (7 - start) 0 (fmt_subslice ?b) = (?b, False, [])"
      using read_groups_fmt [of "[]" ?b "7 - start"] z(1) assms True by (simp add: no_group_def)
    moreover have "8 - start - length ?b = len" using z(1) assms(1) by simp
    ultimately show ?thesis using z(1) z(2) [symmetric] assms sp True
      by (simp add: read_ipv6_addr_def ipv6_display_def read_given_char_def)
  next
    case False
    with assms sp read_groups_fmt [of "[]" gs 8] show ?thesis
      by (simp add: ipv6_display_def read_ipv6_addr_def no_group_def)
  qed
qed

lemma pair16_bytes: "pair16 (ucast (drop_bit 8 g)) (ucast g) = g"
  unfolding pair16_def by (rule bit_word_eqI) (auto simp: bit_simps)

lemma read_ipv6_mapped:
  assumes "length gs = 8" "to_ipv4_mapped gs = Some v"
  shows "read_ipv6_addr (ipv6_display gs) = Some (gs, [])" and "read_ipv4_addr (ipv6_display gs) = None"
proof -
  have t: "take 6 gs = [0, 0, 0, 0, 0, 0xFFFF]"
    and v: "v = (ucast (drop_bit 8 (gs ! 6)), ucast (gs ! 6), ucast (drop_bit 8 (gs ! 7)), ucast (gs ! 7))"
    using assms(2) by (auto simp: to_ipv4_mapped_def split: if_splits)
  obtain g h where gs: "gs = [0, 0, 0, 0, 0, 0xFFFF, g, h]"
  proof -
    have "length (drop 6 gs) = Suc (Suc 0)" using assms(1) by simp
    then obtain g h where "drop 6 gs = [g, h]" by (auto simp: length_Suc_conv simp del: length_drop)
    then show ?thesis using that [of g h] t append_take_drop_id [of 6 gs] by simp
  qed
  let ?v4 = "ipv4_display (ucast (drop_bit 8 g)) (ucast g) (ucast (drop_bit 8 h)) (ucast h)"
  have d: "ipv6_display gs = colon # colon # to_radix 16 (unat (0xFFFF :: u16)) @ colon # ?v4"
    using assms(2) v gs by (simp add: ipv6_display_def)
  have colon4: "read_ipv4_addr (colon # q) = None" for q
    by (simp add: read_ipv4_addr_def read_octet_def read_separator_def read_colon)
  then show "read_ipv4_addr (ipv6_display gs) = None" unfolding d .
  have r8: "read_groups 8 0 (ipv6_display gs) = ([], False, ipv6_display gs)"
    by (rule read_groups_stop) (simp add: d no_group_def)
  have f: "read_ipv4_addr (to_radix 16 (unat (0xFFFF :: u16)) @ q) = None" for q
  proof -
    have "to_radix 16 65535 = [102, 102, 102, 102]"
      by (simp add: to_radix.simps [of 16 65535] to_radix.simps [of 16 4095] to_radix.simps [of 16 255]
          to_radix.simps [of 16 15] digit_char_def)
    then show ?thesis
      by (simp add: read_ipv4_addr_def read_octet_def read_separator_def read_number_def to_digit_def)
  qed
  have g: "read_number 16 4 True 65536 (to_radix 16 (unat (0xFFFF :: u16)) @ colon # ?v4)
      = Some (unat (0xFFFF :: u16), colon # ?v4)"
    by (rule read_group_display) simp
  have v4: "read_ipv4_addr ?v4 = Some ((ucast (drop_bit 8 g), ucast g, ucast (drop_bit 8 h), ucast h), [])"
    using read_ipv4_display [of "[]"] by simp
  have "read_groups (Suc (Suc (Suc m))) 0 (to_radix 16 (unat (0xFFFF :: u16)) @ colon # ?v4) = ([0xFFFF, g, h], True, [])"
    for m using f g v4 by (simp add: read_separator_def read_given_char_def pair16_bytes)
  from this [of 4] have r7: "read_groups 7 0 (to_radix 16 (unat (0xFFFF :: u16)) @ colon # ?v4) = ([0xFFFF, g, h], True, [])"
    by simp
  have "replicate 5 (0 :: u16) = [0, 0, 0, 0, 0]" by (simp add: numeral_eq_Suc)
  with r8 r7 show "read_ipv6_addr (ipv6_display gs) = Some (gs, [])"
    by (simp add: read_ipv6_addr_def d [unfolded gs] read_given_char_def gs)
qed

definition wf_ip :: "ip_addr \<Rightarrow> bool" where
  "wf_ip ip = (case ip of IpV4 _ _ _ _ \<Rightarrow> True | IpV6 gs \<Rightarrow> length gs = 8)"

lemma ip_parse_to_string: "wf_ip ip \<Longrightarrow> ip_parse (ip_to_string ip) = Some ip"
proof (cases ip)
  case (IpV4 a b c d)
  then show ?thesis using read_ipv4_display [of "[]" a b c d] by (simp add: ip_parse_def ip_to_string_def)
next
  case (IpV6 gs)
  assume "wf_ip ip"
  then have l: "length gs = 8" by (simp add: IpV6 wf_ip_def)
  have "read_ipv6_addr (ipv6_display gs) = Some (gs, [])" "read_ipv4_addr (ipv6_display gs) = None"
    using read_ipv6_display [OF l] read_ipv6_mapped [OF l] read_ipv4_needs_dot
    by (cases "to_ipv4_mapped gs"; simp)+
  then show ?thesis by (simp add: IpV6 ip_parse_def ip_to_string_def)
qed

end
