(* ===== verification/Wire_Caps.thy ===== *)
theory Wire_Caps
  imports Net_Addr
begin

text \<open>
  The capabilities the two ends of a connection exchange, \<open>phux-protocol/src/caps.rs\<close>: the bit
  sets with their wire masks, the payload limits, and the negotiation of the bootstrap profile.
  A bit set is the word that holds it; the fields of the source are private, so a set is always
  a value its constructors can build.
\<close>

section \<open>Colours, output modes and compression\<close>

datatype color_support = TrueColor | Indexed256 | Indexed16 | Mono

definition color_support_as_wire :: "color_support \<Rightarrow> u8" where
  "color_support_as_wire c = (case c of TrueColor \<Rightarrow> 0 | Indexed256 \<Rightarrow> 1 | Indexed16 \<Rightarrow> 2 | Mono \<Rightarrow> 3)"

definition color_support_from_wire :: "u8 \<Rightarrow> color_support option" where
  "color_support_from_wire tag =
     (if tag = 0 then Some TrueColor else if tag = 1 then Some Indexed256
      else if tag = 2 then Some Indexed16 else if tag = 3 then Some Mono else None)"

datatype output_mode = OutRaw | OutStateSync

definition output_mode_as_wire :: "output_mode \<Rightarrow> u8" where
  "output_mode_as_wire m = (case m of OutRaw \<Rightarrow> 0 | OutStateSync \<Rightarrow> 1)"

definition output_mode_from_wire :: "u8 \<Rightarrow> output_mode" where
  "output_mode_from_wire tag = (if tag = 1 then OutStateSync else OutRaw)"

datatype compression = NoCompression | Deflate

definition compression_as_u8 :: "compression \<Rightarrow> u8" where
  "compression_as_u8 c = (case c of NoCompression \<Rightarrow> 0 | Deflate \<Rightarrow> 1)"

definition compression_from_u8 :: "u8 \<Rightarrow> compression" where
  "compression_from_u8 tag = (if tag = 1 then Deflate else NoCompression)"

type_synonym compression_set = u8

definition compression_set_contains :: "compression_set \<Rightarrow> compression \<Rightarrow> bool" where
  "compression_set_contains s algorithm = (case algorithm of NoCompression \<Rightarrow> True | Deflate \<Rightarrow> s AND 1 \<noteq> 0)"

definition compression_set_select :: "compression_set \<Rightarrow> compression" where
  "compression_set_select s = (if compression_set_contains s Deflate then Deflate else NoCompression)"

section \<open>Payload limits\<close>

record bootstrap_limits =
  max_chunk_bytes :: u32
  max_page_bytes :: u32

definition bootstrap_limits_new :: "u32 \<Rightarrow> u32 \<Rightarrow> bootstrap_limits option" where
  "bootstrap_limits_new chunk page =
     (if chunk = 0 \<or> max_bootstrap_chunk_bytes < chunk \<or> page = 0 \<or> max_history_page_bytes < page
      then None else Some \<lparr>max_chunk_bytes = chunk, max_page_bytes = page\<rparr>)"

definition bootstrap_limits_intersect :: "bootstrap_limits \<Rightarrow> bootstrap_limits \<Rightarrow> bootstrap_limits" where
  "bootstrap_limits_intersect a b =
     \<lparr>max_chunk_bytes = (if max_chunk_bytes a < max_chunk_bytes b then max_chunk_bytes a else max_chunk_bytes b),
      max_page_bytes = (if max_page_bytes a < max_page_bytes b then max_page_bytes a else max_page_bytes b)\<rparr>"

definition bootstrap_limits_default :: bootstrap_limits where
  "bootstrap_limits_default = \<lparr>max_chunk_bytes = 256 * 1024, max_page_bytes = 1024 * 1024\<rparr>"

section \<open>Bootstrap profiles, engine codecs and features\<close>

datatype bootstrap_profile_kind = KNativeState | KSynthesizedVtRaw | KSynthesizedVtStateSync

definition profile_kind_bit :: "bootstrap_profile_kind \<Rightarrow> u8" where
  "profile_kind_bit k = (case k of KNativeState \<Rightarrow> 8 | KSynthesizedVtRaw \<Rightarrow> 2 | KSynthesizedVtStateSync \<Rightarrow> 4)"

type_synonym bootstrap_profile_set = u8

definition profile_set_known :: u8 where
  "profile_set_known = profile_kind_bit KNativeState OR profile_kind_bit KSynthesizedVtRaw
     OR profile_kind_bit KSynthesizedVtStateSync"

definition profile_set_with :: "bootstrap_profile_kind list \<Rightarrow> bootstrap_profile_set" where
  "profile_set_with profiles = foldl (\<lambda>bits p. bits OR profile_kind_bit p) 0 profiles"

definition profile_set_contains :: "bootstrap_profile_set \<Rightarrow> bootstrap_profile_kind \<Rightarrow> bool" where
  "profile_set_contains s p \<longleftrightarrow> s AND profile_kind_bit p \<noteq> 0"

definition profile_set_as_wire :: "bootstrap_profile_set \<Rightarrow> u8" where
  "profile_set_as_wire s = s AND profile_set_known"

definition profile_set_from_wire :: "u8 \<Rightarrow> bootstrap_profile_set" where
  "profile_set_from_wire bits = bits AND profile_set_known"

datatype engine_codec = LibghosttyCheckpointV2

definition engine_codec_as_wire :: "engine_codec \<Rightarrow> u8" where
  "engine_codec_as_wire c = (case c of LibghosttyCheckpointV2 \<Rightarrow> 2)"

definition engine_codec_from_wire :: "u8 \<Rightarrow> engine_codec option" where
  "engine_codec_from_wire v = (if v = 2 then Some LibghosttyCheckpointV2 else None)"

datatype bootstrap_codec = SynthesizedVtV1 | NativeCodec engine_codec | AgentEventsJsonlV1Codec

type_synonym engine_codec_set = u64

definition engine_codec_set_known :: u64 where
  "engine_codec_set_known = 4"

definition engine_codec_set_with :: "engine_codec list \<Rightarrow> engine_codec_set" where
  "engine_codec_set_with codecs = foldl (\<lambda>bits c. bits OR push_bit (unat (engine_codec_as_wire c)) 1) 0 codecs"

definition engine_codec_set_contains :: "engine_codec_set \<Rightarrow> engine_codec \<Rightarrow> bool" where
  "engine_codec_set_contains s c \<longleftrightarrow> s AND push_bit (unat (engine_codec_as_wire c)) 1 \<noteq> 0"

definition engine_codec_set_as_wire :: "engine_codec_set \<Rightarrow> u64" where
  "engine_codec_set_as_wire s = s AND engine_codec_set_known"

definition engine_codec_set_from_wire :: "u64 \<Rightarrow> engine_codec_set" where
  "engine_codec_set_from_wire bits = bits AND engine_codec_set_known"

definition highest_common :: "engine_codec_set \<Rightarrow> engine_codec_set \<Rightarrow> engine_codec option" where
  "highest_common a b = (if (a AND b) AND 4 \<noteq> 0 then Some LibghosttyCheckpointV2 else None)"

datatype engine_feature = Continuation | ReadyBoundary | HistoryPages | BoundedHistoryControl

definition engine_feature_bit :: "engine_feature \<Rightarrow> u32" where
  "engine_feature_bit f = (case f of
     Continuation \<Rightarrow> 1 | ReadyBoundary \<Rightarrow> 2 | HistoryPages \<Rightarrow> 4 | BoundedHistoryControl \<Rightarrow> 8)"

type_synonym engine_feature_set = u32

definition engine_feature_set_known :: u32 where
  "engine_feature_set_known = engine_feature_bit Continuation OR engine_feature_bit ReadyBoundary
     OR engine_feature_bit HistoryPages OR engine_feature_bit BoundedHistoryControl"

definition engine_feature_set_contains :: "engine_feature_set \<Rightarrow> engine_feature \<Rightarrow> bool" where
  "engine_feature_set_contains s f \<longleftrightarrow> s AND engine_feature_bit f \<noteq> 0"

definition supports_native :: "engine_feature_set \<Rightarrow> bool" where
  "supports_native s \<longleftrightarrow> s AND engine_feature_set_known = engine_feature_set_known"

definition engine_feature_set_as_wire :: "engine_feature_set \<Rightarrow> u32" where
  "engine_feature_set_as_wire s = s AND engine_feature_set_known"

definition engine_feature_set_from_wire :: "u32 \<Rightarrow> engine_feature_set" where
  "engine_feature_set_from_wire bits = bits AND engine_feature_set_known"

definition engine_feature_set_intersect :: "engine_feature_set \<Rightarrow> engine_feature_set \<Rightarrow> engine_feature_set" where
  "engine_feature_set_intersect a b = (a AND b) AND engine_feature_set_known"

record bootstrap_capabilities =
  cap_profiles :: bootstrap_profile_set
  cap_native_codecs :: engine_codec_set
  cap_native_features :: engine_feature_set
  cap_limits :: bootstrap_limits

definition bootstrap_capabilities_new :: bootstrap_capabilities where
  "bootstrap_capabilities_new =
     \<lparr>cap_profiles = profile_set_with [KSynthesizedVtRaw, KSynthesizedVtStateSync],
      cap_native_codecs = 0, cap_native_features = 0, cap_limits = bootstrap_limits_default\<rparr>"

definition with_native :: "bootstrap_capabilities \<Rightarrow> engine_codec \<Rightarrow> engine_feature_set \<Rightarrow> bootstrap_capabilities" where
  "with_native self codec features =
     (if \<not> supports_native features then
        self\<lparr>cap_profiles := profile_set_from_wire (profile_set_as_wire (cap_profiles self) AND NOT (profile_kind_bit KNativeState)),
             cap_native_codecs := 0, cap_native_features := 0\<rparr>
      else
        self\<lparr>cap_profiles := profile_set_from_wire (profile_set_as_wire (cap_profiles self) OR profile_kind_bit KNativeState),
             cap_native_codecs := engine_codec_set_with [codec],
             cap_native_features := engine_feature_set_known\<rparr>)"

datatype bootstrap_profile =
    NativeState engine_codec engine_feature_set
  | SynthesizedVtRaw
  | SynthesizedVtStateSync

datatype bootstrap_stream_profile =
    StreamNativeState engine_codec
  | StreamSynthesizedVtRaw
  | StreamSynthesizedVtStateSync
  | StreamAgentEventsJsonlV1

section \<open>Layers and feature masks\<close>

type_synonym layer_set = u8

definition layer_set_as_wire :: "layer_set \<Rightarrow> u8" where
  "layer_set_as_wire s = s OR 1"

definition layer_set_from_wire :: "u8 \<Rightarrow> layer_set" where
  "layer_set_from_wire byte = (byte AND (1 OR 2 OR 4)) OR 1"

type_synonym server_feature_set = u32

definition server_feature_set_known :: u32 where
  "server_feature_set_known = 0x10 OR 0x20 OR 0x40 OR 0x80 OR 0x100 OR 0x200 OR 0x400 OR 0x800 OR 0x2000
     OR 0x4000 OR 0x8000 OR 0x10000 OR 0x20000 OR 0x40000 OR 0x80000 OR 0x100000 OR 0x200000 OR 0x400000"

definition server_feature_set_as_wire :: "server_feature_set \<Rightarrow> u32" where
  "server_feature_set_as_wire s = s AND server_feature_set_known"

definition server_feature_set_from_wire :: "u32 \<Rightarrow> server_feature_set" where
  "server_feature_set_from_wire bits = bits AND server_feature_set_known"

type_synonym image_protocol_set = u8

definition image_protocol_set_known :: u8 where
  "image_protocol_set_known = 1 OR 2 OR 4"

definition image_protocol_set_as_wire :: "image_protocol_set \<Rightarrow> u8" where
  "image_protocol_set_as_wire s = s AND image_protocol_set_known"

definition image_protocol_set_from_wire :: "u8 \<Rightarrow> image_protocol_set" where
  "image_protocol_set_from_wire byte = byte AND image_protocol_set_known"

type_synonym keyboard_protocol_set = u8

definition keyboard_protocol_set_known :: u8 where
  "keyboard_protocol_set_known = 1 OR 2"

definition keyboard_protocol_set_as_wire :: "keyboard_protocol_set \<Rightarrow> u8" where
  "keyboard_protocol_set_as_wire s = s AND keyboard_protocol_set_known"

definition keyboard_protocol_set_from_wire :: "u8 \<Rightarrow> keyboard_protocol_set" where
  "keyboard_protocol_set_from_wire byte = byte AND keyboard_protocol_set_known"

section \<open>The capability records\<close>

record terminal_color =
  color_r :: u8
  color_g :: u8
  color_b :: u8

record terminal_default_colors =
  colors_foreground :: terminal_color
  colors_background :: terminal_color

record ssh_origin =
  origin_client :: socket_addr
  origin_server :: "socket_addr option"

record client_capabilities =
  cc_color_support :: color_support
  cc_layers :: layer_set
  cc_image_protocols :: image_protocol_set
  cc_kbd_protocols :: keyboard_protocol_set
  cc_hyperlinks :: bool
  cc_output_mode :: output_mode
  cc_default_colors :: "terminal_default_colors option"
  cc_bootstrap :: bootstrap_capabilities
  cc_compression :: compression_set
  cc_ssh_origin :: "ssh_origin option"

definition client_capabilities_new :: client_capabilities where
  "client_capabilities_new =
     \<lparr>cc_color_support = TrueColor, cc_layers = 1, cc_image_protocols = image_protocol_set_known,
      cc_kbd_protocols = keyboard_protocol_set_known, cc_hyperlinks = True, cc_output_mode = OutRaw,
      cc_default_colors = None, cc_bootstrap = bootstrap_capabilities_new, cc_compression = 0,
      cc_ssh_origin = None\<rparr>"

record server_capabilities =
  sc_layers :: layer_set
  sc_features :: server_feature_set
  sc_compression :: compression

definition server_capabilities_new :: server_capabilities where
  "server_capabilities_new = \<lparr>sc_layers = 1, sc_features = 0, sc_compression = NoCompression\<rparr>"

section \<open>Negotiation\<close>

text \<open>
  The result is \<open>None\<close> where the source would reach \<open>unreachable!()\<close>.
\<close>

datatype codec_unavailable = CodecUnavailable

definition compatibility_profile :: "bootstrap_profile_kind \<Rightarrow> bootstrap_profile option" where
  "compatibility_profile k = (case k of
     KSynthesizedVtRaw \<Rightarrow> Some SynthesizedVtRaw
   | KSynthesizedVtStateSync \<Rightarrow> Some SynthesizedVtStateSync
   | KNativeState \<Rightarrow> None)"

definition fallback_kind :: "bootstrap_profile_kind \<Rightarrow> bootstrap_profile_kind option" where
  "fallback_kind k = (case k of
     KSynthesizedVtRaw \<Rightarrow> Some KSynthesizedVtStateSync
   | KSynthesizedVtStateSync \<Rightarrow> Some KSynthesizedVtRaw
   | KNativeState \<Rightarrow> None)"

definition preferred_kind :: "client_capabilities \<Rightarrow> bootstrap_profile_kind" where
  "preferred_kind client = (case cc_output_mode client of
     OutRaw \<Rightarrow> KSynthesizedVtRaw | OutStateSync \<Rightarrow> KSynthesizedVtStateSync)"

definition select_bootstrap_profile ::
    "client_capabilities \<Rightarrow> bootstrap_capabilities \<Rightarrow> (codec_unavailable + bootstrap_profile \<times> bootstrap_limits) option" where
  "select_bootstrap_profile client server =
     (let boot = cc_bootstrap client;
          limits = bootstrap_limits_intersect (cap_limits boot) (cap_limits server);
          both = (\<lambda>k. profile_set_contains (cap_profiles boot) k \<and> profile_set_contains (cap_profiles server) k);
          native = (if both KNativeState then highest_common (cap_native_codecs boot) (cap_native_codecs server) else None);
          features = engine_feature_set_intersect (cap_native_features boot) (cap_native_features server)
      in case (if supports_native features then native else None) of
           Some codec \<Rightarrow> Some (Ok (NativeState codec features, limits))
         | None \<Rightarrow>
             (let preferred = preferred_kind client
              in if both preferred
                 then map_option (\<lambda>p. Ok (p, limits)) (compatibility_profile preferred)
                 else case fallback_kind preferred of
                        None \<Rightarrow> None
                      | Some fallback \<Rightarrow>
                          (if both fallback
                           then map_option (\<lambda>p. Ok (p, limits)) (compatibility_profile fallback)
                           else Some (Err CodecUnavailable))))"

section \<open>Colour detection\<close>

definition to_ascii_lowercase :: "bytes \<Rightarrow> bytes" where
  "to_ascii_lowercase s = map (\<lambda>b. if 65 \<le> b \<and> b \<le> 90 then b + 32 else b) s"

definition str_ends_with :: "bytes \<Rightarrow> bytes \<Rightarrow> bool" where
  "str_ends_with s t \<longleftrightarrow> length t \<le> length s \<and> drop (length s - length t) s = t"

fun str_contains :: "bytes \<Rightarrow> bytes \<Rightarrow> bool" where
  "str_contains [] t \<longleftrightarrow> t = []"
| "str_contains (b # s) t \<longleftrightarrow> take (length t) (b # s) = t \<or> str_contains s t"

definition detect_from_env :: "(bytes \<Rightarrow> str option) \<Rightarrow> color_support" where
  "detect_from_env env =
     (if (case env (ascii ''COLORTERM'') of
            Some ct \<Rightarrow> to_ascii_lowercase ct = ascii ''truecolor'' \<or> to_ascii_lowercase ct = ascii ''24bit''
          | None \<Rightarrow> False)
      then TrueColor
      else
        let term_lc = to_ascii_lowercase (case env (ascii ''TERM'') of Some t \<Rightarrow> t | None \<Rightarrow> [])
        in if str_ends_with term_lc (ascii ''-direct'') \<or> str_ends_with term_lc (ascii ''-truecolor'') then TrueColor
           else if str_ends_with term_lc (ascii ''-256color'') then Indexed256
           else if term_lc \<noteq> [] \<and> \<not> str_contains term_lc (ascii ''color'')
             then (if term_lc = ascii ''dumb'' then Mono else Indexed16)
           else
             (case env (ascii ''TERM_PROGRAM'') of
                Some tp \<Rightarrow>
                  (let tp_lc = to_ascii_lowercase tp
                   in if tp_lc = ascii ''iterm.app'' \<or> tp_lc = ascii ''wezterm'' then TrueColor
                      else if tp_lc = ascii ''apple_terminal'' then Indexed256 else TrueColor)
              | None \<Rightarrow> TrueColor))"

section \<open>What the constructors guarantee, and the masks\<close>

definition wf_limits :: "bootstrap_limits \<Rightarrow> bool" where
  "wf_limits l \<longleftrightarrow> bootstrap_limits_new (max_chunk_bytes l) (max_page_bytes l) = Some l"

definition wf_bootstrap_capabilities :: "bootstrap_capabilities \<Rightarrow> bool" where
  "wf_bootstrap_capabilities c \<longleftrightarrow>
     profile_set_from_wire (cap_profiles c) = cap_profiles c
     \<and> engine_codec_set_from_wire (cap_native_codecs c) = cap_native_codecs c
     \<and> engine_feature_set_from_wire (cap_native_features c) = cap_native_features c
     \<and> wf_limits (cap_limits c)"

definition wf_socket :: "socket_addr \<Rightarrow> bool" where
  "wf_socket s = (case s of SocketV4 _ _ _ _ _ \<Rightarrow> True
     | SocketV6 gs _ flowinfo scope_id \<Rightarrow> length gs = 8 \<and> flowinfo = 0 \<and> scope_id = 0)"

definition wf_ssh_origin :: "ssh_origin \<Rightarrow> bool" where
  "wf_ssh_origin o' \<longleftrightarrow> wf_socket (origin_client o') \<and> (case origin_server o' of None \<Rightarrow> True | Some s \<Rightarrow> wf_socket s)"

definition wf_client_capabilities :: "client_capabilities \<Rightarrow> bool" where
  "wf_client_capabilities c \<longleftrightarrow>
     layer_set_from_wire (cc_layers c) = cc_layers c
     \<and> image_protocol_set_from_wire (cc_image_protocols c) = cc_image_protocols c
     \<and> keyboard_protocol_set_from_wire (cc_kbd_protocols c) = cc_kbd_protocols c
     \<and> wf_bootstrap_capabilities (cc_bootstrap c)
     \<and> (case cc_ssh_origin c of None \<Rightarrow> True | Some o' \<Rightarrow> wf_ssh_origin o')"

definition wf_server_capabilities :: "server_capabilities \<Rightarrow> bool" where
  "wf_server_capabilities c \<longleftrightarrow>
     layer_set_from_wire (sc_layers c) = sc_layers c
     \<and> server_feature_set_from_wire (sc_features c) = sc_features c"

lemma wire_tags [simp]:
  "color_support_from_wire (color_support_as_wire c) = Some c"
  "output_mode_from_wire (output_mode_as_wire m) = m"
  "compression_from_u8 (compression_as_u8 z) = z"
  "engine_codec_from_wire (engine_codec_as_wire e) = Some e"
  by (simp_all add: color_support_from_wire_def color_support_as_wire_def output_mode_from_wire_def
      output_mode_as_wire_def compression_from_u8_def compression_as_u8_def engine_codec_from_wire_def
      engine_codec_as_wire_def split: color_support.splits output_mode.splits compression.splits engine_codec.splits)

lemma mask_wire:
  "profile_set_from_wire (profile_set_as_wire p) = profile_set_from_wire p"
  "engine_codec_set_from_wire (engine_codec_set_as_wire q) = engine_codec_set_from_wire q"
  "engine_feature_set_from_wire (engine_feature_set_as_wire f) = engine_feature_set_from_wire f"
  "layer_set_from_wire (layer_set_as_wire l) = layer_set_from_wire l"
  "server_feature_set_from_wire (server_feature_set_as_wire s) = server_feature_set_from_wire s"
  "image_protocol_set_from_wire (image_protocol_set_as_wire i) = image_protocol_set_from_wire i"
  "keyboard_protocol_set_from_wire (keyboard_protocol_set_as_wire k) = keyboard_protocol_set_from_wire k"
  by (simp_all add: profile_set_from_wire_def profile_set_as_wire_def engine_codec_set_from_wire_def
      engine_codec_set_as_wire_def engine_feature_set_from_wire_def engine_feature_set_as_wire_def
      server_feature_set_from_wire_def server_feature_set_as_wire_def image_protocol_set_from_wire_def
      image_protocol_set_as_wire_def keyboard_protocol_set_from_wire_def keyboard_protocol_set_as_wire_def
      layer_set_from_wire_def layer_set_as_wire_def and.assoc or.assoc)
    (rule bit_word_eqI, auto simp: bit_simps)

section \<open>What the negotiation settles on\<close>

text \<open>
  The profile kinds both ends can run: offered by both and, for the native one, with a common
  engine codec and every engine feature on both sides. The client's preference: native first,
  then the compatibility profile of its output mode.
\<close>

definition agreed :: "client_capabilities \<Rightarrow> bootstrap_capabilities \<Rightarrow> bootstrap_profile_kind \<Rightarrow> bool" where
  "agreed c s k \<longleftrightarrow>
     profile_set_contains (cap_profiles (cc_bootstrap c)) k \<and> profile_set_contains (cap_profiles s) k
     \<and> (k = KNativeState \<longrightarrow>
          (\<exists>codec. engine_codec_set_contains (cap_native_codecs (cc_bootstrap c)) codec
             \<and> engine_codec_set_contains (cap_native_codecs s) codec)
          \<and> (\<forall>f. engine_feature_set_contains (cap_native_features (cc_bootstrap c)) f
             \<and> engine_feature_set_contains (cap_native_features s) f))"

definition preference :: "client_capabilities \<Rightarrow> bootstrap_profile_kind \<Rightarrow> nat" where
  "preference c k = (if k = KNativeState then 2 else if k = preferred_kind c then 1 else 0)"

definition profile_kind :: "bootstrap_profile \<Rightarrow> bootstrap_profile_kind" where
  "profile_kind p = (case p of NativeState _ _ \<Rightarrow> KNativeState
     | SynthesizedVtRaw \<Rightarrow> KSynthesizedVtRaw | SynthesizedVtStateSync \<Rightarrow> KSynthesizedVtStateSync)"

definition feature_index :: "engine_feature \<Rightarrow> nat" where
  "feature_index f = (case f of Continuation \<Rightarrow> 0 | ReadyBoundary \<Rightarrow> 1 | HistoryPages \<Rightarrow> 2 | BoundedHistoryControl \<Rightarrow> 3)"

lemma feature_bit: "engine_feature_set_contains s x \<longleftrightarrow> bit s (feature_index x)"
proof -
  have "engine_feature_bit x = 2 ^ feature_index x"
    by (cases x) (simp_all add: engine_feature_bit_def feature_index_def)
  then show ?thesis
    by (simp only: engine_feature_set_contains_def and_exp_eq_0_iff_not_bit not_not)
qed

lemma all_features: "(\<forall>x. P (feature_index x)) \<longleftrightarrow> (\<forall>n<4. P n)"
proof -
  have "(\<forall>n<4. P n) \<longleftrightarrow> P 0 \<and> P 1 \<and> P 2 \<and> P 3"
    by (simp add: numeral_eq_Suc All_less_Suc) blast
  moreover have "(\<forall>x. P (feature_index x)) \<longleftrightarrow> P 0 \<and> P 1 \<and> P 2 \<and> P 3"
    by (auto simp: feature_index_def split: engine_feature.splits)
  ultimately show ?thesis by simp
qed

lemma known_features: "engine_feature_set_known = mask 4"
  by (simp add: engine_feature_set_known_def engine_feature_bit_def mask_eq_exp_minus_1)

lemma supports_native_iff: "supports_native f \<longleftrightarrow> (\<forall>x. engine_feature_set_contains f x)"
proof -
  have "f AND mask 4 = mask 4 \<longleftrightarrow> (\<forall>n<4. bit f n)"
  proof -
    have "bit f n" if "f AND mask 4 = mask 4" "n < 4" for n
      using arg_cong [OF that(1), of "\<lambda>w. bit w n"] that(2) by (simp add: bit_simps)
    then show ?thesis by (auto simp: bit_eq_iff bit_simps)
  qed
  then show ?thesis by (simp only: supports_native_def known_features feature_bit all_features)
qed

lemma intersect_contains:
  "engine_feature_set_contains (engine_feature_set_intersect a b) x \<longleftrightarrow>
     engine_feature_set_contains a x \<and> engine_feature_set_contains b x"
proof -
  have "feature_index x < 4" by (cases x) (simp_all add: feature_index_def)
  then show ?thesis by (simp add: feature_bit engine_feature_set_intersect_def known_features bit_simps)
qed

lemma highest_common_iff:
  "highest_common a b = (if \<exists>c. engine_codec_set_contains a c \<and> engine_codec_set_contains b c
     then Some LibghosttyCheckpointV2 else None)"
proof -
  have "engine_codec_set_contains s c \<longleftrightarrow> s AND 2 ^ 2 \<noteq> 0" for s c
    by (cases c) (simp add: engine_codec_set_contains_def engine_codec_as_wire_def push_bit_eq_mult)
  then have c: "engine_codec_set_contains s c \<longleftrightarrow> bit s 2" for s c
    by (simp only: and_exp_eq_0_iff_not_bit not_not)
  have "(4 :: u64) = 2 ^ 2" by simp
  then show ?thesis
    by (simp only: highest_common_def and_exp_eq_0_iff_not_bit not_not c bit_and_iff) simp
qed

lemma all_kinds:
  "(\<forall>k. P k) \<longleftrightarrow> P KNativeState \<and> P KSynthesizedVtRaw \<and> P KSynthesizedVtStateSync"
  "(\<exists>k. P k) \<longleftrightarrow> P KNativeState \<or> P KSynthesizedVtRaw \<or> P KSynthesizedVtStateSync"
  by (metis bootstrap_profile_kind.exhaust)+

lemma limits_intersect_le:
  "max_chunk_bytes (bootstrap_limits_intersect a b) = min (max_chunk_bytes a) (max_chunk_bytes b)"
  "max_page_bytes (bootstrap_limits_intersect a b) = min (max_page_bytes a) (max_page_bytes b)"
  by (simp_all add: bootstrap_limits_intersect_def min_def not_less)
    (meson linorder_not_le order.strict_iff_order)+

text \<open>
  C28. The bootstrap negotiation never panics. It fails exactly when the two ends share no profile; otherwise
  it settles on a shared profile, the one the client prefers, with payload limits neither end
  exceeds.
\<close>

theorem select_bootstrap_profile_spec:
  "case select_bootstrap_profile c s of
     None \<Rightarrow> False
   | Some (Inl _) \<Rightarrow> (\<nexists>k. agreed c s k)
   | Some (Inr (p, l)) \<Rightarrow>
       agreed c s (profile_kind p)
       \<and> (\<forall>k. agreed c s k \<longrightarrow> preference c k \<le> preference c (profile_kind p))
       \<and> (\<forall>codec f. p = NativeState codec f \<longrightarrow> supports_native f)
       \<and> max_chunk_bytes l = min (max_chunk_bytes (cap_limits (cc_bootstrap c))) (max_chunk_bytes (cap_limits s))
       \<and> max_page_bytes l = min (max_page_bytes (cap_limits (cc_bootstrap c))) (max_page_bytes (cap_limits s))"
proof -
  let ?f = "engine_feature_set_intersect (cap_native_features (cc_bootstrap c)) (cap_native_features s)"
  have n: "agreed c s KNativeState \<longleftrightarrow>
      profile_set_contains (cap_profiles (cc_bootstrap c)) KNativeState
      \<and> profile_set_contains (cap_profiles s) KNativeState
      \<and> highest_common (cap_native_codecs (cc_bootstrap c)) (cap_native_codecs s) = Some LibghosttyCheckpointV2
      \<and> supports_native ?f"
    by (auto simp: agreed_def highest_common_iff supports_native_iff intersect_contains)
  show ?thesis
  proof (cases "agreed c s KNativeState")
    case True
    then have "select_bootstrap_profile c s = Some (Ok (NativeState LibghosttyCheckpointV2 ?f,
        bootstrap_limits_intersect (cap_limits (cc_bootstrap c)) (cap_limits s)))"
      unfolding n by (simp add: select_bootstrap_profile_def Let_def)
    with True n show ?thesis by (simp add: profile_kind_def preference_def limits_intersect_le)
  next
    case False
    then have none: "(if supports_native ?f then (if profile_set_contains (cap_profiles (cc_bootstrap c)) KNativeState
        \<and> profile_set_contains (cap_profiles s) KNativeState
        then highest_common (cap_native_codecs (cc_bootstrap c)) (cap_native_codecs s) else None) else None) = None"
      unfolding n by (auto simp: highest_common_iff split: if_splits)
    have compat: "agreed c s k \<longleftrightarrow> profile_set_contains (cap_profiles (cc_bootstrap c)) k \<and> profile_set_contains (cap_profiles s) k"
      if "k = KSynthesizedVtRaw \<or> k = KSynthesizedVtStateSync" for k using that by (auto simp: agreed_def)
    show ?thesis unfolding select_bootstrap_profile_def Let_def none
      by (cases "cc_output_mode c")
        (auto simp: False compat all_kinds preferred_kind_def compatibility_profile_def fallback_kind_def
          profile_kind_def preference_def limits_intersect_le)
  qed
qed

theorem select_bootstrap_profile_spec_witness:
  "\<exists>p l. select_bootstrap_profile client_capabilities_new bootstrap_capabilities_new = Some (Ok (p, l))
     \<and> agreed client_capabilities_new bootstrap_capabilities_new (profile_kind p)
     \<and> preference client_capabilities_new KSynthesizedVtStateSync
       \<le> preference client_capabilities_new (profile_kind p)"
proof -
  have ok: "select_bootstrap_profile client_capabilities_new bootstrap_capabilities_new =
      Some (Ok (SynthesizedVtRaw, cap_limits bootstrap_capabilities_new))" by code_simp
  have "profile_set_contains (cap_profiles (cc_bootstrap client_capabilities_new)) KSynthesizedVtStateSync"
    "profile_set_contains (cap_profiles bootstrap_capabilities_new) KSynthesizedVtStateSync" by code_simp+
  then have "agreed client_capabilities_new bootstrap_capabilities_new KSynthesizedVtStateSync"
    by (simp add: agreed_def)
  with ok select_bootstrap_profile_spec [of client_capabilities_new bootstrap_capabilities_new] show ?thesis by auto
qed

end
