(* ===== verification/Wire_Round.thy ===== *)
theory Wire_Round
  imports Wire_Prim
begin

text \<open>
  Round trips of the primitive layer: what an \<open>Encoder\<close> method writes, the matching
  \<open>Decoder\<close> method reads back, consuming exactly those bytes. The relation \<open>reads\<close> composes
  along \<open>bind_r\<close>; \<open>reads_body\<close> and \<open>reads_msg\<close> are its counterparts for a message body and its fields.
\<close>

section \<open>Reading a prefix of what remains\<close>

definition wf_dec :: "decoder \<Rightarrow> bool" where
  "wf_dec d \<longleftrightarrow> dec_pos d \<le> length (dec_input d) \<and> length (dec_input d) < 2 ^ 63"

text \<open>
  The bytes in question are part of one frame, so they are never longer than \<open>MAX_FRAME_LEN\<close>;
  every length the encoder writes for them is exact.
\<close>

definition reads :: "'a reader \<Rightarrow> bytes \<Rightarrow> 'a \<Rightarrow> bool" where
  "reads r bs x \<longleftrightarrow> (\<forall>d rest. wf_dec d \<longrightarrow> remaining d = bs @ rest \<longrightarrow> length bs \<le> 16777216 \<longrightarrow>
     r d = Ok (x, d\<lparr>dec_pos := dec_pos d + length bs\<rparr>))"

lemma remaining_length: "dec_pos d \<le> length (dec_input d) \<Longrightarrow> remaining d = bs @ rest \<Longrightarrow>
    dec_pos d + length bs \<le> length (dec_input d)"
  unfolding remaining_def by (metis length_append length_drop le_add1 le_diff_conv2 add.commute)

lemma remaining_advance [simp]:
  "remaining d = bs @ rest \<Longrightarrow> remaining (d\<lparr>dec_pos := dec_pos d + length bs\<rparr>) = rest"
  unfolding remaining_def by (simp add: add.commute flip: drop_drop)

lemma wf_dec_advance: "wf_dec d \<Longrightarrow> remaining d = bs @ rest \<Longrightarrow>
    wf_dec (d\<lparr>dec_pos := dec_pos d + length bs\<rparr>)"
  using remaining_length unfolding wf_dec_def by auto

lemma reads_ret [wire_simps]: "reads (ret_r x) [] x"
  by (simp add: reads_def ret_r_def)

lemma reads_bind:
  assumes "reads m bs x" and "reads (f x) cs y"
  shows "reads (bind_r m f) (bs @ cs) y"
  unfolding reads_def
proof (intro allI impI)
  fix d rest
  assume wf: "wf_dec d" and r: "remaining d = (bs @ cs) @ rest" and "length (bs @ cs) \<le> 16777216"
  then have r': "remaining d = bs @ (cs @ rest)" and l: "length bs \<le> 16777216" "length cs \<le> 16777216" by simp_all
  let ?e = "d\<lparr>dec_pos := dec_pos d + length bs\<rparr>"
  from assms(1) wf r' l have "m d = Ok (x, ?e)" unfolding reads_def by blast
  moreover from assms(2) wf_dec_advance [OF wf r'] remaining_advance [OF r'] l
  have "f x ?e = Ok (y, ?e\<lparr>dec_pos := dec_pos ?e + length cs\<rparr>)" unfolding reads_def by blast
  ultimately show "bind_r m f d = Ok (y, d\<lparr>dec_pos := dec_pos d + length (bs @ cs)\<rparr>)"
    by (simp add: bind_r_def add.assoc)
qed

lemma reads_map:
  assumes "reads m bs x" and "reads (f x) [] y"
  shows "reads (bind_r m f) bs y"
  using reads_bind [of m bs x f "[]" y] assms by simp

lemma reads_lift: "reads (lift_r (Ok x)) [] x"
  by (simp add: reads_def lift_r_def)

lemma reads_if_not: "\<not> c \<Longrightarrow> reads r bs x \<Longrightarrow> reads (if c then q else r) bs x"
  by simp

lemma reads_take: "length bs = n \<Longrightarrow> reads (take_r n) bs bs"
proof -
  assume n: "length bs = n"
  show ?thesis unfolding reads_def
  proof (intro allI impI)
    fix d rest
    assume wf: "wf_dec d" and r: "remaining d = bs @ rest"
    from wf r have le: "dec_pos d + n \<le> length (dec_input d)" "length (dec_input d) < 2 ^ 63"
      using remaining_length [of d bs rest] n by (auto simp: wf_dec_def)
    moreover have "take n (drop (dec_pos d) (dec_input d)) = bs"
      using r n unfolding remaining_def by simp
    moreover have "(2::nat) ^ 63 < 2 ^ 64" by simp
    ultimately show "take_r n d = Ok (bs, d\<lparr>dec_pos := dec_pos d + length bs\<rparr>)"
      using n by (simp add: take_r_def Let_def)
  qed
qed

section \<open>Integers\<close>

lemma length_to_be [simp]: "length (to_be n w) = n"
  by (induction n) auto

lemma foldl_from_be:
  "foldl (\<lambda>acc b. push_bit 8 acc OR ucast b) a (to_be n w) =
     push_bit (8 * n) a OR take_bit (8 * n) (w :: 'a::len word)"
proof (induction n arbitrary: a)
  case 0
  then show ?case by simp
next
  case (Suc n)
  have "push_bit (8 * n) (push_bit 8 a OR ucast (ucast (drop_bit (8 * n) w) :: u8)) OR take_bit (8 * n) w
      = push_bit (8 * Suc n) a OR take_bit (8 * Suc n) w"
  proof (rule bit_word_eqI)
    fix i
    have "8 * n + (i - 8 * n) = i" if "8 * n \<le> i" using that by simp
    moreover have "i - 8 * n - 8 = i - 8 * Suc n" by simp
    ultimately show "bit (push_bit (8 * n) (push_bit 8 a OR ucast (ucast (drop_bit (8 * n) w) :: u8))
        OR take_bit (8 * n) w) i = bit (push_bit (8 * Suc n) a OR take_bit (8 * Suc n) w) i"
      if "i < LENGTH('a)" using that by (auto simp: bit_simps)
  qed
  with Suc show ?case by simp
qed

lemma from_to_be: "LENGTH('a) = 8 * n \<Longrightarrow> from_be (to_be n w) = (w :: 'a::len word)"
  unfolding from_be_def foldl_from_be by (simp add: take_bit_word_eq_self)

lemma to_from_be:
  assumes "LENGTH('a) = 8 * length bs"
  shows "to_be (length bs) (from_be bs :: 'a::len word) = bs"
proof -
  have gen: "to_be (length cs) (foldl (\<lambda>acc b. push_bit 8 acc OR ucast b) a cs :: 'a word) = cs"
    if "8 * length cs \<le> LENGTH('a)" for a cs
    using that
  proof (induction cs arbitrary: a rule: rev_induct)
    case Nil
    then show ?case by simp
  next
    case (snoc c cs)
    let ?f = "foldl (\<lambda>acc b. push_bit 8 acc OR ucast b) a cs :: 'a word"
    have shift: "to_be (Suc n) (push_bit 8 w OR ucast c) = to_be n w @ [c]"
      if "8 * Suc n \<le> LENGTH('a)" for n and w :: "'a word"
      using that
    proof (induction n)
      case 0
      have "(ucast (push_bit 8 w OR ucast c :: 'a word) :: u8) = c"
        by (rule bit_word_eqI) (use 0 in \<open>auto simp: bit_simps\<close>)
      then show ?case by simp
    next
      case (Suc n)
      have "(ucast (drop_bit (8 * Suc n) (push_bit 8 w OR ucast c :: 'a word)) :: u8)
          = ucast (drop_bit (8 * n) w)"
        by (rule bit_word_eqI) (use Suc.prems in \<open>auto simp: bit_simps dest: bit_imp_le_length\<close>)
      with Suc show ?case by simp
    qed
    from snoc.IH [of a] snoc.prems shift [of "length cs" ?f] show ?case by simp
  qed
  show ?thesis unfolding from_be_def by (rule gen) (simp add: assms)
qed

lemma reads_int:
  assumes "LENGTH('a) = 8 * n"
  shows "reads (bind_r (take_r n) (\<lambda>s. ret_r (from_be s))) (to_be n w) (w :: 'a::len word)"
  by (rule reads_map [OF reads_take]) (simp_all add: from_to_be [OF assms] reads_ret)

lemma reads_u8 [wire_simps]: "reads read_u8 (write_u8 v) v"
  unfolding read_u8_def write_u8_def by (rule reads_map [OF reads_take]) (simp_all add: wire_simps)

lemma reads_u16 [wire_simps]: "reads read_u16_be (write_u16_be v) v"
  unfolding read_u16_be_def write_u16_be_def by (rule reads_int) simp

lemma reads_u32 [wire_simps]: "reads read_u32_be (write_u32_be v) v"
  unfolding read_u32_be_def write_u32_be_def by (rule reads_int) simp

lemma reads_u64 [wire_simps]: "reads read_u64_be (write_u64_be v) v"
  unfolding read_u64_be_def write_u64_be_def by (rule reads_int) simp

lemma reads_f32 [wire_simps]: "reads read_f32_be (write_f32_be v) v"
  unfolding read_f32_be_def write_f32_be_def by (rule reads_int) simp

lemma reads_i64 [wire_simps]: "reads read_i64_be (write_i64_be v) v"
  unfolding read_i64_be_def write_i64_be_def by (rule reads_int) simp

lemma reads_f64 [wire_simps]: "reads read_f64_be (write_f64_be v) v"
  unfolding read_f64_be_def write_f64_be_def by (rule reads_int) simp

section \<open>Bytes and strings\<close>

lemma max_frame_len_unat [simp]: "unat max_frame_len = 16777216"
  by (simp add: max_frame_len_def)

lemma reads_short: "(length bs \<le> 16777216 \<Longrightarrow> reads r bs x) \<Longrightarrow> reads r bs x"
  unfolding reads_def by blast

lemma length_write_bytes [simp]: "length (write_bytes v) = length v + 4"
  by (simp add: write_bytes_def write_u32_be_def)

lemma reads_bytes [wire_simps]: "reads read_bytes (write_bytes v) v"
proof (rule reads_short)
  assume "length (write_bytes v) \<le> 16777216"
  then have assms: "length v \<le> 16777216" by simp
  have len: "unat (of_nat (length v) :: u32) = length v"
    using assms by (simp add: unat_of_nat)
  have "\<not> max_frame_len < (of_nat (length v) :: u32)"
    using assms len by (simp add: word_less_nat_alt)
  moreover have "length v < 2 ^ 32" using assms by simp
  moreover have "reads (take_r (unat (of_nat (length v) :: u32))) v v"
    by (rule reads_take) (simp add: len)
  ultimately show ?thesis unfolding read_bytes_def write_bytes_def
    by (auto intro!: reads_bind reads_u32)
qed

lemma reads_str [wire_simps]:
  assumes "utf8_valid v"
  shows "reads read_str (write_str v) v"
  unfolding read_str_def write_str_def
  by (rule reads_map [OF reads_bytes]) (simp add: from_utf8_def assms reads_lift)

section \<open>Varints\<close>

lemma septet_bits:
  "(x :: 'a::len word) AND 0x7F = take_bit 7 x"
  "(b :: u8) AND 0x80 = 0 \<longleftrightarrow> \<not> bit b 7"
  "bit (b OR 0x80) n \<longleftrightarrow> bit b n \<or> n = 7"
proof -
  have m: "(0x7F :: 'a word) = mask 7" by (simp add: mask_eq_exp_minus_1)
  have p: "(0x80 :: u8) = 2 ^ 7" by simp
  show "(x :: 'a::len word) AND 0x7F = take_bit 7 x" unfolding m take_bit_eq_mask ..
  show "(b :: u8) AND 0x80 = 0 \<longleftrightarrow> \<not> bit b 7" unfolding p by (rule and_exp_eq_0_iff_not_bit)
  show "bit (b OR 0x80) n \<longleftrightarrow> bit b n \<or> n = 7" unfolding p
    by (simp only: bit_or_iff bit_exp_iff) auto
qed

lemma septet_last:
  assumes "drop_bit 7 (v :: u64) = 0"
  shows "ucast (take_bit 7 (ucast (take_bit 7 v) :: u8)) = v"
proof (rule bit_word_eqI)
  fix n
  have "\<not> bit v n" if "7 \<le> n"
    using arg_cong [OF assms, of "\<lambda>w. bit w (n - 7)"] that by (simp add: bit_simps)
  then show "bit (ucast (take_bit 7 (ucast (take_bit 7 v) :: u8)) :: u64) n = bit v n"
    by (cases "n < 7") (simp_all add: bit_simps not_less)
qed

lemma septet_more:
  "push_bit shift (ucast (take_bit 7 ((ucast (take_bit 7 v) :: u8) OR 0x80))) OR push_bit (shift + 7) (drop_bit 7 v)
    = push_bit shift (v :: u64)"
proof (rule bit_word_eqI)
  fix n
  have "7 + (n - (shift + 7)) = n - shift" if "shift + 7 \<le> n" using that by simp
  moreover have "n - shift < 7 \<longleftrightarrow> \<not> shift + 7 \<le> n" if "shift \<le> n" using that by linarith
  ultimately show "bit (push_bit shift (ucast (take_bit 7 ((ucast (take_bit 7 v) :: u8) OR 0x80)))
      OR push_bit (shift + 7) (drop_bit 7 v)) n = bit (push_bit shift v) n"
    if "n < LENGTH(64)" using that
    by (cases "shift \<le> n"; cases "shift + 7 \<le> n") (simp_all add: bit_simps septet_bits(3))
qed

lemma shift_bound:
  assumes "drop_bit 7 (v :: u64) \<noteq> 0" and "unat v < 2 ^ (64 - shift)" and "shift < 64"
  shows "shift + 7 < 64" and "unat (drop_bit 7 v) < 2 ^ (64 - (shift + 7))"
proof -
  have eq: "unat (drop_bit 7 v) = unat v div 128"
    by (simp only: unat_drop_bit_eq) (simp add: drop_bit_eq_div)
  with assms(1) unat_eq_0 [of "drop_bit 7 v"] have ge: "128 \<le> unat v" by (simp add: div_eq_0_iff)
  have "2 ^ (64 - shift) \<le> (2::nat) ^ 7" if "57 \<le> shift"
    by (rule power_increasing) (use that in simp_all)
  with ge assms(2) show less: "shift + 7 < 64" by (cases "57 \<le> shift") auto
  then have "(2::nat) ^ (64 - shift) = 2 ^ (64 - (shift + 7)) * 128"
    using power_add [of "2::nat" "64 - (shift + 7)" 7] by (simp add: Suc_diff_le)
  with assms(2) show "unat (drop_bit 7 v) < 2 ^ (64 - (shift + 7))"
    unfolding eq by (simp add: less_mult_imp_div_less)
qed

lemma reads_varint_loop:
  assumes "shift < 64" and "unat v < 2 ^ (64 - shift)"
  shows "reads (read_varint_loop acc shift) (write_varint v) (acc OR push_bit shift v)"
  using assms
proof (induction v arbitrary: acc shift rule: write_varint.induct)
  case (1 v)
  let ?b = "ucast (v AND 0x7F) :: u8"
  show ?case
  proof (cases "drop_bit 7 v = 0")
    case True
    have "\<not> bit ?b 7" by (simp add: septet_bits bit_simps)
    with septet_last [OF True] 1(2) show ?thesis
      unfolding read_varint_loop_eq [of acc shift] write_varint.simps [of v]
      by (simp add: True Let_def septet_bits reads_map [OF reads_u8 [unfolded write_u8_def]] reads_ret)
  next
    case False
    have nz: "(?b OR 0x80) AND 0x80 \<noteq> 0" by (simp only: septet_bits) simp
    have w: "write_varint v = write_u8 (?b OR 0x80) @ write_varint (drop_bit 7 v)"
      by (subst write_varint.simps) (simp add: False Let_def write_u8_def)
    have "reads (read_varint_loop (acc OR push_bit shift (ucast ((?b OR 0x80) AND 0x7F))) (shift + 7))
        (write_varint (drop_bit 7 v)) (acc OR push_bit shift v)"
      using "1.IH" [OF refl refl False shift_bound [OF False 1(3,2)],
          of "acc OR push_bit shift (ucast ((?b OR 0x80) AND 0x7F))"]
      unfolding or.assoc septet_bits septet_more .
    then have "reads (bind_r read_u8 (\<lambda>byte.
        let result' = acc OR push_bit shift (ucast (byte AND 0x7F))
        in if byte AND 0x80 = 0 then ret_r result' else read_varint_loop result' (shift + 7)))
        (write_varint v) (acc OR push_bit shift v)"
      unfolding w by (intro reads_bind [OF reads_u8]) (simp only: Let_def if_not_P [OF nz])
    with 1(2) show ?thesis unfolding read_varint_loop_eq [of acc shift] by simp
  qed
qed

lemma reads_varint [wire_simps]: "reads read_varint (write_varint v) v"
  using reads_varint_loop [of 0 v 0] unsigned_less [of v] by (simp add: read_varint_def)

section \<open>Fields and message bodies\<close>

lemma write_varint_nonempty [simp]: "write_varint v \<noteq> []"
  by (subst write_varint.simps) (simp add: Let_def)

lemma write_field_nonempty [simp]: "write_field fid v \<noteq> []"
  by (simp add: write_field_def)

lemma reads_field_body:
  assumes "length v \<le> 16777216"
  shows "reads (bind_r read_varint (\<lambda>fid.
       if 2 ^ 32 \<le> fid then fail_r LengthOverflow
       else bind_r read_u8 (\<lambda>wire_type.
         bind_r read_varint (\<lambda>len.
           if ucast max_frame_len < len then fail_r LengthOverflow
           else bind_r (take_r (unat len)) (\<lambda>v. ret_r (Some (ucast fid, v)))))))
     (write_field fid v) (Some (fid, v))"
proof -
  have small: "\<not> 2 ^ 32 \<le> (ucast fid :: u64)"
  proof -
    have "unat fid < 2 ^ 32" using unsigned_less [of fid] by simp
    then show ?thesis by (simp add: word_le_nat_alt unsigned_ucast_eq take_bit_nat_eq_self)
  qed
  have uu: "ucast (ucast fid :: u64) = fid" by (rule bit_word_eqI) (simp add: bit_simps)
  have len: "unat (of_nat (length v) :: u64) = length v"
    using assms by (simp add: unat_of_nat)
  have cap: "\<not> ucast max_frame_len < (of_nat (length v) :: u64)"
    using assms len by (simp add: word_less_nat_alt max_frame_len_def)
  have "reads (take_r (unat (of_nat (length v) :: u64))) v v"
    by (rule reads_take) (simp add: len)
  then have "reads (bind_r (take_r (unat (of_nat (length v) :: u64)))
      (\<lambda>v. ret_r (Some (ucast (ucast fid :: u64), v)))) v (Some (fid, v))"
    by (rule reads_map) (simp add: reads_ret uu)
  with small cap show ?thesis unfolding write_field_def
    by (intro reads_bind [OF reads_varint] reads_bind [OF reads_u8] reads_if_not)
qed

lemma read_field_write:
  assumes "wf_dec d" "remaining d = write_field fid v @ rest" "\<not> at_body_end d"
    "length v \<le> 16777216" "length (write_field fid v) \<le> 16777216"
  shows "read_field d = Ok (Some (fid, v), d\<lparr>dec_pos := dec_pos d + length (write_field fid v)\<rparr>)"
  using reads_field_body [OF assms(4), of fid] assms(1-3,5)
  unfolding reads_def by (simp add: read_field_def bind_r_def [of "get_r at_body_end"] get_r_def)

text \<open>
  A message body written field by field, and the effect of the decoder's match on each field in
  turn. \<open>body_is d bs\<close> says that what is left of the body is exactly \<open>bs\<close>: up to the frame's
  declared end, or up to the end of the input in a nested decoder.
\<close>

lemma write_fields_simps [simp]:
  "write_fields [] = []"
  "write_fields ((fid, v) # fs) = write_field fid v @ write_fields fs"
  by (simp_all add: write_fields_def)

fun fold_fields :: "('s \<Rightarrow> u32 \<Rightarrow> bytes \<Rightarrow> decode_error + 's) \<Rightarrow> 's \<Rightarrow> fields \<Rightarrow> decode_error + 's" where
  "fold_fields step s [] = Ok s"
| "fold_fields step s ((fid, v) # fs) = rbind (step s fid v) (\<lambda>s'. fold_fields step s' fs)"

definition body_is :: "decoder \<Rightarrow> bytes \<Rightarrow> bool" where
  "body_is d bs \<longleftrightarrow> (case dec_body_end d of
     None \<Rightarrow> remaining d = bs
   | Some e \<Rightarrow> e = dec_pos d + length bs \<and> (\<exists>rest. remaining d = bs @ rest))"

lemma body_is_remaining: "body_is d bs \<Longrightarrow> \<exists>rest. remaining d = bs @ rest"
  by (auto simp: body_is_def split: option.splits)

lemma body_is_at_end:
  assumes "wf_dec d" "body_is d bs"
  shows "at_body_end d \<longleftrightarrow> bs = []"
  using assms by (auto simp: body_is_def at_body_end_def remaining_def wf_dec_def split: option.splits)

lemma body_is_advance:
  "body_is d (bs @ cs) \<Longrightarrow> body_is (d\<lparr>dec_pos := dec_pos d + length bs\<rparr>) cs"
  by (auto simp: body_is_def split: option.splits intro: remaining_advance)

lemma length_write_field: "length v < length (write_field fid v)"
  by (simp add: write_field_def write_u8_def)

lemma fields_loop_write:
  assumes "wf_dec d" and "body_is d (write_fields fs)" and "length (write_fields fs) \<le> 16777216"
  shows "fields_loop step s d = rbind (fold_fields step s fs)
    (\<lambda>s'. Ok (s', d\<lparr>dec_pos := dec_pos d + length (write_fields fs)\<rparr>))"
  using assms
proof (induction fs arbitrary: s d)
  case Nil
  then have "at_body_end d" by (simp add: body_is_at_end)
  then have "read_field d = Ok (None, d)"
    by (simp add: read_field_def bind_r_def get_r_def ret_r_def)
  then show ?case by (subst fields_loop.simps) simp
next
  case (Cons f fs)
  obtain fid v where f: "f = (fid, v)" by (cases f)
  let ?w = "write_field fid v"
  let ?d = "d\<lparr>dec_pos := dec_pos d + length ?w\<rparr>"
  have wf: "wf_dec d" and b: "body_is d (?w @ write_fields fs)" using Cons.prems f by simp_all
  obtain rest where r: "remaining d = ?w @ (write_fields fs @ rest)" using body_is_remaining [OF b] by auto
  have l: "length v \<le> 16777216" "length ?w \<le> 16777216" "length (write_fields fs) \<le> 16777216"
    using Cons.prems(3) f length_write_field [of v fid] by simp_all
  have "\<not> at_body_end d" using body_is_at_end [OF wf b] by simp
  then have "read_field d = Ok (Some (fid, v), ?d)" by (rule read_field_write [OF wf r _ l(1,2)])
  moreover note Cons.IH [OF wf_dec_advance [OF wf r] body_is_advance [OF b] l(3)]
  ultimately show ?case using f
    by (subst fields_loop.simps) (auto simp: add.assoc split: sum.splits)
qed

section \<open>Whole bodies\<close>

text \<open>
  A reader that consults the end of the body reads the whole of it; \<open>c\<close> and \<open>p\<close> are the
  payload limits of the connection.
\<close>

definition reads_body :: "u32 \<Rightarrow> u32 \<Rightarrow> 'a reader \<Rightarrow> bytes \<Rightarrow> 'a \<Rightarrow> bool" where
  "reads_body c p r bs x \<longleftrightarrow> (\<forall>d. wf_dec d \<longrightarrow> dec_max_chunk d = c \<longrightarrow> dec_max_page d = p \<longrightarrow>
     body_is d bs \<longrightarrow> length bs \<le> 16777216 \<longrightarrow> r d = Ok (x, d\<lparr>dec_pos := dec_pos d + length bs\<rparr>))"

lemma reads_body: "reads r bs x \<Longrightarrow> reads_body c p r bs x"
  unfolding reads_def reads_body_def using body_is_remaining by blast

lemma reads_body_bind:
  assumes "reads m bs x" and "reads_body c p (f x) cs y"
  shows "reads_body c p (bind_r m f) (bs @ cs) y"
  unfolding reads_body_def
proof (intro allI impI)
  fix d
  assume wf: "wf_dec d" and lim: "dec_max_chunk d = c" "dec_max_page d = p" and b: "body_is d (bs @ cs)"
    and "length (bs @ cs) \<le> 16777216"
  then have l: "length bs \<le> 16777216" "length cs \<le> 16777216" by simp_all
  obtain rest where r: "remaining d = bs @ (cs @ rest)" using body_is_remaining [OF b] by auto
  let ?e = "d\<lparr>dec_pos := dec_pos d + length bs\<rparr>"
  from assms(1) wf r l have "m d = Ok (x, ?e)" unfolding reads_def by blast
  moreover have "f x ?e = Ok (y, ?e\<lparr>dec_pos := dec_pos ?e + length cs\<rparr>)"
    using assms(2) wf_dec_advance [OF wf r] body_is_advance [OF b] l lim unfolding reads_body_def by simp
  ultimately show "bind_r m f d = Ok (y, d\<lparr>dec_pos := dec_pos d + length (bs @ cs)\<rparr>)"
    by (simp add: bind_r_def add.assoc)
qed

lemma reads_body_at_end:
  assumes "reads_body c p (f (bs = [])) bs x"
  shows "reads_body c p (bind_r (get_r at_body_end) f) bs x"
  using assms unfolding reads_body_def by (auto simp: bind_r_def get_r_def body_is_at_end)

lemma reads_body_limits:
  "reads_body c p (f c) bs x \<Longrightarrow> reads_body c p (bind_r (get_r dec_max_chunk) f) bs x"
  "reads_body c p (f p) bs x \<Longrightarrow> reads_body c p (bind_r (get_r dec_max_page) f) bs x"
  unfolding reads_body_def by (auto simp: bind_r_def get_r_def)

lemma sub_reads_body:
  assumes "reads_body max_bootstrap_chunk_bytes max_history_page_bytes r bs x" "length bs \<le> 16777216"
  shows "sub_r r bs = Ok x"
proof -
  have "wf_dec (decoder_new bs)" "body_is (decoder_new bs) bs"
    using assms(2) by (simp_all add: decoder_new_def wf_dec_def body_is_def remaining_def)
  then have "\<exists>d. r (decoder_new bs) = Ok (x, d)"
    using assms unfolding reads_body_def by (simp add: decoder_new_def)
  then show ?thesis by (auto simp: sub_r_def)
qed

lemma sub_reads: "reads r bs x \<Longrightarrow> length bs \<le> 16777216 \<Longrightarrow> sub_r r bs = Ok x"
  by (rule sub_reads_body [OF reads_body])

section \<open>Messages\<close>

text \<open>
  Every message decoder runs the field loop from empty variables and then assembles the message.
  Field ids above 15 belong to no message of the catalog: a decoder skips them wherever they
  stand, which is what \<open>reads_msg\<close> adds to \<open>reads_body\<close>.
\<close>

definition known_field :: "u32 \<times> bytes \<Rightarrow> bool" where
  "known_field f \<longleftrightarrow> fst f \<le> 15"

definition reads_msg :: "u32 \<Rightarrow> u32 \<Rightarrow> 'a reader \<Rightarrow> fields \<Rightarrow> 'a \<Rightarrow> bool" where
  "reads_msg c p r fs x \<longleftrightarrow> (\<forall>gs. filter known_field gs = fs \<longrightarrow> reads_body c p r (write_fields gs) x)"

lemma known_field_pair [simp]: "known_field (fid, v) \<longleftrightarrow> fid \<le> 15"
  by (simp add: known_field_def)

lemma fold_fields_known:
  assumes "\<And>s fid v. 15 < fid \<Longrightarrow> step s fid v = Ok s"
  shows "fold_fields step s gs = fold_fields step s (filter known_field gs)"
proof (induction gs arbitrary: s)
  case (Cons g gs)
  obtain fid v where g: "g = (fid, v)" by (cases g)
  show ?case
  proof (cases "fid \<le> 15")
    case False
    with assms [of fid s v] g show ?thesis by (simp add: not_le flip: Cons.IH)
  qed (simp add: g flip: Cons.IH)
qed simp

lemma length_write_fields: "(fid, v) \<in> set gs \<Longrightarrow> length v \<le> length (write_fields gs)"
proof -
  assume "(fid, v) \<in> set gs"
  then obtain fs hs where "gs = fs @ (fid, v) # hs" by (auto dest: split_list)
  then show ?thesis by (simp add: write_fields_def write_field_def)
qed

lemma reads_message:
  assumes "\<And>s fid v. 15 < fid \<Longrightarrow> step s fid v = Ok s"
    and "\<forall>(fid, v) \<in> set fs. length v \<le> 16777216 \<Longrightarrow>
      \<exists>s. fold_fields step init fs = Ok s \<and> finish s = Ok x"
  shows "reads_msg c p (message step init finish) fs x"
  unfolding reads_msg_def reads_body_def
proof (intro allI impI)
  fix gs d
  assume k: "filter known_field gs = fs" and wf: "wf_dec d" and b: "body_is d (write_fields gs)"
    and l: "length (write_fields gs) \<le> 16777216"
  have "\<forall>(fid, v) \<in> set fs. length v \<le> 16777216"
    using l unfolding k [symmetric] by (auto dest!: length_write_fields)
  from assms(2) [OF this] obtain s where s: "fold_fields step init fs = Ok s" "finish s = Ok x" by blast
  from fields_loop_write [OF wf b l, of step init] fold_fields_known [of step init gs] assms(1) k s
  show "message step init finish d = Ok (x, d\<lparr>dec_pos := dec_pos d + length (write_fields gs)\<rparr>)"
    by (simp add: message_def bind_r_def lift_r_def)
qed

lemma reads_msg_limits:
  "reads_msg c p (f c) fs x \<Longrightarrow> reads_msg c p (bind_r (get_r dec_max_chunk) f) fs x"
  "reads_msg c p (f p) fs x \<Longrightarrow> reads_msg c p (bind_r (get_r dec_max_page) f) fs x"
  unfolding reads_msg_def by (auto intro: reads_body_limits)

lemma reads_msg_map:
  assumes "reads_msg c p m fs x" and "f x = ret_r y"
  shows "reads_msg c p (bind_r m f) fs y"
  using assms unfolding reads_msg_def reads_body_def by (simp add: bind_r_def ret_r_def)

lemma reads_msg_body:
  "reads_msg c p r fs x \<Longrightarrow> \<forall>f \<in> set fs. known_field f \<Longrightarrow> reads_body c p r (write_fields fs) x"
  unfolding reads_msg_def by (simp add: filter_id_conv)

section \<open>Options, lists and enumerations\<close>

lemma reads_opt [wire_simps]:
  assumes "\<And>y. x = Some y \<Longrightarrow> reads r (w y) y"
  shows "reads (read_opt label r) (write_opt w x) x"
proof (cases x)
  case None
  then show ?thesis unfolding read_opt_def write_opt_def
    by (auto intro!: reads_map [OF reads_u8] reads_ret)
next
  case (Some y)
  then show ?thesis unfolding read_opt_def write_opt_def
    by (auto intro!: reads_bind [OF reads_u8] reads_map [OF assms] reads_ret)
qed

lemma reads_n_map:
  assumes "\<And>x. x \<in> set xs \<Longrightarrow> reads r (w x) (g x)"
  shows "reads (read_n r (length xs)) (write_all w xs) (map g xs)"
  using assms
proof (induction xs)
  case Nil
  then show ?case by (simp add: write_all_def reads_ret)
next
  case (Cons x xs)
  then have "reads (read_n r (length xs)) (write_all w xs) (map g xs)" by simp
  then have "reads (bind_r (read_n r (length xs)) (\<lambda>xs. ret_r (g x # xs))) (write_all w xs) (g x # map g xs)"
    by (rule reads_map) (rule reads_ret)
  with Cons.prems show ?case by (auto simp: write_all_def intro: reads_bind)
qed

lemmas reads_n = reads_n_map [where g = "\<lambda>x. x", simplified]

lemma length_write_all:
  assumes "\<And>x. x \<in> set xs \<Longrightarrow> w x \<noteq> []"
  shows "length xs \<le> length (write_all w xs)"
proof -
  have "length xs = sum_list (map (\<lambda>x. 1) xs)" by (simp add: sum_list_triv)
  also have "\<dots> \<le> sum_list (map (\<lambda>x. length (w x)) xs)"
    using assms by (intro sum_list_mono) (simp add: Suc_le_eq)
  finally show ?thesis by (simp add: write_all_def length_concat comp_def)
qed

lemma reads_list32_map:
  assumes "\<And>x. x \<in> set xs \<Longrightarrow> reads r (w x) (g x)" and "\<And>x. x \<in> set xs \<Longrightarrow> w x \<noteq> []"
  shows "reads (read_list32 r) (write_count32 (length xs) @ write_all w xs) (map g xs)"
proof (rule reads_short)
  assume "length (write_count32 (length xs) @ write_all w xs) \<le> 16777216"
  with length_write_all [of xs w] assms(2) have "length xs \<le> 16777216" by simp
  then have l: "length xs < 2 ^ 32" "unat (of_nat (length xs) :: u32) = length xs"
    by (simp_all add: unat_of_nat)
  have "reads (read_n r (unat (of_nat (length xs) :: u32))) (write_all w xs) (map g xs)"
    using reads_n_map [of xs r w g] assms(1) l by simp
  from reads_bind [OF reads_u32, where f = "\<lambda>n. read_n r (unat n)", OF this] l show ?thesis
    unfolding read_list32_def write_count32_def by simp
qed

lemmas reads_list32 = reads_list32_map [where g = "\<lambda>x. x", simplified]

section \<open>Steps of a composite reader\<close>

text \<open>
  The rules the codec round trips are run with: a reader at the head of a sequence consumes what
  its writer wrote and passes the value on, whether more bytes follow or not.
\<close>

named_theorems reads_intros

lemmas u8_steps [reads_intros] = reads_bind [OF reads_u8] reads_map [OF reads_u8] reads_u8
lemmas u16_steps [reads_intros] = reads_bind [OF reads_u16] reads_map [OF reads_u16] reads_u16
lemmas u32_steps [reads_intros] = reads_bind [OF reads_u32] reads_map [OF reads_u32] reads_u32
lemmas u64_steps [reads_intros] = reads_bind [OF reads_u64] reads_map [OF reads_u64] reads_u64
lemmas f32_steps [reads_intros] = reads_bind [OF reads_f32] reads_map [OF reads_f32] reads_f32
lemmas i64_steps [reads_intros] = reads_bind [OF reads_i64] reads_map [OF reads_i64] reads_i64
lemmas f64_steps [reads_intros] = reads_bind [OF reads_f64] reads_map [OF reads_f64] reads_f64
lemmas bytes_steps [reads_intros] = reads_bind [OF reads_bytes] reads_map [OF reads_bytes] reads_bytes
lemmas str_steps [reads_intros] = reads_bind [OF reads_str] reads_map [OF reads_str] reads_str
lemmas opt_steps [reads_intros] = reads_bind [OF reads_opt] reads_map [OF reads_opt] reads_opt

lemma reads_list32_steps:
  assumes "\<And>x. x \<in> set xs \<Longrightarrow> reads r (w x) x" and "\<And>x. x \<in> set xs \<Longrightarrow> w x \<noteq> []"
  shows "reads (f xs) [] y \<Longrightarrow> reads (bind_r (read_list32 r) f) (write_count32 (length xs) @ write_all w xs) y"
    and "reads (f xs) cs y \<Longrightarrow>
      reads (bind_r (read_list32 r) f) (write_count32 (length xs) @ write_all w xs @ cs) y"
  using reads_map [OF reads_list32 [of xs r w], OF assms, of f y]
    reads_bind [OF reads_list32 [of xs r w], OF assms, of f cs y] by simp_all

lemmas list32_steps [reads_intros] = reads_list32_steps reads_list32

lemma reads_pure [reads_intros]:
  "reads (ret_r x) [] x"
  "reads (lift_r (Ok x)) [] x"
  "reads (known_or e (Some x)) [] x"
  "reads (f x) cs y \<Longrightarrow> reads (bind_r (ret_r x) f) cs y"
  "reads (f x) cs y \<Longrightarrow> reads (bind_r (lift_r (Ok x)) f) cs y"
  "reads (f x) cs y \<Longrightarrow> reads (bind_r (known_or e (Some x)) f) cs y"
  by (simp_all add: reads_def ret_r_def lift_r_def known_or_def bind_r_def ok_or_def)

end
