(* ===== verification/Wire_Codec.thy ===== *)
theory Wire_Codec
  imports Wire_Caps Wire_Round
begin

text \<open>
  The payload types of \<open>phux-protocol/src/input/\<close> and \<open>wire/frame/payload.rs\<close>, and their codecs
  in \<open>wire/frame/codec.rs\<close>: input events, resource ids, attach targets, scopes, spawn and move
  results. Every decoder is bounded, and reads back what the encoder wrote.
\<close>

section \<open>Input events\<close>

datatype key_action = KeyRelease | KeyPress | KeyRepeat

definition key_action_to_u32 :: "key_action \<Rightarrow> u32" where
  "key_action_to_u32 a = (case a of KeyRelease \<Rightarrow> 0 | KeyPress \<Rightarrow> 1 | KeyRepeat \<Rightarrow> 2)"

definition key_action_from_u32 :: "u32 \<Rightarrow> key_action option" where
  "key_action_from_u32 v = (if v = 0 then Some KeyRelease else if v = 1 then Some KeyPress
     else if v = 2 then Some KeyRepeat else None)"

text \<open>
  The 176 W3C key codes are numbered without gaps; a key is modelled by its discriminant, and
  the derived \<open>TryFrom\<close> accepts exactly the numbers of the enumeration.
\<close>

datatype physical_key = PhysicalKey (physical_key_u32: u32)

definition physical_key_try_from :: "u32 \<Rightarrow> physical_key option" where
  "physical_key_try_from v = (if v \<le> 175 then Some (PhysicalKey v) else None)"

type_synonym mod_set = u16

definition mod_set_from_bits_truncate :: "u16 \<Rightarrow> mod_set" where
  "mod_set_from_bits_truncate bits =
     bits AND (1 OR 2 OR 4 OR 8 OR 16 OR 32 OR 64 OR 128 OR 256 OR 512)"

record key_event =
  key_action_f :: key_action
  key_key :: physical_key
  key_mods :: mod_set
  key_consumed_mods :: mod_set
  key_composing :: bool
  key_text :: "str option"
  key_unshifted :: "u32 option"

datatype mouse_action = MousePress | MouseRelease | MouseMotion

definition mouse_action_to_u32 :: "mouse_action \<Rightarrow> u32" where
  "mouse_action_to_u32 a = (case a of MousePress \<Rightarrow> 0 | MouseRelease \<Rightarrow> 1 | MouseMotion \<Rightarrow> 2)"

definition mouse_action_try_from :: "u32 \<Rightarrow> mouse_action option" where
  "mouse_action_try_from v = (if v = 0 then Some MousePress else if v = 1 then Some MouseRelease
     else if v = 2 then Some MouseMotion else None)"

datatype mouse_button = UnknownButton | LeftButton | RightButton | MiddleButton | Four | Five | Six
  | Seven | Eight | Nine | Ten | Eleven

definition mouse_button_to_u32 :: "mouse_button \<Rightarrow> u32" where
  "mouse_button_to_u32 b = (case b of UnknownButton \<Rightarrow> 0 | LeftButton \<Rightarrow> 1 | RightButton \<Rightarrow> 2
     | MiddleButton \<Rightarrow> 3 | Four \<Rightarrow> 4 | Five \<Rightarrow> 5 | Six \<Rightarrow> 6 | Seven \<Rightarrow> 7 | Eight \<Rightarrow> 8 | Nine \<Rightarrow> 9
     | Ten \<Rightarrow> 10 | Eleven \<Rightarrow> 11)"

definition mouse_button_try_from :: "u32 \<Rightarrow> mouse_button option" where
  "mouse_button_try_from v = (if v = 0 then Some UnknownButton else if v = 1 then Some LeftButton
     else if v = 2 then Some RightButton else if v = 3 then Some MiddleButton else if v = 4 then Some Four
     else if v = 5 then Some Five else if v = 6 then Some Six else if v = 7 then Some Seven
     else if v = 8 then Some Eight else if v = 9 then Some Nine else if v = 10 then Some Ten
     else if v = 11 then Some Eleven else None)"

record mouse_event =
  mouse_action_f :: mouse_action
  mouse_button_f :: mouse_button
  mouse_mods :: mod_set
  mouse_x :: f64
  mouse_y :: f64

datatype focus_event = FocusGained | FocusLost

datatype paste_trust = Trusted | Untrusted

record paste_event =
  paste_trust_f :: paste_trust
  paste_data :: bytes

datatype input_event =
    InputEventKey key_event
  | InputEventMouse mouse_event
  | InputEventFocus focus_event
  | InputEventPaste paste_event

section \<open>Frame payloads\<close>

datatype attach_target =
    TargetLast
  | TargetByName str
  | TargetById wire_session_id
  | TargetCreateIfMissing str "str list option" "str option"

record viewport_info =
  vp_cols :: u16
  vp_rows :: u16
  vp_pixel_w :: "u16 option"
  vp_pixel_h :: "u16 option"

datatype meta_scope = ScopeResource wire_resource_id | ScopeGroup group_id | ScopeGlobal

datatype server_instance = ServerInstance (instance_bytes: bytes)

datatype spawn_error =
    GroupNotFound
  | SpawnFailed str
  | SpawnUnsupportedSatelliteRoute
  | SatelliteUnreachable str
  | UnsupportedKind
  | ParentNotFound
  | ParentKindMismatch

datatype spawn_result =
    SpawnOk wire_resource_id
  | SpawnErr spawn_error
  | SpawnOkBound wire_resource_id server_instance

datatype move_error = MoveFailed str | MoveUnsupportedSatelliteRoute

datatype move_result = MoveOk wire_resource_id | MoveErr move_error

section \<open>Bootstrap codecs and profiles\<close>

abbreviation unknown_enum :: "string \<Rightarrow> u8 \<Rightarrow> decode_error" where
  "unknown_enum label v \<equiv> UnknownEnumValue label (ucast v)"

definition encode_bootstrap_codec :: "bootstrap_codec \<Rightarrow> bytes" where
  "encode_bootstrap_codec c = (case c of
     SynthesizedVtV1 \<Rightarrow> write_u8 0
   | NativeCodec v \<Rightarrow> write_u8 1 @ write_u8 (engine_codec_as_wire v)
   | AgentEventsJsonlV1Codec \<Rightarrow> write_u8 3)"

definition decode_engine_codec :: "engine_codec reader" where
  "decode_engine_codec = bind_r read_u8 (\<lambda>v. known_or (unknown_enum ''EngineCodec'' v) (engine_codec_from_wire v))"

definition decode_bootstrap_codec :: "bootstrap_codec reader" where
  "decode_bootstrap_codec = bind_r read_u8 (\<lambda>v.
     if v = 0 then ret_r SynthesizedVtV1
     else if v = 1 then bind_r decode_engine_codec (\<lambda>codec. ret_r (NativeCodec codec))
     else if v = 3 then ret_r AgentEventsJsonlV1Codec
     else fail_r (unknown_enum ''BootstrapCodec'' v))"

definition encode_bootstrap_profile :: "bootstrap_profile \<Rightarrow> bytes" where
  "encode_bootstrap_profile p = (case p of
     NativeState codec features \<Rightarrow>
       write_u8 3 @ write_u8 (engine_codec_as_wire codec) @ write_u32_be (engine_feature_set_as_wire features)
   | SynthesizedVtRaw \<Rightarrow> write_u8 1
   | SynthesizedVtStateSync \<Rightarrow> write_u8 2)"

definition decode_bootstrap_profile :: "bootstrap_profile reader" where
  "decode_bootstrap_profile = bind_r read_u8 (\<lambda>v.
     if v = 3 then
       bind_r decode_engine_codec (\<lambda>codec. bind_r read_u32_be (\<lambda>bits.
         let features = engine_feature_set_from_wire bits
         in if \<not> supports_native features then fail_r InvalidBootstrapProfile
            else ret_r (NativeState codec features)))
     else if v = 1 then ret_r SynthesizedVtRaw
     else if v = 2 then ret_r SynthesizedVtStateSync
     else fail_r (unknown_enum ''BootstrapProfile'' v))"

definition decode_bootstrap_stream_profile :: "bootstrap_codec \<Rightarrow> u8 \<Rightarrow> decode_error + bootstrap_stream_profile" where
  "decode_bootstrap_stream_profile codec mode = (case codec of
     NativeCodec c \<Rightarrow> if mode = 0 then Ok (StreamNativeState c) else Err InvalidBootstrapProfile
   | SynthesizedVtV1 \<Rightarrow> if mode = 0 then Ok StreamSynthesizedVtRaw
       else if mode = 1 then Ok StreamSynthesizedVtStateSync else Err InvalidBootstrapProfile
   | AgentEventsJsonlV1Codec \<Rightarrow> if mode = 0 then Ok StreamAgentEventsJsonlV1 else Err InvalidBootstrapProfile)"

definition decode_stream_id :: "stream_id reader" where
  "decode_stream_id = bind_r read_u64_be (\<lambda>v. known_or InvalidStreamId (stream_id_new v))"

definition decode_bootstrap_id :: "bootstrap_id reader" where
  "decode_bootstrap_id = bind_r read_u64_be (\<lambda>v. known_or InvalidBootstrapId (bootstrap_id_new v))"

section \<open>Optional values and string lists\<close>

definition encode_optional_str :: "str option \<Rightarrow> bytes" where
  "encode_optional_str = write_opt write_str"

definition decode_optional_str :: "str option reader" where
  "decode_optional_str = read_opt ''Option<str> tag'' read_str"

definition encode_optional_u16 :: "u16 option \<Rightarrow> bytes" where
  "encode_optional_u16 = write_opt write_u16_be"

definition decode_optional_u16 :: "u16 option reader" where
  "decode_optional_u16 = read_opt ''Option<u16> tag'' read_u16_be"

definition encode_optional_u32 :: "u32 option \<Rightarrow> bytes" where
  "encode_optional_u32 = write_opt write_u32_be"

definition decode_optional_u32 :: "u32 option reader" where
  "decode_optional_u32 = read_opt ''Option<u32> tag'' read_u32_be"

definition encode_string_list :: "str list \<Rightarrow> bytes" where
  "encode_string_list ss = write_count32 (length ss) @ write_all write_str ss"

definition decode_string_list :: "str list reader" where
  "decode_string_list = read_list32 read_str"

definition encode_optional_string_list :: "str list option \<Rightarrow> bytes" where
  "encode_optional_string_list = write_opt encode_string_list"

definition decode_optional_string_list :: "str list option reader" where
  "decode_optional_string_list = read_opt ''Option<list<str>> tag'' decode_string_list"

definition encode_env :: "(str \<times> str) list \<Rightarrow> bytes" where
  "encode_env kvs = write_count32 (length kvs) @ write_all (\<lambda>(k, v). write_str k @ write_str v) kvs"

definition decode_env :: "(str \<times> str) list reader" where
  "decode_env = read_list32 (bind_r read_str (\<lambda>k. bind_r read_str (\<lambda>v. ret_r (k, v))))"

section \<open>Attach targets and viewports\<close>

definition encode_attach_target :: "attach_target \<Rightarrow> bytes" where
  "encode_attach_target t = (case t of
     TargetLast \<Rightarrow> write_u8 0
   | TargetByName name \<Rightarrow> write_u8 1 @ write_str name
   | TargetById (WireSessionId sid) \<Rightarrow> write_u8 2 @ write_u32_be sid
   | TargetCreateIfMissing name command cwd \<Rightarrow>
       write_u8 3 @ write_str name @ encode_optional_string_list command @ encode_optional_str cwd)"

definition decode_attach_target :: "attach_target reader" where
  "decode_attach_target = bind_r read_u8 (\<lambda>tag.
     if tag = 0 then ret_r TargetLast
     else if tag = 1 then bind_r read_str (\<lambda>name. ret_r (TargetByName name))
     else if tag = 2 then bind_r read_u32_be (\<lambda>sid. ret_r (TargetById (WireSessionId sid)))
     else if tag = 3 then
       bind_r read_str (\<lambda>name. bind_r decode_optional_string_list (\<lambda>command.
         bind_r decode_optional_str (\<lambda>cwd. ret_r (TargetCreateIfMissing name command cwd))))
     else fail_r (unknown_enum ''AttachTarget'' tag))"

definition encode_viewport_info :: "viewport_info \<Rightarrow> bytes" where
  "encode_viewport_info v = write_u16_be (vp_cols v) @ write_u16_be (vp_rows v)
     @ encode_optional_u16 (vp_pixel_w v) @ encode_optional_u16 (vp_pixel_h v)"

definition decode_viewport_info :: "viewport_info reader" where
  "decode_viewport_info = bind_r read_u16_be (\<lambda>cols. bind_r read_u16_be (\<lambda>rows.
     bind_r decode_optional_u16 (\<lambda>pixel_w. bind_r decode_optional_u16 (\<lambda>pixel_h.
       ret_r \<lparr>vp_cols = cols, vp_rows = rows, vp_pixel_w = pixel_w, vp_pixel_h = pixel_h\<rparr>))))"

section \<open>Input events on the wire\<close>

definition encode_focus_event :: "focus_event \<Rightarrow> u8" where
  "encode_focus_event e = (case e of FocusGained \<Rightarrow> 0 | FocusLost \<Rightarrow> 1)"

definition decode_focus_event :: "u8 \<Rightarrow> decode_error + focus_event" where
  "decode_focus_event tag = (if tag = 0 then Ok FocusGained else if tag = 1 then Ok FocusLost
     else Err (unknown_enum ''FocusEvent'' tag))"

definition encode_key_event :: "key_event \<Rightarrow> bytes" where
  "encode_key_event e =
     write_u32_be (key_action_to_u32 (key_action_f e)) @ write_u32_be (physical_key_u32 (key_key e))
     @ write_u16_be (key_mods e) @ write_u16_be (key_consumed_mods e)
     @ write_u8 (if key_composing e then 1 else 0)
     @ encode_optional_str (key_text e) @ encode_optional_u32 (key_unshifted e)"

definition decode_key_event :: "key_event reader" where
  "decode_key_event = bind_r read_u32_be (\<lambda>action_raw.
     bind_r (known_or (UnknownEnumValue ''KeyAction'' action_raw) (key_action_from_u32 action_raw)) (\<lambda>action.
     bind_r read_u32_be (\<lambda>key_raw.
     bind_r (known_or (UnknownEnumValue ''PhysicalKey'' key_raw) (physical_key_try_from key_raw)) (\<lambda>key.
     bind_r read_u16_be (\<lambda>mods. bind_r read_u16_be (\<lambda>consumed. bind_r read_u8 (\<lambda>composing.
     bind_r decode_optional_str (\<lambda>txt. bind_r decode_optional_u32 (\<lambda>cp.
       ret_r \<lparr>key_action_f = action, key_key = key, key_mods = mod_set_from_bits_truncate mods,
         key_consumed_mods = mod_set_from_bits_truncate consumed, key_composing = (composing \<noteq> 0),
         key_text = txt, key_unshifted = cp\<rparr>)))))))))"

definition encode_mouse_event :: "mouse_event \<Rightarrow> bytes" where
  "encode_mouse_event e =
     write_u32_be (mouse_action_to_u32 (mouse_action_f e)) @ write_u32_be (mouse_button_to_u32 (mouse_button_f e))
     @ write_u16_be (mouse_mods e) @ write_f64_be (mouse_x e) @ write_f64_be (mouse_y e)"

definition decode_mouse_event :: "mouse_event reader" where
  "decode_mouse_event = bind_r read_u32_be (\<lambda>action_raw.
     bind_r (known_or (UnknownEnumValue ''MouseAction'' action_raw) (mouse_action_try_from action_raw)) (\<lambda>action.
     bind_r read_u32_be (\<lambda>button_raw.
     bind_r (known_or (UnknownEnumValue ''MouseButton'' button_raw) (mouse_button_try_from button_raw)) (\<lambda>button.
     bind_r read_u16_be (\<lambda>mods. bind_r read_f64_be (\<lambda>x. bind_r read_f64_be (\<lambda>y.
       ret_r \<lparr>mouse_action_f = action, mouse_button_f = button,
         mouse_mods = mod_set_from_bits_truncate mods, mouse_x = x, mouse_y = y\<rparr>)))))))"

definition encode_paste_event :: "paste_event \<Rightarrow> bytes" where
  "encode_paste_event e =
     write_u8 (case paste_trust_f e of Trusted \<Rightarrow> 0 | Untrusted \<Rightarrow> 1) @ write_bytes (paste_data e)"

definition decode_paste_event :: "paste_event reader" where
  "decode_paste_event = bind_r read_u8 (\<lambda>tag.
     bind_r (if tag = 0 then ret_r Trusted else if tag = 1 then ret_r Untrusted
             else fail_r (unknown_enum ''PasteTrust'' tag)) (\<lambda>trust.
     bind_r read_bytes (\<lambda>data. ret_r \<lparr>paste_trust_f = trust, paste_data = data\<rparr>)))"

section \<open>Resource ids, scopes and results\<close>

definition encode_terminal_id :: "wire_resource_id \<Rightarrow> bytes" where
  "encode_terminal_id rid = (case rid of
     Local n \<Rightarrow> write_u8 0 @ write_u32_be n
   | Satellite host n \<Rightarrow> write_u8 1 @ write_str host @ write_u32_be n)"

definition decode_terminal_id :: "wire_resource_id reader" where
  "decode_terminal_id = bind_r read_u8 (\<lambda>tag.
     if tag = 0 then bind_r read_u32_be (\<lambda>n. ret_r (Local n))
     else if tag = 1 then bind_r read_str (\<lambda>host. bind_r read_u32_be (\<lambda>n. ret_r (Satellite host n)))
     else fail_r (unknown_enum ''ResourceId'' tag))"

definition encode_scope :: "meta_scope \<Rightarrow> bytes" where
  "encode_scope s = (case s of
     ScopeResource rid \<Rightarrow> write_u8 0 @ encode_terminal_id rid
   | ScopeGroup (GroupId g) \<Rightarrow> write_u8 1 @ write_u32_be g
   | ScopeGlobal \<Rightarrow> write_u8 2)"

definition decode_scope :: "meta_scope reader" where
  "decode_scope = bind_r read_u8 (\<lambda>tag.
     if tag = 0 then bind_r decode_terminal_id (\<lambda>rid. ret_r (ScopeResource rid))
     else if tag = 1 then bind_r read_u32_be (\<lambda>g. ret_r (ScopeGroup (GroupId g)))
     else if tag = 2 then ret_r ScopeGlobal
     else fail_r (unknown_enum ''Scope'' tag))"

definition encode_server_instance :: "server_instance \<Rightarrow> bytes" where
  "encode_server_instance i = write_all write_u8 (instance_bytes i)"

definition decode_server_instance :: "server_instance reader" where
  "decode_server_instance = bind_r (read_n read_u8 16) (\<lambda>bs. ret_r (ServerInstance bs))"

definition encode_spawn_error :: "spawn_error \<Rightarrow> bytes" where
  "encode_spawn_error e = (case e of
     GroupNotFound \<Rightarrow> write_u8 0
   | SpawnFailed msg \<Rightarrow> write_u8 1 @ write_str msg
   | SpawnUnsupportedSatelliteRoute \<Rightarrow> write_u8 2
   | SatelliteUnreachable msg \<Rightarrow> write_u8 3 @ write_str msg
   | UnsupportedKind \<Rightarrow> write_u8 4
   | ParentNotFound \<Rightarrow> write_u8 5
   | ParentKindMismatch \<Rightarrow> write_u8 6)"

definition decode_spawn_error :: "spawn_error reader" where
  "decode_spawn_error = bind_r read_u8 (\<lambda>tag.
     if tag = 0 then ret_r GroupNotFound
     else if tag = 1 then bind_r read_str (\<lambda>msg. ret_r (SpawnFailed msg))
     else if tag = 2 then ret_r SpawnUnsupportedSatelliteRoute
     else if tag = 3 then bind_r read_str (\<lambda>msg. ret_r (SatelliteUnreachable msg))
     else if tag = 4 then ret_r UnsupportedKind
     else if tag = 5 then ret_r ParentNotFound
     else if tag = 6 then ret_r ParentKindMismatch
     else fail_r (unknown_enum ''SpawnError'' tag))"

definition encode_spawn_result :: "spawn_result \<Rightarrow> bytes" where
  "encode_spawn_result r = (case r of
     SpawnOk rid \<Rightarrow> write_u8 0 @ encode_terminal_id rid
   | SpawnOkBound rid _ \<Rightarrow> write_u8 0 @ encode_terminal_id rid
   | SpawnErr e \<Rightarrow> write_u8 1 @ encode_spawn_error e)"

definition decode_spawn_result :: "spawn_result reader" where
  "decode_spawn_result = bind_r read_u8 (\<lambda>tag.
     if tag = 0 then bind_r decode_terminal_id (\<lambda>rid. ret_r (SpawnOk rid))
     else if tag = 1 then bind_r decode_spawn_error (\<lambda>e. ret_r (SpawnErr e))
     else fail_r (unknown_enum ''SpawnResult'' tag))"

definition encode_move_result :: "move_result \<Rightarrow> bytes" where
  "encode_move_result r = (case r of
     MoveOk rid \<Rightarrow> write_u8 0 @ encode_terminal_id rid
   | MoveErr (MoveFailed msg) \<Rightarrow> write_u8 1 @ write_u8 0 @ write_str msg
   | MoveErr MoveUnsupportedSatelliteRoute \<Rightarrow> write_u8 1 @ write_u8 1)"

definition decode_move_result :: "move_result reader" where
  "decode_move_result = bind_r read_u8 (\<lambda>tag.
     if tag = 0 then bind_r decode_terminal_id (\<lambda>rid. ret_r (MoveOk rid))
     else if tag = 1 then bind_r read_u8 (\<lambda>err_tag.
       if err_tag = 0 then bind_r read_str (\<lambda>msg. ret_r (MoveErr (MoveFailed msg)))
       else if err_tag = 1 then ret_r (MoveErr MoveUnsupportedSatelliteRoute)
       else fail_r (unknown_enum ''MoveError'' err_tag))
     else fail_r (unknown_enum ''MoveResult'' tag))"

section \<open>Well-formed values\<close>

text \<open>
  What the Rust types guarantee: a \<open>String\<close> holds UTF-8, a flag set only its named bits, an
  array its 16 bytes, a non-zero id a non-zero number.
\<close>

definition wf_str_opt :: "str option \<Rightarrow> bool" where
  "wf_str_opt s = (case s of None \<Rightarrow> True | Some t \<Rightarrow> utf8_valid t)"

definition wf_rid :: "wire_resource_id \<Rightarrow> bool" where
  "wf_rid rid = (case rid of Local _ \<Rightarrow> True | Satellite host _ \<Rightarrow> utf8_valid host)"

definition wf_stream_id :: "stream_id \<Rightarrow> bool" where
  "wf_stream_id s \<longleftrightarrow> s \<noteq> StreamId 0"

definition wf_bootstrap_id :: "bootstrap_id \<Rightarrow> bool" where
  "wf_bootstrap_id b \<longleftrightarrow> b \<noteq> BootstrapId 0"

definition wf_mods :: "mod_set \<Rightarrow> bool" where
  "wf_mods m \<longleftrightarrow> mod_set_from_bits_truncate m = m"

definition wf_key_event :: "key_event \<Rightarrow> bool" where
  "wf_key_event e \<longleftrightarrow> physical_key_u32 (key_key e) \<le> 175 \<and> wf_mods (key_mods e)
     \<and> wf_mods (key_consumed_mods e) \<and> wf_str_opt (key_text e)"

definition wf_input_event :: "input_event \<Rightarrow> bool" where
  "wf_input_event e = (case e of InputEventKey k \<Rightarrow> wf_key_event k | InputEventMouse m \<Rightarrow> wf_mods (mouse_mods m)
     | InputEventFocus _ \<Rightarrow> True | InputEventPaste _ \<Rightarrow> True)"

definition wf_attach_target :: "attach_target \<Rightarrow> bool" where
  "wf_attach_target t = (case t of TargetLast \<Rightarrow> True | TargetByName name \<Rightarrow> utf8_valid name
     | TargetById _ \<Rightarrow> True
     | TargetCreateIfMissing name command cwd \<Rightarrow> utf8_valid name \<and> wf_str_opt cwd
         \<and> (case command of None \<Rightarrow> True | Some ss \<Rightarrow> list_all utf8_valid ss))"

definition wf_scope :: "meta_scope \<Rightarrow> bool" where
  "wf_scope s = (case s of ScopeResource rid \<Rightarrow> wf_rid rid | _ \<Rightarrow> True)"

definition wf_spawn_error :: "spawn_error \<Rightarrow> bool" where
  "wf_spawn_error e = (case e of SpawnFailed msg \<Rightarrow> utf8_valid msg | SatelliteUnreachable msg \<Rightarrow> utf8_valid msg | _ \<Rightarrow> True)"

definition wf_spawn_result :: "spawn_result \<Rightarrow> bool" where
  "wf_spawn_result r = (case r of SpawnOk rid \<Rightarrow> wf_rid rid | SpawnErr e \<Rightarrow> wf_spawn_error e
     | SpawnOkBound rid i \<Rightarrow> wf_rid rid \<and> length (instance_bytes i) = 16)"

definition wf_move_result :: "move_result \<Rightarrow> bool" where
  "wf_move_result r = (case r of MoveOk rid \<Rightarrow> wf_rid rid | MoveErr (MoveFailed msg) \<Rightarrow> utf8_valid msg | _ \<Rightarrow> True)"

definition wf_profile :: "bootstrap_profile \<Rightarrow> bool" where
  "wf_profile p = (case p of NativeState _ f \<Rightarrow> engine_feature_set_from_wire f = f \<and> supports_native f | _ \<Rightarrow> True)"

end
