(* ===== verification/Client_Workspace_Store.thy ===== *)
theory Client_Workspace_Store
  imports Client_Workspace_Inv Wire_Codec
begin

text \<open>
  The stored form of a workspace: what \<open>encode_cbor\<close> writes, \<open>decode_cbor\<close> reads back. The CBOR
  package is a parameter; what the code relies on is that its reader inverts its writer on the
  envelopes a Rust value can hold and whose trees are within the reader's recursion limit.
\<close>

section \<open>The envelope and the workspace\<close>

fun ratios_ok :: "wire_layout \<Rightarrow> bool" where
  "ratios_ok (WLeaf _) = True"
| "ratios_ok (WSplit _ ratio left right) =
     (f32_is_finite ratio \<and> f32_le f32_zero ratio \<and> f32_le ratio f32_one
      \<and> ratios_ok left \<and> ratios_ok right)"

lemma wire_dir_cbor [simp]: "wire_dir (cbor_dir d) = d"
  by (cases d) auto

lemma wire_rid_cbor [simp]: "wire_rid (cbor_rid r) = r"
  by (cases r) auto

lemma into_cbor_node: "ratios_ok t \<Longrightarrow> into_layout_node (cbor_node t) = Ok t"
  by (induction t) auto

section \<open>What the CBOR package promises\<close>

fun cbor_depth :: "cbor_layout_node \<Rightarrow> nat" where
  "cbor_depth (CborLeaf _) = 1"
| "cbor_depth (CborSplit _ _ left right) = 1 + max (cbor_depth left) (cbor_depth right)"

fun cbor_rid_ok :: "cbor_resource_id \<Rightarrow> bool" where
  "cbor_rid_ok (CborLocal _) = True"
| "cbor_rid_ok (CborSatellite host _) = utf8_valid host"

fun cbor_node_ok :: "cbor_layout_node \<Rightarrow> bool" where
  "cbor_node_ok (CborLeaf pane) = cbor_rid_ok pane"
| "cbor_node_ok (CborSplit _ ratio left right) = (f32_is_finite ratio \<and> cbor_node_ok left \<and> cbor_node_ok right)"

text \<open>
  The envelopes in question: names and hosts are \<open>String\<close>s, identities are \<open>[u8; 16]\<close>, ratios are
  finite, and no tree nests deeper than \<open>limit\<close>. A number that is not finite need not come back with
  the same bits, and a document that nests too deeply is refused by the reader.
\<close>

definition cbor_readable :: "nat \<Rightarrow> cbor_envelope \<Rightarrow> bool" where
  "cbor_readable limit e \<longleftrightarrow> (\<forall>w \<in> set (ce_windows e). length (cw_id w) = 16 \<and> utf8_valid (cw_name w)
     \<and> cbor_node_ok (cw_root w) \<and> cbor_depth (cw_root w) \<le> limit \<and> cbor_rid_ok (cw_focused w))"

definition serializer_inverts :: "nat \<Rightarrow> (cbor_envelope \<Rightarrow> string + bytes) \<Rightarrow> (bytes \<Rightarrow> string + u8)
    \<Rightarrow> (bytes \<Rightarrow> string + cbor_envelope) \<Rightarrow> bool" where
  "serializer_inverts limit into_writer read_version from_reader \<longleftrightarrow>
     (\<forall>e. cbor_readable limit e \<longrightarrow>
        (\<exists>buf. into_writer e = Ok buf \<and> read_version buf = Ok (ce_version e) \<and> from_reader buf = Ok e))"

section \<open>The workspaces that can be stored\<close>

fun tree_depth :: "wire_layout \<Rightarrow> nat" where
  "tree_depth (WLeaf _) = 1"
| "tree_depth (WSplit _ _ left right) = 1 + max (tree_depth left) (tree_depth right)"

definition storable :: "nat \<Rightarrow> window_state \<Rightarrow> bool" where
  "storable limit w \<longleftrightarrow> length (ws_id w) = 16 \<and> utf8_valid (ws_name w)
     \<and> (case ls_tree (ws_state w) of None \<Rightarrow> True
        | Some t \<Rightarrow> ratios_ok t \<and> list_all wf_rid (cl_leaves t) \<and> tree_depth t \<le> limit)
     \<and> (case ls_focus (ws_state w) of None \<Rightarrow> True | Some rid \<Rightarrow> wf_rid rid)"

lemma cbor_depth_node [simp]: "cbor_depth (cbor_node t) = tree_depth t"
  by (induction t) auto

lemma cbor_rid_ok_rid [simp]: "cbor_rid_ok (cbor_rid r) = wf_rid r"
  by (cases r) (auto simp: wf_rid_def)

lemma cbor_node_ok_node: "ratios_ok t \<Longrightarrow> list_all wf_rid (cl_leaves t) \<Longrightarrow> cbor_node_ok (cbor_node t)"
  by (induction t) auto

lemma encode_windows_incomplete:
  "w \<in> set ws \<Longrightarrow> ls_tree (ws_state w) = None \<or> ls_focus (ws_state w) = None \<Longrightarrow>
     encode_windows ws = Err EmptyLayout"
proof (induction ws)
  case (Cons v ws)
  then show ?case
    by (cases "w \<in> set ws"; cases "ls_tree (ws_state v)"; cases "ls_focus (ws_state v)") auto
qed simp

lemma encode_windows_complete:
  assumes "zero_id \<notin> ws_id ` set ws" and "\<forall>w \<in> set ws. storable limit w"
    and "\<forall>w \<in> set ws. ls_tree (ws_state w) \<noteq> None \<and> ls_focus (ws_state w) \<noteq> None"
  shows "\<exists>cs. encode_windows ws = Ok cs \<and> decode_windows cs = Ok ws
    \<and> cbor_readable limit \<lparr>ce_version = v, ce_windows = cs, ce_focused = n\<rparr>"
  using assms
proof (induction ws)
  case (Cons w ws)
  then obtain cs where cs: "encode_windows ws = Ok cs" "decode_windows cs = Ok ws"
    "cbor_readable limit \<lparr>ce_version = v, ce_windows = cs, ce_focused = n\<rparr>" by auto
  obtain t f where t: "ls_tree (ws_state w) = Some t" "ls_focus (ws_state w) = Some f"
    using Cons.prems(3) by auto
  with Cons.prems have "storable limit w" "ws_id w \<noteq> zero_id" by auto
  with t cs show ?case
    by (simp add: storable_def cbor_readable_def into_cbor_node cbor_node_ok_node)
qed (simp add: cbor_readable_def)

section \<open>A serializer\<close>

text \<open>
  A small self-delimiting format whose reader inverts its writer on every readable envelope: each
  byte of a text is preceded by 1 and its end is a 0, numbers take four bytes, nodes carry a tag.
\<close>

definition put_text :: "bytes \<Rightarrow> bytes" where
  "put_text s = concat (map (\<lambda>b. [1, b]) s) @ [0]"

fun get_text :: "bytes \<Rightarrow> (bytes \<times> bytes) option" where
  "get_text (x # b # rest) = (if x = 0 then Some ([], b # rest) else map_option (apfst ((#) b)) (get_text rest))"
| "get_text [x] = (if x = 0 then Some ([], []) else None)"
| "get_text [] = None"

definition get_u32 :: "bytes \<Rightarrow> (u32 \<times> bytes) option" where
  "get_u32 xs = (if length xs < 4 then None else Some (from_be (take 4 xs), drop 4 xs))"

fun put_rid :: "cbor_resource_id \<Rightarrow> bytes" where
  "put_rid (CborLocal n) = 0 # to_be 4 n"
| "put_rid (CborSatellite host n) = 1 # to_be 4 n @ put_text host"

fun get_rid :: "bytes \<Rightarrow> (cbor_resource_id \<times> bytes) option" where
  "get_rid [] = None"
| "get_rid (tag # xs) = Option.bind (get_u32 xs) (\<lambda>(n, rest).
     if tag = 0 then Some (CborLocal n, rest)
     else Option.bind (get_text rest) (\<lambda>(host, rest). Some (CborSatellite host n, rest)))"

fun put_node :: "cbor_layout_node \<Rightarrow> bytes" where
  "put_node (CborLeaf pane) = 0 # put_rid pane"
| "put_node (CborSplit dir ratio left right) =
     (case dir of CborHorizontal \<Rightarrow> 1 | CborVertical \<Rightarrow> 2) # to_be 4 ratio @ put_node left @ put_node right"

fun get_node :: "nat \<Rightarrow> bytes \<Rightarrow> (cbor_layout_node \<times> bytes) option" where
  "get_node (Suc n) (tag # xs) =
     (if tag = 0 then Option.bind (get_rid xs) (\<lambda>(pane, rest). Some (CborLeaf pane, rest))
      else Option.bind (get_u32 xs) (\<lambda>(ratio, rest).
        Option.bind (get_node n rest) (\<lambda>(left, rest).
          Option.bind (get_node n rest) (\<lambda>(right, rest).
            Some (CborSplit (if tag = 1 then CborHorizontal else CborVertical) ratio left right, rest)))))"
| "get_node _ _ = None"

definition put_window :: "cbor_window \<Rightarrow> bytes" where
  "put_window w = put_text (cw_id w) @ put_text (cw_name w) @ put_node (cw_root w) @ put_rid (cw_focused w)"

definition get_window :: "nat \<Rightarrow> bytes \<Rightarrow> (cbor_window \<times> bytes) option" where
  "get_window limit xs = Option.bind (get_text xs) (\<lambda>(wid, rest). Option.bind (get_text rest) (\<lambda>(name, rest).
     Option.bind (get_node limit rest) (\<lambda>(root, rest). Option.bind (get_rid rest) (\<lambda>(focused, rest).
       Some (\<lparr>cw_id = wid, cw_name = name, cw_root = root, cw_focused = focused\<rparr>, rest)))))"

fun get_windows :: "nat \<Rightarrow> nat \<Rightarrow> bytes \<Rightarrow> cbor_window list option" where
  "get_windows limit n [] = Some []"
| "get_windows limit 0 (x # xs) = None"
| "get_windows limit (Suc n) (x # xs) = Option.bind (get_window limit (x # xs)) (\<lambda>(w, rest).
     map_option ((#) w) (get_windows limit n rest))"

definition plain_writer :: "cbor_envelope \<Rightarrow> string + bytes" where
  "plain_writer e = Ok (ce_version e # to_be 4 (ce_focused e) @ concat (map put_window (ce_windows e)))"

definition plain_version :: "bytes \<Rightarrow> string + u8" where
  "plain_version buf = (case buf of [] \<Rightarrow> Err ''end of input'' | v # _ \<Rightarrow> Ok v)"

definition plain_reader :: "nat \<Rightarrow> bytes \<Rightarrow> string + cbor_envelope" where
  "plain_reader limit buf = (case buf of [] \<Rightarrow> Err ''end of input'' | v # xs \<Rightarrow>
     (case Option.bind (get_u32 xs) (\<lambda>(n, rest). Option.bind (get_windows limit (length rest) rest) (\<lambda>ws.
         Some \<lparr>ce_version = v, ce_windows = ws, ce_focused = n\<rparr>)) of
        None \<Rightarrow> Err ''malformed'' | Some e \<Rightarrow> Ok e))"

lemma get_put_text [simp]: "get_text (put_text s @ rest) = Some (s, rest)"
proof (induction s)
  case Nil
  show ?case by (cases rest) (auto simp: put_text_def)
next
  case (Cons b s)
  then show ?case by (simp add: put_text_def)
qed

lemma get_put_u32 [simp]: "get_u32 (to_be 4 n @ rest) = Some (n, rest)"
  by (simp add: get_u32_def from_to_be)

lemma get_put_rid [simp]: "get_rid (put_rid r @ rest) = Some (r, rest)"
  by (cases r) auto

lemma get_put_node [simp]: "cbor_depth t \<le> limit \<Longrightarrow> get_node limit (put_node t @ rest) = Some (t, rest)"
proof (induction t arbitrary: limit rest)
  case (CborLeaf r)
  then show ?case by (cases limit) auto
next
  case (CborSplit d r left right)
  then show ?case by (cases limit; cases d) auto
qed

lemma get_put_window [simp]:
  "cbor_depth (cw_root w) \<le> limit \<Longrightarrow> get_window limit (put_window w @ rest) = Some (w, rest)"
  by (simp add: get_window_def put_window_def)

lemma put_window_ne: "\<exists>b bs. put_window w = b # bs"
  by (cases "cw_id w") (auto simp: put_window_def put_text_def)

lemma get_put_windows:
  "\<forall>w \<in> set ws. cbor_depth (cw_root w) \<le> limit \<Longrightarrow> length ws \<le> n \<Longrightarrow>
     get_windows limit n (concat (map put_window ws)) = Some ws"
proof (induction ws arbitrary: n)
  case (Cons w ws)
  obtain b bs where b: "put_window w = b # bs" using put_window_ne by blast
  from Cons.prems obtain m where n: "n = Suc m" by (cases n) auto
  have "get_window limit (b # bs @ concat (map put_window ws)) = Some (w, concat (map put_window ws))"
    using get_put_window [of w limit "concat (map put_window ws)"] Cons.prems unfolding b by simp
  with Cons n b show ?case by simp
qed simp

lemma length_windows: "length ws \<le> length (concat (map put_window ws))"
proof (induction ws)
  case (Cons w ws)
  with put_window_ne [of w] show ?case by auto
qed simp

lemma plain_inverts: "serializer_inverts limit plain_writer plain_version (plain_reader limit)"
  using length_windows by (auto simp: serializer_inverts_def cbor_readable_def plain_writer_def plain_version_def
      plain_reader_def get_put_windows)

section \<open>Properties\<close>

text \<open>
  C16. A stored workspace reads back as it was. For any serializer whose reader inverts its writer on
  readable envelopes of trees up to \<open>limit\<close> deep, and any well-formed workspace with 16-byte
  identities, UTF-8 names and hosts, ratios between 0 and 1, trees within the limit and an active
  index below \<open>2 ^ 32\<close>: storing fails with \<open>EmptyLayout\<close> when there is no window or a window lacks
  a tree or a focus; otherwise it succeeds, and decoding the bytes gives the same windows, layouts,
  focus and active index.
\<close>

theorem workspace_roundtrip:
  assumes "wf_workspace wk" and "wk_active wk < 2 ^ 32"
    and "\<forall>w \<in> set (wk_windows wk). storable limit w"
    and "serializer_inverts limit into_writer read_version from_reader"
  shows "if wk_windows wk = [] \<or> (\<exists>w \<in> set (wk_windows wk). ls_tree (ws_state w) = None \<or> ls_focus (ws_state w) = None)
    then encode_cbor into_writer wk = Err EmptyLayout
    else \<exists>bs. encode_cbor into_writer wk = Ok bs \<and> decode_cbor read_version from_reader bs = Ok wk"
proof -
  have z: "zero_id \<notin> ws_id ` set (wk_windows wk)" using assms(1) by (simp add: wf_workspace_def)
  show ?thesis
  proof (cases "wk_windows wk = [] \<or> (\<exists>w \<in> set (wk_windows wk). ls_tree (ws_state w) = None \<or> ls_focus (ws_state w) = None)")
    case True
    then have "wk_windows wk = [] \<or> encode_windows (wk_windows wk) = Err EmptyLayout"
      using encode_windows_incomplete [of _ "wk_windows wk"] by blast
    then have "encode_cbor into_writer wk = Err EmptyLayout"
      by (auto simp add: encode_cbor_def encode_topology_cbor_def)
    with True show ?thesis by simp
  next
    case False
    then have "\<forall>w \<in> set (wk_windows wk). ls_tree (ws_state w) \<noteq> None \<and> ls_focus (ws_state w) \<noteq> None" by simp
    from encode_windows_complete [OF z assms(3) this] obtain cs where cs: "encode_windows (wk_windows wk) = Ok cs"
        "decode_windows cs = Ok (wk_windows wk)"
        "cbor_readable limit \<lparr>ce_version = layout_envelope_version, ce_windows = cs, ce_focused = of_nat (wk_active wk)\<rparr>"
      by blast
    then obtain buf where buf: "into_writer \<lparr>ce_version = layout_envelope_version, ce_windows = cs,
          ce_focused = of_nat (wk_active wk)\<rparr> = Ok buf" "read_version buf = Ok layout_envelope_version"
        "from_reader buf = Ok \<lparr>ce_version = layout_envelope_version, ce_windows = cs, ce_focused = of_nat (wk_active wk)\<rparr>"
      using assms(4) unfolding serializer_inverts_def by fastforce
    have "validate (wk_windows wk) = Ok ()"
      using assms(1) by (simp add: validate_def validate_ids_iff wf_workspace_def)
    moreover have "unat (of_nat (wk_active wk) :: u32) = wk_active wk"
      using assms(2) by (simp add: unat_of_nat)
    moreover have "min (wk_active wk) (length (wk_windows wk) - 1) = wk_active wk"
      using assms(1) False by (auto simp: wf_workspace_def min_def)
    ultimately have "decode_cbor read_version from_reader buf = Ok wk"
      using buf cs by (simp add: decode_cbor_def decode_current_def)
    moreover have "encode_cbor into_writer wk = Ok buf"
      using False cs(1) buf(1) assms(2) by (simp add: encode_cbor_def encode_topology_cbor_def)
    ultimately show ?thesis using False by simp
  qed
qed

definition stored_workspace :: workspace where
  "stored_workspace = \<lparr>wk_windows = [\<lparr>ws_id = replicate 16 2, ws_name = [0x31],
     ws_state = \<lparr>ls_tree = Some (WSplit WVertical f32_half (WLeaf (Local 1)) (WLeaf (Satellite [0x68] 2))),
       ls_focus = Some (Local 1)\<rparr>\<rparr>], wk_active = 0\<rparr>"

theorem workspace_roundtrip_witness:
  "serializer_inverts 200 plain_writer plain_version (plain_reader 200)
   \<and> (\<exists>bs. encode_cbor plain_writer stored_workspace = Ok bs
        \<and> decode_cbor plain_version (plain_reader 200) bs = Ok stored_workspace)"
proof -
  have "replicate 16 (2 :: u8) \<noteq> zero_id" "utf8_valid [0x31]" "utf8_valid [0x68]" by code_simp+
  moreover have "ratios_ok (WSplit WVertical f32_half (WLeaf (Local 1)) (WLeaf (Satellite [0x68] 2)))"
    by (simp add: f32_is_finite_def f32_le_def f32_is_nan_def f32_key_def f32_sign_def f32_exp_def
        f32_mant_def f32_half_def f32_zero_def f32_one_def)
  ultimately have wf: "wf_workspace stored_workspace"
    and st: "\<forall>w \<in> set (wk_windows stored_workspace). storable 200 w"
    by (simp_all add: stored_workspace_def wf_workspace_def storable_def wf_rid_def)
  from workspace_roundtrip [OF wf _ st plain_inverts] plain_inverts [of 200] show ?thesis
    by (simp add: stored_workspace_def)
qed

end
