(* ===== verification/Framing.thy ===== *)
theory Framing
  imports Wire_Round
begin

text \<open>
  Length-prefix framing: \<open>phux-protocol/src/wire/framing.rs\<close>, the Unix-socket reader of
  \<open>phux-server/src/transport.rs\<close> and the reassembly loop of the hub's satellite links,
  \<open>phux-server/src/hub/link.rs\<close>. The network is the list of byte runs that successive reads
  deliver, an empty run being the end of the stream.
\<close>

section \<open>Definitions\<close>

datatype framing_error =
    LengthOutOfRange u32
  | LengthMismatch nat nat
  | HeaderTruncated nat

definition length_prefix_len :: nat where
  "length_prefix_len = 4"

definition decode_length :: "bytes \<Rightarrow> framing_error + nat" where
  "decode_length header =
     (let length = from_be header
      in if \<not> (1 \<le> length \<and> length \<le> max_frame_len) then Err (LengthOutOfRange length)
         else Ok (unat length))"

definition frame_buffer :: "bytes \<Rightarrow> framing_error + bytes" where
  "frame_buffer header = rbind (decode_length header) (\<lambda>body_len.
     Ok (header @ replicate (length_prefix_len + body_len - length header) 0))"

definition split_frame :: "bytes \<Rightarrow> (framing_error + bytes option) \<times> bytes" where
  "split_frame buf =
     (if length buf < length_prefix_len then (Ok None, buf)
      else case decode_length (take length_prefix_len buf) of
             Inl e \<Rightarrow> (Err e, buf)
           | Inr n \<Rightarrow>
               (let total = length_prefix_len + n
                in if length buf < total then (Ok None, buf)
                   else (Ok (Some (take total buf)), drop total buf)))"

definition check_frame :: "bytes \<Rightarrow> framing_error + nat" where
  "check_frame bytes =
     (if length bytes < length_prefix_len then Err (HeaderTruncated (length bytes))
      else rbind (decode_length (take length_prefix_len bytes)) (\<lambda>body_len.
             let expected = length_prefix_len + body_len
             in if length bytes = expected then Ok body_len
                else Err (LengthMismatch expected (length bytes))))"

text \<open>
  The Unix-socket reader. \<open>read_exact\<close> takes its bytes off the stream or fails when the peer
  closed before sending that many.
\<close>

datatype uds_error = UdsFraming framing_error | UdsUnexpectedEof

definition read_exact :: "nat \<Rightarrow> bytes \<Rightarrow> (bytes \<times> bytes) option" where
  "read_exact n stream = (if length stream < n then None else Some (take n stream, drop n stream))"

definition uds_read_frame :: "bytes \<Rightarrow> (uds_error + bytes option) \<times> bytes" where
  "uds_read_frame stream =
     (case read_exact length_prefix_len stream of
        None \<Rightarrow> (Ok None, [])
      | Some (header, stream1) \<Rightarrow>
          (case frame_buffer header of
             Inl e \<Rightarrow> (Err (UdsFraming e), stream1)
           | Inr framed \<Rightarrow>
               (case read_exact (length framed - length_prefix_len) stream1 of
                  None \<Rightarrow> (Err UdsUnexpectedEof, [])
                | Some (body, stream2) \<Rightarrow>
                    (Ok (Some (take length_prefix_len framed @ body)), stream2))))"

text \<open>The hub link's loop over the persistent buffer; \<open>Pending\<close> is a read still outstanding.\<close>

datatype recv = Frame bytes | Closed | MidFrame | Violation framing_error | Pending

fun recv_frame :: "bytes list \<Rightarrow> bytes \<Rightarrow> recv \<times> bytes \<times> bytes list" where
  "recv_frame runs buf =
     (case split_frame buf of
        (Inr (Some framed), buf1) \<Rightarrow> (Frame framed, buf1, runs)
      | (Inl violation, buf1) \<Rightarrow> (Violation violation, buf1, runs)
      | (Inr None, buf1) \<Rightarrow>
          (case runs of
             [] \<Rightarrow> (Pending, buf1, [])
           | run # runs' \<Rightarrow>
               (if run = [] then (if buf1 = [] then Closed else MidFrame, buf1, runs')
                else recv_frame runs' (buf1 @ run))))"

declare recv_frame.simps [simp del]

section \<open>One frame\<close>

definition frame_of :: "bytes \<Rightarrow> bytes" where
  "frame_of body = write_u32_be (of_nat (length body)) @ body"

definition good_body :: "bytes \<Rightarrow> bool" where
  "good_body body \<longleftrightarrow> 1 \<le> length body \<and> length body \<le> 16777216"

lemma length_frame_of [simp]: "length (frame_of body) = 4 + length body"
  by (simp add: frame_of_def write_u32_be_def)

lemma take_frame_of: "take 4 (frame_of body) = write_u32_be (of_nat (length body))"
  by (simp add: frame_of_def write_u32_be_def)

lemma decode_length_frame:
  assumes "good_body body"
  shows "decode_length (write_u32_be (of_nat (length body))) = Ok (length body)"
proof -
  have len: "unat (of_nat (length body) :: u32) = length body"
    using assms by (simp add: good_body_def unat_of_nat)
  moreover have "(1 :: u32) \<le> of_nat (length body) \<and> of_nat (length body) \<le> max_frame_len"
    using assms len by (simp add: word_le_nat_alt good_body_def)
  ultimately show ?thesis
    by (simp add: decode_length_def write_u32_be_def from_to_be Let_def)
qed

lemma decode_length_range: "decode_length header = Ok n \<Longrightarrow> 1 \<le> n \<and> n \<le> 16777216"
proof -
  assume h: "decode_length header = Ok n"
  let ?l = "from_be header :: u32"
  from h have "1 \<le> ?l" "?l \<le> max_frame_len" "n = unat ?l"
    by (auto simp: decode_length_def Let_def split: if_splits)
  then have "unat (1::u32) \<le> n" "n \<le> unat max_frame_len" by (simp_all only: word_le_nat_alt)
  then show ?thesis by simp
qed

lemma split_frame_prefix:
  assumes "good_body body" and "buf @ tail = frame_of body @ rest"
  shows "split_frame buf =
    (if length (frame_of body) \<le> length buf
     then (Ok (Some (frame_of body)), drop (length (frame_of body)) buf) else (Ok None, buf))"
proof (cases "length buf < 4")
  case True
  then show ?thesis by (simp add: split_frame_def length_prefix_len_def)
next
  case False
  have "take 4 buf = take 4 (buf @ tail)" using False by simp
  then have h: "take 4 buf = write_u32_be (of_nat (length body))"
    by (simp add: assms(2) take_frame_of)
  moreover have "take (4 + length body) buf = frame_of body" if "4 + length body \<le> length buf"
  proof -
    have "take (4 + length body) buf = take (4 + length body) (buf @ tail)" using that by simp
    then show ?thesis by (simp add: assms(2))
  qed
  ultimately show ?thesis using False decode_length_frame [OF assms(1)]
    by (simp add: split_frame_def length_prefix_len_def Let_def)
qed

lemma recv_frame_frame:
  assumes "good_body body" and "buf @ concat runs = frame_of body @ rest" and "\<forall>r \<in> set runs. r \<noteq> []"
  shows "\<exists>buf' runs'. recv_frame (runs @ [[]]) buf = (Frame (frame_of body), buf', runs' @ [[]])
     \<and> buf' @ concat runs' = rest \<and> (\<forall>r \<in> set runs'. r \<noteq> [])"
  using assms(2,3)
proof (induction runs arbitrary: buf)
  case Nil
  with split_frame_prefix [OF assms(1), of buf "[]" rest] show ?case
    by (intro exI [of _ rest] exI [of _ "[]"]) (simp add: recv_frame.simps)
next
  case (Cons run runs)
  note sp = split_frame_prefix [OF assms(1) Cons.prems(1)]
  show ?case
  proof (cases "length (frame_of body) \<le> length buf")
    case True
    from Cons.prems(1) have "drop (length (frame_of body)) (buf @ concat (run # runs)) = rest"
      by simp
    with True Cons.prems(2) sp show ?thesis
      by (intro exI [of _ "drop (length (frame_of body)) buf"] exI [of _ "run # runs"])
        (simp add: recv_frame.simps)
  next
    case False
    with sp Cons.IH [of "buf @ run"] Cons.prems show ?thesis
      by (subst recv_frame.simps) simp
  qed
qed

lemma recv_frame_tail:
  assumes "good_body body" and "(buf @ concat runs) @ tail = frame_of body" and "tail \<noteq> []"
    and "\<forall>r \<in> set runs. r \<noteq> []"
  shows "recv_frame (runs @ [[]]) buf =
    (if buf @ concat runs = [] then Closed else MidFrame, buf @ concat runs, [])"
  using assms(2,4)
proof (induction runs arbitrary: buf)
  case Nil
  then have "length buf < length (frame_of body)"
    using assms(3) by (metis append_Nil2 concat.simps(1) length_append length_greater_0_conv less_add_same_cancel1)
  with Nil split_frame_prefix [OF assms(1), of buf tail "[]"] show ?case
    by (simp add: recv_frame.simps)
next
  case (Cons run runs)
  then have eq: "buf @ (concat (run # runs) @ tail) = frame_of body @ []" by simp
  have "length buf < length (frame_of body)"
    using assms(3) [folded length_greater_0_conv] arg_cong [OF eq, of length] by (simp only: length_append list.size)
  with split_frame_prefix [OF assms(1) eq] Cons.IH [of "buf @ run"] Cons.prems show ?case
    by (subst recv_frame.simps) simp
qed

section \<open>A connection\<close>

lemma split_frame_shrinks:
  "split_frame buf = (Inr (Some f), buf') \<Longrightarrow> length buf' < length buf"
  by (auto simp: split_frame_def length_prefix_len_def Let_def split: if_splits sum.splits)

lemma recv_frame_shrinks:
  "recv_frame runs buf = (Frame f, buf', runs') \<Longrightarrow>
    length buf' + length (concat runs') < length buf + length (concat runs)"
proof (induction runs buf rule: recv_frame.induct)
  case (1 runs buf)
  show ?case
  proof (cases "split_frame buf")
    case (Pair r b)
    have same: "b = buf" if "r = Inr None"
      using Pair that by (auto simp: split_frame_def Let_def split: if_splits sum.splits)
    show ?thesis
    proof (cases r)
      case (Inr f')
      with Pair "1.prems" "1.IH" [OF Pair [symmetric] Inr] same split_frame_shrinks [of buf] show ?thesis
        by (cases f'; cases runs)
          (fastforce simp: recv_frame.simps [of _ buf] split: if_splits)+
    qed (use Pair "1.prems" in \<open>simp add: recv_frame.simps [of _ buf]\<close>)
  qed
qed

function recv_all :: "bytes list \<Rightarrow> bytes \<Rightarrow> bytes list \<times> recv" where
  "recv_all runs buf =
     (case recv_frame runs buf of
        (Frame f, buf1, runs1) \<Rightarrow>
          (let (fs, outcome) = recv_all runs1 buf1 in (f # fs, outcome))
      | (outcome, _, _) \<Rightarrow> ([], outcome))"
  by pat_completeness auto

termination recv_all
  by (relation "measure (\<lambda>(runs, buf). length buf + length (concat runs))")
    (auto intro: recv_frame_shrinks [simplified] sym)

declare recv_all.simps [simp del]

lemma recv_all_bodies:
  assumes "\<forall>b \<in> set bodies. good_body b" and "good_body body" and "tail \<noteq> []"
    and "p @ tail = frame_of body"
    and "buf @ concat runs = concat (map frame_of bodies) @ p" and "\<forall>r \<in> set runs. r \<noteq> []"
  shows "recv_all (runs @ [[]]) buf =
    (map frame_of bodies, if p = [] then Closed else MidFrame)"
  using assms(1,5,6)
proof (induction bodies arbitrary: buf runs)
  case Nil
  with recv_frame_tail [OF assms(2) _ assms(3), of buf runs] assms(4) show ?case
    by (subst recv_all.simps) simp
next
  case (Cons b bodies)
  then have "buf @ concat runs = frame_of b @ (concat (map frame_of bodies) @ p)" by simp
  from recv_frame_frame [OF _ this] Cons.prems obtain buf' runs' where
    "recv_frame (runs @ [[]]) buf = (Frame (frame_of b), buf', runs' @ [[]])"
    "buf' @ concat runs' = concat (map frame_of bodies) @ p" "\<forall>r \<in> set runs'. r \<noteq> []"
    by auto
  with Cons.IH [of buf' runs'] Cons.prems(1) show ?case by (subst recv_all.simps) simp
qed

section \<open>Properties\<close>

text \<open>
  C8. Reassembly does not depend on how the network cuts the stream. When a peer sends any
  sequence of frames, possibly breaks off inside one more, and closes, a hub link that receives
  the bytes in any non-empty runs delivers exactly those frames in order, and then reports a
  clean close, or a stream that ended in the middle of a frame exactly when there was one.
\<close>

theorem reassembly:
  assumes "\<forall>b \<in> set bodies. good_body b" and "good_body body" and "tail \<noteq> []"
    and "p @ tail = frame_of body"
    and "concat runs = concat (map frame_of bodies) @ p" and "\<forall>r \<in> set runs. r \<noteq> []"
  shows "recv_all (runs @ [[]]) [] = (map frame_of bodies, if p = [] then Closed else MidFrame)"
  using recv_all_bodies [OF assms(1-4), of "[]" runs] assms(5,6) by simp

theorem reassembly_witness:
  "recv_all ([[0], [0, 0, 1, 7, 0], [0, 0, 2, 1, 2, 0]] @ [[]]) []
     = ([[0, 0, 0, 1, 7], [0, 0, 0, 2, 1, 2]], MidFrame)"
proof -
  have f: "frame_of [7] = [0, 0, 0, 1, 7]" "frame_of [1, 2] = [0, 0, 0, 2, 1, 2]"
    by code_simp+
  show ?thesis
    using reassembly [of "[[7], [1, 2]]" "[7]" "[0, 0, 1, 7]" "[0]"
        "[[0], [0, 0, 1, 7, 0], [0, 0, 2, 1, 2, 0]]"]
    by (simp add: f good_body_def)
qed

text \<open>
  C9. The Unix-socket reader, which pulls an exact header and body off the stream, and
  \<open>split_frame\<close>, which peels a frame off a buffer, deliver the same frames and leave the same
  bytes behind.
\<close>

theorem uds_split_agree:
  "uds_read_frame stream = (Inr (Some f), rest) \<longleftrightarrow> split_frame stream = (Inr (Some f), rest)"
proof -
  have t: "take (n + 4) stream = take 4 stream @ take n (drop 4 stream)" for n
    by (metis add.commute take_add)
  show ?thesis
    by (auto simp: uds_read_frame_def split_frame_def read_exact_def frame_buffer_def
        length_prefix_len_def t Let_def add.commute [of 4] min_def split: sum.splits)
qed

text \<open>
  C10. A buffer passes \<open>check_frame\<close> exactly when it is one whole frame: a big-endian length
  in \<open>1..=MAX_FRAME_LEN\<close> followed by that many bytes and nothing else.
\<close>

theorem check_frame_iff:
  "check_frame bs = Inr n \<longleftrightarrow> (\<exists>body. good_body body \<and> length body = n \<and> bs = frame_of body)"
proof
  assume "\<exists>body. good_body body \<and> length body = n \<and> bs = frame_of body"
  then show "check_frame bs = Inr n"
    using decode_length_frame by (auto simp: check_frame_def length_prefix_len_def take_frame_of Let_def)
next
  assume c: "check_frame bs = Inr n"
  then have len: "length bs = 4 + n" and d: "decode_length (take 4 bs) = Inr n"
    by (auto simp: check_frame_def length_prefix_len_def rbind_eq_Inr Let_def split: if_splits)
  let ?l = "from_be (take 4 bs) :: u32"
  from d have "of_nat n = ?l" by (auto simp: decode_length_def Let_def split: if_splits)
  then have "write_u32_be (of_nat n) = take 4 bs"
    using len to_from_be [where ?'a = 32 and bs = "take 4 bs"] by (simp add: write_u32_be_def)
  with len have "bs = frame_of (drop 4 bs)" by (simp add: frame_of_def append_take_drop_id)
  with len decode_length_range [OF d]
  show "\<exists>body. good_body body \<and> length body = n \<and> bs = frame_of body"
    by (intro exI [of _ "drop 4 bs"]) (simp add: good_body_def)
qed

end
