(* ===== verification/Multi_Pane.thy ===== *)
theory Multi_Pane
  imports Client_Workspace "HOL-Library.Product_Lexorder"
begin

text \<open>
  The client's pane geometry, \<open>phux-client-core/src/multi_pane\<close>: \<open>rasterize.rs\<close> (the walk that
  cuts a viewport into pane rectangles and divider lines, and the divider glyphs), \<open>layout.rs\<close>
  (the entry points) and \<open>mouse.rs\<close> (hit testing). Cell coordinates are the \<open>u16\<close> values as
  natural numbers; every addition that could leave the range is written with its wrap-around or
  saturation. A \<open>HashMap\<close> is a map, and where the code iterates over one, the order is an
  argument.
\<close>

section \<open>Integers of width 16\<close>

definition add16 :: "nat \<Rightarrow> nat \<Rightarrow> nat" where
  "add16 a b = (a + b) mod 2 ^ 16"

definition sat_add16 :: "nat \<Rightarrow> nat \<Rightarrow> nat" where
  "sat_add16 a b = min (a + b) 65535"

definition checked_add16 :: "nat \<Rightarrow> nat \<Rightarrow> nat option" where
  "checked_add16 a b = (if a + b \<le> 65535 then Some (a + b) else None)"

section \<open>Cutting one dimension\<close>

record rect =
  rx :: nat
  ry :: nat
  rw :: nat
  rh :: nat

definition min_leaf_cols :: nat where
  "min_leaf_cols = 2"

definition min_leaf_rows :: nat where
  "min_leaf_rows = 1"

text \<open>
  \<open>round\<close> leaves an integer, NaN or an infinity: the comparisons with zero and with the total,
  and the saturating cast \<open>as u16\<close>, read off the case.
\<close>

definition split_dim :: "nat \<Rightarrow> f32 \<Rightarrow> nat" where
  "split_dim extent ratio =
     (case f32_round (f32_mul (f32_of_u16 (of_nat extent)) (f32_decode ratio)) of
        FNan \<Rightarrow> 0
      | FInf neg \<Rightarrow> (if neg then 0 else extent)
      | FFin neg n _ \<Rightarrow> (if neg then 0 else if extent < n then extent else n))"

fun min_dims :: "wire_layout \<Rightarrow> nat \<times> nat" where
  "min_dims (WLeaf _) = (min_leaf_cols, min_leaf_rows)"
| "min_dims (WSplit dir _ left right) =
     (let (lw, lh) = min_dims left; (rw, rh) = min_dims right
      in case dir of
           WHorizontal \<Rightarrow> (sat_add16 (sat_add16 lw rw) 1, max lh rh)
         | WVertical \<Rightarrow> (max lw rw, sat_add16 (sat_add16 lh rh) 1))"

text \<open>\<open>clamp lo hi\<close> is \<open>Ord::clamp\<close>.\<close>

definition clamp :: "nat \<Rightarrow> nat \<Rightarrow> nat \<Rightarrow> nat" where
  "clamp v lo hi = (if v < lo then lo else if hi < v then hi else v)"

definition freeze_split_dim :: "nat \<Rightarrow> f32 \<Rightarrow> nat \<Rightarrow> nat \<Rightarrow> nat" where
  "freeze_split_dim content ratio min_low min_high =
     (let low = split_dim content ratio
      in case checked_add16 min_low min_high of
           Some needed \<Rightarrow> if needed \<le> content then clamp low min_low (content - min_high) else low
         | None \<Rightarrow> low)"

section \<open>The walk\<close>

record divider_segment =
  seg_split :: wire_split_dir
  seg_a0 :: nat
  seg_a1 :: nat
  seg_cross :: nat
  seg_path :: "node_step list"

type_synonym rects = "wire_resource_id \<rightharpoonup> rect"

fun walk_layout_at :: "wire_layout \<Rightarrow> rect \<Rightarrow> node_step list \<Rightarrow> divider_segment list \<Rightarrow> rects \<Rightarrow> bool
    \<Rightarrow> divider_segment list \<times> rects" where
  "walk_layout_at (WLeaf p) bounds path segments rects freeze = (segments, rects(p \<mapsto> bounds))"
| "walk_layout_at (WSplit WHorizontal ratio left right) bounds path segments rects freeze =
     (let has_divider = (1 \<le> rw bounds);
          content_w = rw bounds - 1;
          left_w = (if freeze
                    then freeze_split_dim content_w ratio (fst (min_dims left)) (fst (min_dims right))
                    else split_dim content_w ratio);
          right_w = content_w - left_w;
          divider_x = add16 (rx bounds) left_w;
          segments1 = (if has_divider
                       then segments @ [\<lparr>seg_split = WHorizontal, seg_a0 = ry bounds,
                              seg_a1 = add16 (ry bounds) (rh bounds - 1), seg_cross = divider_x,
                              seg_path = path\<rparr>]
                       else segments);
          (segments2, rects2) = walk_layout_at left
             \<lparr>rx = rx bounds, ry = ry bounds, rw = left_w, rh = rh bounds\<rparr>
             (path @ [StepLeft]) segments1 rects freeze
      in walk_layout_at right
           \<lparr>rx = (if has_divider then add16 divider_x 1 else rx bounds), ry = ry bounds,
            rw = right_w, rh = rh bounds\<rparr>
           (path @ [StepRight]) segments2 rects2 freeze)"
| "walk_layout_at (WSplit WVertical ratio left right) bounds path segments rects freeze =
     (let has_divider = (1 \<le> rh bounds);
          content_h = rh bounds - 1;
          top_h = (if freeze
                   then freeze_split_dim content_h ratio (snd (min_dims left)) (snd (min_dims right))
                   else split_dim content_h ratio);
          bot_h = content_h - top_h;
          divider_y = add16 (ry bounds) top_h;
          segments1 = (if has_divider
                       then segments @ [\<lparr>seg_split = WVertical, seg_a0 = rx bounds,
                              seg_a1 = add16 (rx bounds) (rw bounds - 1), seg_cross = divider_y,
                              seg_path = path\<rparr>]
                       else segments);
          (segments2, rects2) = walk_layout_at left
             \<lparr>rx = rx bounds, ry = ry bounds, rw = rw bounds, rh = top_h\<rparr>
             (path @ [StepLeft]) segments1 rects freeze
      in walk_layout_at right
           \<lparr>rx = rx bounds, ry = (if has_divider then add16 divider_y 1 else ry bounds),
            rw = rw bounds, rh = bot_h\<rparr>
           (path @ [StepRight]) segments2 rects2 freeze)"

definition walk_layout :: "wire_layout \<Rightarrow> rect \<Rightarrow> divider_segment list \<Rightarrow> rects
    \<Rightarrow> divider_segment list \<times> rects" where
  "walk_layout node bounds segments rects = walk_layout_at node bounds [] segments rects True"

definition walk_layout_proportional :: "wire_layout \<Rightarrow> rect \<Rightarrow> divider_segment list \<Rightarrow> rects
    \<Rightarrow> divider_segment list \<times> rects" where
  "walk_layout_proportional node bounds segments rects =
     walk_layout_at node bounds [] segments rects False"

section \<open>Divider cells and glyphs\<close>

type_synonym cell = "nat \<times> nat"

record divider_edges =
  north :: bool
  east :: bool
  south :: bool
  west :: bool

type_synonym grid = "cell \<rightharpoonup> divider_edges"

definition no_edges :: divider_edges where
  "no_edges = \<lparr>north = False, east = False, south = False, west = False\<rparr>"

text \<open>\<open>grid.entry(c).or_default()\<close>.\<close>

definition entry :: "grid \<Rightarrow> cell \<Rightarrow> divider_edges" where
  "entry grid c = (case grid c of None \<Rightarrow> no_edges | Some e \<Rightarrow> e)"

definition lay_down_vertical_line :: "grid \<Rightarrow> divider_segment \<Rightarrow> nat \<Rightarrow> nat \<Rightarrow> grid" where
  "lay_down_vertical_line grid seg vcols vrows =
     (let x = seg_cross seg in
      if vcols \<le> x then grid
      else fold (\<lambda>y g. let e = entry g (x, y);
                          e1 = (if seg_a0 seg < y then e\<lparr>north := True\<rparr> else e);
                          e2 = (if y < seg_a1 seg then e1\<lparr>south := True\<rparr> else e1)
                       in g((x, y) \<mapsto> e2))
             [seg_a0 seg ..< Suc (min (seg_a1 seg) (vrows - 1))] grid)"

definition lay_down_horizontal_line :: "grid \<Rightarrow> divider_segment \<Rightarrow> nat \<Rightarrow> nat \<Rightarrow> grid" where
  "lay_down_horizontal_line grid seg vcols vrows =
     (let y = seg_cross seg in
      if vrows \<le> y then grid
      else fold (\<lambda>x g. let e = entry g (x, y);
                          e1 = (if seg_a0 seg < x then e\<lparr>west := True\<rparr> else e);
                          e2 = (if x < seg_a1 seg then e1\<lparr>east := True\<rparr> else e1)
                       in g((x, y) \<mapsto> e2))
             [seg_a0 seg ..< Suc (min (seg_a1 seg) (vcols - 1))] grid)"

definition lay_down_segment :: "grid \<Rightarrow> divider_segment \<Rightarrow> nat \<times> nat \<Rightarrow> grid" where
  "lay_down_segment grid seg viewport =
     (let (vcols, vrows) = viewport
      in case seg_split seg of
           WHorizontal \<Rightarrow> lay_down_vertical_line grid seg vcols vrows
         | WVertical \<Rightarrow> lay_down_horizontal_line grid seg vcols vrows)"

record neighbours =
  nb_north :: "divider_edges option"
  nb_east :: "divider_edges option"
  nb_south :: "divider_edges option"
  nb_west :: "divider_edges option"

definition around :: "grid \<Rightarrow> nat \<Rightarrow> nat \<Rightarrow> neighbours" where
  "around grid x y =
     \<lparr>nb_north = (if 0 < y then grid (x, y - 1) else None), nb_east = grid (add16 x 1, y),
      nb_south = grid (x, add16 y 1), nb_west = (if 0 < x then grid (x - 1, y) else None)\<rparr>"

definition inherit_junctions :: "divider_edges \<Rightarrow> neighbours \<Rightarrow> divider_edges" where
  "inherit_junctions cell neighbours =
     (let c1 = (if \<not> north cell then cell\<lparr>north := nb_north neighbours \<noteq> None\<rparr> else cell);
          c2 = (if \<not> south c1 then c1\<lparr>south := nb_south neighbours \<noteq> None\<rparr> else c1);
          c3 = (if \<not> east c2 then c2\<lparr>east := nb_east neighbours \<noteq> None\<rparr> else c2)
      in if \<not> west c3 then c3\<lparr>west := nb_west neighbours \<noteq> None\<rparr> else c3)"

text \<open>\<open>keys\<close> lists the grid's cells in the order the hash map yields them.\<close>

definition inherit_junction_edges :: "cell list \<Rightarrow> grid \<Rightarrow> grid" where
  "inherit_junction_edges keys grid =
     fold (\<lambda>(x, y) g. case g (x, y) of
                        None \<Rightarrow> g
                      | Some cell \<Rightarrow> g((x, y) \<mapsto> inherit_junctions cell (around g x y)))
       keys grid"

fun pick_box_char :: "bool \<Rightarrow> bool \<Rightarrow> bool \<Rightarrow> bool \<Rightarrow> nat" where
  "pick_box_char False False False False = 0x20"
| "pick_box_char True True True True = 0x253C"
| "pick_box_char True False True True = 0x2524"
| "pick_box_char True True True False = 0x251C"
| "pick_box_char True True False True = 0x2534"
| "pick_box_char False True True True = 0x252C"
| "pick_box_char False True True False = 0x250C"
| "pick_box_char False False True True = 0x2510"
| "pick_box_char True True False False = 0x2514"
| "pick_box_char True False False True = 0x2518"
| "pick_box_char _ False _ False = 0x2502"
| "pick_box_char False _ False _ = 0x2500"

record divider_cell =
  dc_x :: nat
  dc_y :: nat
  dc_ch :: nat

definition into_divider_cells :: "cell list \<Rightarrow> grid \<Rightarrow> divider_cell list" where
  "into_divider_cells keys grid =
     map (\<lambda>(x, y). let e = entry grid (x, y)
                   in \<lparr>dc_x = x, dc_y = y, dc_ch = pick_box_char (north e) (east e) (south e) (west e)\<rparr>)
       (sort_key (\<lambda>(x, y). (y, x)) keys)"

type_synonym grid_order = "grid \<Rightarrow> cell list"

definition rasterize :: "grid_order \<Rightarrow> divider_segment list \<Rightarrow> nat \<times> nat \<Rightarrow> divider_cell list" where
  "rasterize iter segments viewport =
     (let grid = fold (\<lambda>seg g. lay_down_segment g seg viewport) segments Map.empty;
          grid1 = inherit_junction_edges (iter grid) grid
      in into_divider_cells (iter grid1) grid1)"

record divider_hit =
  hit_path :: "node_step list"
  hit_axis :: wire_split_dir
  hit_cells :: "cell list"

definition segment_hit :: "nat \<times> nat \<Rightarrow> divider_segment \<Rightarrow> divider_hit" where
  "segment_hit viewport seg =
     (let (vcols, vrows) = viewport;
          cells = (case seg_split seg of
                     WHorizontal \<Rightarrow>
                       (if seg_cross seg < vcols
                        then map (\<lambda>y. (seg_cross seg, y)) [seg_a0 seg ..< Suc (min (seg_a1 seg) (vrows - 1))]
                        else [])
                   | WVertical \<Rightarrow>
                       (if seg_cross seg < vrows
                        then map (\<lambda>x. (x, seg_cross seg)) [seg_a0 seg ..< Suc (min (seg_a1 seg) (vcols - 1))]
                        else []))
      in \<lparr>hit_path = seg_path seg, hit_axis = seg_split seg, hit_cells = cells\<rparr>)"

definition divider_hits :: "divider_segment list \<Rightarrow> nat \<times> nat \<Rightarrow> divider_hit list" where
  "divider_hits segments viewport = map (segment_hit viewport) segments"

section \<open>Entry points\<close>

record pane_layout =
  pl_viewport :: "nat \<times> nat"
  pl_rects :: rects
  pl_dividers :: "divider_cell list"
  pl_hits :: "divider_hit list"

definition compute_layout_in :: "grid_order \<Rightarrow> layout_state \<Rightarrow> rect \<Rightarrow> nat \<times> nat \<Rightarrow> pane_layout" where
  "compute_layout_in iter layout content viewport_dims =
     (case ls_tree layout of
        None \<Rightarrow> \<lparr>pl_viewport = viewport_dims, pl_rects = Map.empty, pl_dividers = [], pl_hits = []\<rparr>
      | Some tree \<Rightarrow>
          (if rw content = 0 \<or> rh content = 0
           then \<lparr>pl_viewport = viewport_dims, pl_rects = Map.empty, pl_dividers = [], pl_hits = []\<rparr>
           else
             (let (segments, rects) = walk_layout tree content [] Map.empty
              in \<lparr>pl_viewport = viewport_dims, pl_rects = rects,
                  pl_dividers = rasterize iter segments viewport_dims,
                  pl_hits = divider_hits segments viewport_dims\<rparr>)))"

definition compute_layout :: "grid_order \<Rightarrow> layout_state \<Rightarrow> nat \<times> nat \<Rightarrow> pane_layout" where
  "compute_layout iter layout viewport_dims =
     (let (cols, rows) = viewport_dims
      in compute_layout_in iter layout \<lparr>rx = 0, ry = 0, rw = cols, rh = rows\<rparr> viewport_dims)"

definition pane_rects_in :: "wire_layout \<Rightarrow> rect \<Rightarrow> rects" where
  "pane_rects_in tree content = snd (walk_layout tree content [] Map.empty)"

definition pane_rects :: "wire_layout \<Rightarrow> nat \<times> nat \<Rightarrow> rects" where
  "pane_rects tree viewport_dims =
     pane_rects_in tree \<lparr>rx = 0, ry = 0, rw = fst viewport_dims, rh = snd viewport_dims\<rparr>"

definition pane_rects_proportional_in :: "wire_layout \<Rightarrow> rect \<Rightarrow> rects" where
  "pane_rects_proportional_in tree content = snd (walk_layout_proportional tree content [] Map.empty)"

text \<open>The descent loop, one step of the path per turn.\<close>

fun split_content_span_at :: "wire_layout \<Rightarrow> rect \<Rightarrow> node_step list \<Rightarrow> (nat \<times> nat) option" where
  "split_content_span_at (WLeaf _) bounds steps = None"
| "split_content_span_at (WSplit dir ratio left right) bounds [] =
     (let (axis_start, axis_len) = (case dir of
             WHorizontal \<Rightarrow> (rx bounds, rw bounds) | WVertical \<Rightarrow> (ry bounds, rh bounds));
          content_len = axis_len - 1
      in if content_len = 0 then None else Some (axis_start, content_len))"
| "split_content_span_at (WSplit dir ratio left right) bounds (step # rest) =
     (let (axis_start, axis_len) = (case dir of
             WHorizontal \<Rightarrow> (rx bounds, rw bounds) | WVertical \<Rightarrow> (ry bounds, rh bounds));
          has_divider = (1 \<le> axis_len);
          content_len = axis_len - 1;
          (min_low, min_high) = (case dir of
             WHorizontal \<Rightarrow> (fst (min_dims left), fst (min_dims right))
           | WVertical \<Rightarrow> (snd (min_dims left), snd (min_dims right)));
          low = freeze_split_dim content_len ratio min_low min_high;
          high = content_len - low;
          divider = add16 axis_start low;
          (child_start, child_len) = (case step of
             StepLeft \<Rightarrow> (axis_start, low)
           | StepRight \<Rightarrow> (if has_divider then add16 divider 1 else axis_start, high));
          bounds' = (case dir of
             WHorizontal \<Rightarrow> \<lparr>rx = child_start, ry = ry bounds, rw = child_len, rh = rh bounds\<rparr>
           | WVertical \<Rightarrow> \<lparr>rx = rx bounds, ry = child_start, rw = rw bounds, rh = child_len\<rparr>)
      in case step of
           StepLeft \<Rightarrow> split_content_span_at left bounds' rest
         | StepRight \<Rightarrow> split_content_span_at right bounds' rest)"

section \<open>Mouse routing\<close>

text \<open>\<open>f64::from(u16)\<close> is exact, so pane-local positions stay integers here.\<close>

datatype route_decision =
    RPane wire_resource_id nat nat bool
  | RDivider "node_step list" wire_split_dir
  | RMiss
  | RNoFocus

definition clamp_cell :: "f64 \<Rightarrow> nat" where
  "clamp_cell p =
     (case f64_decode p of
        FNan \<Rightarrow> 0
      | FInf neg \<Rightarrow> (if neg then 0 else 65535)
      | FFin neg m e \<Rightarrow> (if neg then 0 else min (fin_trunc m e) 65535))"

definition rect_contains :: "rect \<Rightarrow> nat \<Rightarrow> nat \<Rightarrow> bool" where
  "rect_contains r x y \<longleftrightarrow>
     rx r \<le> x \<and> ry r \<le> y \<and> x < sat_add16 (rx r) (rw r) \<and> y < sat_add16 (ry r) (rh r)"

text \<open>\<open>order\<close> lists the panes in the order the rectangle map yields them.\<close>

definition route_mouse_event :: "grid_order \<Rightarrow> (rects \<Rightarrow> wire_resource_id list) \<Rightarrow> layout_state \<Rightarrow> rect
    \<Rightarrow> nat \<times> nat \<Rightarrow> f64 \<Rightarrow> f64 \<Rightarrow> route_decision" where
  "route_mouse_event iter order layout content viewport mouse_x mouse_y =
     (if ls_tree layout = None then RNoFocus
      else
        (let multi = compute_layout_in iter layout content viewport
         in if order (pl_rects multi) = [] then RNoFocus
            else
              (let cell_x = min (clamp_cell mouse_x) (fst viewport - 1);
                   cell_y = min (clamp_cell mouse_y) (snd viewport - 1);
                   hit = find (\<lambda>p. case pl_rects multi p of
                                    None \<Rightarrow> False | Some r \<Rightarrow> rect_contains r cell_x cell_y)
                           (order (pl_rects multi))
               in case hit of
                    Some target \<Rightarrow>
                      (let r = the (pl_rects multi target)
                       in RPane target (cell_x - rx r) (cell_y - ry r) (ls_focus layout \<noteq> Some target))
                  | None \<Rightarrow>
                      (case find (\<lambda>h. (cell_x, cell_y) \<in> set (hit_cells h)) (pl_hits multi) of
                         Some h \<Rightarrow> RDivider (hit_path h) (hit_axis h)
                       | None \<Rightarrow> RMiss))))"

end
