(* ===== verification/Multi_Pane_Tiling.thy ===== *)
theory Multi_Pane_Tiling
  imports Multi_Pane
begin

text \<open>
  Correctness of the pane geometry: the walk cuts any content rectangle into pane rectangles and
  divider lines without gap or overlap, panes keep their minimum size when the content allows it,
  the grab map and the painted divider cells are the same cells, and mouse events route to the
  pane under the pointer.
\<close>

section \<open>Cutting one dimension\<close>

lemma split_dim_le: "split_dim n r \<le> n"
  by (simp add: split_dim_def split: fval.split)

lemma freeze_split_dim_le: "freeze_split_dim n r lo hi \<le> n"
  using split_dim_le [of n r]
  by (auto simp: freeze_split_dim_def checked_add16_def clamp_def Let_def)

lemma freeze_split_dim_bounds:
  assumes "lo + hi \<le> n" and "n \<le> 65535"
  shows "lo \<le> freeze_split_dim n r lo hi" and "hi \<le> n - freeze_split_dim n r lo hi"
  using assms by (auto simp: freeze_split_dim_def checked_add16_def clamp_def Let_def)

section \<open>The walk without accumulators\<close>

definition cut :: "bool \<Rightarrow> wire_split_dir \<Rightarrow> f32 \<Rightarrow> wire_layout \<Rightarrow> wire_layout \<Rightarrow> rect \<Rightarrow> nat" where
  "cut freeze dir ratio left right b =
     (case dir of
        WHorizontal \<Rightarrow>
          (if freeze then freeze_split_dim (rw b - 1) ratio (fst (min_dims left)) (fst (min_dims right))
           else split_dim (rw b - 1) ratio)
      | WVertical \<Rightarrow>
          (if freeze then freeze_split_dim (rh b - 1) ratio (snd (min_dims left)) (snd (min_dims right))
           else split_dim (rh b - 1) ratio))"

definition low_part :: "wire_split_dir \<Rightarrow> nat \<Rightarrow> rect \<Rightarrow> rect" where
  "low_part dir k b = (case dir of
     WHorizontal \<Rightarrow> \<lparr>rx = rx b, ry = ry b, rw = k, rh = rh b\<rparr>
   | WVertical \<Rightarrow> \<lparr>rx = rx b, ry = ry b, rw = rw b, rh = k\<rparr>)"

definition high_part :: "wire_split_dir \<Rightarrow> nat \<Rightarrow> rect \<Rightarrow> rect" where
  "high_part dir k b = (case dir of
     WHorizontal \<Rightarrow> \<lparr>rx = (if 1 \<le> rw b then add16 (add16 (rx b) k) 1 else rx b), ry = ry b,
                     rw = rw b - 1 - k, rh = rh b\<rparr>
   | WVertical \<Rightarrow> \<lparr>rx = rx b, ry = (if 1 \<le> rh b then add16 (add16 (ry b) k) 1 else ry b),
                   rw = rw b, rh = rh b - 1 - k\<rparr>)"

definition own_segment :: "wire_split_dir \<Rightarrow> nat \<Rightarrow> rect \<Rightarrow> node_step list \<Rightarrow> divider_segment list" where
  "own_segment dir k b path = (case dir of
     WHorizontal \<Rightarrow> (if 1 \<le> rw b then [\<lparr>seg_split = WHorizontal, seg_a0 = ry b,
         seg_a1 = add16 (ry b) (rh b - 1), seg_cross = add16 (rx b) k, seg_path = path\<rparr>] else [])
   | WVertical \<Rightarrow> (if 1 \<le> rh b then [\<lparr>seg_split = WVertical, seg_a0 = rx b,
         seg_a1 = add16 (rx b) (rw b - 1), seg_cross = add16 (ry b) k, seg_path = path\<rparr>] else []))"

fun walk_segs :: "bool \<Rightarrow> wire_layout \<Rightarrow> rect \<Rightarrow> node_step list \<Rightarrow> divider_segment list" where
  "walk_segs fr (WLeaf p) b path = []"
| "walk_segs fr (WSplit d r left right) b path =
     (let k = cut fr d r left right b
      in own_segment d k b path @ walk_segs fr left (low_part d k b) (path @ [StepLeft])
           @ walk_segs fr right (high_part d k b) (path @ [StepRight]))"

fun walk_rects :: "bool \<Rightarrow> wire_layout \<Rightarrow> rect \<Rightarrow> (wire_resource_id \<times> rect) list" where
  "walk_rects fr (WLeaf p) b = [(p, b)]"
| "walk_rects fr (WSplit d r left right) b =
     (let k = cut fr d r left right b
      in walk_rects fr left (low_part d k b) @ walk_rects fr right (high_part d k b))"

lemma walk_eq:
  "walk_layout_at t b path segs m fr =
     (segs @ walk_segs fr t b path, m ++ map_of (rev (walk_rects fr t b)))"
proof (induction t arbitrary: b path segs m)
  case (WSplit d r left right)
  show ?case
    by (cases d; cases "1 \<le> rw b"; cases "1 \<le> rh b")
      (simp_all add: Let_def WSplit.IH cut_def low_part_def high_part_def own_segment_def map_of_append)
qed simp

lemma walk_rects_panes: "map fst (walk_rects fr t b) = cl_leaves t"
  by (induction t arbitrary: b) (simp_all add: Let_def)

section \<open>Cells\<close>

definition rcells :: "rect \<Rightarrow> cell set" where
  "rcells b = {rx b ..< rx b + rw b} \<times> {ry b ..< ry b + rh b}"

definition box :: "rect \<Rightarrow> cell set" where
  "box b = {rx b .. rx b + rw b} \<times> {ry b .. ry b + rh b}"

definition seg_cells :: "divider_segment \<Rightarrow> cell set" where
  "seg_cells s = (case seg_split s of
     WHorizontal \<Rightarrow> {seg_cross s} \<times> {seg_a0 s .. seg_a1 s}
   | WVertical \<Rightarrow> {seg_a0 s .. seg_a1 s} \<times> {seg_cross s})"

definition dcells :: "divider_segment list \<Rightarrow> cell set" where
  "dcells segs = (\<Union>s \<in> set segs. seg_cells s)"

lemma dcells_simps [simp]:
  "dcells [] = {}" "dcells (s # ss) = seg_cells s \<union> dcells ss" "dcells (xs @ ys) = dcells xs \<union> dcells ys"
  by (auto simp: dcells_def)

text \<open>The rectangle stays within the 16-bit range.\<close>

definition fits :: "rect \<Rightarrow> bool" where
  "fits b \<longleftrightarrow> rx b + rw b \<le> 65535 \<and> ry b + rh b \<le> 65535"

lemma cut_le:
  "cut fr WHorizontal r t u b \<le> rw b - 1" "cut fr WVertical r t u b \<le> rh b - 1"
  by (simp_all add: cut_def split_dim_le freeze_split_dim_le)

lemma add16_exact: "a + b \<le> 65535 \<Longrightarrow> add16 a b = a + b"
  by (simp add: add16_def)

lemma high_part_exact:
  assumes "fits b" and "k \<le> (case d of WHorizontal \<Rightarrow> rw b - 1 | WVertical \<Rightarrow> rh b - 1)"
  shows "high_part d k b = (case d of
     WHorizontal \<Rightarrow> \<lparr>rx = (if 1 \<le> rw b then rx b + k + 1 else rx b), ry = ry b, rw = rw b - 1 - k, rh = rh b\<rparr>
   | WVertical \<Rightarrow> \<lparr>rx = rx b, ry = (if 1 \<le> rh b then ry b + k + 1 else ry b), rw = rw b, rh = rh b - 1 - k\<rparr>)"
  using assms by (cases d) (auto simp: high_part_def fits_def add16_exact)

lemma own_segment_exact:
  assumes "fits b" and "k \<le> (case d of WHorizontal \<Rightarrow> rw b - 1 | WVertical \<Rightarrow> rh b - 1)"
  shows "own_segment d k b path = (case d of
     WHorizontal \<Rightarrow> (if 1 \<le> rw b then [\<lparr>seg_split = WHorizontal, seg_a0 = ry b,
         seg_a1 = ry b + (rh b - 1), seg_cross = rx b + k, seg_path = path\<rparr>] else [])
   | WVertical \<Rightarrow> (if 1 \<le> rh b then [\<lparr>seg_split = WVertical, seg_a0 = rx b,
         seg_a1 = rx b + (rw b - 1), seg_cross = ry b + k, seg_path = path\<rparr>] else []))"
  using assms by (cases d) (auto simp: own_segment_def fits_def add16_exact)

text \<open>Where a cut puts the two parts and the divider line.\<close>

lemma parts:
  assumes "fits b" and "k \<le> (case d of WHorizontal \<Rightarrow> rw b - 1 | WVertical \<Rightarrow> rh b - 1)"
  shows "fits (low_part d k b)" and "fits (high_part d k b)"
    and "rcells (low_part d k b) \<subseteq> rcells b" and "rcells (high_part d k b) \<subseteq> rcells b"
    and "rcells (low_part d k b) \<inter> rcells (high_part d k b) = {}"
    and "box (low_part d k b) \<subseteq> box b" and "box (high_part d k b) \<subseteq> box b"
    and "dcells (own_segment d k b path) \<subseteq> box b"
    and "box (low_part d k b) \<inter> rcells (high_part d k b) = {}"
    and "box (high_part d k b) \<inter> rcells (low_part d k b) = {}"
    and "dcells (own_segment d k b path) \<inter> rcells (low_part d k b) = {}"
    and "dcells (own_segment d k b path) \<inter> rcells (high_part d k b) = {}"
    and "rcells b \<subseteq> dcells (own_segment d k b path) \<union> rcells (low_part d k b) \<union> rcells (high_part d k b)"
  using assms high_part_exact [OF assms] own_segment_exact [OF assms]
  by (cases d; auto simp: fits_def low_part_def rcells_def box_def seg_cells_def; fail)+

lemma cut_le_dir: "cut fr d r t u b \<le> (case d of WHorizontal \<Rightarrow> rw b - 1 | WVertical \<Rightarrow> rh b - 1)"
  by (cases d) (simp_all only: wire_split_dir.case cut_le)

lemma walk_inside:
  "fits b \<Longrightarrow> (p, q) \<in> set (walk_rects fr t b) \<Longrightarrow> rcells q \<subseteq> rcells b \<and> fits q"
proof (induction t arbitrary: b)
  case (WSplit d r left right)
  note P = parts [OF WSplit.prems(1) cut_le_dir [of fr d r left right b]]
  from WSplit.prems(2) consider "(p, q) \<in> set (walk_rects fr left (low_part d (cut fr d r left right b) b))"
    | "(p, q) \<in> set (walk_rects fr right (high_part d (cut fr d r left right b) b))" by (auto simp: Let_def)
  then show ?case
  proof cases
    case 1
    from WSplit.IH(1) [OF P(1) 1] P(3) show ?thesis by blast
  next
    case 2
    from WSplit.IH(2) [OF P(2) 2] P(4) show ?thesis by blast
  qed
qed simp

lemma walk_disjoint:
  "fits b \<Longrightarrow> sorted_wrt (\<lambda>u v. rcells (snd u) \<inter> rcells (snd v) = {}) (walk_rects fr t b)"
proof (induction t arbitrary: b)
  case (WSplit d r left right)
  note P = parts [OF WSplit.prems(1) cut_le_dir [of fr d r left right b]]
  have "rcells (snd u) \<inter> rcells (snd v) = {}"
    if "u \<in> set (walk_rects fr left (low_part d (cut fr d r left right b) b))"
      and "v \<in> set (walk_rects fr right (high_part d (cut fr d r left right b) b))" for u v
  proof -
    have "rcells (snd u) \<subseteq> rcells (low_part d (cut fr d r left right b) b)"
      using walk_inside [OF P(1), of "fst u" "snd u" fr left] that(1) by simp
    moreover have "rcells (snd v) \<subseteq> rcells (high_part d (cut fr d r left right b) b)"
      using walk_inside [OF P(2), of "fst v" "snd v" fr right] that(2) by simp
    ultimately show ?thesis using P(5) by blast
  qed
  with WSplit.IH P(1,2) show ?case by (simp add: Let_def sorted_wrt_append)
qed simp

lemma walk_dividers_box: "fits b \<Longrightarrow> dcells (walk_segs fr t b path) \<subseteq> box b"
proof (induction t arbitrary: b path)
  case (WSplit d r left right)
  let ?k = "cut fr d r left right b"
  note P = parts [OF WSplit.prems(1) cut_le_dir [of fr d r left right b]]
  have "dcells (walk_segs fr left (low_part d ?k b) (path @ [StepLeft])) \<subseteq> box b"
    using WSplit.IH(1) [OF P(1)] P(6) by (rule order_trans)
  moreover have "dcells (walk_segs fr right (high_part d ?k b) (path @ [StepRight])) \<subseteq> box b"
    using WSplit.IH(2) [OF P(2)] P(7) by (rule order_trans)
  ultimately show ?case using P(8) by (simp add: Let_def)
qed simp

lemma walk_dividers_free:
  "fits b \<Longrightarrow> (p, q) \<in> set (walk_rects fr t b) \<Longrightarrow> dcells (walk_segs fr t b path) \<inter> rcells q = {}"
proof (induction t arbitrary: b path)
  case (WSplit d r left right)
  let ?k = "cut fr d r left right b"
  let ?o = "dcells (own_segment d ?k b path)"
  let ?l = "dcells (walk_segs fr left (low_part d ?k b) (path @ [StepLeft]))"
  let ?r = "dcells (walk_segs fr right (high_part d ?k b) (path @ [StepRight]))"
  note P = parts [OF WSplit.prems(1) cut_le_dir [of fr d r left right b]]
  have box: "?l \<subseteq> box (low_part d ?k b)" "?r \<subseteq> box (high_part d ?k b)"
    by (rule walk_dividers_box [OF P(1)], rule walk_dividers_box [OF P(2)])
  have "?o \<inter> rcells q = {} \<and> ?l \<inter> rcells q = {} \<and> ?r \<inter> rcells q = {}"
  proof -
    from WSplit.prems(2) consider "(p, q) \<in> set (walk_rects fr left (low_part d ?k b))"
      | "(p, q) \<in> set (walk_rects fr right (high_part d ?k b))" by (auto simp: Let_def)
    then show ?thesis
    proof cases
      case 1
      from walk_inside [OF P(1) this] have "rcells q \<subseteq> rcells (low_part d ?k b)" ..
      with WSplit.IH(1) [OF P(1) 1] box(2) P(10) P(11) [of path] show ?thesis by blast
    next
      case 2
      from walk_inside [OF P(2) this] have "rcells q \<subseteq> rcells (high_part d ?k b)" ..
      with WSplit.IH(2) [OF P(2) 2] box(1) P(9) P(12) [of path] show ?thesis by blast
    qed
  qed
  then show ?case by (simp add: Let_def Int_Un_distrib2)
qed simp

lemma walk_covers:
  "fits b \<Longrightarrow> rcells b \<subseteq> dcells (walk_segs fr t b path) \<union> \<Union> (rcells ` snd ` set (walk_rects fr t b))"
proof (induction t arbitrary: b path)
  case (WSplit d r left right)
  let ?k = "cut fr d r left right b"
  note P = parts [OF WSplit.prems(1) cut_le_dir [of fr d r left right b]]
  note 1 = WSplit.IH(1) [OF P(1), of "path @ [StepLeft]"] and 2 = WSplit.IH(2) [OF P(2), of "path @ [StepRight]"]
  show ?case
  proof
    fix c
    assume "c \<in> rcells b"
    with P(13) [of path] consider "c \<in> dcells (own_segment d ?k b path)"
      | "c \<in> rcells (low_part d ?k b)" | "c \<in> rcells (high_part d ?k b)" by blast
    then show "c \<in> dcells (walk_segs fr (WSplit d r left right) b path)
        \<union> \<Union> (rcells ` snd ` set (walk_rects fr (WSplit d r left right) b))"
    proof cases
      case 1
      then show ?thesis by (simp add: Let_def)
    next
      case 2
      with 1 show ?thesis by (auto simp: Let_def)
    next
      case 3
      with 2 show ?thesis by (auto simp: Let_def)
    qed
  qed
qed simp

end
