(* ===== verification/Multi_Pane_Props.thy ===== *)
theory Multi_Pane_Props
  imports Multi_Pane_Tiling
begin

text \<open>
  The divider grid, minimum sizes, drag spans and mouse routing over the tiling of
  \<open>Multi_Pane_Tiling\<close>, and the properties of the pane geometry.
\<close>

section \<open>Rectangles by pane\<close>

lemma pane_rects_in_eq: "pane_rects_in t b = map_of (rev (walk_rects True t b))"
  by (simp add: pane_rects_in_def walk_layout_def walk_eq)

lemma walk_segments_eq: "fst (walk_layout t b [] Map.empty) = walk_segs True t b []"
  by (simp add: walk_layout_def walk_eq)

lemma pane_rects_in_Some:
  assumes "distinct (cl_leaves t)"
  shows "pane_rects_in t b p = Some r \<longleftrightarrow> (p, r) \<in> set (walk_rects True t b)"
proof -
  have "distinct (map fst (rev (walk_rects True t b)))"
    using assms by (simp add: walk_rects_panes flip: rev_map)
  then show ?thesis by (simp add: pane_rects_in_eq map_of_eq_Some_iff)
qed

lemma pane_rects_in_dom: "dom (pane_rects_in t b) = set (cl_leaves t)"
  by (simp add: pane_rects_in_eq dom_map_of_conv_image_fst flip: walk_rects_panes [of True t b])

lemma sorted_wrt_pair:
  assumes "sorted_wrt P xs" and "x \<in> set xs" and "y \<in> set xs" and "x \<noteq> y"
  shows "P x y \<or> P y x"
  using assms by (induction xs) auto

lemma rect_unique:
  assumes "fits b" and "(p, r) \<in> set (walk_rects True t b)" and "(q, s) \<in> set (walk_rects True t b)"
    and "c \<in> rcells r" and "c \<in> rcells s"
  shows "(p, r) = (q, s)"
proof (rule ccontr)
  assume "(p, r) \<noteq> (q, s)"
  from sorted_wrt_pair [OF walk_disjoint [OF assms(1)] assms(2,3) this] assms(4,5) show False by auto
qed

section \<open>Minimum sizes\<close>

lemma min_dims_pos: "1 \<le> fst (min_dims t)" "1 \<le> snd (min_dims t)"
  by (induction t)
    (auto simp: min_leaf_cols_def min_leaf_rows_def sat_add16_def Let_def split: prod.splits wire_split_dir.splits)

lemma min_dims_parts:
  assumes "fits b" and "rw b < 65535" and "rh b < 65535"
    and "fst (min_dims (WSplit d r left right)) \<le> rw b" and "snd (min_dims (WSplit d r left right)) \<le> rh b"
  shows "let k = cut True d r left right b in
      fst (min_dims left) \<le> rw (low_part d k b) \<and> snd (min_dims left) \<le> rh (low_part d k b)
    \<and> fst (min_dims right) \<le> rw (high_part d k b) \<and> snd (min_dims right) \<le> rh (high_part d k b)"
proof (cases d)
  case WHorizontal
  with assms have "fst (min_dims left) + fst (min_dims right) \<le> rw b - 1"
    by (auto simp: sat_add16_def case_prod_beta)
  from freeze_split_dim_bounds [OF this, of r] assms WHorizontal show ?thesis
    by (simp add: cut_def low_part_def high_part_def case_prod_beta)
next
  case WVertical
  with assms have "snd (min_dims left) + snd (min_dims right) \<le> rh b - 1"
    by (auto simp: sat_add16_def case_prod_beta)
  from freeze_split_dim_bounds [OF this, of r] assms WVertical show ?thesis
    by (simp add: cut_def low_part_def high_part_def case_prod_beta)
qed

lemma part_sizes:
  "rw (low_part d (cut True d r left right b) b) \<le> rw b" "rh (low_part d (cut True d r left right b) b) \<le> rh b"
  "rw (high_part d k b) \<le> rw b" "rh (high_part d k b) \<le> rh b"
  using cut_le [of True r left right b]
  by (cases d; auto simp: low_part_def high_part_def)+

lemma walk_min_size:
  assumes "fits b" and "rw b < 65535" and "rh b < 65535"
    and "fst (min_dims t) \<le> rw b" and "snd (min_dims t) \<le> rh b"
  shows "(\<forall>(p, q) \<in> set (walk_rects True t b). 2 \<le> rw q \<and> 1 \<le> rh q)
    \<and> dcells (walk_segs True t b path) \<subseteq> rcells b"
  using assms
proof (induction t arbitrary: b path)
  case (WLeaf p)
  then show ?case by (simp add: min_leaf_cols_def min_leaf_rows_def)
next
  case (WSplit d r left right)
  let ?k = "cut True d r left right b"
  note P = parts [OF WSplit.prems(1) cut_le_dir [of True d r left right b]]
  note m = min_dims_parts [OF WSplit.prems, unfolded Let_def]
  note s = part_sizes(1,2) [of d r left right b]
  have lo: "rw (low_part d ?k b) < 65535" "rh (low_part d ?k b) < 65535"
    and hi: "rw (high_part d ?k b) < 65535" "rh (high_part d ?k b) < 65535"
    using s WSplit.prems(2,3) part_sizes(3,4) [of d ?k b] by (blast intro: le_less_trans)+
  have own: "dcells (own_segment d ?k b path) \<subseteq> rcells b"
    using own_segment_exact [OF WSplit.prems(1) cut_le_dir [of True d r left right b], of path] WSplit.prems(4,5)
      min_dims_pos [of "WSplit d r left right"] cut_le [of True r left right b]
    by (cases d) (auto simp: seg_cells_def rcells_def)
  from WSplit.IH(1) [OF P(1) lo, of "path @ [StepLeft]"] WSplit.IH(2) [OF P(2) hi, of "path @ [StepRight]"] m
  have "(\<forall>(p, q) \<in> set (walk_rects True left (low_part d ?k b)). 2 \<le> rw q \<and> 1 \<le> rh q)
      \<and> dcells (walk_segs True left (low_part d ?k b) (path @ [StepLeft])) \<subseteq> rcells (low_part d ?k b)"
    "(\<forall>(p, q) \<in> set (walk_rects True right (high_part d ?k b)). 2 \<le> rw q \<and> 1 \<le> rh q)
      \<and> dcells (walk_segs True right (high_part d ?k b) (path @ [StepRight])) \<subseteq> rcells (high_part d ?k b)"
    by blast+
  with own P(3,4) show ?case by (auto simp: Let_def)
qed

section \<open>The divider grid\<close>

text \<open>What a hash map's iteration promises: every key once, in some order.\<close>

definition grid_iter :: "grid_order \<Rightarrow> bool" where
  "grid_iter iter \<longleftrightarrow> (\<forall>g. finite (dom g) \<longrightarrow> distinct (iter g) \<and> set (iter g) = dom g)"

lemma dom_fold_upd: "dom (fold (\<lambda>y g. g(f y \<mapsto> h y g)) ys g) = dom g \<union> f ` set ys"
  by (induction ys arbitrary: g) auto

lemma dom_lay_down:
  "dom (lay_down_segment g seg vp) = dom g \<union> set (hit_cells (segment_hit vp seg))"
proof -
  have v: "dom (lay_down_vertical_line g seg vcols vrows) = dom g \<union>
      (if seg_cross seg < vcols then (\<lambda>y. (seg_cross seg, y)) ` set [seg_a0 seg ..< Suc (min (seg_a1 seg) (vrows - 1))]
       else {})" for vcols vrows
    by (cases "seg_cross seg < vcols")
      (simp_all add: lay_down_vertical_line_def Let_def dom_fold_upd del: upt_Suc)
  have h: "dom (lay_down_horizontal_line g seg vcols vrows) = dom g \<union>
      (if seg_cross seg < vrows then (\<lambda>x. (x, seg_cross seg)) ` set [seg_a0 seg ..< Suc (min (seg_a1 seg) (vcols - 1))]
       else {})" for vcols vrows
    by (cases "seg_cross seg < vrows")
      (simp_all add: lay_down_horizontal_line_def Let_def dom_fold_upd del: upt_Suc)
  show ?thesis
    by (cases vp; cases "seg_split seg")
      (simp_all add: lay_down_segment_def segment_hit_def v h Let_def del: upt_Suc)
qed

definition hit_set :: "divider_segment list \<Rightarrow> nat \<times> nat \<Rightarrow> cell set" where
  "hit_set segs vp = (\<Union>h \<in> set (divider_hits segs vp). set (hit_cells h))"

lemma dom_fold_lay_down:
  "dom (fold (\<lambda>seg g. lay_down_segment g seg vp) segs g) = dom g \<union> hit_set segs vp"
  by (induction segs arbitrary: g) (auto simp: dom_lay_down hit_set_def divider_hits_def)

definition inherit_at :: "cell set \<Rightarrow> cell \<Rightarrow> divider_edges \<Rightarrow> divider_edges" where
  "inherit_at D c e = (let (x, y) = c in
     \<lparr>north = (north e \<or> 0 < y \<and> (x, y - 1) \<in> D), east = (east e \<or> (add16 x 1, y) \<in> D),
      south = (south e \<or> (x, add16 y 1) \<in> D), west = (west e \<or> 0 < x \<and> (x - 1, y) \<in> D)\<rparr>)"

lemma inherit_junctions_at: "inherit_junctions e (around g x y) = inherit_at (dom g) (x, y) e"
  by (cases e) (auto simp: inherit_junctions_def around_def inherit_at_def Let_def dom_def)

lemma inherit_at_idem: "inherit_at D c (inherit_at D c e) = inherit_at D c e"
  by (auto simp: inherit_at_def Let_def split: prod.splits)

lemma inherit_junction_edges_eq:
  "inherit_junction_edges keys g c =
     (if c \<in> set keys then map_option (inherit_at (dom g) c) (g c) else g c)"
proof (induction keys arbitrary: g)
  case Nil
  then show ?case by (simp add: inherit_junction_edges_def)
next
  case (Cons k keys)
  define g' where "g' = (case g k of None \<Rightarrow> g | Some e \<Rightarrow> g(k \<mapsto> inherit_at (dom g) k e))"
  have step: "inherit_junction_edges (k # keys) g = inherit_junction_edges keys g'"
    by (cases k; cases "g k"; simp add: inherit_junction_edges_def g'_def inherit_junctions_at)
  have d: "dom g' = dom g" by (auto simp: g'_def split: option.splits)
  show ?case
  proof (cases "c = k")
    case True
    then show ?thesis unfolding step Cons.IH d
      by (cases "g k") (simp_all add: g'_def inherit_at_idem)
  next
    case False
    then show ?thesis unfolding step Cons.IH d by (auto simp: g'_def split: option.splits)
  qed
qed

lemma rasterize_eq:
  assumes "grid_iter iter"
  defines "G \<equiv> \<lambda>segs vp. fold (\<lambda>seg g. lay_down_segment g seg vp) segs Map.empty"
  shows "set (rasterize iter segs vp) = (\<lambda>(x, y). let e = inherit_at (hit_set segs vp) (x, y) (entry (G segs vp) (x, y))
      in \<lparr>dc_x = x, dc_y = y, dc_ch = pick_box_char (north e) (east e) (south e) (west e)\<rparr>) ` hit_set segs vp"
proof -
  let ?g = "G segs vp"
  have dom: "dom ?g = hit_set segs vp" by (simp add: G_def dom_fold_lay_down)
  have fin: "finite (hit_set segs vp)" by (simp add: hit_set_def)
  with assms(1) dom have it: "set (iter ?g) = hit_set segs vp" by (simp add: grid_iter_def)
  let ?g1 = "inherit_junction_edges (iter ?g) ?g"
  have g1: "?g1 c = map_option (inherit_at (hit_set segs vp) c) (?g c)" for c
    using it dom by (cases "?g c") (auto simp: inherit_junction_edges_eq)
  then have dom1: "dom ?g1 = hit_set segs vp" using dom by (simp add: dom_def)
  with assms(1) fin have it1: "set (iter ?g1) = hit_set segs vp" by (simp add: grid_iter_def)
  have e1: "entry ?g1 c = inherit_at (hit_set segs vp) c (entry ?g c)" if "c \<in> hit_set segs vp" for c
  proof -
    from that dom obtain e where "?g c = Some e" by blast
    with g1 [of c] show ?thesis by (simp add: entry_def)
  qed
  have "rasterize iter segs vp = into_divider_cells (iter ?g1) ?g1"
    by (simp add: rasterize_def Let_def G_def)
  then show ?thesis
    unfolding into_divider_cells_def by (simp only: set_map set_sort it1) (auto intro!: image_cong simp: e1)
qed

lemma rasterize_cells:
  assumes "grid_iter iter"
  shows "(\<lambda>c. (dc_x c, dc_y c)) ` set (rasterize iter segs vp) = hit_set segs vp"
  unfolding rasterize_eq [OF assms] image_image by (simp add: case_prod_beta Let_def)









lemma hit_cells_clip:
  assumes "0 < fst vp" and "0 < snd vp"
  shows "set (hit_cells (segment_hit vp seg)) = seg_cells seg \<inter> {..<fst vp} \<times> {..<snd vp}"
  using assms
  by (cases "seg_split seg")
    (auto simp: segment_hit_def seg_cells_def case_prod_beta Let_def image_iff simp del: upt_Suc)



section \<open>Glyphs\<close>

datatype compass = ToNorth | ToEast | ToSouth | ToWest

fun across :: "compass \<Rightarrow> compass" where
  "across ToNorth = ToSouth"
| "across ToEast = ToWest"
| "across ToSouth = ToNorth"
| "across ToWest = ToEast"





section \<open>Drag spans\<close>

text \<open>The node a path of turns leads to and the rectangle the walk gives it.\<close>

fun node_at :: "wire_layout \<Rightarrow> node_step list \<Rightarrow> wire_layout option" where
  "node_at t [] = Some t"
| "node_at (WLeaf _) (step # rest) = None"
| "node_at (WSplit _ _ left right) (step # rest) =
     (case step of StepLeft \<Rightarrow> node_at left rest | StepRight \<Rightarrow> node_at right rest)"

fun bounds_at :: "wire_layout \<Rightarrow> rect \<Rightarrow> node_step list \<Rightarrow> rect" where
  "bounds_at t b [] = b"
| "bounds_at (WLeaf _) b (step # rest) = b"
| "bounds_at (WSplit d r left right) b (step # rest) =
     (let k = cut True d r left right b
      in case step of
           StepLeft \<Rightarrow> bounds_at left (low_part d k b) rest
         | StepRight \<Rightarrow> bounds_at right (high_part d k b) rest)"

text \<open>Where a rectangle starts along the axis a split divides, and how long it is there.\<close>

fun axis_span :: "wire_split_dir \<Rightarrow> rect \<Rightarrow> nat \<times> nat" where
  "axis_span WHorizontal b = (rx b, rw b)"
| "axis_span WVertical b = (ry b, rh b)"

lemma span_Cons:
  "split_content_span_at (WSplit d r left right) b (step # rest) =
     (let k = cut True d r left right b
      in case step of
           StepLeft \<Rightarrow> split_content_span_at left (low_part d k b) rest
         | StepRight \<Rightarrow> split_content_span_at right (high_part d k b) rest)"
  by (cases d; cases step) (simp_all add: Let_def cut_def low_part_def high_part_def)

lemma span_at:
  "split_content_span_at t b path =
     Option.bind (node_at t path) (\<lambda>u. split_content_span_at u (bounds_at t b path) [])"
proof (induction t arbitrary: b path)
  case (WLeaf p)
  then show ?case by (cases path) auto
next
  case (WSplit dir ratio left right)
  then show ?case by (cases path) (simp_all add: span_Cons Let_def del: split_content_span_at.simps(3) split: node_step.splits)
qed

lemma span_here:
  "split_content_span_at (WSplit d r left right) b [] =
     (if snd (axis_span d b) \<le> 1 then None else Some (fst (axis_span d b), snd (axis_span d b) - 1))"
  by (cases d) (auto simp: Let_def)

lemma node_at_append: "node_at t (p @ q) = Option.bind (node_at t p) (\<lambda>u. node_at u q)"
  by (induction t p rule: node_at.induct) (auto split: node_step.splits)

lemma bounds_at_append:
  "node_at t p = Some u \<Longrightarrow> bounds_at t b (p @ q) = bounds_at u (bounds_at t b p) q"
  by (induction t b p rule: bounds_at.induct) (auto simp: Let_def split: node_step.splits)

lemma node_at_walk:
  assumes "fits b" and "node_at t path = Some u"
  shows "fits (bounds_at t b path) \<and> set (cl_leaves u) \<subseteq> set (cl_leaves t)
    \<and> (distinct (cl_leaves t) \<longrightarrow> distinct (cl_leaves u))
    \<and> set (walk_rects True u (bounds_at t b path)) \<subseteq> set (walk_rects True t b)
    \<and> set (walk_segs True u (bounds_at t b path) (pre @ path)) \<subseteq> set (walk_segs True t b pre)"
  using assms
proof (induction t arbitrary: b path pre)
  case (WLeaf p)
  then show ?case by (cases path) auto
next
  case (WSplit d r left right)
  note P = parts(1,2) [OF WSplit.prems(1) cut_le_dir [of True d r left right b]]
  show ?case
  proof (cases path)
    case Nil
    with WSplit.prems show ?thesis by simp
  next
    case (Cons step rest)
    show ?thesis
    proof (cases step)
      case StepLeft
      with Cons WSplit.prems(2) have "node_at left rest = Some u" by simp
      from WSplit.IH(1) [OF P(1) this, of "pre @ [StepLeft]"] Cons StepLeft show ?thesis by (auto simp: Let_def)
    next
      case StepRight
      with Cons WSplit.prems(2) have "node_at right rest = Some u" by simp
      from WSplit.IH(2) [OF P(2) this, of "pre @ [StepRight]"] Cons StepRight show ?thesis by (auto simp: Let_def)
    qed
  qed
qed

lemma node_at_rects:
  assumes "fits b" and "distinct (cl_leaves t)" and "node_at t path = Some u" and "p \<in> set (cl_leaves u)"
  shows "pane_rects_in t b p = pane_rects_in u (bounds_at t b path) p"
proof -
  note w = node_at_walk [OF assms(1,3)]
  from assms(4) have "p \<in> dom (pane_rects_in u (bounds_at t b path))" by (simp only: pane_rects_in_dom)
  then obtain r where r: "pane_rects_in u (bounds_at t b path) p = Some r" by blast
  with w assms(2) have "(p, r) \<in> set (walk_rects True t b)"
    using pane_rects_in_Some [of u "bounds_at t b path" p r] by blast
  with r show ?thesis by (simp add: pane_rects_in_Some [OF assms(2)])
qed

lemma own_segment_axis:
  assumes "fits b" and "axis_span d b = (start, len)" and "2 \<le> len" and "k \<le> len - 1"
  shows "\<exists>s \<in> set (own_segment d k b path). seg_path s = path \<and> seg_split s = d \<and> seg_cross s = start + k"
    and "axis_span d (low_part d k b) = (start, k)"
    and "axis_span d (high_part d k b) = (start + k + 1, len - 1 - k)"
  using assms by (cases d; auto simp: own_segment_def low_part_def high_part_def fits_def add16_exact)+

section \<open>Properties\<close>

text \<open>
  C17. Exact tiling. For any tree with distinct panes and any content rectangle, however small,
  every pane gets a rectangle inside the content, and every cell of the content is either a
  divider cell outside all panes or lies in the rectangle of exactly one pane.
\<close>

theorem exact_tiling:
  assumes "fits content" and "distinct (cl_leaves t)"
  shows "dom (pane_rects_in t content) = set (cl_leaves t)
    \<and> (\<forall>p r. pane_rects_in t content p = Some r \<longrightarrow> rcells r \<subseteq> rcells content)
    \<and> (\<forall>c \<in> rcells content.
         if c \<in> dcells (fst (walk_layout t content [] Map.empty))
         then \<forall>p r. pane_rects_in t content p = Some r \<longrightarrow> c \<notin> rcells r
         else \<exists>!p. \<exists>r. pane_rects_in t content p = Some r \<and> c \<in> rcells r)"
proof (intro conjI ballI)
  fix c
  assume c: "c \<in> rcells content"
  show "if c \<in> dcells (fst (walk_layout t content [] Map.empty))
         then \<forall>p r. pane_rects_in t content p = Some r \<longrightarrow> c \<notin> rcells r
         else \<exists>!p. \<exists>r. pane_rects_in t content p = Some r \<and> c \<in> rcells r"
  proof (cases "c \<in> dcells (walk_segs True t content [])")
    case True
    then show ?thesis
      using walk_dividers_free [OF assms(1), of _ _ True t "[]"]
      by (auto simp: walk_segments_eq pane_rects_in_Some [OF assms(2)])
  next
    case False
    with c walk_covers [OF assms(1), of True t "[]"] obtain p r where
      "(p, r) \<in> set (walk_rects True t content)" "c \<in> rcells r" by fastforce
    note hit = this
    have "q = p" if "(q, s) \<in> set (walk_rects True t content)" "c \<in> rcells s" for q s
      using rect_unique [OF assms(1) that(1) hit(1) that(2) hit(2)] by simp
    with False hit show ?thesis
      unfolding walk_segments_eq pane_rects_in_Some [OF assms(2)] by auto
  qed
qed (use walk_inside [OF assms(1)] in \<open>auto simp: pane_rects_in_dom pane_rects_in_Some [OF assms(2)]\<close>)

definition example_tree :: wire_layout where
  "example_tree = WSplit WHorizontal f32_half (WLeaf (Local 1))
     (WSplit WVertical f32_half (WLeaf (Local 2)) (WLeaf (Local 3)))"

definition example_content :: rect where
  "example_content = \<lparr>rx = 0, ry = 0, rw = 7, rh = 5\<rparr>"

lemma split_dim_half: "split_dim 6 f32_half = 3" "split_dim 4 f32_half = 2"
  by (simp_all add: split_dim_def f32_of_u16_def f32_half_decode f32_round_nearest_def bits_len.simps)

lemma example_walk: "walk_rects True example_tree example_content =
    [(Local 1, \<lparr>rx = 0, ry = 0, rw = 3, rh = 5\<rparr>), (Local 2, \<lparr>rx = 4, ry = 0, rw = 3, rh = 2\<rparr>),
     (Local 3, \<lparr>rx = 4, ry = 3, rw = 3, rh = 2\<rparr>)]"
  by (simp add: example_tree_def example_content_def cut_def low_part_def high_part_def freeze_split_dim_def
      split_dim_half checked_add16_def clamp_def sat_add16_def min_leaf_cols_def min_leaf_rows_def add16_def)

lemma example_fits: "fits example_content" "distinct (cl_leaves example_tree)"
  by (simp_all add: fits_def example_content_def example_tree_def)

theorem exact_tiling_witness:
  "\<exists>!p. \<exists>r. pane_rects_in example_tree example_content p = Some r \<and> (5, 1) \<in> rcells r"
proof -
  have "(5, 1) \<notin> dcells (fst (walk_layout example_tree example_content [] Map.empty))"
    unfolding walk_segments_eq
    using walk_dividers_free [OF example_fits(1), of "Local 2" "\<lparr>rx = 4, ry = 0, rw = 3, rh = 2\<rparr>" True example_tree "[]"]
    by (auto simp: example_walk rcells_def)
  moreover have "(5, 1) \<in> rcells example_content" by (simp add: rcells_def example_content_def)
  ultimately show ?thesis using exact_tiling [OF example_fits] by (metis (no_types, lifting))
qed

text \<open>
  C18. Minimum sizes. When the content is at least the tree's minimum dimensions, no pane is
  narrower than two columns or flatter than one row, whatever the ratios, and every divider cell
  lies inside the content.
\<close>

theorem panes_keep_minimum:
  assumes "fits content" and "rw content < 65535" and "rh content < 65535"
    and "fst (min_dims t) \<le> rw content" and "snd (min_dims t) \<le> rh content"
    and "distinct (cl_leaves t)"
  shows "(\<forall>p r. pane_rects_in t content p = Some r \<longrightarrow> min_leaf_cols \<le> rw r \<and> min_leaf_rows \<le> rh r)
    \<and> dcells (fst (walk_layout t content [] Map.empty)) \<subseteq> rcells content"
  using walk_min_size [OF assms(1-5), of "[]"]
  by (auto simp: pane_rects_in_Some [OF assms(6)] walk_segments_eq min_leaf_cols_def min_leaf_rows_def)

theorem panes_keep_minimum_witness:
  "min_dims example_tree = (5, 3)
   \<and> dcells (fst (walk_layout example_tree example_content [] Map.empty)) \<subseteq> rcells example_content"
  using panes_keep_minimum [OF example_fits(1) _ _ _ _ example_fits(2)]
  by (simp add: example_tree_def example_content_def min_leaf_cols_def min_leaf_rows_def sat_add16_def)

text \<open>
  C19. The grab map and the picture agree: for any segments and any viewport, a cell belongs to
  some split's grab target exactly when a divider glyph is painted there.
\<close>

theorem hits_are_painted_cells:
  assumes "grid_iter iter"
  shows "(\<Union>h \<in> set (divider_hits segments viewport). set (hit_cells h)) =
    (\<lambda>c. (dc_x c, dc_y c)) ` set (rasterize iter segments viewport)"
  by (simp add: rasterize_cells [OF assms] hit_set_def)

text \<open>A concrete iteration order for finite grids: row-major by coordinates.\<close>

definition sorted_iter :: grid_order where
  "sorted_iter g = sorted_list_of_set (dom g)"

lemma grid_iter_sorted: "grid_iter sorted_iter"
  by (simp add: grid_iter_def sorted_iter_def)

theorem hits_are_painted_cells_witness:
  "(1, 0) \<in> (\<lambda>c. (dc_x c, dc_y c)) ` set (rasterize sorted_iter
     [\<lparr>seg_split = WHorizontal, seg_a0 = 0, seg_a1 = 1, seg_cross = 1, seg_path = []\<rparr>] (3, 2))"
  unfolding hits_are_painted_cells [OF grid_iter_sorted, symmetric]
  by (simp add: divider_hits_def segment_hit_def)



text \<open>
  C21. Mouse routing. A click on any cell of a non-empty content rectangle is delivered,
  whatever order the maps iterate in: to the pane whose rectangle holds the cell, with the
  cell's position relative to that rectangle and the focus change flagged exactly when the pane
  was not focused; otherwise to a split whose divider line passes through the cell. This holds
  whether or not some pane has the focus: with no focused pane a click still reaches the pane under
  it, and the decision is never \<open>NoFocus\<close>.
\<close>

theorem clicks_are_routed:
  assumes "set (order (pane_rects_in t content)) = dom (pane_rects_in t content)"
    and "ls_tree layout = Some t" and "distinct (cl_leaves t)" and "fits content"
    and "rx content + rw content \<le> fst viewport" and "ry content + rh content \<le> snd viewport"
    and "cx = min (clamp_cell mouse_x) (fst viewport - 1)" and "cy = min (clamp_cell mouse_y) (snd viewport - 1)"
    and "(cx, cy) \<in> rcells content"
  shows "case route_mouse_event iter order layout content viewport mouse_x mouse_y of
      RPane p px py changed \<Rightarrow> (\<exists>r. pane_rects_in t content p = Some r \<and> (cx, cy) \<in> rcells r
        \<and> px = cx - rx r \<and> py = cy - ry r \<and> changed = (ls_focus layout \<noteq> Some p))
    | RDivider path axis \<Rightarrow> (\<forall>p r. pane_rects_in t content p = Some r \<longrightarrow> (cx, cy) \<notin> rcells r)
        \<and> (\<exists>s \<in> set (fst (walk_layout t content [] Map.empty)). seg_path s = path \<and> seg_split s = axis
              \<and> (cx, cy) \<in> seg_cells s)
    | _ \<Rightarrow> False"
proof -
  let ?m = "pane_rects_in t content" and ?segs = "walk_segs True t content []"
  let ?in = "\<lambda>p. case ?m p of None \<Rightarrow> False | Some r \<Rightarrow> rect_contains r cx cy"
  from assms(9) have nz: "rw content \<noteq> 0" "rh content \<noteq> 0" by (auto simp: rcells_def)
  have dom: "set (order ?m) = set (cl_leaves t)"
    using assms(1) pane_rects_in_dom [of t content] by simp
  then have ne: "order ?m \<noteq> []" by (metis cl_leaves_nonempty set_empty)
  have walk: "walk_layout t content [] Map.empty = (?segs, ?m)"
    by (simp add: walk_layout_def walk_eq pane_rects_in_eq)
  have contains: "rect_contains r cx cy \<longleftrightarrow> (cx, cy) \<in> rcells r" if "?m p = Some r" for p r
    using walk_inside [OF assms(4), of p r True t] that
    by (auto simp: pane_rects_in_Some [OF assms(3)] rect_contains_def sat_add16_def rcells_def fits_def)
  have route: "route_mouse_event iter order layout content viewport mouse_x mouse_y =
      (case find ?in (order ?m) of
         Some p \<Rightarrow> RPane p (cx - rx (the (?m p))) (cy - ry (the (?m p))) (ls_focus layout \<noteq> Some p)
       | None \<Rightarrow> (case find (\<lambda>h. (cx, cy) \<in> set (hit_cells h)) (divider_hits ?segs viewport) of
             Some h \<Rightarrow> RDivider (hit_path h) (hit_axis h) | None \<Rightarrow> RMiss))"
    unfolding assms(7,8) using assms(2) nz ne walk
    by (simp add: route_mouse_event_def compute_layout_in_def Let_def del: One_nat_def)
  show ?thesis
  proof (cases "find ?in (order ?m)")
    case (Some p)
    then have "?in p" by (auto simp: find_Some_iff)
    then obtain r where "?m p = Some r" "(cx, cy) \<in> rcells r" using contains by (auto split: option.splits)
    with Some route show ?thesis by simp
  next
    case None
    have free: "(cx, cy) \<notin> rcells r" if "?m p = Some r" for p r
    proof -
      have "p \<in> set (order ?m)" using that dom pane_rects_in_dom [of t content] by blast
      with None that have "\<not> rect_contains r cx cy" by (auto simp: find_None_iff)
      with contains [OF that] show ?thesis by simp
    qed
    with assms(9) walk_covers [OF assms(4), of True t "[]"] obtain s where
      s: "s \<in> set ?segs" "(cx, cy) \<in> seg_cells s"
      by (fastforce simp: dcells_def pane_rects_in_Some [OF assms(3)])
    have vp: "0 < fst viewport" "0 < snd viewport" "cx < fst viewport" "cy < snd viewport"
      using assms(5,6,9) by (auto simp: rcells_def)
    with s have "\<exists>h \<in> set (divider_hits ?segs viewport). (cx, cy) \<in> set (hit_cells h)"
      by (auto simp: divider_hits_def hit_cells_clip)
    then obtain h where h: "find (\<lambda>h. (cx, cy) \<in> set (hit_cells h)) (divider_hits ?segs viewport) = Some h"
      by (cases "find (\<lambda>h. (cx, cy) \<in> set (hit_cells h)) (divider_hits ?segs viewport)") (auto simp: find_None_iff)
    then obtain s' where s': "s' \<in> set ?segs" "h = segment_hit viewport s'" "(cx, cy) \<in> set (hit_cells h)"
      using find_Some_iff [of "\<lambda>h. (cx, cy) \<in> set (hit_cells h)" "divider_hits ?segs viewport" h]
      by (metis (no_types, lifting) divider_hits_def image_iff image_set nth_mem)
    then have "(cx, cy) \<in> seg_cells s'" "hit_path h = seg_path s'" "hit_axis h = seg_split s'"
      using hit_cells_clip [OF vp(1,2), of s'] by (auto simp: segment_hit_def case_prod_beta Let_def)
    with None route h s' free walk show ?thesis by auto
  qed
qed

lemma clamp_cell_examples: "clamp_cell 0x4014000000000000 = 5" "clamp_cell 0x3FF0000000000000 = 1"
  by (simp_all add: clamp_cell_def f64_decode_def fin_trunc_def)

theorem clicks_are_routed_witness:
  "\<exists>p px py changed. route_mouse_event sorted_iter (\<lambda>m. filter (\<lambda>p. m p \<noteq> None) [Local 3, Local 2, Local 1])
      \<lparr>ls_tree = Some example_tree, ls_focus = Some (Local 1)\<rparr> example_content (7, 6)
      0x4014000000000000 0x3FF0000000000000 = RPane p px py changed"
proof -
  let ?l = "\<lparr>ls_tree = Some example_tree, ls_focus = Some (Local 1)\<rparr>"
  let ?ord = "\<lambda>m. filter (\<lambda>p. m p \<noteq> None) [Local 3, Local 2, Local 1]"
  let ?m = "pane_rects_in example_tree example_content"
  have m: "?m = map_of (rev (walk_rects True example_tree example_content))"
    by (rule pane_rects_in_eq)
  have ord: "set (?ord ?m) = dom ?m"
    unfolding m example_walk by auto
  have hit: "?m (Local 2) = Some \<lparr>rx = 4, ry = 0, rw = 3, rh = 2\<rparr>"
    unfolding m example_walk by simp
  have bounds: "rx example_content + rw example_content \<le> fst (7, 6 :: nat)"
    "ry example_content + rh example_content \<le> snd (7 :: nat, 6)"
    "5 = min (clamp_cell 0x4014000000000000) (fst (7, 6 :: nat) - 1)"
    "1 = min (clamp_cell 0x3FF0000000000000) (snd (7 :: nat, 6) - 1)" "(5, 1) \<in> rcells example_content"
    by (simp_all add: clamp_cell_examples example_content_def rcells_def)
  have tree: "ls_tree ?l = Some example_tree" by simp
  note r = clicks_are_routed [where iter = sorted_iter and order = ?ord, OF ord tree example_fits(2,1) bounds]
  have "(5, 1) \<in> rcells \<lparr>rx = 4, ry = 0, rw = 3, rh = 2\<rparr>" by (simp add: rcells_def)
  with hit r show ?thesis
    by (cases "route_mouse_event sorted_iter ?ord ?l example_content (7, 6) 0x4014000000000000 0x3FF0000000000000")
      (simp_all only: route_decision.case, blast+)
qed

text \<open>
  C22. Drag geometry and picture agree. There is a span to drag in exactly for the path of a split
  whose rectangle is at least two cells long along the split's axis, and the span is that rectangle's
  extent less the one cell of the divider. The rectangle is the one the picture uses: the panes below
  the split are laid out in it, the split's own painted line has the dragged path and splits the span
  into the extents of the two children, and the second child starts one cell after the line.
\<close>

theorem drag_span_holds_divider:
  assumes "fits content" and "distinct (cl_leaves t)"
  shows "case node_at t path of
      Some (WSplit dir ratio left right) \<Rightarrow>
        (let b = bounds_at t content path; (start, len) = axis_span dir b
         in (\<forall>p \<in> set (cl_leaves (WSplit dir ratio left right)).
               pane_rects_in t content p = pane_rects_in (WSplit dir ratio left right) b p)
            \<and> (if len \<le> 1 then split_content_span_at t content path = None
               else split_content_span_at t content path = Some (start, len - 1)
                 \<and> (\<exists>s \<in> set (fst (walk_layout t content [] Map.empty)). seg_path s = path \<and> seg_split s = dir
                      \<and> start \<le> seg_cross s \<and> seg_cross s - start \<le> len - 1
                      \<and> axis_span dir (bounds_at t content (path @ [StepLeft])) = (start, seg_cross s - start)
                      \<and> axis_span dir (bounds_at t content (path @ [StepRight])) =
                          (seg_cross s + 1, len - 1 - (seg_cross s - start)))))
    | _ \<Rightarrow> split_content_span_at t content path = None"
proof (cases "\<exists>dir ratio left right. node_at t path = Some (WSplit dir ratio left right)")
  case False
  then show ?thesis using span_at [of t content path] by (auto split: option.splits wire_layout.splits)
next
  case True
  then obtain dir ratio left right where n: "node_at t path = Some (WSplit dir ratio left right)" by blast
  let ?u = "WSplit dir ratio left right" and ?b = "bounds_at t content path"
  obtain start len where ax: "axis_span dir ?b = (start, len)" by fastforce
  note w = node_at_walk [OF assms(1) n, of "[]"]
  note rects = node_at_rects [OF assms n]
  let ?k = "cut True dir ratio left right ?b"
  have seg: "\<exists>s \<in> set (fst (walk_layout t content [] Map.empty)). seg_path s = path \<and> seg_split s = dir
      \<and> seg_cross s = start + ?k \<and> ?k \<le> len - 1
      \<and> axis_span dir (bounds_at t content (path @ [StepLeft])) = (start, ?k)
      \<and> axis_span dir (bounds_at t content (path @ [StepRight])) = (start + ?k + 1, len - 1 - ?k)" if "2 \<le> len"
  proof -
    have k: "?k \<le> len - 1" using cut_le_dir [of True dir ratio left right ?b] ax by (cases dir) auto
    have "set (own_segment dir ?k ?b path) \<subseteq> set (walk_segs True t content [])"
      using w by (auto simp: Let_def)
    with own_segment_axis [OF conjunct1 [OF w] ax that k] k n show ?thesis
      by (auto simp: walk_segments_eq bounds_at_append [OF n] Let_def)
  qed
  have span: "split_content_span_at t content path = (if len \<le> 1 then None else Some (start, len - 1))"
    using span_at [of t content path] n ax by (simp add: span_here del: split_content_span_at.simps)
  show ?thesis
  proof (cases "len \<le> 1")
    case True
    with n ax rects span show ?thesis by (simp add: Let_def)
  next
    case False
    with seg obtain s where "s \<in> set (fst (walk_layout t content [] Map.empty))" "seg_path s = path"
      "seg_split s = dir" "seg_cross s = start + ?k" "?k \<le> len - 1"
      "axis_span dir (bounds_at t content (path @ [StepLeft])) = (start, ?k)"
      "axis_span dir (bounds_at t content (path @ [StepRight])) = (start + ?k + 1, len - 1 - ?k)" by auto
    with False n ax rects span show ?thesis by (auto simp: Let_def)
  qed
qed

theorem drag_span_holds_divider_witness:
  "split_content_span_at example_tree example_content [StepRight] = Some (0, 4)
    \<and> (\<exists>s \<in> set (fst (walk_layout example_tree example_content [] Map.empty)). seg_path s = [StepRight] \<and> seg_cross s \<le> 4)"
proof -
  have n: "node_at example_tree [StepRight] = Some (WSplit WVertical f32_half (WLeaf (Local 2)) (WLeaf (Local 3)))"
    by (simp add: example_tree_def)
  have "axis_span WVertical (bounds_at example_tree example_content [StepRight]) = (0, 5)"
    by (simp add: example_tree_def example_content_def high_part_def Let_def)
  with drag_span_holds_divider [OF example_fits, of "[StepRight]"] n show ?thesis by (auto simp: Let_def)
qed

section \<open>Degenerate content\<close>

text \<open>
  C23. A divider cell outside its content. Take any content one row high and any tree that is split
  top and bottom with its bottom half split side by side, whatever the ratios and the other subtrees.
  The bottom half has no rows, yet its split still emits a one-cell line, which lands on the row below
  the content and is painted there when the viewport has that row.
\<close>

theorem flat_split_paints_outside:
  assumes "grid_iter iter" and "fits content" and "rh content = 1" and "1 \<le> rw content"
    and "rx content + rw content \<le> fst viewport" and "ry content + 1 < snd viewport"
    and "ls_tree layout = Some (WSplit WVertical r upper (WSplit WHorizontal r' low high))"
  shows "\<exists>x. rx content \<le> x \<and> x < rx content + rw content \<and> (x, ry content + 1) \<notin> rcells content
    \<and> (x, ry content + 1) \<in> (\<lambda>c. (dc_x c, dc_y c)) ` set (pl_dividers (compute_layout_in iter layout content viewport))"
proof -
  let ?t = "WSplit WVertical r upper (WSplit WHorizontal r' low high)" and ?segs = "\<lambda>t. walk_segs True t content []"
  define b where "b = high_part WVertical 0 content"
  define k where "k = cut True WHorizontal r' low high b"
  have cut0: "cut True WVertical r upper (WSplit WHorizontal r' low high) content = 0"
    using cut_le(2) [of True r upper "WSplit WHorizontal r' low high" content] assms(3) by simp
  have b: "rx b = rx content" "ry b = ry content + 1" "rw b = rw content" "rh b = 0"
    using assms(2,3) by (simp_all add: b_def high_part_def add16_exact fits_def)
  have k: "k \<le> rw content - 1" using cut_le(1) [of True r' low high b] b by (simp add: k_def)
  let ?s = "\<lparr>seg_split = WHorizontal, seg_a0 = ry content + 1, seg_a1 = ry content + 1,
     seg_cross = rx content + k, seg_path = [StepRight]\<rparr>"
  have "add16 (rx content) k = rx content + k" by (rule add16_exact) (use k assms(2,4) in \<open>auto simp: fits_def\<close>)
  then have "own_segment WHorizontal k b [StepRight] = [?s]"
    using b assms(2-4) by (simp add: own_segment_def add16_exact fits_def)
  then have s: "?s \<in> set (?segs ?t)"
    by (simp add: cut0 Let_def flip: b_def k_def)
  have "(rx content + k, ry content + 1) \<in> set (hit_cells (segment_hit viewport ?s))"
    using k assms(4-6) by (subst hit_cells_clip) (auto simp: seg_cells_def)
  with s have "(rx content + k, ry content + 1) \<in> hit_set (?segs ?t) viewport"
    by (auto simp: hit_set_def divider_hits_def)
  moreover have "pl_dividers (compute_layout_in iter layout content viewport) = rasterize iter (?segs ?t) viewport"
    using assms(3,4,7) by (simp add: compute_layout_in_def walk_layout_def walk_eq)
  ultimately have "(rx content + k, ry content + 1) \<in>
      (\<lambda>c. (dc_x c, dc_y c)) ` set (pl_dividers (compute_layout_in iter layout content viewport))"
    by (simp only: rasterize_cells [OF assms(1)])
  moreover have "(rx content + k, ry content + 1) \<notin> rcells content" using assms(3) by (simp add: rcells_def)
  ultimately show ?thesis using k assms(4) by (intro exI [of _ "rx content + k"]) auto
qed

theorem flat_split_paints_outside_witness:
  "\<exists>x. (x, 1) \<in> (\<lambda>c. (dc_x c, dc_y c)) ` set (pl_dividers (compute_layout_in sorted_iter
      \<lparr>ls_tree = Some (WSplit WVertical f32_half (WLeaf (Local 1))
         (WSplit WHorizontal f32_half (WLeaf (Local 2)) (WLeaf (Local 3)))), ls_focus = None\<rparr>
      \<lparr>rx = 0, ry = 0, rw = 3, rh = 1\<rparr> (3, 2)))"
  using flat_split_paints_outside [OF grid_iter_sorted, of "\<lparr>rx = 0, ry = 0, rw = 3, rh = 1\<rparr>" "(3, 2)"
      "\<lparr>ls_tree = Some (WSplit WVertical f32_half (WLeaf (Local 1))
         (WSplit WHorizontal f32_half (WLeaf (Local 2)) (WLeaf (Local 3)))), ls_focus = None\<rparr>"]
  by (auto simp: fits_def)

end
