(* ===== verification/Wire_Codec_Round.thy ===== *)
theory Wire_Codec_Round
  imports Wire_Codec
begin

text \<open>
  The codecs of \<open>wire/frame/codec.rs\<close>: every decoder stays inside its input, and reads back
  exactly the bytes its encoder wrote for a well-formed value.
\<close>

section \<open>Bounds\<close>

lemma bounded_codecs [inv_intros]:
  "bounded decode_engine_codec" "bounded decode_bootstrap_codec" "bounded decode_bootstrap_profile"
  "bounded decode_stream_id" "bounded decode_bootstrap_id"
  "bounded decode_optional_str" "bounded decode_optional_u16" "bounded decode_optional_u32"
  "bounded decode_string_list" "bounded decode_optional_string_list" "bounded decode_env"
  unfolding decode_engine_codec_def decode_bootstrap_codec_def decode_bootstrap_profile_def
    decode_stream_id_def decode_bootstrap_id_def decode_optional_str_def decode_optional_u16_def
    decode_optional_u32_def decode_string_list_def decode_optional_string_list_def decode_env_def Let_def
  by (intro inv_intros)+

lemma bounded_payloads [inv_intros]:
  "bounded decode_attach_target" "bounded decode_viewport_info" "bounded decode_key_event"
  "bounded decode_mouse_event" "bounded decode_paste_event"
  unfolding decode_attach_target_def decode_viewport_info_def decode_key_event_def
    decode_mouse_event_def decode_paste_event_def
  by (intro inv_intros)+

lemma bounded_terminal_id [inv_intros]: "bounded decode_terminal_id"
  unfolding decode_terminal_id_def by (intro inv_intros)

lemma bounded_results [inv_intros]:
  "bounded decode_scope" "bounded decode_server_instance" "bounded decode_spawn_error"
  "bounded decode_move_result"
  unfolding decode_scope_def decode_server_instance_def decode_spawn_error_def decode_move_result_def
  by (intro inv_intros)+

lemma bounded_spawn_result [inv_intros]: "bounded decode_spawn_result"
  unfolding decode_spawn_result_def by (intro inv_intros)

section \<open>Discriminants\<close>

lemma input_tags [simp]:
  "key_action_from_u32 (key_action_to_u32 a) = Some a"
  "physical_key_u32 k \<le> 175 \<Longrightarrow> physical_key_try_from (physical_key_u32 k) = Some k"
  "mouse_action_try_from (mouse_action_to_u32 m) = Some m"
  "mouse_button_try_from (mouse_button_to_u32 b) = Some b"
  "decode_focus_event (encode_focus_event f) = Ok f"
  by (simp_all add: key_action_from_u32_def key_action_to_u32_def physical_key_try_from_def
      mouse_action_try_from_def mouse_action_to_u32_def mouse_button_try_from_def mouse_button_to_u32_def
      decode_focus_event_def encode_focus_event_def split: key_action.splits mouse_action.splits
      mouse_button.splits focus_event.splits)

lemma feature_mask [simp]: "engine_feature_set_from_wire f = f \<Longrightarrow> engine_feature_set_as_wire f = f"
  by (simp add: engine_feature_set_from_wire_def engine_feature_set_as_wire_def)

lemma nonempty_writes [simp]:
  "write_u8 b \<noteq> []" "write_u16_be h \<noteq> []" "write_u32_be w \<noteq> []" "write_u64_be q \<noteq> []" "write_str s \<noteq> []"
  "encode_terminal_id rid \<noteq> []"
proof -
  have "length (write_str s) > 0" "length (write_u16_be h) > 0" "length (write_u32_be w) > 0" "length (write_u64_be q) > 0"
    by (simp_all add: write_str_def write_u16_be_def write_u32_be_def write_u64_be_def)
  then show "write_u16_be h \<noteq> []" "write_u32_be w \<noteq> []" "write_u64_be q \<noteq> []" "write_str s \<noteq> []" by auto
  show "write_u8 b \<noteq> []" by (simp add: write_u8_def)
  then show "encode_terminal_id rid \<noteq> []" by (cases rid) (simp_all add: encode_terminal_id_def write_u8_def)
qed

section \<open>Round trips\<close>

lemma reads_engine_codec: "reads decode_engine_codec (write_u8 (engine_codec_as_wire c)) c"
  unfolding decode_engine_codec_def by (auto intro!: reads_intros)

lemmas engine_codec_steps [reads_intros] =
  reads_bind [OF reads_engine_codec] reads_map [OF reads_engine_codec] reads_engine_codec

lemma reads_bootstrap_codec: "reads decode_bootstrap_codec (encode_bootstrap_codec c) c"
  unfolding decode_bootstrap_codec_def encode_bootstrap_codec_def by (cases c) (auto intro!: reads_intros)

lemma reads_bootstrap_profile:
  "wf_profile p \<Longrightarrow> reads decode_bootstrap_profile (encode_bootstrap_profile p) p"
  unfolding decode_bootstrap_profile_def encode_bootstrap_profile_def Let_def
  by (cases p) (auto simp: wf_profile_def intro!: reads_intros)

lemma reads_stream_id: "s = StreamId n \<Longrightarrow> wf_stream_id s \<Longrightarrow> reads decode_stream_id (write_u64_be n) s"
  unfolding decode_stream_id_def by (auto simp: wf_stream_id_def stream_id_new_def intro!: reads_intros)

lemma reads_bootstrap_id: "b = BootstrapId n \<Longrightarrow> wf_bootstrap_id b \<Longrightarrow> reads decode_bootstrap_id (write_u64_be n) b"
  unfolding decode_bootstrap_id_def by (auto simp: wf_bootstrap_id_def bootstrap_id_new_def intro!: reads_intros)

lemma reads_optional_str: "wf_str_opt s \<Longrightarrow> reads decode_optional_str (encode_optional_str s) s"
  unfolding decode_optional_str_def encode_optional_str_def by (auto simp: wf_str_opt_def intro!: reads_intros)

lemma reads_optional_u16: "reads decode_optional_u16 (encode_optional_u16 s) s"
  unfolding decode_optional_u16_def encode_optional_u16_def by (auto intro!: reads_intros)

lemma reads_optional_u32: "reads decode_optional_u32 (encode_optional_u32 s) s"
  unfolding decode_optional_u32_def encode_optional_u32_def by (auto intro!: reads_intros)

lemmas optional_str_steps [reads_intros] =
  reads_bind [OF reads_optional_str] reads_map [OF reads_optional_str] reads_optional_str
lemmas optional_u16_steps [reads_intros] =
  reads_bind [OF reads_optional_u16] reads_map [OF reads_optional_u16] reads_optional_u16
lemmas optional_u32_steps [reads_intros] =
  reads_bind [OF reads_optional_u32] reads_map [OF reads_optional_u32] reads_optional_u32

lemma reads_string_list: "list_all utf8_valid ss \<Longrightarrow> reads decode_string_list (encode_string_list ss) ss"
  unfolding decode_string_list_def encode_string_list_def by (auto simp: list_all_iff intro!: reads_intros)

lemmas string_list_steps [reads_intros] =
  reads_bind [OF reads_string_list] reads_map [OF reads_string_list] reads_string_list

lemma reads_optional_string_list:
  "(case ss of None \<Rightarrow> True | Some l \<Rightarrow> list_all utf8_valid l) \<Longrightarrow>
   reads decode_optional_string_list (encode_optional_string_list ss) ss"
  unfolding decode_optional_string_list_def encode_optional_string_list_def by (auto intro!: reads_intros)

lemmas optional_string_list_steps [reads_intros] =
  reads_bind [OF reads_optional_string_list] reads_map [OF reads_optional_string_list] reads_optional_string_list

lemma reads_env: "list_all (\<lambda>(k, v). utf8_valid k \<and> utf8_valid v) kvs \<Longrightarrow> reads decode_env (encode_env kvs) kvs"
  unfolding decode_env_def encode_env_def
  by (rule reads_list32) (auto simp: list_all_iff intro!: reads_intros)

lemma reads_attach_target: "wf_attach_target t \<Longrightarrow> reads decode_attach_target (encode_attach_target t) t"
  unfolding decode_attach_target_def encode_attach_target_def
  by (cases t) (auto simp: wf_attach_target_def split: wire_session_id.splits intro!: reads_intros)

lemma reads_viewport_info: "reads decode_viewport_info (encode_viewport_info v) v"
  unfolding decode_viewport_info_def encode_viewport_info_def by (cases v) (auto intro!: reads_intros)

lemma reads_key_event: "wf_key_event e \<Longrightarrow> reads decode_key_event (encode_key_event e) e"
  unfolding decode_key_event_def encode_key_event_def
  by (cases e) (auto simp: wf_key_event_def wf_mods_def intro!: reads_intros)

lemma reads_mouse_event: "wf_mods (mouse_mods e) \<Longrightarrow> reads decode_mouse_event (encode_mouse_event e) e"
  unfolding decode_mouse_event_def encode_mouse_event_def
  by (cases e) (auto simp: wf_mods_def intro!: reads_intros)

lemma reads_paste_event: "reads decode_paste_event (encode_paste_event e) e"
  unfolding decode_paste_event_def encode_paste_event_def
  by (cases e; cases "paste_trust_f e") (auto intro!: reads_intros)

lemma reads_terminal_id: "wf_rid rid \<Longrightarrow> reads decode_terminal_id (encode_terminal_id rid) rid"
  unfolding decode_terminal_id_def encode_terminal_id_def
  by (cases rid) (auto simp: wf_rid_def intro!: reads_intros)

lemmas terminal_id_steps [reads_intros] =
  reads_bind [OF reads_terminal_id] reads_map [OF reads_terminal_id] reads_terminal_id

lemma reads_scope: "wf_scope s \<Longrightarrow> reads decode_scope (encode_scope s) s"
  unfolding decode_scope_def encode_scope_def
  by (cases s) (auto simp: wf_scope_def split: group_id.splits intro!: reads_intros)

lemma reads_server_instance:
  "length (instance_bytes i) = 16 \<Longrightarrow> reads decode_server_instance (encode_server_instance i) i"
  using reads_map [OF reads_n [of "instance_bytes i" read_u8 write_u8], of "\<lambda>bs. ret_r (ServerInstance bs)" i]
  unfolding decode_server_instance_def encode_server_instance_def by (simp add: reads_u8 reads_ret)

lemma reads_spawn_error: "wf_spawn_error e \<Longrightarrow> reads decode_spawn_error (encode_spawn_error e) e"
  unfolding decode_spawn_error_def encode_spawn_error_def
  by (cases e) (auto simp: wf_spawn_error_def intro!: reads_intros)

lemmas spawn_error_steps [reads_intros] =
  reads_bind [OF reads_spawn_error] reads_map [OF reads_spawn_error] reads_spawn_error

text \<open>The instance of a bound spawn travels in a field of its own.\<close>

lemma reads_spawn_result:
  "wf_spawn_result r \<Longrightarrow> reads decode_spawn_result (encode_spawn_result r)
     (case r of SpawnOkBound rid _ \<Rightarrow> SpawnOk rid | _ \<Rightarrow> r)"
  unfolding decode_spawn_result_def encode_spawn_result_def
  by (cases r) (auto simp: wf_spawn_result_def intro!: reads_intros)

lemma reads_move_result: "wf_move_result r \<Longrightarrow> reads decode_move_result (encode_move_result r) r"
  unfolding decode_move_result_def encode_move_result_def
  by (cases r) (auto simp: wf_move_result_def split: move_error.splits intro!: reads_intros)

end
