(* ===== verification/Wire_Directory.thy ===== *)
theory Wire_Directory
  imports Wire_Codec_Round
begin

text \<open>
  Directory browsing on the wire, \<open>phux-protocol/src/wire/frame/directory.rs\<close>: the request, the
  listing with its cap on the number of entries, and the round trips of both messages.
\<close>

definition max_directory_entries :: nat where
  "max_directory_entries = 1024"

record directory_entry =
  entry_name :: str
  entry_symlink :: bool

record directory_listing =
  listing_path :: str
  listing_parent :: "str option"
  listing_entries :: "directory_entry list"
  listing_truncated :: bool

datatype directory_error_code = DirNotFound | DirPermissionDenied | NotADirectory | DirOther

definition directory_error_as_wire :: "directory_error_code \<Rightarrow> u8" where
  "directory_error_as_wire c = (case c of
     DirNotFound \<Rightarrow> 0 | DirPermissionDenied \<Rightarrow> 1 | NotADirectory \<Rightarrow> 2 | DirOther \<Rightarrow> 3)"

definition directory_error_from_wire :: "u8 \<Rightarrow> directory_error_code" where
  "directory_error_from_wire v =
     (if v = 0 then DirNotFound else if v = 1 then DirPermissionDenied
      else if v = 2 then NotADirectory else DirOther)"

record directory_listing_error =
  dle_path :: str
  dle_code :: directory_error_code
  dle_message :: str

type_synonym directory_listing_result = "directory_listing_error + directory_listing"

section \<open>Encoding\<close>

definition encode_list_directory :: "u32 \<Rightarrow> str \<Rightarrow> str option \<Rightarrow> fields" where
  "encode_list_directory request_id path host =
     [(1, write_u32_be request_id), (2, path)] @ opt_field 3 id host"

definition encode_entry :: "directory_entry \<Rightarrow> bytes" where
  "encode_entry e = write_str (entry_name e) @ write_u8 (if entry_symlink e then 1 else 0)"

definition encode_listing_ok :: "directory_listing \<Rightarrow> fields" where
  "encode_listing_ok l = [(2, listing_path l)] @ opt_field 3 id (listing_parent l)
     @ [(4, write_count32 (length (listing_entries l)) @ write_all encode_entry (listing_entries l))]
     @ (if listing_truncated l then [(5, write_u8 1)] else [])"

definition encode_listing_err :: "directory_listing_error \<Rightarrow> fields" where
  "encode_listing_err e =
     [(2, dle_path e), (6, write_u8 (directory_error_as_wire (dle_code e))), (7, dle_message e)]"

definition encode_directory_listing :: "u32 \<Rightarrow> directory_listing_result \<Rightarrow> fields" where
  "encode_directory_listing request_id result =
     (1, write_u32_be request_id) # (case result of Inr l \<Rightarrow> encode_listing_ok l | Inl e \<Rightarrow> encode_listing_err e)"

section \<open>Decoding\<close>

definition decode_list_directory :: "(u32 \<times> str \<times> str option) reader" where
  "decode_list_directory = message
     (\<lambda>(request_id, path, host) fid v.
        if fid = 1 then put (\<lambda>x. (x, path, host)) (sub_r read_u32_be v)
        else if fid = 2 then put (\<lambda>x. (request_id, x, host)) (from_utf8 v)
        else if fid = 3 then put (\<lambda>x. (request_id, path, Some x)) (from_utf8 v)
        else Ok (request_id, path, host))
     (0, [], None) Ok"

definition decode_entry :: "directory_entry reader" where
  "decode_entry = bind_r read_str (\<lambda>name. bind_r read_u8 (\<lambda>flags.
     ret_r \<lparr>entry_name = name, entry_symlink = (flags AND 1 \<noteq> 0)\<rparr>))"

definition decode_entries :: "directory_entry list reader" where
  "decode_entries = bind_r read_u32_be (\<lambda>count.
     if max_directory_entries < unat count then fail_r DirectoryEntryLimitExceeded
     else read_n decode_entry (unat count))"

record listing_fields =
  lf_request_id :: u32
  lf_path :: str
  lf_parent :: "str option"
  lf_entries :: "directory_entry list"
  lf_truncated :: bool
  lf_error :: "directory_error_code option"
  lf_message :: str

definition listing_fields_default :: listing_fields where
  "listing_fields_default = \<lparr>lf_request_id = 0, lf_path = [], lf_parent = None, lf_entries = [],
     lf_truncated = False, lf_error = None, lf_message = []\<rparr>"

definition listing_absorb :: "listing_fields \<Rightarrow> u32 \<Rightarrow> bytes \<Rightarrow> decode_error + listing_fields" where
  "listing_absorb s fid v =
     (if fid = 1 then put (\<lambda>x. s\<lparr>lf_request_id := x\<rparr>) (sub_r read_u32_be v)
      else if fid = 2 then put (\<lambda>x. s\<lparr>lf_path := x\<rparr>) (from_utf8 v)
      else if fid = 3 then put (\<lambda>x. s\<lparr>lf_parent := Some x\<rparr>) (from_utf8 v)
      else if fid = 4 then put (\<lambda>x. s\<lparr>lf_entries := x\<rparr>) (sub_r decode_entries v)
      else if fid = 5 then put (\<lambda>x. s\<lparr>lf_truncated := (x \<noteq> 0)\<rparr>) (sub_r read_u8 v)
      else if fid = 6 then put (\<lambda>x. s\<lparr>lf_error := Some (directory_error_from_wire x)\<rparr>) (sub_r read_u8 v)
      else if fid = 7 then put (\<lambda>x. s\<lparr>lf_message := x\<rparr>) (from_utf8 v)
      else Ok s)"

definition listing_into_result :: "listing_fields \<Rightarrow> u32 \<times> directory_listing_result" where
  "listing_into_result s = (lf_request_id s,
     case lf_error s of
       Some code \<Rightarrow> Err \<lparr>dle_path = lf_path s, dle_code = code, dle_message = lf_message s\<rparr>
     | None \<Rightarrow> Ok \<lparr>listing_path = lf_path s, listing_parent = lf_parent s,
                  listing_entries = lf_entries s, listing_truncated = lf_truncated s\<rparr>)"

definition decode_directory_listing :: "(u32 \<times> directory_listing_result) reader" where
  "decode_directory_listing =
     message listing_absorb listing_fields_default (\<lambda>s. Ok (listing_into_result s))"

section \<open>Round trips\<close>

definition wf_directory_listing :: "directory_listing_result \<Rightarrow> bool" where
  "wf_directory_listing r = (case r of
     Inr l \<Rightarrow> utf8_valid (listing_path l) \<and> wf_str_opt (listing_parent l)
       \<and> length (listing_entries l) \<le> max_directory_entries
       \<and> list_all (\<lambda>e. utf8_valid (entry_name e)) (listing_entries l)
   | Inl e \<Rightarrow> utf8_valid (dle_path e) \<and> utf8_valid (dle_message e))"

lemma bounded_directory [inv_intros]:
  "bounded decode_list_directory" "bounded decode_directory_listing"
  unfolding decode_list_directory_def decode_directory_listing_def by (intro inv_intros)+

lemma from_utf8_valid [simp]: "utf8_valid s \<Longrightarrow> from_utf8 s = Ok s"
  by (simp add: from_utf8_def)

lemma sub_ints [simp]:
  "sub_r read_u8 (write_u8 a) = Ok a" "sub_r read_u8 [a] = Ok a"
  "sub_r read_u16_be (write_u16_be b) = Ok b"
  "sub_r read_u32_be (write_u32_be w) = Ok w"
  "sub_r read_u64_be (write_u64_be q) = Ok q"
proof -
  show a: "sub_r read_u8 (write_u8 a) = Ok a" by (rule sub_reads [OF reads_u8]) (simp add: write_u8_def)
  then show "sub_r read_u8 [a] = Ok a" by (simp add: write_u8_def)
  show "sub_r read_u16_be (write_u16_be b) = Ok b" by (rule sub_reads [OF reads_u16]) (simp add: write_u16_be_def)
  show "sub_r read_u32_be (write_u32_be w) = Ok w" by (rule sub_reads [OF reads_u32]) (simp add: write_u32_be_def)
  show "sub_r read_u64_be (write_u64_be q) = Ok q" by (rule sub_reads [OF reads_u64]) (simp add: write_u64_be_def)
qed

lemma reads_list_directory:
  assumes "utf8_valid path" "wf_str_opt host"
  shows "reads_msg c p decode_list_directory (encode_list_directory request_id path host) (request_id, path, host)"
  unfolding decode_list_directory_def encode_list_directory_def
  by (rule reads_message) (use assms in \<open>auto simp: wf_str_opt_def split: option.splits\<close>)

lemma reads_entry: "utf8_valid (entry_name e) \<Longrightarrow> reads decode_entry (encode_entry e) e"
  unfolding decode_entry_def encode_entry_def by (cases e) (auto intro!: reads_intros)

lemma reads_entries:
  assumes "length es \<le> max_directory_entries" "list_all (\<lambda>e. utf8_valid (entry_name e)) es"
  shows "reads decode_entries (write_count32 (length es) @ write_all encode_entry es) es"
proof -
  from assms(1) have l: "length es < 2 ^ 32" "unat (of_nat (length es) :: u32) = length es"
    by (simp_all add: max_directory_entries_def unat_of_nat)
  have "reads (read_n decode_entry (length es)) (write_all encode_entry es) es"
    by (rule reads_n) (use assms(2) in \<open>auto simp: list_all_iff intro!: reads_entry\<close>)
  with assms(1) l show ?thesis unfolding decode_entries_def write_count32_def
    by (auto intro!: reads_bind [OF reads_u32])
qed

lemma directory_error_wire [simp]: "directory_error_from_wire (directory_error_as_wire c) = c"
  by (cases c) (simp_all add: directory_error_from_wire_def directory_error_as_wire_def)

lemma reads_directory_listing:
  assumes "wf_directory_listing r"
  shows "reads_msg c p decode_directory_listing (encode_directory_listing request_id r) (request_id, r)"
  unfolding decode_directory_listing_def
proof (rule reads_message, goal_cases)
  case (1 s fid v)
  then show ?case by (auto simp: listing_absorb_def)
next
  case 2
  show ?case
  proof (cases r)
    case (Inl e)
    with assms show ?thesis
      by (cases e) (auto simp: encode_directory_listing_def encode_listing_err_def listing_absorb_def
          listing_fields_default_def listing_into_result_def wf_directory_listing_def)
  next
    case (Inr l)
    let ?es = "listing_entries l"
    have "sub_r decode_entries (write_count32 (length ?es) @ write_all encode_entry ?es) = Ok ?es"
      using 2 Inr assms by (intro sub_reads reads_entries)
        (auto simp: wf_directory_listing_def encode_directory_listing_def encode_listing_ok_def)
    with assms Inr show ?thesis
      by (cases l; cases "listing_parent l") (auto simp: encode_directory_listing_def encode_listing_ok_def listing_absorb_def
          listing_fields_default_def listing_into_result_def wf_directory_listing_def wf_str_opt_def)
  qed
qed

end
