(* ===== verification/Wire_Ssh_Origin.thy ===== *)
theory Wire_Ssh_Origin
  imports Wire_Directory
begin

text \<open>
  The peer address a relay stamps on a connection, the codec half of
  \<open>phux-protocol/src/wire/ssh_origin.rs\<close>. Every decoding failure collapses to \<open>None\<close>.
\<close>

definition write_endpoint :: "socket_addr \<Rightarrow> bytes" where
  "write_endpoint e = write_str (ip_to_string (socket_ip e)) @ write_u16_be (socket_port e)"

definition encode_ssh_origin :: "ssh_origin \<Rightarrow> bytes" where
  "encode_ssh_origin og = write_endpoint (origin_client og)
     @ (case origin_server og of Some server \<Rightarrow> write_u8 1 @ write_endpoint server | None \<Rightarrow> write_u8 0)"

text \<open>The option-valued methods \<open>r.ok()?\<close> as readers: the error they carry is dropped at the end.\<close>

definition read_endpoint :: "socket_addr reader" where
  "read_endpoint = bind_r read_str (\<lambda>s. bind_r (known_or UnexpectedEof (ip_parse s)) (\<lambda>ip.
     bind_r read_u16_be (\<lambda>port. ret_r (socket_addr_new ip port))))"

definition decode_ssh_origin :: "bytes \<Rightarrow> ssh_origin option" where
  "decode_ssh_origin v =
     (case sub_r (bind_r read_endpoint (\<lambda>client. bind_r read_u8 (\<lambda>tag.
        if tag = 0 then ret_r \<lparr>origin_client = client, origin_server = None\<rparr>
        else if tag = 1 then bind_r read_endpoint (\<lambda>server.
          ret_r \<lparr>origin_client = client, origin_server = Some server\<rparr>)
        else fail_r UnexpectedEof))) v
      of Inl _ \<Rightarrow> None | Inr og \<Rightarrow> Some og)"

section \<open>Round trip\<close>

lemma utf8_ascii: "(\<And>b. b \<in> set s \<Longrightarrow> b \<le> 0x7F) \<Longrightarrow> utf8_valid s"
  by (induction s) auto

lemma ipv4_ascii: "b \<in> set (ipv4_display p q r s) \<Longrightarrow> b \<le> 0x7F"
  using to_radix_chars [of 10 b] by (auto simp: ipv4_display_def dot_def)

lemma ipv6_ascii: "b \<in> set (ipv6_display gs) \<Longrightarrow> b \<le> 0x7F"
  unfolding ipv6_display_def
  by (auto simp: Let_def colon_def dest: fmt_subslice_chars ipv4_ascii to_radix_chars [of 16, simplified]
      split: option.splits prod.splits if_splits)

lemma utf8_ip_to_string: "utf8_valid (ip_to_string ip)"
  by (rule utf8_ascii) (auto simp: ip_to_string_def dest: ipv4_ascii ipv6_ascii split: ip_addr.splits)

lemma socket_addr_parts: "wf_socket e \<Longrightarrow> socket_addr_new (socket_ip e) (socket_port e) = e"
  by (auto simp: wf_socket_def socket_addr_new_def socket_ip_def socket_port_def split: socket_addr.splits)

lemma reads_endpoint:
  assumes "wf_socket e"
  shows "reads read_endpoint (write_endpoint e) e"
proof -
  have "wf_ip (socket_ip e)" using assms
    by (auto simp: wf_socket_def wf_ip_def socket_ip_def split: socket_addr.splits)
  with assms show ?thesis unfolding read_endpoint_def write_endpoint_def
    by (auto simp: ip_parse_to_string socket_addr_parts intro!: reads_intros utf8_ip_to_string)
qed

lemmas endpoint_steps [reads_intros] =
  reads_bind [OF reads_endpoint] reads_map [OF reads_endpoint] reads_endpoint

lemma decode_encode_ssh_origin:
  assumes "wf_ssh_origin og" "length (encode_ssh_origin og) \<le> 16777216"
  shows "decode_ssh_origin (encode_ssh_origin og) = Some og"
proof -
  have "reads (bind_r read_endpoint (\<lambda>client. bind_r read_u8 (\<lambda>tag.
        if tag = 0 then ret_r \<lparr>origin_client = client, origin_server = None\<rparr>
        else if tag = 1 then bind_r read_endpoint (\<lambda>server.
          ret_r \<lparr>origin_client = client, origin_server = Some server\<rparr>)
        else fail_r UnexpectedEof))) (encode_ssh_origin og) og"
    using assms(1) unfolding encode_ssh_origin_def
    by (cases og) (auto simp: wf_ssh_origin_def split: option.splits intro!: reads_intros)
  from sub_reads [OF this assms(2)] show ?thesis by (simp add: decode_ssh_origin_def)
qed

end
