(* ===== verification/Wire_Info.thy ===== *)
theory Wire_Info
  imports Wire_Codec_Round
begin

text \<open>
  The server's inventory on the wire, \<open>phux-protocol/src/wire/info.rs\<close> and \<open>wire/listeners.rs\<close>:
  sessions, windows with their layout trees, resources, satellite hosts, and the optional
  trailers a snapshot ends with. A trailer is read only when the body has bytes left, so an
  encoder that writes a later trailer also writes every earlier one, empty or not.
\<close>

section \<open>Inventory types\<close>

datatype resource_kind = KindTerminal | KindAgentSession | KindUnknown u8

definition resource_kind_as_wire :: "resource_kind \<Rightarrow> u8" where
  "resource_kind_as_wire k = (case k of KindTerminal \<Rightarrow> 0 | KindAgentSession \<Rightarrow> 1 | KindUnknown tag \<Rightarrow> tag)"

definition resource_kind_from_wire :: "u8 \<Rightarrow> resource_kind" where
  "resource_kind_from_wire tag = (if tag = 0 then KindTerminal else if tag = 1 then KindAgentSession else KindUnknown tag)"

definition is_terminal :: "resource_kind \<Rightarrow> bool" where
  "is_terminal k \<longleftrightarrow> k = KindTerminal"

record session_info =
  si_id :: wire_session_id
  si_name :: str
  si_active_window :: "wire_window_id option"
  si_created_at :: i64
  si_window_count :: u16
  si_attached_clients :: u16
  si_keep_empty :: bool

record window_info =
  wi_id :: wire_window_id
  wi_session :: wire_session_id
  wi_index :: u16
  wi_name :: str
  wi_active_resource :: "wire_resource_id option"
  wi_layout :: "wire_layout option"

record agent_facet =
  af_provider :: str
  af_native_id :: "str option"
  af_state :: str

record resource_info =
  ri_id :: wire_resource_id
  ri_window :: wire_window_id
  ri_cols :: u16
  ri_rows :: u16
  ri_title :: "str option"
  ri_cwd :: "str option"
  ri_kind :: resource_kind
  ri_parent :: "wire_resource_id option"
  ri_agent :: "agent_facet option"

definition has_resource_facets :: "resource_info \<Rightarrow> bool" where
  "has_resource_facets r \<longleftrightarrow> \<not> is_terminal (ri_kind r) \<or> ri_parent r \<noteq> None \<or> ri_agent r \<noteq> None"

record host_session_info =
  hs_id :: wire_session_id
  hs_name :: str
  hs_created_at :: i64
  hs_window_count :: u16
  hs_pane_count :: u16
  hs_attached_clients :: u16
  hs_active_resource :: "wire_resource_id option"

record host_inventory =
  hi_host :: str
  hi_unreachable :: "str option"
  hi_sessions :: "host_session_info list"

datatype listener_disabled_reason = TokenStoreLoadFailed | TlsSetupFailed | CertProvisionFailed
  | BindFailed | OverlayGateClosed | NoOverlayAddress

datatype remote_listener_transport = Wss | Quic | Wt

record remote_listener_slot =
  slot_transport :: remote_listener_transport
  slot_expected :: bool
  slot_bound :: bool
  slot_addr :: "str option"
  slot_disabled_reason :: "listener_disabled_reason option"

record remote_listeners_report =
  report_schema_version :: u32
  report_listeners :: "remote_listener_slot list"

record snapshot_trail =
  trail_hosts :: "host_inventory list"
  trail_listeners :: "remote_listeners_report option"

record session_snapshot =
  snap_sessions :: "session_info list"
  snap_windows :: "window_info list"
  snap_resources :: "resource_info list"
  snap_focused_session :: wire_session_id
  snap_focused_window :: wire_window_id
  snap_focused_resource :: wire_resource_id
  snap_trail :: "snapshot_trail option"

definition snap_hosts :: "session_snapshot \<Rightarrow> host_inventory list" where
  "snap_hosts s = (case snap_trail s of None \<Rightarrow> [] | Some t \<Rightarrow> trail_hosts t)"

definition snap_listeners :: "session_snapshot \<Rightarrow> remote_listeners_report option" where
  "snap_listeners s = (case snap_trail s of None \<Rightarrow> None | Some t \<Rightarrow> trail_listeners t)"

definition set_hosts :: "host_inventory list \<Rightarrow> session_snapshot \<Rightarrow> session_snapshot" where
  "set_hosts hosts s =
     (let listeners = snap_listeners s
      in if hosts = [] \<and> listeners = None then s\<lparr>snap_trail := None\<rparr>
         else s\<lparr>snap_trail := Some \<lparr>trail_hosts = hosts, trail_listeners = listeners\<rparr>\<rparr>)"

definition set_listeners :: "remote_listeners_report option \<Rightarrow> session_snapshot \<Rightarrow> session_snapshot" where
  "set_listeners listeners s =
     (let hosts = snap_hosts s
      in if hosts = [] \<and> listeners = None then s\<lparr>snap_trail := None\<rparr>
         else s\<lparr>snap_trail := Some \<lparr>trail_hosts = hosts, trail_listeners = listeners\<rparr>\<rparr>)"

section \<open>The listener report\<close>

text \<open>
  The code of the dependencies the codec calls: \<open>serde_json\<close> on the listener report, and
  \<open>flate2\<close>'s one-shot compressor and decompressor on a frame body.
\<close>

record externs =
  json_to_string :: "remote_listeners_report \<Rightarrow> str option"
  json_from_str :: "str \<Rightarrow> remote_listeners_report option"
  compress_vec :: "bytes \<Rightarrow> nat \<Rightarrow> (bytes \<times> bool) option"
  decompress_vec :: "bytes \<Rightarrow> nat \<Rightarrow> (bytes \<times> bool) option"

definition report_new :: remote_listeners_report where
  "report_new = \<lparr>report_schema_version = 1, report_listeners = []\<rparr>"

definition slot_is_unhealthy :: "remote_listener_slot \<Rightarrow> bool" where
  "slot_is_unhealthy s \<longleftrightarrow> slot_expected s \<and> \<not> slot_bound s"

fun replace_slot :: "remote_listener_slot \<Rightarrow> remote_listener_slot list \<Rightarrow> remote_listener_slot list option" where
  "replace_slot slot [] = None"
| "replace_slot slot (row # rows) =
     (if slot_transport row = slot_transport slot then Some (slot # rows)
      else map_option ((#) row) (replace_slot slot rows))"

definition report_upsert :: "remote_listener_slot \<Rightarrow> remote_listeners_report \<Rightarrow> remote_listeners_report" where
  "report_upsert slot r = (case replace_slot slot (report_listeners r) of
     Some rows \<Rightarrow> r\<lparr>report_listeners := rows\<rparr>
   | None \<Rightarrow> r\<lparr>report_listeners := report_listeners r @ [slot]\<rparr>)"

definition report_unhealthy :: "remote_listeners_report \<Rightarrow> remote_listener_slot list" where
  "report_unhealthy r = filter slot_is_unhealthy (report_listeners r)"

definition to_json :: "externs \<Rightarrow> remote_listeners_report \<Rightarrow> str" where
  "to_json ext r = (case json_to_string ext r of Some s \<Rightarrow> s
     | None \<Rightarrow> 123 # 34 # ascii ''schema_version'' @ 34 # ascii '':1,'' @ 34 # ascii ''listeners'' @ 34 # ascii '':[]}'')"

definition from_json :: "externs \<Rightarrow> str \<Rightarrow> remote_listeners_report option" where
  "from_json ext raw = json_from_str ext raw"

section \<open>Layout trees\<close>

definition encode_split_dir :: "wire_split_dir \<Rightarrow> u8" where
  "encode_split_dir d = (case d of WHorizontal \<Rightarrow> 0 | WVertical \<Rightarrow> 1)"

definition decode_split_dir :: "u8 \<Rightarrow> decode_error + wire_split_dir" where
  "decode_split_dir tag = (if tag = 0 then Ok WHorizontal else if tag = 1 then Ok WVertical
     else Err (unknown_enum ''SplitDir'' tag))"

fun encode_layout_node :: "wire_layout \<Rightarrow> bytes" where
  "encode_layout_node (WLeaf pane) = write_u8 0 @ encode_terminal_id pane"
| "encode_layout_node (WSplit dir ratio left right) =
     write_u8 1 @ write_u8 (encode_split_dir dir) @ write_f32_be ratio
     @ encode_layout_node left @ encode_layout_node right"

definition wire_ratio_ok :: "f32 \<Rightarrow> bool" where
  "wire_ratio_ok ratio \<longleftrightarrow> f32_is_finite ratio \<and> f32_le f32_zero ratio \<and> f32_le ratio f32_one"

text \<open>The argument is \<open>MAX_LAYOUT_DEPTH - depth\<close>, the levels still allowed.\<close>

fun decode_layout_node_depth :: "nat \<Rightarrow> wire_layout reader" where
  "decode_layout_node_depth 0 = fail_r LayoutTooDeep"
| "decode_layout_node_depth (Suc n) = bind_r read_u8 (\<lambda>tag.
     if tag = 0 then bind_r decode_terminal_id (\<lambda>pane. ret_r (WLeaf pane))
     else if tag = 1 then
       bind_r read_u8 (\<lambda>d. bind_r (lift_r (decode_split_dir d)) (\<lambda>dir. bind_r read_f32_be (\<lambda>ratio.
         if \<not> wire_ratio_ok ratio then fail_r (MalformedLayoutRatio ratio)
         else bind_r (decode_layout_node_depth n) (\<lambda>left. bind_r (decode_layout_node_depth n) (\<lambda>right.
           ret_r (WSplit dir ratio left right))))))
     else fail_r (unknown_enum ''LayoutNode'' tag))"

definition max_layout_depth :: nat where
  "max_layout_depth = 64"

definition decode_layout_node :: "wire_layout reader" where
  "decode_layout_node = decode_layout_node_depth max_layout_depth"

definition encode_option_layout_node :: "wire_layout option \<Rightarrow> bytes" where
  "encode_option_layout_node = write_opt encode_layout_node"

definition decode_option_layout_node :: "wire_layout option reader" where
  "decode_option_layout_node = read_opt ''Option<LayoutNode> tag'' decode_layout_node"

section \<open>Rows of the inventory\<close>

definition encode_option_window_id :: "wire_window_id option \<Rightarrow> bytes" where
  "encode_option_window_id = write_opt (\<lambda>w. case w of WireWindowId n \<Rightarrow> write_u32_be n)"

definition decode_option_window_id :: "wire_window_id option reader" where
  "decode_option_window_id = read_opt ''Option<WindowId> tag'' (bind_r read_u32_be (\<lambda>n. ret_r (WireWindowId n)))"

definition encode_option_terminal_id :: "wire_resource_id option \<Rightarrow> bytes" where
  "encode_option_terminal_id = write_opt encode_terminal_id"

definition decode_option_terminal_id :: "wire_resource_id option reader" where
  "decode_option_terminal_id = read_opt ''Option<ResourceId> tag'' decode_terminal_id"

definition encode_option_str :: "str option \<Rightarrow> bytes" where
  "encode_option_str = write_opt write_str"

definition decode_option_str :: "str option reader" where
  "decode_option_str = read_opt ''Option<str> tag'' read_str"

definition encode_session_info :: "session_info \<Rightarrow> bytes" where
  "encode_session_info i = (case si_id i of WireSessionId sid \<Rightarrow> write_u32_be sid)
     @ write_str (si_name i) @ encode_option_window_id (si_active_window i)
     @ write_i64_be (si_created_at i) @ write_u16_be (si_window_count i) @ write_u16_be (si_attached_clients i)"

definition decode_session_info :: "session_info reader" where
  "decode_session_info = bind_r read_u32_be (\<lambda>sid. bind_r read_str (\<lambda>name.
     bind_r decode_option_window_id (\<lambda>active. bind_r read_i64_be (\<lambda>created.
     bind_r read_u16_be (\<lambda>windows. bind_r read_u16_be (\<lambda>clients.
       ret_r \<lparr>si_id = WireSessionId sid, si_name = name, si_active_window = active, si_created_at = created,
         si_window_count = windows, si_attached_clients = clients, si_keep_empty = False\<rparr>))))))"

definition encode_window_info :: "window_info \<Rightarrow> bytes" where
  "encode_window_info i = (case wi_id i of WireWindowId w \<Rightarrow> write_u32_be w)
     @ (case wi_session i of WireSessionId sid \<Rightarrow> write_u32_be sid)
     @ write_u16_be (wi_index i) @ write_str (wi_name i)
     @ encode_option_terminal_id (wi_active_resource i) @ encode_option_layout_node (wi_layout i)"

definition decode_window_info :: "window_info reader" where
  "decode_window_info = bind_r read_u32_be (\<lambda>w. bind_r read_u32_be (\<lambda>sid. bind_r read_u16_be (\<lambda>index.
     bind_r read_str (\<lambda>name. bind_r decode_option_terminal_id (\<lambda>active. bind_r decode_option_layout_node (\<lambda>layout.
       ret_r \<lparr>wi_id = WireWindowId w, wi_session = WireSessionId sid, wi_index = index, wi_name = name,
         wi_active_resource = active, wi_layout = layout\<rparr>))))))"

definition encode_terminal_info :: "resource_info \<Rightarrow> bytes" where
  "encode_terminal_info i = encode_terminal_id (ri_id i)
     @ (case ri_window i of WireWindowId w \<Rightarrow> write_u32_be w)
     @ write_u16_be (ri_cols i) @ write_u16_be (ri_rows i)
     @ encode_option_str (ri_title i) @ encode_option_str (ri_cwd i)"

definition decode_terminal_info :: "resource_info reader" where
  "decode_terminal_info = bind_r decode_terminal_id (\<lambda>rid. bind_r read_u32_be (\<lambda>w. bind_r read_u16_be (\<lambda>cols.
     bind_r read_u16_be (\<lambda>rows. bind_r decode_option_str (\<lambda>title. bind_r decode_option_str (\<lambda>cwd.
       ret_r \<lparr>ri_id = rid, ri_window = WireWindowId w, ri_cols = cols, ri_rows = rows, ri_title = title,
         ri_cwd = cwd, ri_kind = KindTerminal, ri_parent = None, ri_agent = None\<rparr>))))))"

definition encode_host_session :: "host_session_info \<Rightarrow> bytes" where
  "encode_host_session i = (case hs_id i of WireSessionId sid \<Rightarrow> write_u32_be sid)
     @ write_str (hs_name i) @ write_i64_be (hs_created_at i) @ write_u16_be (hs_window_count i)
     @ write_u16_be (hs_pane_count i) @ write_u16_be (hs_attached_clients i)
     @ encode_option_terminal_id (hs_active_resource i)"

definition decode_host_session :: "host_session_info reader" where
  "decode_host_session = bind_r read_u32_be (\<lambda>sid. bind_r read_str (\<lambda>name. bind_r read_i64_be (\<lambda>created.
     bind_r read_u16_be (\<lambda>windows. bind_r read_u16_be (\<lambda>panes. bind_r read_u16_be (\<lambda>clients.
     bind_r decode_option_terminal_id (\<lambda>active.
       ret_r \<lparr>hs_id = WireSessionId sid, hs_name = name, hs_created_at = created, hs_window_count = windows,
         hs_pane_count = panes, hs_attached_clients = clients, hs_active_resource = active\<rparr>)))))))"

section \<open>Trailers\<close>

definition trailer :: "'a \<Rightarrow> 'a reader \<Rightarrow> 'a reader" where
  "trailer absent r = bind_r (get_r at_body_end) (\<lambda>done. if done then ret_r absent else r)"

definition encode_facet_row :: "resource_info \<Rightarrow> bytes" where
  "encode_facet_row p = encode_terminal_id (ri_id p) @ write_u8 (resource_kind_as_wire (ri_kind p))
     @ encode_option_terminal_id (ri_parent p)
     @ write_opt (\<lambda>a. write_str (af_provider a) @ encode_option_str (af_native_id a) @ write_str (af_state a)) (ri_agent p)"

definition encode_resource_facets :: "resource_info list \<Rightarrow> bool \<Rightarrow> bytes" where
  "encode_resource_facets resources more_follow =
     (let rows = filter has_resource_facets resources
      in if rows = [] \<and> \<not> more_follow then []
         else write_count32 (length rows) @ write_all encode_facet_row rows)"

type_synonym facet_row = "wire_resource_id \<times> resource_kind \<times> wire_resource_id option \<times> agent_facet option"

definition decode_facet_row :: "facet_row reader" where
  "decode_facet_row = bind_r decode_terminal_id (\<lambda>rid. bind_r read_u8 (\<lambda>kind.
     bind_r decode_option_terminal_id (\<lambda>parent.
     bind_r (read_opt ''Option<AgentFacet> tag''
       (bind_r read_str (\<lambda>provider. bind_r decode_option_str (\<lambda>native. bind_r read_str (\<lambda>state.
          ret_r \<lparr>af_provider = provider, af_native_id = native, af_state = state\<rparr>))))) (\<lambda>agent.
       ret_r (rid, resource_kind_from_wire kind, parent, agent)))))"

text \<open>\<open>iter_mut().find(..)\<close>: the first matching element is changed in place.\<close>

fun update_first :: "('a \<Rightarrow> bool) \<Rightarrow> ('a \<Rightarrow> 'a) \<Rightarrow> 'a list \<Rightarrow> 'a list" where
  "update_first P f [] = []"
| "update_first P f (x # xs) = (if P x then f x # xs else x # update_first P f xs)"

definition apply_facet :: "facet_row \<Rightarrow> resource_info list \<Rightarrow> resource_info list" where
  "apply_facet row resources = (case row of (rid, kind, parent, agent) \<Rightarrow>
     update_first (\<lambda>p. ri_id p = rid) (\<lambda>p. p\<lparr>ri_kind := kind, ri_parent := parent, ri_agent := agent\<rparr>) resources)"

definition decode_resource_facets :: "resource_info list \<Rightarrow> resource_info list reader" where
  "decode_resource_facets resources = trailer resources
     (bind_r (read_list32 decode_facet_row) (\<lambda>rows. ret_r (fold apply_facet rows resources)))"

definition encode_host_row :: "host_inventory \<Rightarrow> bytes" where
  "encode_host_row row = write_str (hi_host row) @ encode_option_str (hi_unreachable row)
     @ write_count32 (length (hi_sessions row)) @ write_all encode_host_session (hi_sessions row)"

definition encode_host_inventory :: "host_inventory list \<Rightarrow> bool \<Rightarrow> bytes" where
  "encode_host_inventory hosts more_follow =
     (if hosts = [] \<and> \<not> more_follow then [] else write_count32 (length hosts) @ write_all encode_host_row hosts)"

definition decode_host_row :: "host_inventory reader" where
  "decode_host_row = bind_r read_str (\<lambda>host. bind_r decode_option_str (\<lambda>unreachable.
     bind_r (read_list32 decode_host_session) (\<lambda>sessions.
       ret_r \<lparr>hi_host = host, hi_unreachable = unreachable, hi_sessions = sessions\<rparr>)))"

definition decode_host_inventory :: "host_inventory list reader" where
  "decode_host_inventory = trailer [] (read_list32 decode_host_row)"

definition encode_session_facet :: "session_info \<Rightarrow> bytes" where
  "encode_session_facet i = (case si_id i of WireSessionId sid \<Rightarrow> write_u32_be sid) @ write_u8 1"

definition encode_session_facets :: "session_info list \<Rightarrow> nat \<Rightarrow> bool \<Rightarrow> bytes" where
  "encode_session_facets sessions rows more_follow =
     (if rows = 0 \<and> \<not> more_follow then []
      else write_count32 rows @ write_all encode_session_facet (filter si_keep_empty sessions))"

definition apply_session_facet :: "wire_session_id \<times> u8 \<Rightarrow> session_info list \<Rightarrow> session_info list" where
  "apply_session_facet row sessions = (case row of (sid, flags) \<Rightarrow>
     update_first (\<lambda>i. si_id i = sid) (\<lambda>i. i\<lparr>si_keep_empty := (flags AND 1 \<noteq> 0)\<rparr>) sessions)"

definition decode_session_facets :: "session_info list \<Rightarrow> session_info list reader" where
  "decode_session_facets sessions = trailer sessions
     (bind_r (read_list32 (bind_r read_u32_be (\<lambda>sid. bind_r read_u8 (\<lambda>flags. ret_r (WireSessionId sid, flags)))))
       (\<lambda>rows. ret_r (fold apply_session_facet rows sessions)))"

definition encode_listeners :: "externs \<Rightarrow> remote_listeners_report option \<Rightarrow> bytes" where
  "encode_listeners ext report = (case report of None \<Rightarrow> [] | Some r \<Rightarrow> encode_option_str (Some (to_json ext r)))"

definition decode_listeners :: "externs \<Rightarrow> remote_listeners_report option reader" where
  "decode_listeners ext = trailer None
     (bind_r decode_option_str (\<lambda>s. ret_r (case s of None \<Rightarrow> None | Some raw \<Rightarrow> from_json ext raw)))"

section \<open>Snapshots\<close>

definition encode_session_snapshot :: "externs \<Rightarrow> session_snapshot \<Rightarrow> bytes" where
  "encode_session_snapshot ext snap =
     (let session_rows = length (filter si_keep_empty (snap_sessions snap));
          listeners_follow = (snap_listeners snap \<noteq> None);
          session_facets_follow = (0 < session_rows \<or> listeners_follow);
          hosts_follow = (snap_hosts snap \<noteq> [] \<or> session_facets_follow)
      in write_count32 (length (snap_sessions snap)) @ write_all encode_session_info (snap_sessions snap)
         @ write_count32 (length (snap_windows snap)) @ write_all encode_window_info (snap_windows snap)
         @ write_count32 (length (snap_resources snap)) @ write_all encode_terminal_info (snap_resources snap)
         @ (case snap_focused_session snap of WireSessionId sid \<Rightarrow> write_u32_be sid)
         @ (case snap_focused_window snap of WireWindowId w \<Rightarrow> write_u32_be w)
         @ encode_terminal_id (snap_focused_resource snap)
         @ encode_resource_facets (snap_resources snap) hosts_follow
         @ encode_host_inventory (snap_hosts snap) session_facets_follow
         @ encode_session_facets (snap_sessions snap) session_rows listeners_follow
         @ encode_listeners ext (snap_listeners snap))"

definition decode_session_snapshot :: "externs \<Rightarrow> session_snapshot reader" where
  "decode_session_snapshot ext =
     bind_r (read_list32 decode_session_info) (\<lambda>sessions.
     bind_r (read_list32 decode_window_info) (\<lambda>windows.
     bind_r (read_list32 decode_terminal_info) (\<lambda>resources.
     bind_r read_u32_be (\<lambda>sid. bind_r read_u32_be (\<lambda>w. bind_r decode_terminal_id (\<lambda>focused.
     bind_r (decode_resource_facets resources) (\<lambda>resources'.
     bind_r decode_host_inventory (\<lambda>hosts.
     bind_r (decode_session_facets sessions) (\<lambda>sessions'.
     bind_r (decode_listeners ext) (\<lambda>listeners.
       let snapshot = \<lparr>snap_sessions = sessions', snap_windows = windows, snap_resources = resources',
             snap_focused_session = WireSessionId sid, snap_focused_window = WireWindowId w,
             snap_focused_resource = focused, snap_trail = None\<rparr>;
           snapshot' = (if hosts = [] then snapshot else set_hosts hosts snapshot)
       in ret_r (case listeners of None \<Rightarrow> snapshot' | Some l \<Rightarrow> set_listeners (Some l) snapshot')))))))))))"

definition encode_client_id :: "client_id \<Rightarrow> bytes" where
  "encode_client_id c = (case c of ClientId n \<Rightarrow> write_u32_be n)"

definition decode_client_id :: "client_id reader" where
  "decode_client_id = bind_r read_u32_be (\<lambda>n. ret_r (ClientId n))"

end
