(* ===== verification/Wire_Info_Round.thy ===== *)
theory Wire_Info_Round
  imports Wire_Info
begin

text \<open>
  The inventory codec of \<open>wire/info.rs\<close>: its decoders stay inside their input, and a snapshot is
  read back as it was written, trailers included. A trailer row addresses a resource or session
  by id, so the ids of a snapshot's rows have to be distinct.
\<close>

section \<open>Bounds\<close>

lemma bounded_layout_depth [inv_intros]: "bounded (decode_layout_node_depth n)"
  by (induction n) (auto intro!: inv_intros)

lemma bounded_info [inv_intros]:
  "bounded decode_layout_node" "bounded decode_option_layout_node" "bounded decode_option_window_id"
  "bounded decode_option_terminal_id" "bounded decode_option_str" "bounded decode_client_id"
  unfolding decode_layout_node_def decode_option_layout_node_def decode_option_window_id_def
    decode_option_terminal_id_def decode_option_str_def decode_client_id_def
  by (intro inv_intros)+

lemma bounded_rows [inv_intros]:
  "bounded decode_session_info" "bounded decode_window_info" "bounded decode_terminal_info"
  "bounded decode_host_session" "bounded decode_facet_row"
  unfolding decode_session_info_def decode_window_info_def decode_terminal_info_def
    decode_host_session_def decode_facet_row_def
  by (intro inv_intros)+

lemma bounded_trailer [inv_intros]: "bounded r \<Longrightarrow> bounded (trailer absent r)"
  unfolding trailer_def by (intro inv_intros)

lemma bounded_host_row [inv_intros]: "bounded decode_host_row"
  unfolding decode_host_row_def by (intro inv_intros)

lemma bounded_trailers [inv_intros]:
  "bounded (decode_resource_facets rs)" "bounded decode_host_inventory"
  "bounded (decode_session_facets ss)" "bounded (decode_listeners ext)"
  unfolding decode_resource_facets_def decode_host_inventory_def decode_session_facets_def decode_listeners_def
  by (intro inv_intros)+

lemma bounded_snapshot [inv_intros]: "bounded (decode_session_snapshot ext)"
  unfolding decode_session_snapshot_def Let_def by (intro inv_intros)

section \<open>Well-formed inventories\<close>

fun wf_layout_wire :: "nat \<Rightarrow> wire_layout \<Rightarrow> bool" where
  "wf_layout_wire 0 t = False"
| "wf_layout_wire (Suc n) (WLeaf pane) = wf_rid pane"
| "wf_layout_wire (Suc n) (WSplit dir ratio left right) =
     (wire_ratio_ok ratio \<and> wf_layout_wire n left \<and> wf_layout_wire n right)"

definition wf_opt :: "('a \<Rightarrow> bool) \<Rightarrow> 'a option \<Rightarrow> bool" where
  "wf_opt P x = (case x of None \<Rightarrow> True | Some y \<Rightarrow> P y)"

lemma wf_opt_simps [simp]: "wf_opt P None" "wf_opt P (Some y) = P y"
  by (simp_all add: wf_opt_def)

definition wf_kind :: "resource_kind \<Rightarrow> bool" where
  "wf_kind k \<longleftrightarrow> k \<noteq> KindUnknown 0 \<and> k \<noteq> KindUnknown 1"

definition wf_window_info :: "window_info \<Rightarrow> bool" where
  "wf_window_info i \<longleftrightarrow> utf8_valid (wi_name i) \<and> wf_opt wf_rid (wi_active_resource i)
     \<and> wf_opt (wf_layout_wire max_layout_depth) (wi_layout i)"

definition wf_agent_facet :: "agent_facet \<Rightarrow> bool" where
  "wf_agent_facet a \<longleftrightarrow> utf8_valid (af_provider a) \<and> wf_opt utf8_valid (af_native_id a) \<and> utf8_valid (af_state a)"

definition wf_resource_info :: "resource_info \<Rightarrow> bool" where
  "wf_resource_info i \<longleftrightarrow> wf_rid (ri_id i) \<and> wf_opt utf8_valid (ri_title i) \<and> wf_opt utf8_valid (ri_cwd i)
     \<and> wf_kind (ri_kind i) \<and> wf_opt wf_rid (ri_parent i) \<and> wf_opt wf_agent_facet (ri_agent i)"

definition wf_host_session :: "host_session_info \<Rightarrow> bool" where
  "wf_host_session i \<longleftrightarrow> utf8_valid (hs_name i) \<and> wf_opt wf_rid (hs_active_resource i)"

definition wf_host :: "host_inventory \<Rightarrow> bool" where
  "wf_host h \<longleftrightarrow> utf8_valid (hi_host h) \<and> wf_opt utf8_valid (hi_unreachable h) \<and> list_all wf_host_session (hi_sessions h)"

definition json_faithful :: "externs \<Rightarrow> remote_listeners_report \<Rightarrow> bool" where
  "json_faithful ext r \<longleftrightarrow> utf8_valid (to_json ext r) \<and> from_json ext (to_json ext r) = Some r"

definition wf_snapshot :: "externs \<Rightarrow> session_snapshot \<Rightarrow> bool" where
  "wf_snapshot ext s \<longleftrightarrow>
     list_all (\<lambda>i. utf8_valid (si_name i)) (snap_sessions s) \<and> distinct (map si_id (snap_sessions s))
     \<and> list_all wf_window_info (snap_windows s)
     \<and> list_all wf_resource_info (snap_resources s) \<and> distinct (map ri_id (snap_resources s))
     \<and> wf_rid (snap_focused_resource s)
     \<and> wf_opt (\<lambda>t. list_all wf_host (trail_hosts t) \<and> wf_opt (json_faithful ext) (trail_listeners t)
         \<and> (trail_hosts t \<noteq> [] \<or> trail_listeners t \<noteq> None)) (snap_trail s)"

section \<open>Rows\<close>

lemma reads_layout_depth:
  "wf_layout_wire n t \<Longrightarrow> reads (decode_layout_node_depth n) (encode_layout_node t) t"
proof (induction n t rule: wf_layout_wire.induct)
  case (3 n dir ratio left right)
  have dir: "decode_split_dir (encode_split_dir dir) = Ok dir"
    by (cases dir) (simp_all add: decode_split_dir_def encode_split_dir_def)
  from 3 have l: "reads (decode_layout_node_depth n) (encode_layout_node left) left"
    and r: "reads (decode_layout_node_depth n) (encode_layout_node right) right" by simp_all
  show ?case using 3(3)
    by (auto simp: dir intro!: reads_intros reads_bind [OF l] reads_map [OF r])
qed (auto intro!: reads_intros)

lemma reads_layout: "wf_layout_wire max_layout_depth t \<Longrightarrow> reads decode_layout_node (encode_layout_node t) t"
  unfolding decode_layout_node_def by (rule reads_layout_depth)

lemma reads_option_layout:
  "wf_opt (wf_layout_wire max_layout_depth) t \<Longrightarrow> reads decode_option_layout_node (encode_option_layout_node t) t"
  unfolding decode_option_layout_node_def encode_option_layout_node_def
  by (auto intro!: reads_intros reads_layout)

lemma reads_option_window_id: "reads decode_option_window_id (encode_option_window_id w) w"
  unfolding decode_option_window_id_def encode_option_window_id_def
  by (auto intro!: reads_intros split: wire_window_id.splits)

lemma reads_option_terminal_id: "wf_opt wf_rid t \<Longrightarrow> reads decode_option_terminal_id (encode_option_terminal_id t) t"
  unfolding decode_option_terminal_id_def encode_option_terminal_id_def by (auto intro!: reads_intros)

lemma reads_option_str: "wf_opt utf8_valid s \<Longrightarrow> reads decode_option_str (encode_option_str s) s"
  unfolding decode_option_str_def encode_option_str_def by (auto intro!: reads_intros)

lemma reads_client_id: "reads decode_client_id (encode_client_id c) c"
  unfolding decode_client_id_def encode_client_id_def by (cases c) (auto intro!: reads_intros)

lemmas info_option_steps [reads_intros] =
  reads_bind [OF reads_option_layout] reads_map [OF reads_option_layout] reads_option_layout
  reads_bind [OF reads_option_window_id] reads_map [OF reads_option_window_id] reads_option_window_id
  reads_bind [OF reads_option_terminal_id] reads_map [OF reads_option_terminal_id] reads_option_terminal_id
  reads_bind [OF reads_option_str] reads_map [OF reads_option_str] reads_option_str
  reads_bind [OF reads_client_id] reads_map [OF reads_client_id] reads_client_id

lemma reads_session_info:
  "utf8_valid (si_name i) \<Longrightarrow> reads decode_session_info (encode_session_info i) (i\<lparr>si_keep_empty := False\<rparr>)"
  unfolding decode_session_info_def encode_session_info_def
  by (cases i; cases "si_id i") (auto intro!: reads_intros)

lemma reads_window_info: "wf_window_info i \<Longrightarrow> reads decode_window_info (encode_window_info i) i"
  unfolding decode_window_info_def encode_window_info_def
  by (cases i; cases "wi_id i"; cases "wi_session i") (auto simp: wf_window_info_def intro!: reads_intros)

lemma reads_terminal_info:
  "wf_resource_info i \<Longrightarrow> reads decode_terminal_info (encode_terminal_info i)
     (i\<lparr>ri_kind := KindTerminal, ri_parent := None, ri_agent := None\<rparr>)"
  unfolding decode_terminal_info_def encode_terminal_info_def
  by (cases i; cases "ri_window i") (auto simp: wf_resource_info_def intro!: reads_intros)

lemma reads_host_session: "wf_host_session i \<Longrightarrow> reads decode_host_session (encode_host_session i) i"
  unfolding decode_host_session_def encode_host_session_def
  by (cases i; cases "hs_id i") (auto simp: wf_host_session_def intro!: reads_intros)

lemma kind_wire [simp]: "wf_kind k \<Longrightarrow> resource_kind_from_wire (resource_kind_as_wire k) = k"
  by (cases k) (auto simp: wf_kind_def resource_kind_from_wire_def resource_kind_as_wire_def)

lemma reads_agent_facet:
  "wf_agent_facet a \<Longrightarrow> reads (bind_r read_str (\<lambda>provider. bind_r decode_option_str (\<lambda>native. bind_r read_str (\<lambda>state.
       ret_r \<lparr>af_provider = provider, af_native_id = native, af_state = state\<rparr>))))
     (write_str (af_provider a) @ encode_option_str (af_native_id a) @ write_str (af_state a)) a"
  by (cases a) (auto simp: wf_agent_facet_def intro!: reads_intros)

lemma reads_facet_row:
  "wf_resource_info i \<Longrightarrow> reads decode_facet_row (encode_facet_row i) (ri_id i, ri_kind i, ri_parent i, ri_agent i)"
  unfolding decode_facet_row_def encode_facet_row_def
  by (auto simp: wf_resource_info_def intro!: reads_agent_facet reads_intros)

lemma reads_host_row: "wf_host h \<Longrightarrow> reads decode_host_row (encode_host_row h) h"
  unfolding decode_host_row_def encode_host_row_def
  by (cases h) (auto simp: wf_host_def list_all_iff encode_host_session_def intro!: reads_intros reads_host_session
      split: wire_session_id.splits)

section \<open>Trailers\<close>

lemma bind_assoc: "bind_r (bind_r m f) g = bind_r m (\<lambda>x. bind_r (f x) g)"
  by (rule ext) (simp add: bind_r_def split: sum.split)

lemma bind_ret [simp]: "bind_r (ret_r x) f = f x"
  by (rule ext) (simp add: bind_r_def ret_r_def)

lemma trailer_absent:
  "reads_body c p (f absent) [] y \<Longrightarrow> reads_body c p (bind_r (trailer absent r) f) [] y"
  unfolding trailer_def bind_assoc by (rule reads_body_at_end) simp

lemma trailer_present:
  "reads r bs x \<Longrightarrow> bs \<noteq> [] \<Longrightarrow> reads_body c p (f x) rest y \<Longrightarrow>
   reads_body c p (bind_r (trailer absent r) f) (bs @ rest) y"
  unfolding trailer_def bind_assoc by (rule reads_body_at_end) (auto intro: reads_body_bind)

lemma write_count32_nonempty [simp]: "write_count32 n \<noteq> []"
  by (simp add: write_count32_def)

lemma update_first_map:
  "distinct (map key xs) \<Longrightarrow> x \<in> set xs \<Longrightarrow>
   update_first (\<lambda>y. key y = key x) f (map g xs) = map (\<lambda>y. if y = x then f (g y) else g y) xs"
  if "\<And>y. key (g y) = key y" for key :: "'a \<Rightarrow> 'k" and f g :: "'a \<Rightarrow> 'a"
proof (induction xs)
  case (Cons z xs)
  show ?case
  proof (cases "z = x")
    case True
    with Cons.prems have "map (\<lambda>y. if y = x then f (g y) else g y) xs = map g xs" by auto
    with True show ?thesis by (simp add: that)
  next
    case False
    with Cons show ?thesis by (auto simp: that)
  qed
qed simp

text \<open>
  Rows of the trailer restore what the plain rows lost: with distinct keys each update reaches
  the element it was written for.
\<close>

lemma fold_rows:
  assumes key: "\<And>y. key (erase y) = key y" and restore: "\<And>y. restore y (erase y) = y"
    and kept: "\<And>y. y \<in> set xs \<Longrightarrow> \<not> P y \<Longrightarrow> erase y = y" and dist: "distinct (map key xs)"
  shows "fold (\<lambda>x. update_first (\<lambda>y. key y = key x) (restore x)) (filter P xs) (map erase xs) = xs"
proof -
  have gen: "fold (\<lambda>x. update_first (\<lambda>y. key y = key x) (restore x)) rows (map (\<lambda>y. if y \<in> S then y else erase y) xs)
      = map (\<lambda>y. if y \<in> S \<union> set rows then y else erase y) xs"
    if "set rows \<subseteq> set xs" "distinct rows" "S \<inter> set rows = {}" for rows S
    using that
  proof (induction rows arbitrary: S)
    case (Cons x rows)
    let ?g = "\<lambda>y. if y \<in> S then y else erase y"
    have "update_first (\<lambda>y. key y = key x) (restore x) (map ?g xs)
        = map (\<lambda>y. if y = x then restore x (?g y) else ?g y) xs"
      using update_first_map [of key ?g xs x "restore x"] Cons.prems dist by (simp add: key)
    also have "\<dots> = map (\<lambda>y. if y \<in> insert x S then y else erase y) xs"
      using Cons.prems by (auto simp: restore)
    finally show ?case using Cons.IH [of "insert x S"] Cons.prems by simp
  qed simp
  have "distinct (filter P xs)" using dist by (simp add: distinct_map)
  then have "fold (\<lambda>x. update_first (\<lambda>y. key y = key x) (restore x)) (filter P xs) (map erase xs)
      = map (\<lambda>y. if y \<in> set (filter P xs) then y else erase y) xs"
    using gen [of "filter P xs" "{}"] by auto
  also have "\<dots> = xs" using kept by (auto intro: map_idI)
  finally show ?thesis .
qed

section \<open>Snapshots\<close>

definition erase_facets :: "resource_info \<Rightarrow> resource_info" where
  "erase_facets i = i\<lparr>ri_kind := KindTerminal, ri_parent := None, ri_agent := None\<rparr>"

definition erase_keep :: "session_info \<Rightarrow> session_info" where
  "erase_keep i = i\<lparr>si_keep_empty := False\<rparr>"

lemma nonempty_rows [simp]:
  "encode_session_info i \<noteq> []" "encode_window_info w \<noteq> []" "encode_terminal_info r \<noteq> []"
  "encode_facet_row r \<noteq> []" "encode_host_row h \<noteq> []" "encode_session_facet i \<noteq> []"
  by (simp_all add: encode_session_info_def encode_window_info_def encode_terminal_info_def
      encode_facet_row_def encode_host_row_def encode_session_facet_def split: wire_session_id.split)

lemma reads_resource_facets:
  assumes "list_all wf_resource_info rs" "distinct (map ri_id rs)"
    and "rest \<noteq> [] \<Longrightarrow> mf" and "reads_body c p (f rs) rest y"
  shows "reads_body c p (bind_r (decode_resource_facets (map erase_facets rs)) f)
    (encode_resource_facets rs mf @ rest) y"
proof -
  let ?P = "has_resource_facets" and ?row = "\<lambda>i. (ri_id i, ri_kind i, ri_parent i, ri_agent i)"
  let ?restore = "\<lambda>x p. p\<lparr>ri_kind := ri_kind x, ri_parent := ri_parent x, ri_agent := ri_agent x\<rparr>"
  have kept: "erase_facets i = i" if "\<not> ?P i" for i
    using that by (cases i) (auto simp: has_resource_facets_def is_terminal_def erase_facets_def)
  have fold: "fold apply_facet (map ?row (filter ?P rs)) (map erase_facets rs) = rs"
  proof -
    have "fold apply_facet (map ?row (filter ?P rs)) (map erase_facets rs)
        = fold (\<lambda>x. update_first (\<lambda>y. ri_id y = ri_id x) (?restore x)) (filter ?P rs) (map erase_facets rs)"
      by (simp add: fold_map comp_def apply_facet_def [abs_def])
    also have "\<dots> = rs"
      by (rule fold_rows) (simp_all add: erase_facets_def kept [unfolded erase_facets_def] assms(2))
    finally show ?thesis .
  qed
  show ?thesis
  proof (cases "filter ?P rs = [] \<and> \<not> mf")
    case True
    then have "rest = []" "map erase_facets rs = rs"
      using assms(3) kept by (auto simp: filter_empty_conv intro: map_idI)
    with True assms(4) show ?thesis
      by (simp add: encode_resource_facets_def decode_resource_facets_def trailer_absent)
  next
    case False
    then have e: "encode_resource_facets rs mf = write_count32 (length (filter ?P rs)) @ write_all encode_facet_row (filter ?P rs)"
      by (auto simp: encode_resource_facets_def Let_def)
    have "reads (read_list32 decode_facet_row) (encode_resource_facets rs mf) (map ?row (filter ?P rs))"
      unfolding e using assms(1) by (intro reads_list32_map) (auto simp: list_all_iff reads_facet_row)
    then have "reads (bind_r (read_list32 decode_facet_row) (\<lambda>rows. ret_r (fold apply_facet rows (map erase_facets rs))))
        (encode_resource_facets rs mf) rs"
      by (rule reads_map) (simp add: fold reads_ret)
    moreover have "encode_resource_facets rs mf \<noteq> []" by (simp add: e)
    ultimately show ?thesis unfolding decode_resource_facets_def by (rule trailer_present) (rule assms(4))
  qed
qed

lemma reads_host_inventory:
  assumes "list_all wf_host hs" and "rest \<noteq> [] \<Longrightarrow> mf" and "reads_body c p (f hs) rest y"
  shows "reads_body c p (bind_r decode_host_inventory f) (encode_host_inventory hs mf @ rest) y"
proof (cases "hs = [] \<and> \<not> mf")
  case True
  then have "rest = []" using assms(2) by blast
  with True assms(3) show ?thesis by (simp add: encode_host_inventory_def decode_host_inventory_def trailer_absent)
next
  case False
  then have e: "encode_host_inventory hs mf = write_count32 (length hs) @ write_all encode_host_row hs"
    by (simp add: encode_host_inventory_def)
  have "reads (read_list32 decode_host_row) (encode_host_inventory hs mf) hs"
    unfolding e using assms(1) by (intro reads_list32) (auto simp: list_all_iff reads_host_row)
  moreover have "encode_host_inventory hs mf \<noteq> []" by (simp add: e)
  ultimately show ?thesis unfolding decode_host_inventory_def by (rule trailer_present) (rule assms(3))
qed

lemma reads_session_facets:
  assumes "distinct (map si_id ss)" and "rest \<noteq> [] \<Longrightarrow> mf" and "reads_body c p (f ss) rest y"
  shows "reads_body c p (bind_r (decode_session_facets (map erase_keep ss)) f)
    (encode_session_facets ss (length (filter si_keep_empty ss)) mf @ rest) y"
proof -
  let ?P = "si_keep_empty" and ?row = "\<lambda>i. (si_id i, 1 :: u8)"
  let ?r = "bind_r read_u32_be (\<lambda>sid. bind_r read_u8 (\<lambda>flags. ret_r (WireSessionId sid, flags)))"
  let ?b = "encode_session_facets ss (length (filter ?P ss)) mf"
  have kept: "erase_keep i = i" if "\<not> ?P i" for i using that by (cases i) (auto simp: erase_keep_def)
  have fold: "fold apply_session_facet (map ?row (filter ?P ss)) (map erase_keep ss) = ss"
  proof -
    have "fold apply_session_facet (map ?row (filter ?P ss)) (map erase_keep ss)
        = fold (\<lambda>x. update_first (\<lambda>y. si_id y = si_id x) (\<lambda>i. i\<lparr>si_keep_empty := True\<rparr>)) (filter ?P ss) (map erase_keep ss)"
      by (simp add: fold_map comp_def apply_session_facet_def [abs_def])
    also have "\<dots> = fold (\<lambda>x. update_first (\<lambda>y. si_id y = si_id x) (\<lambda>i. i\<lparr>si_keep_empty := si_keep_empty x\<rparr>)) (filter ?P ss) (map erase_keep ss)"
      by (rule fold_cong) simp_all
    also have "\<dots> = ss" by (rule fold_rows) (simp_all add: erase_keep_def kept [unfolded erase_keep_def] assms(1))
    finally show ?thesis .
  qed
  show ?thesis
  proof (cases "filter ?P ss = [] \<and> \<not> mf")
    case True
    then have "rest = []" "map erase_keep ss = ss"
      using assms(2) kept by (auto simp: filter_empty_conv intro: map_idI)
    with True assms(3) show ?thesis
      by (simp add: encode_session_facets_def decode_session_facets_def trailer_absent)
  next
    case False
    then have e: "?b = write_count32 (length (filter ?P ss)) @ write_all encode_session_facet (filter ?P ss)"
      by (auto simp: encode_session_facets_def)
    have row: "reads ?r (encode_session_facet i) (?row i)" for i
      unfolding encode_session_facet_def by (cases "si_id i") (auto intro!: reads_intros)
    have "reads (read_list32 ?r) ?b (map ?row (filter ?P ss))"
      unfolding e by (intro reads_list32_map row) simp
    then have "reads (bind_r (read_list32 ?r) (\<lambda>rows. ret_r (fold apply_session_facet rows (map erase_keep ss)))) ?b ss"
      by (rule reads_map) (simp add: fold reads_ret)
    moreover have "?b \<noteq> []" by (simp add: e)
    ultimately show ?thesis unfolding decode_session_facets_def by (rule trailer_present) (rule assms(3))
  qed
qed

lemma reads_listeners:
  assumes "wf_opt (json_faithful ext) l" and "reads_body c p (f l) [] y"
  shows "reads_body c p (bind_r (decode_listeners ext) f) (encode_listeners ext l) y"
proof (cases l)
  case None
  with assms show ?thesis by (simp add: encode_listeners_def decode_listeners_def trailer_absent)
next
  case (Some r)
  let ?b = "encode_option_str (Some (to_json ext r))"
  have "reads (bind_r decode_option_str (\<lambda>s. ret_r (case s of None \<Rightarrow> None | Some raw \<Rightarrow> from_json ext raw))) ?b l"
    using assms(1) Some by (auto simp: json_faithful_def intro!: reads_intros)
  moreover have "?b \<noteq> []" by (simp add: encode_option_str_def write_opt_def)
  ultimately have "reads_body c p (bind_r (decode_listeners ext) f) (?b @ []) y"
    unfolding decode_listeners_def by (rule trailer_present) (rule assms(2))
  with Some show ?thesis by (simp add: encode_listeners_def)
qed

lemma reads_list32_then:
  assumes "\<And>x. x \<in> set xs \<Longrightarrow> reads r (w x) (g x)" and "\<And>x. x \<in> set xs \<Longrightarrow> w x \<noteq> []"
    and "reads_body c p (f (map g xs)) rest y"
  shows "reads_body c p (bind_r (read_list32 r) f) (write_count32 (length xs) @ write_all w xs @ rest) y"
proof -
  have "reads (read_list32 r) (write_count32 (length xs) @ write_all w xs) (map g xs)"
    by (rule reads_list32_map) (fact assms)+
  from reads_body_bind [of _ _ _ c p f, OF this assms(3)] show ?thesis by simp
qed

theorem reads_session_snapshot:
  assumes "wf_snapshot ext snap"
  shows "reads_body c p (decode_session_snapshot ext) (encode_session_snapshot ext snap) snap"
proof -
  obtain ss ws rs fs fw fr tr where snap: "snap = \<lparr>snap_sessions = ss, snap_windows = ws, snap_resources = rs,
      snap_focused_session = fs, snap_focused_window = fw, snap_focused_resource = fr, snap_trail = tr\<rparr>"
    by (cases snap)
  obtain sid w where ids: "fs = WireSessionId sid" "fw = WireWindowId w" by (cases fs; cases fw) auto
  let ?hosts = "snap_hosts snap" and ?listeners = "snap_listeners snap"
  let ?keep = "length (filter si_keep_empty ss)"
  note wf = assms [unfolded wf_snapshot_def snap]
  have trail: "list_all wf_host ?hosts" "wf_opt (json_faithful ext) ?listeners"
    using wf by (cases tr; simp add: snap snap_hosts_def snap_listeners_def)+
  let ?snap0 = "\<lparr>snap_sessions = ss, snap_windows = ws, snap_resources = rs, snap_focused_session = fs,
      snap_focused_window = fw, snap_focused_resource = fr, snap_trail = None\<rparr>"
  let ?snap1 = "if ?hosts = [] then ?snap0 else set_hosts ?hosts ?snap0"
  have final: "(case ?listeners of None \<Rightarrow> ?snap1 | Some l \<Rightarrow> set_listeners (Some l) ?snap1) = snap"
  proof (cases tr)
    case (Some t)
    with wf show ?thesis by (cases t)
      (auto simp: snap snap_hosts_def snap_listeners_def set_hosts_def set_listeners_def split: option.splits)
  qed (simp add: snap snap_hosts_def snap_listeners_def)
  have rows: "i \<in> set ss \<Longrightarrow> reads decode_session_info (encode_session_info i) (erase_keep i)"
    "x \<in> set ws \<Longrightarrow> reads decode_window_info (encode_window_info x) x"
    "r \<in> set rs \<Longrightarrow> reads decode_terminal_info (encode_terminal_info r) (erase_facets r)" for i x r
    using wf by (auto simp: list_all_iff erase_keep_def erase_facets_def reads_session_info reads_window_info reads_terminal_info)
  have f1: "encode_listeners ext ?listeners \<noteq> [] \<Longrightarrow> ?listeners \<noteq> None"
    by (simp add: encode_listeners_def split: option.splits)
  have f2: "encode_session_facets ss ?keep (?listeners \<noteq> None) @ encode_listeners ext ?listeners \<noteq> [] \<Longrightarrow>
      0 < ?keep \<or> ?listeners \<noteq> None"
    by (cases ?listeners) (auto simp: encode_session_facets_def encode_listeners_def)
  have f3: "encode_host_inventory ?hosts (0 < ?keep \<or> ?listeners \<noteq> None) @
      encode_session_facets ss ?keep (?listeners \<noteq> None) @ encode_listeners ext ?listeners \<noteq> [] \<Longrightarrow>
      ?hosts \<noteq> [] \<or> 0 < ?keep \<or> ?listeners \<noteq> None"
    by (cases ?listeners; cases ?hosts)
      (auto simp: encode_host_inventory_def encode_session_facets_def encode_listeners_def)
  have "reads_body c p (decode_session_snapshot ext)
     (write_count32 (length ss) @ write_all encode_session_info ss @
      write_count32 (length ws) @ write_all encode_window_info ws @
      write_count32 (length rs) @ write_all encode_terminal_info rs @
      write_u32_be sid @ write_u32_be w @ encode_terminal_id fr @
      encode_resource_facets rs (?hosts \<noteq> [] \<or> 0 < ?keep \<or> ?listeners \<noteq> None) @
      encode_host_inventory ?hosts (0 < ?keep \<or> ?listeners \<noteq> None) @
      encode_session_facets ss ?keep (?listeners \<noteq> None) @ encode_listeners ext ?listeners) snap"
    unfolding decode_session_snapshot_def
    apply (rule reads_list32_then [where g = erase_keep], (simp add: rows), simp)
    apply (rule reads_list32_then [where g = "\<lambda>x. x"], (simp add: rows), simp)
    apply (rule reads_list32_then [where g = erase_facets], (simp add: rows), simp)
    apply (rule reads_body_bind [OF reads_u32], rule reads_body_bind [OF reads_u32])
    apply (rule reads_body_bind [OF reads_terminal_id], (use wf in simp))
    apply (rule reads_resource_facets [OF _ _ f3], (use wf in simp), (use wf in simp), assumption)
    apply (rule reads_host_inventory [OF trail(1) f2], assumption)
    apply (rule reads_session_facets [OF _ f1], (use wf in simp), assumption)
    apply (rule reads_listeners [OF trail(2)])
    apply (simp add: Let_def final [unfolded ids] reads_body reads_ret)
    done
  moreover have "snap_sessions snap = ss" "snap_windows snap = ws" "snap_resources snap = rs"
    "(case snap_focused_session snap of WireSessionId n \<Rightarrow> write_u32_be n) = write_u32_be sid"
    "(case snap_focused_window snap of WireWindowId n \<Rightarrow> write_u32_be n) = write_u32_be w"
    "snap_focused_resource snap = fr" by (simp_all add: snap ids)
  ultimately show ?thesis by (simp only: encode_session_snapshot_def Let_def)
qed

end
