(* ===== verification/Wire_Status.thy ===== *)
theory Wire_Status
  imports Wire_Prim
begin

text \<open>
  The status codes of \<open>phux-protocol/src/wire/frame/status.rs\<close>. A \<open>from_wire\<close> match on literals
  is a table lookup; \<open>as_wire\<close> is the discriminant.
\<close>

datatype error_code =
    EcVersionIncompatible | EcUnknownMessageType | EcMalformedMessage | EcFrameTooLarge | EcCodecUnavailable
  | EcNotAttached | EcAlreadyAttached | EcSessionNotFound | EcWindowNotFound | EcTerminalNotFound
  | EcClientNotFound | EcUnsupportedSatelliteRoute | EcSatelliteUnreachable
  | EcInvalidCommand | EcPermissionDenied | EcResourceExhausted | EcUnsafePaste | EcInputLeaseHeld
  | EcInputDeliveryUnknown | EcCanonicalLimitExceeded | EcInputNotWritten | EcWrongResourceKind
  | EcNotProducer | EcRecordInvalid | EcOverflow | EcPreconditionFailed | EcInternalError

datatype error_scope = ErrTerminal | ErrRequest | ErrConnection

definition error_code_as_wire :: "error_code \<Rightarrow> u16" where
  "error_code_as_wire c = (case c of
     EcVersionIncompatible \<Rightarrow> 1 | EcUnknownMessageType \<Rightarrow> 2 | EcMalformedMessage \<Rightarrow> 3 | EcFrameTooLarge \<Rightarrow> 4
   | EcCodecUnavailable \<Rightarrow> 6 | EcNotAttached \<Rightarrow> 100 | EcAlreadyAttached \<Rightarrow> 101 | EcSessionNotFound \<Rightarrow> 102
   | EcWindowNotFound \<Rightarrow> 103 | EcTerminalNotFound \<Rightarrow> 104 | EcClientNotFound \<Rightarrow> 105
   | EcUnsupportedSatelliteRoute \<Rightarrow> 106 | EcSatelliteUnreachable \<Rightarrow> 107 | EcInvalidCommand \<Rightarrow> 200
   | EcPermissionDenied \<Rightarrow> 201 | EcResourceExhausted \<Rightarrow> 202 | EcUnsafePaste \<Rightarrow> 203 | EcInputLeaseHeld \<Rightarrow> 204
   | EcInputDeliveryUnknown \<Rightarrow> 205 | EcCanonicalLimitExceeded \<Rightarrow> 206 | EcInputNotWritten \<Rightarrow> 207
   | EcWrongResourceKind \<Rightarrow> 208 | EcNotProducer \<Rightarrow> 209 | EcRecordInvalid \<Rightarrow> 210 | EcOverflow \<Rightarrow> 211
   | EcPreconditionFailed \<Rightarrow> 212 | EcInternalError \<Rightarrow> 65535)"

definition error_code_scope :: "error_code \<Rightarrow> error_scope" where
  "error_code_scope c =
     (if c \<in> {EcVersionIncompatible, EcFrameTooLarge, EcInvalidCommand, EcPermissionDenied} then ErrConnection
      else if c \<in> {EcNotAttached, EcAlreadyAttached, EcSessionNotFound, EcWindowNotFound, EcClientNotFound,
        EcUnsafePaste, EcInputLeaseHeld, EcInputDeliveryUnknown, EcCanonicalLimitExceeded, EcInputNotWritten,
        EcNotProducer, EcRecordInvalid, EcOverflow, EcPreconditionFailed} then ErrRequest
      else ErrTerminal)"

definition error_code_from_wire :: "u16 \<Rightarrow> error_code option" where
  "error_code_from_wire value = map_of
     [(1, EcVersionIncompatible), (2, EcUnknownMessageType), (3, EcMalformedMessage), (4, EcFrameTooLarge),
      (6, EcCodecUnavailable), (100, EcNotAttached), (101, EcAlreadyAttached), (102, EcSessionNotFound),
      (103, EcWindowNotFound), (104, EcTerminalNotFound), (105, EcClientNotFound),
      (106, EcUnsupportedSatelliteRoute), (107, EcSatelliteUnreachable), (200, EcInvalidCommand),
      (201, EcPermissionDenied), (202, EcResourceExhausted), (203, EcUnsafePaste), (204, EcInputLeaseHeld),
      (205, EcInputDeliveryUnknown), (206, EcCanonicalLimitExceeded), (207, EcInputNotWritten),
      (208, EcWrongResourceKind), (209, EcNotProducer), (210, EcRecordInvalid), (211, EcOverflow),
      (212, EcPreconditionFailed), (65535, EcInternalError)] value"

datatype tombstone_reason = RawReplayOverflow | OutboundGap | TombResize | RelayReconnect
  | ExplicitReattach | TombCodecFailure | TombOther

definition tombstone_reason_as_wire :: "tombstone_reason \<Rightarrow> u8" where
  "tombstone_reason_as_wire r = (case r of RawReplayOverflow \<Rightarrow> 0 | OutboundGap \<Rightarrow> 1 | TombResize \<Rightarrow> 2
     | RelayReconnect \<Rightarrow> 3 | ExplicitReattach \<Rightarrow> 4 | TombCodecFailure \<Rightarrow> 5 | TombOther \<Rightarrow> 6)"

definition tombstone_reason_from_wire :: "u8 \<Rightarrow> tombstone_reason option" where
  "tombstone_reason_from_wire value = map_of
     [(0, RawReplayOverflow), (1, OutboundGap), (2, TombResize), (3, RelayReconnect), (4, ExplicitReattach),
      (5, TombCodecFailure), (6, TombOther)] value"

datatype detach_reason = DetachRequested | DetachServerShutdown | SessionKilled | Replaced
  | DetachProtocolError | DetachInternalError

definition detach_reason_as_wire :: "detach_reason \<Rightarrow> u8" where
  "detach_reason_as_wire r = (case r of DetachRequested \<Rightarrow> 0 | DetachServerShutdown \<Rightarrow> 1 | SessionKilled \<Rightarrow> 2
     | Replaced \<Rightarrow> 3 | DetachProtocolError \<Rightarrow> 4 | DetachInternalError \<Rightarrow> 255)"

definition detach_reason_from_wire :: "u8 \<Rightarrow> detach_reason option" where
  "detach_reason_from_wire value = map_of
     [(0, DetachRequested), (1, DetachServerShutdown), (2, SessionKilled), (3, Replaced),
      (4, DetachProtocolError), (255, DetachInternalError)] value"

datatype close_reason = CloseExited | CloseKilled | ParentClosed | CloseServerShutdown | CloseUnknown

definition close_reason_as_wire :: "close_reason \<Rightarrow> u8" where
  "close_reason_as_wire r = (case r of CloseExited \<Rightarrow> 0 | CloseKilled \<Rightarrow> 1 | ParentClosed \<Rightarrow> 2
     | CloseServerShutdown \<Rightarrow> 3 | CloseUnknown \<Rightarrow> 255)"

definition close_reason_from_wire :: "u8 \<Rightarrow> close_reason" where
  "close_reason_from_wire value = (if value = 0 then CloseExited else if value = 1 then CloseKilled
     else if value = 2 then ParentClosed else if value = 3 then CloseServerShutdown else CloseUnknown)"

datatype history_tombstone_reason = HtStale | HtPruned | HtReset | HtResize | HtExpired | HtReleased
  | HtLimit | HtCodecFailure

definition history_tombstone_reason_as_wire :: "history_tombstone_reason \<Rightarrow> u8" where
  "history_tombstone_reason_as_wire r = (case r of HtStale \<Rightarrow> 0 | HtPruned \<Rightarrow> 1 | HtReset \<Rightarrow> 2 | HtResize \<Rightarrow> 3
     | HtExpired \<Rightarrow> 4 | HtReleased \<Rightarrow> 5 | HtLimit \<Rightarrow> 6 | HtCodecFailure \<Rightarrow> 7)"

definition history_tombstone_reason_from_wire :: "u8 \<Rightarrow> history_tombstone_reason option" where
  "history_tombstone_reason_from_wire value = map_of
     [(0, HtStale), (1, HtPruned), (2, HtReset), (3, HtResize), (4, HtExpired), (5, HtReleased), (6, HtLimit),
      (7, HtCodecFailure)] value"

datatype history_rejection_reason = ZeroLimit | TooSmall | HrBusy

definition history_rejection_reason_as_wire :: "history_rejection_reason \<Rightarrow> u8" where
  "history_rejection_reason_as_wire r = (case r of ZeroLimit \<Rightarrow> 0 | TooSmall \<Rightarrow> 1 | HrBusy \<Rightarrow> 2)"

definition history_rejection_reason_from_wire :: "u8 \<Rightarrow> history_rejection_reason option" where
  "history_rejection_reason_from_wire value = map_of [(0, ZeroLimit), (1, TooSmall), (2, HrBusy)] value"

lemma error_code_wire [simp]: "error_code_from_wire (error_code_as_wire e) = Some e"
  by (cases e) (simp_all add: error_code_from_wire_def error_code_as_wire_def)

lemma tombstone_reason_wire [simp]: "tombstone_reason_from_wire (tombstone_reason_as_wire t) = Some t"
  by (cases t) (simp_all add: tombstone_reason_from_wire_def tombstone_reason_as_wire_def)

lemma detach_reason_wire [simp]: "detach_reason_from_wire (detach_reason_as_wire d) = Some d"
  by (cases d) (simp_all add: detach_reason_from_wire_def detach_reason_as_wire_def)

lemma history_tombstone_reason_wire [simp]: "history_tombstone_reason_from_wire (history_tombstone_reason_as_wire h) = Some h"
  by (cases h) (simp_all add: history_tombstone_reason_from_wire_def history_tombstone_reason_as_wire_def)

lemma history_rejection_reason_wire [simp]: "history_rejection_reason_from_wire (history_rejection_reason_as_wire r) = Some r"
  by (cases r) (simp_all add: history_rejection_reason_from_wire_def history_rejection_reason_as_wire_def)

lemma close_reason_wire [simp]: "close_reason_from_wire (close_reason_as_wire c) = c"
  by (cases c) (simp_all add: close_reason_from_wire_def close_reason_as_wire_def)

end
