(* ===== verification/Wire_Command.thy ===== *)
theory Wire_Command
  imports Wire_Info_Round Wire_Status
begin

text \<open>
  The control plane of the wire protocol: \<open>phux-protocol/src/wire/frame/command.rs\<close> and
  \<open>command_codec.rs\<close>. Commands, their results and the agent events, each with the encoder and
  the decoder of the source; the \<open>COMMAND\<close> decoder tries its families of tags in turn.
\<close>

section \<open>Enumerations\<close>

datatype resource_event_type = ShellStateChanged | CommandStartedType | CommandEnded | OutputReceived | PromptReady | GridChanged | CwdChangedType

definition resource_event_type_to_u8 :: "resource_event_type \<Rightarrow> u8" where
  "resource_event_type_to_u8 x = (case x of ShellStateChanged \<Rightarrow> 0 | CommandStartedType \<Rightarrow> 1 | CommandEnded \<Rightarrow> 2 | OutputReceived \<Rightarrow> 3 | PromptReady \<Rightarrow> 4 | GridChanged \<Rightarrow> 5 | CwdChangedType \<Rightarrow> 6)"

definition resource_event_type_from_u8 :: "u8 \<Rightarrow> resource_event_type option" where
  "resource_event_type_from_u8 v = map_of [(0, ShellStateChanged), (1, CommandStartedType), (2, CommandEnded), (3, OutputReceived), (4, PromptReady), (5, GridChanged), (6, CwdChangedType)] v"

datatype input_mode = Cooperative | Seize

definition input_mode_to_u8 :: "input_mode \<Rightarrow> u8" where
  "input_mode_to_u8 x = (case x of Cooperative \<Rightarrow> 0 | Seize \<Rightarrow> 1)"

definition input_mode_from_u8 :: "u8 \<Rightarrow> input_mode option" where
  "input_mode_from_u8 v = map_of [(0, Cooperative), (1, Seize)] v"

datatype terminal_signal = SigInterrupt | SigFreeze | SigResume | SigTerminate | SigKill

definition terminal_signal_to_u8 :: "terminal_signal \<Rightarrow> u8" where
  "terminal_signal_to_u8 x = (case x of SigInterrupt \<Rightarrow> 0 | SigFreeze \<Rightarrow> 1 | SigResume \<Rightarrow> 2 | SigTerminate \<Rightarrow> 3 | SigKill \<Rightarrow> 4)"

definition terminal_signal_from_u8 :: "u8 \<Rightarrow> terminal_signal option" where
  "terminal_signal_from_u8 v = map_of [(0, SigInterrupt), (1, SigFreeze), (2, SigResume), (3, SigTerminate), (4, SigKill)] v"

datatype reported_agent_state = AgentWorking | AgentBlocked | AgentDone

definition reported_agent_state_to_u8 :: "reported_agent_state \<Rightarrow> u8" where
  "reported_agent_state_to_u8 x = (case x of AgentWorking \<Rightarrow> 0 | AgentBlocked \<Rightarrow> 1 | AgentDone \<Rightarrow> 2)"

definition reported_agent_state_from_u8 :: "u8 \<Rightarrow> reported_agent_state option" where
  "reported_agent_state_from_u8 v = map_of [(0, AgentWorking), (1, AgentBlocked), (2, AgentDone)] v"

datatype resource_lifecycle = LcRunning | LcFrozen | LcExited

definition resource_lifecycle_to_u8 :: "resource_lifecycle \<Rightarrow> u8" where
  "resource_lifecycle_to_u8 x = (case x of LcRunning \<Rightarrow> 0 | LcFrozen \<Rightarrow> 1 | LcExited \<Rightarrow> 2)"

definition resource_lifecycle_from_u8 :: "u8 \<Rightarrow> resource_lifecycle option" where
  "resource_lifecycle_from_u8 v = map_of [(0, LcRunning), (1, LcFrozen), (2, LcExited)] v"

datatype control_action = CtlAcquired | CtlSeized | CtlReleased | CtlInterrupted | CtlFrozen | CtlResumed | CtlTerminated | CtlKilled | CtlExited

definition control_action_to_u8 :: "control_action \<Rightarrow> u8" where
  "control_action_to_u8 x = (case x of CtlAcquired \<Rightarrow> 0 | CtlSeized \<Rightarrow> 1 | CtlReleased \<Rightarrow> 2 | CtlInterrupted \<Rightarrow> 3 | CtlFrozen \<Rightarrow> 4 | CtlResumed \<Rightarrow> 5 | CtlTerminated \<Rightarrow> 6 | CtlKilled \<Rightarrow> 7 | CtlExited \<Rightarrow> 8)"

definition control_action_from_u8 :: "u8 \<Rightarrow> control_action option" where
  "control_action_from_u8 v = map_of [(0, CtlAcquired), (1, CtlSeized), (2, CtlReleased), (3, CtlInterrupted), (4, CtlFrozen), (5, CtlResumed), (6, CtlTerminated), (7, CtlKilled), (8, CtlExited)] v"

section \<open>Commands, results and events\<close>

datatype input_operation_id = InputOperationId (operation_bytes: bytes)
datatype file_upload_id = FileUploadId (upload_bytes: bytes)

definition input_operation_id_new :: "bytes \<Rightarrow> input_operation_id option" where
  "input_operation_id_new bs = (if list_ex (\<lambda>b. b \<noteq> 0) bs then Some (InputOperationId bs) else None)"

definition file_upload_id_new :: "bytes \<Rightarrow> file_upload_id option" where
  "file_upload_id_new bs = (if list_ex (\<lambda>b. b \<noteq> 0) bs then Some (FileUploadId bs) else None)"

datatype state_scope = ScopeServer

type_synonym kill_conditions = u8

definition kill_conditions_known :: u8 where
  "kill_conditions_known = 1"

definition kill_conditions_contains :: "kill_conditions \<Rightarrow> kill_conditions \<Rightarrow> bool" where
  "kill_conditions_contains a b \<longleftrightarrow> a AND b = b"

definition kill_conditions_unknown_bits :: "kill_conditions \<Rightarrow> u8" where
  "kill_conditions_unknown_bits a = a AND NOT kill_conditions_known"

record kill_precondition =
  kp_instance :: "server_instance option"
  kp_conditions :: kill_conditions

datatype command =
    CmdAttachResource wire_resource_id
  | CmdDetachResource wire_resource_id
  | CmdKillResource wire_resource_id
  | CmdGetState state_scope
  | CmdGetScreen wire_resource_id "u32 option" bool
  | CmdRouteInput wire_resource_id input_event
  | CmdApplyInput input_operation_id wire_resource_id "input_event list"
  | CmdKillResources "wire_resource_id list"
  | CmdDetachClients "str option"
  | CmdGetTerminalState wire_resource_id bool u16
  | CmdSubscribeResourceEvents wire_resource_id "resource_event_type list"
  | CmdUpgrade
  | CmdShutdown
  | CmdAcquireInput wire_resource_id input_mode u32
  | CmdReleaseInput wire_resource_id
  | CmdSignalTerminal wire_resource_id terminal_signal
  | CmdPutFile file_upload_id wire_resource_id str u64 bytes bool "bytes option"
  | CmdReportAsked wire_resource_id str str "str list" "u64 option"
  | CmdReportAgentState wire_resource_id reported_agent_state
  | CmdGetPerf bool
  | CmdTranscribe file_upload_id wire_resource_id
  | CmdAppendResourceOutput wire_resource_id bytes
  | CmdKillResourceIf wire_resource_id kill_precondition

record file_upload_ack =
  ack_next_offset :: u64
  ack_path :: "str option"

datatype command_value =
    ValResourceId wire_resource_id
  | ValGroupId group_id
  | ValState session_snapshot
  | ValJson str
  | ValBytes bytes
  | ValFileUpload file_upload_ack

datatype command_result =
    ResOk
  | ResOkWith command_value
  | ResError error_code str

text \<open>\<open>i32\<close> travels as its two's complement bits, and is modelled by them.\<close>

type_synonym i32 = u32

datatype agent_event =
    EvCommandStarted
  | EvCommandFinished "i32 option"
  | EvTitleChanged str
  | EvBell
  | EvResourceSpawned resource_kind "wire_resource_id option"
  | EvResourceClosed "i32 option"
  | EvDirty
  | EvIdle
  | EvTerminalControl resource_lifecycle "i32 option" "client_id option" control_action "client_id option"
  | EvAsked str str "str list" "u64 option"
  | EvCwdChanged str
  | EvUnknown u8 bytes

section \<open>Encoding\<close>

abbreviation write_bool :: "bool \<Rightarrow> bytes" where
  "write_bool b \<equiv> write_u8 (if b then 1 else 0)"

definition encode_input_event :: "input_event \<Rightarrow> bytes" where
  "encode_input_event e = (case e of
     InputEventKey k \<Rightarrow> write_u8 0 @ encode_key_event k
   | InputEventMouse m \<Rightarrow> write_u8 1 @ encode_mouse_event m
   | InputEventFocus f \<Rightarrow> write_u8 2 @ write_u8 (encode_focus_event f)
   | InputEventPaste p \<Rightarrow> write_u8 3 @ encode_paste_event p)"

definition encode_kill_precondition :: "kill_precondition \<Rightarrow> bytes" where
  "encode_kill_precondition p = write_opt encode_server_instance (kp_instance p) @ write_u8 (kp_conditions p)"

definition encode_asked_fields :: "str \<Rightarrow> str \<Rightarrow> str list \<Rightarrow> u64 option \<Rightarrow> fields" where
  "encode_asked_fields aid question suggestions elapsed =
     [(1, aid), (2, question)] @ map (\<lambda>s. (3, s)) suggestions
     @ (case elapsed of None \<Rightarrow> [] | Some secs \<Rightarrow> [(4, write_u64_be secs)])"

definition encode_state_scope :: "state_scope \<Rightarrow> bytes" where
  "encode_state_scope s = (case s of ScopeServer \<Rightarrow> write_u8 0)"

text \<open>\<open>u16::try_from(len).unwrap_or(dflt)\<close>.\<close>

definition count16_or :: "u16 \<Rightarrow> nat \<Rightarrow> u16" where
  "count16_or dflt n = (if n < 2 ^ 16 then of_nat n else dflt)"

definition encode_command :: "command \<Rightarrow> bytes" where
  "encode_command c = (case c of
     CmdAttachResource rid \<Rightarrow> write_u8 0x01 @ encode_terminal_id rid
   | CmdDetachResource rid \<Rightarrow> write_u8 0x02 @ encode_terminal_id rid
   | CmdKillResource rid \<Rightarrow> write_u8 0x03 @ encode_terminal_id rid
   | CmdKillResourceIf rid pre \<Rightarrow> write_u8 0x1b @ encode_terminal_id rid @ encode_kill_precondition pre
   | CmdGetState scope \<Rightarrow> write_u8 0x05 @ encode_state_scope scope
   | CmdGetScreen rid scrollback cells \<Rightarrow>
       write_u8 0x07 @ encode_terminal_id rid @ encode_optional_u32 scrollback @ write_bool cells
   | CmdRouteInput rid event \<Rightarrow> write_u8 0x08 @ encode_terminal_id rid @ encode_input_event event
   | CmdApplyInput op rid events \<Rightarrow>
       write_u8 0x14 @ write_all write_u8 (operation_bytes op) @ encode_terminal_id rid
       @ write_u16_be (count16_or 0xFFFF (length events)) @ write_all encode_input_event events
   | CmdKillResources ids \<Rightarrow>
       write_u8 0x09 @ write_u16_be (count16_or 0xFFFF (length ids)) @ write_all encode_terminal_id ids
   | CmdDetachClients session \<Rightarrow> write_u8 0x13 @ write_opt write_str session
   | CmdGetTerminalState rid include lines \<Rightarrow>
       write_u8 0x0c @ encode_terminal_id rid @ write_bool include @ write_u16_be lines
   | CmdSubscribeResourceEvents rid types \<Rightarrow>
       write_u8 0x0d @ encode_terminal_id rid @ write_u16_be (count16_or 0 (length types))
       @ write_all (\<lambda>t. write_u8 (resource_event_type_to_u8 t)) types
   | CmdUpgrade \<Rightarrow> write_u8 0x0e
   | CmdShutdown \<Rightarrow> write_u8 0x16
   | CmdGetPerf reset \<Rightarrow> write_u8 0x18 @ write_bool reset
   | CmdTranscribe upload rid \<Rightarrow>
       write_u8 0x19 @ write_all write_u8 (upload_bytes upload) @ encode_terminal_id rid
   | CmdAcquireInput rid mode ttl \<Rightarrow>
       write_u8 0x0f @ encode_terminal_id rid @ write_u8 (input_mode_to_u8 mode) @ write_u32_be ttl
   | CmdReleaseInput rid \<Rightarrow> write_u8 0x10 @ encode_terminal_id rid
   | CmdSignalTerminal rid signal \<Rightarrow>
       write_u8 0x11 @ encode_terminal_id rid @ write_u8 (terminal_signal_to_u8 signal)
   | CmdPutFile upload rid extension offset data final sha \<Rightarrow>
       write_u8 0x15 @ write_all write_u8 (upload_bytes upload) @ encode_terminal_id rid @ write_str extension
       @ write_u64_be offset @ write_bytes data @ write_bool final @ write_opt (write_all write_u8) sha
   | CmdReportAsked rid aid question suggestions elapsed \<Rightarrow>
       write_u8 0x12 @ encode_terminal_id rid
       @ write_fields (encode_asked_fields aid question suggestions elapsed)
   | CmdReportAgentState rid state \<Rightarrow>
       write_u8 0x17 @ encode_terminal_id rid @ write_u8 (reported_agent_state_to_u8 state)
   | CmdAppendResourceOutput rid data \<Rightarrow> write_u8 0x1a @ encode_terminal_id rid @ write_bytes data)"

definition encode_command_value :: "externs \<Rightarrow> command_value \<Rightarrow> bytes" where
  "encode_command_value ext v = (case v of
     ValResourceId rid \<Rightarrow> write_u8 0 @ encode_terminal_id rid
   | ValGroupId (GroupId g) \<Rightarrow> write_u8 1 @ write_u32_be g
   | ValState snapshot \<Rightarrow> write_u8 2 @ encode_session_snapshot ext snapshot
   | ValJson s \<Rightarrow> write_u8 3 @ write_str s
   | ValBytes b \<Rightarrow> write_u8 4 @ write_bytes b
   | ValFileUpload ack \<Rightarrow> write_u8 5 @ write_u64_be (ack_next_offset ack) @ write_opt write_str (ack_path ack))"

definition encode_command_result :: "externs \<Rightarrow> command_result \<Rightarrow> bytes" where
  "encode_command_result ext r = (case r of
     ResOk \<Rightarrow> write_u8 0
   | ResOkWith value \<Rightarrow> write_u8 1 @ encode_command_value ext value
   | ResError code msg \<Rightarrow> write_u8 2 @ write_u16_be (error_code_as_wire code) @ write_str msg)"

definition encode_optional_i32 :: "i32 option \<Rightarrow> bytes" where
  "encode_optional_i32 = write_opt write_u32_be"

definition encode_optional_client_id :: "client_id option \<Rightarrow> bytes" where
  "encode_optional_client_id = write_opt encode_client_id"

definition agent_event_body :: "agent_event \<Rightarrow> u8 \<times> bytes" where
  "agent_event_body e = (case e of
     EvCommandStarted \<Rightarrow> (0x00, [])
   | EvCommandFinished exit_code \<Rightarrow> (0x01, encode_optional_i32 exit_code)
   | EvTitleChanged title \<Rightarrow> (0x02, write_str title)
   | EvBell \<Rightarrow> (0x03, [])
   | EvResourceSpawned kind parent \<Rightarrow>
       (0x04, write_fields ((if is_terminal kind then [] else [(1, [resource_kind_as_wire kind])])
         @ (case parent of None \<Rightarrow> [] | Some rid \<Rightarrow> [(2, encode_terminal_id rid)])))
   | EvResourceClosed exit_status \<Rightarrow> (0x05, encode_optional_i32 exit_status)
   | EvDirty \<Rightarrow> (0x06, [])
   | EvIdle \<Rightarrow> (0x07, [])
   | EvTerminalControl lifecycle exit_status holder action actor \<Rightarrow>
       (0x08, write_u8 (resource_lifecycle_to_u8 lifecycle) @ encode_optional_i32 exit_status
         @ encode_optional_client_id holder @ write_u8 (control_action_to_u8 action)
         @ encode_optional_client_id actor)
   | EvAsked aid question suggestions elapsed \<Rightarrow>
       (0x09, write_fields (encode_asked_fields aid question suggestions elapsed))
   | EvCwdChanged cwd \<Rightarrow> (0x0a, write_str cwd)
   | EvUnknown tag body \<Rightarrow> (tag, body))"

definition encode_agent_event :: "agent_event \<Rightarrow> bytes" where
  "encode_agent_event e = (case agent_event_body e of (tag, body) \<Rightarrow> write_u8 tag @ write_bytes body)"

section \<open>Decoding\<close>

definition decode_input_event :: "input_event reader" where
  "decode_input_event = bind_r read_u8 (\<lambda>tag.
     if tag = 0 then bind_r decode_key_event (\<lambda>k. ret_r (InputEventKey k))
     else if tag = 1 then bind_r decode_mouse_event (\<lambda>m. ret_r (InputEventMouse m))
     else if tag = 2 then bind_r read_u8 (\<lambda>f. bind_r (lift_r (decode_focus_event f)) (\<lambda>e. ret_r (InputEventFocus e)))
     else if tag = 3 then bind_r decode_paste_event (\<lambda>p. ret_r (InputEventPaste p))
     else fail_r (unknown_enum ''InputEvent'' tag))"

definition max_append_bytes :: nat where
  "max_append_bytes = 64 * 1024"

definition decode_append_resource_output_command :: "command reader" where
  "decode_append_resource_output_command = bind_r decode_terminal_id (\<lambda>rid. bind_r read_bytes (\<lambda>data.
     if data = [] \<or> max_append_bytes < length data then fail_r AppendResourceOutputLimitExceeded
     else ret_r (CmdAppendResourceOutput rid data)))"

definition decode_resource_command :: "u8 \<Rightarrow> command option reader" where
  "decode_resource_command tag =
     (if tag = 0x1a then bind_r decode_append_resource_output_command (\<lambda>c. ret_r (Some c)) else ret_r None)"

definition decode_kill_precondition :: "kill_precondition reader" where
  "decode_kill_precondition = bind_r (read_opt ''Option<ServerInstance> tag'' decode_server_instance) (\<lambda>inst.
     bind_r read_u8 (\<lambda>conditions. ret_r \<lparr>kp_instance = inst, kp_conditions = conditions\<rparr>))"

definition decode_terminal_subscription_command :: "u8 \<Rightarrow> command option reader" where
  "decode_terminal_subscription_command tag =
     (if tag = 0x01 then bind_r decode_terminal_id (\<lambda>rid. ret_r (Some (CmdAttachResource rid)))
      else if tag = 0x02 then bind_r decode_terminal_id (\<lambda>rid. ret_r (Some (CmdDetachResource rid)))
      else if tag = 0x03 then bind_r decode_terminal_id (\<lambda>rid. ret_r (Some (CmdKillResource rid)))
      else if tag = 0x1b then bind_r decode_terminal_id (\<lambda>rid. bind_r decode_kill_precondition (\<lambda>pre.
        ret_r (Some (CmdKillResourceIf rid pre))))
      else ret_r None)"

definition decode_get_screen_command :: "command reader" where
  "decode_get_screen_command = bind_r decode_terminal_id (\<lambda>rid. bind_r decode_optional_u32 (\<lambda>scrollback.
     bind_r (get_r at_body_end) (\<lambda>done.
     bind_r (if done then ret_r False else bind_r read_u8 (\<lambda>b. ret_r (b \<noteq> 0))) (\<lambda>cells.
       ret_r (CmdGetScreen rid scrollback cells)))))"

definition max_apply_input_events :: nat where
  "max_apply_input_events = 256"

definition max_apply_input_command_body :: nat where
  "max_apply_input_command_body = 64 * 1024"

definition decode_apply_input_command :: "nat \<Rightarrow> command reader" where
  "decode_apply_input_command command_body_len =
     (if max_apply_input_command_body < command_body_len then fail_r ApplyInputLimitExceeded
      else bind_r (read_n read_u8 16) (\<lambda>bs.
        bind_r (known_or InvalidInputOperationId (input_operation_id_new bs)) (\<lambda>op.
        bind_r decode_terminal_id (\<lambda>rid. bind_r read_u16_be (\<lambda>n.
          if max_apply_input_events < unat n then fail_r ApplyInputLimitExceeded
          else bind_r (read_n decode_input_event (unat n)) (\<lambda>events. ret_r (CmdApplyInput op rid events)))))))"

definition decode_get_terminal_state_command :: "command reader" where
  "decode_get_terminal_state_command = bind_r decode_terminal_id (\<lambda>rid. bind_r read_u8 (\<lambda>include.
     bind_r read_u16_be (\<lambda>lines. ret_r (CmdGetTerminalState rid (include \<noteq> 0) lines))))"

definition decode_subscribe_terminal_events_command :: "command reader" where
  "decode_subscribe_terminal_events_command = bind_r decode_terminal_id (\<lambda>rid. bind_r read_u16_be (\<lambda>n.
     bind_r (read_n read_u8 (unat n)) (\<lambda>bs.
       ret_r (CmdSubscribeResourceEvents rid (List.map_filter resource_event_type_from_u8 bs)))))"

definition decode_file_upload_id :: "file_upload_id reader" where
  "decode_file_upload_id = bind_r (read_n read_u8 16) (\<lambda>bs. known_or InvalidFileUploadId (file_upload_id_new bs))"

definition decode_put_file_extension :: "str reader" where
  "decode_put_file_extension = bind_r read_str (\<lambda>extension.
     if 16 < length extension then fail_r FileUploadLimitExceeded else ret_r extension)"

definition max_file_upload_chunk :: nat where
  "max_file_upload_chunk = 8 * 1024 * 1024"

definition max_file_upload_size :: nat where
  "max_file_upload_size = 64 * 1024 * 1024"

definition decode_put_file_chunk :: "u64 \<Rightarrow> bytes reader" where
  "decode_put_file_chunk offset = bind_r read_bytes (\<lambda>data.
     if max_file_upload_chunk < length data \<or> 2 ^ 64 \<le> unat offset + length data
        \<or> max_file_upload_size < unat offset + length data
     then fail_r FileUploadLimitExceeded else ret_r data)"

definition decode_optional_sha256 :: "bytes option reader" where
  "decode_optional_sha256 = bind_r read_u8 (\<lambda>tag.
     if tag = 0 then ret_r None else bind_r (read_n read_u8 32) (\<lambda>digest. ret_r (Some digest)))"

definition decode_put_file_command :: "command reader" where
  "decode_put_file_command = bind_r decode_file_upload_id (\<lambda>upload. bind_r decode_terminal_id (\<lambda>rid.
     bind_r decode_put_file_extension (\<lambda>extension. bind_r read_u64_be (\<lambda>offset.
     bind_r (decode_put_file_chunk offset) (\<lambda>data. bind_r read_u8 (\<lambda>final.
     bind_r decode_optional_sha256 (\<lambda>sha.
       ret_r (CmdPutFile upload rid extension offset data (final \<noteq> 0) sha))))))))"

definition decode_live_affordance_command :: "u8 \<Rightarrow> nat \<Rightarrow> command option reader" where
  "decode_live_affordance_command tag command_body_len =
     (let some = (\<lambda>r. bind_r r (\<lambda>c. ret_r (Some c)))
      in if tag = 0x07 then some decode_get_screen_command
         else if tag = 0x08 then bind_r decode_terminal_id (\<lambda>rid. bind_r decode_input_event (\<lambda>event.
           ret_r (Some (CmdRouteInput rid event))))
         else if tag = 0x14 then some (decode_apply_input_command command_body_len)
         else if tag = 0x0c then some decode_get_terminal_state_command
         else if tag = 0x0d then some decode_subscribe_terminal_events_command
         else if tag = 0x15 then some decode_put_file_command
         else if tag = 0x19 then bind_r decode_file_upload_id (\<lambda>upload. bind_r decode_terminal_id (\<lambda>rid.
           ret_r (Some (CmdTranscribe upload rid))))
         else ret_r None)"

definition decode_acquire_input_command :: "command reader" where
  "decode_acquire_input_command = bind_r decode_terminal_id (\<lambda>rid. bind_r read_u8 (\<lambda>m.
     bind_r (known_or (UnknownEnumValue ''InputMode'' 0) (input_mode_from_u8 m)) (\<lambda>mode.
     bind_r read_u32_be (\<lambda>ttl. ret_r (CmdAcquireInput rid mode ttl)))))"

definition decode_signal_terminal_command :: "command reader" where
  "decode_signal_terminal_command = bind_r decode_terminal_id (\<lambda>rid. bind_r read_u8 (\<lambda>s.
     bind_r (known_or (UnknownEnumValue ''TerminalSignal'' 0) (terminal_signal_from_u8 s)) (\<lambda>signal.
       ret_r (CmdSignalTerminal rid signal))))"

definition decode_supervisory_command :: "u8 \<Rightarrow> command option reader" where
  "decode_supervisory_command tag =
     (if tag = 0x0f then bind_r decode_acquire_input_command (\<lambda>c. ret_r (Some c))
      else if tag = 0x10 then bind_r decode_terminal_id (\<lambda>rid. ret_r (Some (CmdReleaseInput rid)))
      else if tag = 0x11 then bind_r decode_signal_terminal_command (\<lambda>c. ret_r (Some c))
      else ret_r None)"

text \<open>\<open>decode_asked_event\<close> builds the same event in every case; its four fields are the result here.\<close>

definition asked_step :: "str \<times> str \<times> str list \<times> u64 option \<Rightarrow> u32 \<Rightarrow> bytes
    \<Rightarrow> decode_error + str \<times> str \<times> str list \<times> u64 option" where
  "asked_step st fid v = (case st of (aid, question, suggestions, elapsed) \<Rightarrow>
     if fid = 1 then rbind (from_utf8 v) (\<lambda>s. Ok (s, question, suggestions, elapsed))
     else if fid = 2 then rbind (from_utf8 v) (\<lambda>s. Ok (aid, s, suggestions, elapsed))
     else if fid = 3 then rbind (from_utf8 v) (\<lambda>s. Ok (aid, question, suggestions @ [s], elapsed))
     else if fid = 4 then rbind (sub_r read_u64_be v) (\<lambda>n. Ok (aid, question, suggestions, Some n))
     else Ok st)"

definition decode_asked_event :: "(str \<times> str \<times> str list \<times> u64 option) reader" where
  "decode_asked_event = fields_loop asked_step ([], [], [], None)"

definition decode_report_asked_command :: "command reader" where
  "decode_report_asked_command = bind_r decode_terminal_id (\<lambda>rid.
     bind_r decode_asked_event (\<lambda>(aid, question, suggestions, elapsed).
       ret_r (CmdReportAsked rid aid question suggestions elapsed)))"

definition decode_report_agent_state_command :: "command reader" where
  "decode_report_agent_state_command = bind_r decode_terminal_id (\<lambda>rid. bind_r read_u8 (\<lambda>v.
     bind_r (known_or (unknown_enum ''ReportedAgentState'' v) (reported_agent_state_from_u8 v)) (\<lambda>state.
       ret_r (CmdReportAgentState rid state))))"

definition decode_agent_report_command :: "u8 \<Rightarrow> command option reader" where
  "decode_agent_report_command tag =
     (if tag = 0x12 then bind_r decode_report_asked_command (\<lambda>c. ret_r (Some c))
      else if tag = 0x17 then bind_r decode_report_agent_state_command (\<lambda>c. ret_r (Some c))
      else ret_r None)"

definition decode_state_scope :: "state_scope reader" where
  "decode_state_scope = bind_r read_u8 (\<lambda>tag.
     if tag = 0 then ret_r ScopeServer else fail_r (unknown_enum ''StateScope'' tag))"

definition decode_kill_terminals_command :: "command reader" where
  "decode_kill_terminals_command = bind_r read_u16_be (\<lambda>n.
     bind_r (read_n decode_terminal_id (unat n)) (\<lambda>ids. ret_r (CmdKillResources ids)))"

definition decode_detach_clients_command :: "command reader" where
  "decode_detach_clients_command = bind_r read_u8 (\<lambda>tag.
     if tag \<noteq> 0 then bind_r read_str (\<lambda>s. ret_r (CmdDetachClients (Some s))) else ret_r (CmdDetachClients None))"

definition decode_session_command :: "u8 \<Rightarrow> command option reader" where
  "decode_session_command tag =
     (if tag = 0x05 then bind_r decode_state_scope (\<lambda>scope. ret_r (Some (CmdGetState scope)))
      else if tag = 0x09 then bind_r decode_kill_terminals_command (\<lambda>c. ret_r (Some c))
      else if tag = 0x13 then bind_r decode_detach_clients_command (\<lambda>c. ret_r (Some c))
      else if tag = 0x0e then ret_r (Some CmdUpgrade)
      else if tag = 0x16 then ret_r (Some CmdShutdown)
      else if tag = 0x18 then bind_r read_u8 (\<lambda>b. ret_r (Some (CmdGetPerf (b \<noteq> 0))))
      else ret_r None)"

definition or_else_r :: "'a option reader \<Rightarrow> 'a reader \<Rightarrow> 'a reader" where
  "or_else_r r s = bind_r r (\<lambda>x. case x of Some c \<Rightarrow> ret_r c | None \<Rightarrow> s)"

definition decode_command :: "command reader" where
  "decode_command = bind_r (get_r remaining_in_body) (\<lambda>command_body_len. bind_r read_u8 (\<lambda>tag.
     or_else_r (decode_terminal_subscription_command tag)
     (or_else_r (decode_live_affordance_command tag command_body_len)
     (or_else_r (decode_supervisory_command tag)
     (or_else_r (decode_agent_report_command tag)
     (or_else_r (decode_session_command tag)
     (or_else_r (decode_resource_command tag)
       (fail_r (unknown_enum ''Command'' tag)))))))))"

definition decode_command_value :: "externs \<Rightarrow> command_value reader" where
  "decode_command_value ext = bind_r read_u8 (\<lambda>tag.
     if tag = 0 then bind_r decode_terminal_id (\<lambda>rid. ret_r (ValResourceId rid))
     else if tag = 1 then bind_r read_u32_be (\<lambda>g. ret_r (ValGroupId (GroupId g)))
     else if tag = 2 then bind_r (decode_session_snapshot ext) (\<lambda>s. ret_r (ValState s))
     else if tag = 3 then bind_r read_str (\<lambda>s. ret_r (ValJson s))
     else if tag = 4 then bind_r read_bytes (\<lambda>b. ret_r (ValBytes b))
     else if tag = 5 then bind_r read_u64_be (\<lambda>offset. bind_r read_u8 (\<lambda>t.
       if t = 0 then ret_r (ValFileUpload \<lparr>ack_next_offset = offset, ack_path = None\<rparr>)
       else bind_r read_str (\<lambda>path. ret_r (ValFileUpload \<lparr>ack_next_offset = offset, ack_path = Some path\<rparr>))))
     else fail_r (unknown_enum ''CommandValue'' tag))"

definition decode_command_result :: "externs \<Rightarrow> command_result reader" where
  "decode_command_result ext = bind_r read_u8 (\<lambda>tag.
     if tag = 0 then ret_r ResOk
     else if tag = 1 then bind_r (decode_command_value ext) (\<lambda>v. ret_r (ResOkWith v))
     else if tag = 2 then bind_r read_u16_be (\<lambda>code_raw.
       bind_r (known_or (UnknownEnumValue ''ErrorCode'' (ucast code_raw)) (error_code_from_wire code_raw)) (\<lambda>code.
       bind_r read_str (\<lambda>msg. ret_r (ResError code msg))))
     else fail_r (unknown_enum ''CommandResult'' tag))"

definition decode_optional_i32 :: "i32 option reader" where
  "decode_optional_i32 = read_opt ''Option<i32> tag'' read_u32_be"

definition decode_optional_client_id :: "client_id option reader" where
  "decode_optional_client_id = read_opt ''Option<ClientId> tag'' decode_client_id"

definition decode_terminal_control_event :: "agent_event reader" where
  "decode_terminal_control_event = bind_r read_u8 (\<lambda>l.
     bind_r (known_or (UnknownEnumValue ''ResourceLifecycle'' 0) (resource_lifecycle_from_u8 l)) (\<lambda>lifecycle.
     bind_r decode_optional_i32 (\<lambda>exit_status. bind_r decode_optional_client_id (\<lambda>holder.
     bind_r read_u8 (\<lambda>a.
     bind_r (known_or (UnknownEnumValue ''ControlAction'' 0) (control_action_from_u8 a)) (\<lambda>action.
     bind_r decode_optional_client_id (\<lambda>actor.
       ret_r (EvTerminalControl lifecycle exit_status holder action actor))))))))"

definition pane_spawned_step :: "resource_kind \<times> wire_resource_id option \<Rightarrow> u32 \<Rightarrow> bytes
    \<Rightarrow> decode_error + resource_kind \<times> wire_resource_id option" where
  "pane_spawned_step st fid v = (case st of (kind, parent) \<Rightarrow>
     if fid = 1 then rbind (sub_r read_u8 v) (\<lambda>k. Ok (resource_kind_from_wire k, parent))
     else if fid = 2 then rbind (sub_r decode_terminal_id v) (\<lambda>rid. Ok (kind, Some rid))
     else Ok st)"

definition decode_pane_spawned_event :: "agent_event reader" where
  "decode_pane_spawned_event = bind_r (fields_loop pane_spawned_step (KindTerminal, None)) (\<lambda>(kind, parent).
     ret_r (EvResourceSpawned kind parent))"

definition decode_agent_event_body :: "u8 \<Rightarrow> bytes \<Rightarrow> decode_error + agent_event" where
  "decode_agent_event_body tag body =
     (if tag = 0x00 then Ok EvCommandStarted
      else if tag = 0x01 then rbind (sub_r decode_optional_i32 body) (\<lambda>c. Ok (EvCommandFinished c))
      else if tag = 0x02 then rbind (sub_r read_str body) (\<lambda>t. Ok (EvTitleChanged t))
      else if tag = 0x03 then Ok EvBell
      else if tag = 0x04 then sub_r decode_pane_spawned_event body
      else if tag = 0x05 then rbind (sub_r decode_optional_i32 body) (\<lambda>c. Ok (EvResourceClosed c))
      else if tag = 0x06 then Ok EvDirty
      else if tag = 0x07 then Ok EvIdle
      else if tag = 0x08 then sub_r decode_terminal_control_event body
      else if tag = 0x09 then rbind (sub_r decode_asked_event body) (\<lambda>(aid, question, suggestions, elapsed).
        Ok (EvAsked aid question suggestions elapsed))
      else if tag = 0x0a then rbind (sub_r read_str body) (\<lambda>c. Ok (EvCwdChanged c))
      else Ok (EvUnknown tag body))"

definition decode_agent_event :: "agent_event reader" where
  "decode_agent_event = bind_r read_u8 (\<lambda>tag. bind_r read_bytes (\<lambda>body. lift_r (decode_agent_event_body tag body)))"

section \<open>Discriminants\<close>

lemma resource_event_type_u8 [simp]: "resource_event_type_from_u8 (resource_event_type_to_u8 x) = Some x"
  by (cases x) (simp_all add: resource_event_type_from_u8_def resource_event_type_to_u8_def)

lemma input_mode_u8 [simp]: "input_mode_from_u8 (input_mode_to_u8 x) = Some x"
  by (cases x) (simp_all add: input_mode_from_u8_def input_mode_to_u8_def)

lemma terminal_signal_u8 [simp]: "terminal_signal_from_u8 (terminal_signal_to_u8 x) = Some x"
  by (cases x) (simp_all add: terminal_signal_from_u8_def terminal_signal_to_u8_def)

lemma reported_agent_state_u8 [simp]: "reported_agent_state_from_u8 (reported_agent_state_to_u8 x) = Some x"
  by (cases x) (simp_all add: reported_agent_state_from_u8_def reported_agent_state_to_u8_def)

lemma resource_lifecycle_u8 [simp]: "resource_lifecycle_from_u8 (resource_lifecycle_to_u8 x) = Some x"
  by (cases x) (simp_all add: resource_lifecycle_from_u8_def resource_lifecycle_to_u8_def)

lemma control_action_u8 [simp]: "control_action_from_u8 (control_action_to_u8 x) = Some x"
  by (cases x) (simp_all add: control_action_from_u8_def control_action_to_u8_def)

end
