(* ===== verification/Wire_Command_Round.thy ===== *)
theory Wire_Command_Round
  imports Wire_Command
begin

text \<open>
  The control-plane codec of \<open>command_codec.rs\<close>: its decoders stay inside their input, and every
  well-formed command, result and event is read back as it was written.
\<close>

section \<open>Bounds\<close>

lemma bounded_case_option [inv_intros]:
  "bounded s \<Longrightarrow> (\<And>c. bounded (f c)) \<Longrightarrow> bounded (case x of None \<Rightarrow> s | Some c \<Rightarrow> f c)"
  by (cases x) simp_all

lemma bounded_case_prod [inv_intros]: "(\<And>a b. bounded (f a b)) \<Longrightarrow> bounded (case_prod f x)"
  by (cases x) simp

lemma bounded_or_else [inv_intros]: "bounded r \<Longrightarrow> bounded s \<Longrightarrow> bounded (or_else_r r s)"
  unfolding or_else_r_def by (intro inv_intros)

lemma bounded_command_parts [inv_intros]:
  "bounded decode_input_event" "bounded decode_append_resource_output_command" "bounded decode_kill_precondition"
  "bounded decode_get_screen_command" "bounded decode_get_terminal_state_command"
  "bounded decode_subscribe_terminal_events_command" "bounded decode_file_upload_id"
  "bounded decode_put_file_extension" "bounded (decode_put_file_chunk offset)" "bounded decode_optional_sha256"
  "bounded decode_acquire_input_command" "bounded decode_signal_terminal_command" "bounded decode_asked_event"
  "bounded decode_report_agent_state_command" "bounded decode_state_scope" "bounded decode_kill_terminals_command"
  "bounded decode_detach_clients_command" "bounded (decode_command_value ext)" "bounded decode_optional_i32"
  "bounded decode_optional_client_id" "bounded decode_agent_event"
  unfolding decode_input_event_def decode_append_resource_output_command_def decode_kill_precondition_def
    decode_get_screen_command_def decode_get_terminal_state_command_def
    decode_subscribe_terminal_events_command_def decode_file_upload_id_def decode_put_file_extension_def
    decode_put_file_chunk_def decode_optional_sha256_def decode_acquire_input_command_def
    decode_signal_terminal_command_def decode_asked_event_def decode_report_agent_state_command_def
    decode_state_scope_def decode_kill_terminals_command_def decode_detach_clients_command_def
    decode_command_value_def decode_optional_i32_def decode_optional_client_id_def decode_agent_event_def
  by (intro inv_intros)+

lemma bounded_command_families [inv_intros]:
  "bounded decode_put_file_command" "bounded (decode_apply_input_command len)"
  "bounded decode_report_asked_command" "bounded (decode_command_result ext)"
  unfolding decode_put_file_command_def decode_apply_input_command_def decode_report_asked_command_def
    decode_command_result_def
  by (intro inv_intros)+

lemma bounded_decode_command [inv_intros]: "bounded decode_command"
  unfolding decode_command_def decode_terminal_subscription_command_def decode_live_affordance_command_def
    decode_supervisory_command_def decode_agent_report_command_def decode_session_command_def
    decode_resource_command_def Let_def
  by (intro inv_intros)

section \<open>Well-formed commands\<close>

definition wf_id16 :: "bytes \<Rightarrow> bool" where
  "wf_id16 bs \<longleftrightarrow> length bs = 16 \<and> list_ex (\<lambda>b. b \<noteq> 0) bs"

definition wf_command :: "command \<Rightarrow> bool" where
  "wf_command c = (case c of
     CmdAttachResource rid \<Rightarrow> wf_rid rid
   | CmdDetachResource rid \<Rightarrow> wf_rid rid
   | CmdKillResource rid \<Rightarrow> wf_rid rid
   | CmdGetScreen rid _ _ \<Rightarrow> wf_rid rid
   | CmdRouteInput rid event \<Rightarrow> wf_rid rid \<and> wf_input_event event
   | CmdApplyInput op rid events \<Rightarrow> wf_id16 (operation_bytes op) \<and> wf_rid rid \<and> list_all wf_input_event events
       \<and> length events \<le> max_apply_input_events \<and> length (encode_command c) \<le> max_apply_input_command_body
   | CmdKillResources ids \<Rightarrow> list_all wf_rid ids \<and> length ids < 2 ^ 16
   | CmdDetachClients session \<Rightarrow> wf_opt utf8_valid session
   | CmdGetTerminalState rid _ _ \<Rightarrow> wf_rid rid
   | CmdSubscribeResourceEvents rid types \<Rightarrow> wf_rid rid \<and> length types < 2 ^ 16
   | CmdAcquireInput rid _ _ \<Rightarrow> wf_rid rid
   | CmdReleaseInput rid \<Rightarrow> wf_rid rid
   | CmdSignalTerminal rid _ \<Rightarrow> wf_rid rid
   | CmdPutFile upload rid extension offset data _ sha \<Rightarrow> wf_id16 (upload_bytes upload) \<and> wf_rid rid
       \<and> utf8_valid extension \<and> length extension \<le> 16 \<and> length data \<le> max_file_upload_chunk
       \<and> unat offset + length data \<le> max_file_upload_size \<and> wf_opt (\<lambda>d. length d = 32) sha
   | CmdReportAsked rid aid question suggestions _ \<Rightarrow> wf_rid rid \<and> utf8_valid aid \<and> utf8_valid question
       \<and> list_all utf8_valid suggestions
   | CmdReportAgentState rid _ \<Rightarrow> wf_rid rid
   | CmdTranscribe upload rid \<Rightarrow> wf_id16 (upload_bytes upload) \<and> wf_rid rid
   | CmdAppendResourceOutput rid data \<Rightarrow> wf_rid rid \<and> data \<noteq> [] \<and> length data \<le> max_append_bytes
   | CmdKillResourceIf rid pre \<Rightarrow> wf_rid rid \<and> wf_opt (\<lambda>i. length (instance_bytes i) = 16) (kp_instance pre)
   | _ \<Rightarrow> True)"

definition wf_command_result :: "externs \<Rightarrow> command_result \<Rightarrow> bool" where
  "wf_command_result ext r = (case r of
     ResOk \<Rightarrow> True
   | ResError _ msg \<Rightarrow> utf8_valid msg
   | ResOkWith v \<Rightarrow> (case v of ValResourceId rid \<Rightarrow> wf_rid rid | ValGroupId _ \<Rightarrow> True | ValState s \<Rightarrow> wf_snapshot ext s
       | ValJson s \<Rightarrow> utf8_valid s | ValBytes _ \<Rightarrow> True | ValFileUpload ack \<Rightarrow> wf_opt utf8_valid (ack_path ack)))"

definition wf_agent_event :: "agent_event \<Rightarrow> bool" where
  "wf_agent_event e = (case e of
     EvTitleChanged t \<Rightarrow> utf8_valid t
   | EvResourceSpawned kind parent \<Rightarrow> wf_kind kind \<and> wf_opt wf_rid parent
   | EvAsked aid question suggestions _ \<Rightarrow> utf8_valid aid \<and> utf8_valid question \<and> list_all utf8_valid suggestions
   | EvCwdChanged cwd \<Rightarrow> utf8_valid cwd
   | EvUnknown tag _ \<Rightarrow> 0x0a < tag
   | _ \<Rightarrow> True)"

section \<open>Building blocks\<close>

lemma reads_u8_array: "length bs = n \<Longrightarrow> reads (read_n read_u8 n) (write_all write_u8 bs) bs"
  using reads_n [of bs read_u8 write_u8] by (simp add: reads_u8)

lemmas u8_array_steps [reads_intros] =
  reads_bind [OF reads_u8_array] reads_map [OF reads_u8_array] reads_u8_array

lemmas codec_steps [reads_intros] =
  reads_bind [OF reads_key_event] reads_map [OF reads_key_event]
  reads_bind [OF reads_mouse_event] reads_map [OF reads_mouse_event]
  reads_bind [OF reads_paste_event] reads_map [OF reads_paste_event]
  reads_bind [OF reads_server_instance] reads_map [OF reads_server_instance] reads_server_instance

lemma reads_input_event: "wf_input_event e \<Longrightarrow> reads decode_input_event (encode_input_event e) e"
  unfolding decode_input_event_def encode_input_event_def
  by (cases e) (auto simp: wf_input_event_def intro!: reads_intros)

lemmas input_event_steps [reads_intros] =
  reads_bind [OF reads_input_event] reads_map [OF reads_input_event] reads_input_event

lemma reads_count16:
  assumes "\<And>x. x \<in> set xs \<Longrightarrow> reads r (w x) x" and "length xs < 2 ^ 16"
  shows "reads (read_n r (unat (count16_or dflt (length xs)))) (write_all w xs) xs"
proof -
  have "unat (count16_or dflt (length xs)) = length xs"
    using assms(2) by (simp add: count16_or_def unat_of_nat)
  with reads_n [of xs r w] assms(1) show ?thesis by simp
qed

lemmas count16_steps [reads_intros] = reads_bind [OF reads_count16] reads_map [OF reads_count16]

lemma reads_file_upload_id:
  "wf_id16 (upload_bytes u) \<Longrightarrow> reads decode_file_upload_id (write_all write_u8 (upload_bytes u)) u"
  unfolding decode_file_upload_id_def
  by (cases u) (auto simp: wf_id16_def file_upload_id_new_def intro!: reads_intros)

lemmas file_upload_id_steps [reads_intros] =
  reads_bind [OF reads_file_upload_id] reads_map [OF reads_file_upload_id] reads_file_upload_id

lemma operation_id_new [simp]: "wf_id16 (operation_bytes op) \<Longrightarrow> input_operation_id_new (operation_bytes op) = Some op"
  by (cases op) (simp add: wf_id16_def input_operation_id_new_def)

lemma reads_kill_precondition:
  "wf_opt (\<lambda>i. length (instance_bytes i) = 16) (kp_instance p) \<Longrightarrow>
   reads decode_kill_precondition (encode_kill_precondition p) p"
  unfolding decode_kill_precondition_def encode_kill_precondition_def
  by (cases p) (auto intro!: reads_intros)

lemmas kill_precondition_steps [reads_intros] =
  reads_bind [OF reads_kill_precondition] reads_map [OF reads_kill_precondition] reads_kill_precondition

lemma reads_put_file_chunk:
  "length data \<le> max_file_upload_chunk \<Longrightarrow> unat offset + length data \<le> max_file_upload_size \<Longrightarrow>
   reads (decode_put_file_chunk offset) (write_bytes data) data"
  unfolding decode_put_file_chunk_def
  by (auto simp: max_file_upload_size_def intro!: reads_intros)

lemma reads_put_file_extension:
  "utf8_valid s \<Longrightarrow> length s \<le> 16 \<Longrightarrow> reads decode_put_file_extension (write_str s) s"
  unfolding decode_put_file_extension_def by (auto intro!: reads_intros)

lemma reads_optional_sha256:
  "wf_opt (\<lambda>d. length d = 32) sha \<Longrightarrow> reads decode_optional_sha256 (write_opt (write_all write_u8) sha) sha"
  unfolding decode_optional_sha256_def write_opt_def by (cases sha) (auto intro!: reads_intros)

lemma reads_optional_i32: "reads decode_optional_i32 (encode_optional_i32 x) x"
  unfolding decode_optional_i32_def encode_optional_i32_def by (auto intro!: reads_intros)

lemma reads_optional_client_id: "reads decode_optional_client_id (encode_optional_client_id x) x"
  unfolding decode_optional_client_id_def encode_optional_client_id_def by (auto intro!: reads_intros)

lemmas event_option_steps [reads_intros] =
  reads_bind [OF reads_optional_i32] reads_map [OF reads_optional_i32] reads_optional_i32
  reads_bind [OF reads_optional_client_id] reads_map [OF reads_optional_client_id] reads_optional_client_id

section \<open>Commands\<close>

lemma reads_body_remaining:
  assumes "reads_body c p (f (length bs)) bs x"
  shows "reads_body c p (bind_r (get_r remaining_in_body) f) bs x"
  unfolding reads_body_def
proof (intro allI impI)
  fix d
  assume d: "wf_dec d" "dec_max_chunk d = c" "dec_max_page d = p" "body_is d bs" "length bs \<le> 16777216"
  have "remaining_in_body d = length bs"
    using d(1,4) by (auto simp: remaining_in_body_def body_is_def wf_dec_def remaining_def split: option.splits)
  with assms d show "bind_r (get_r remaining_in_body) f d = Ok (x, d\<lparr>dec_pos := dec_pos d + length bs\<rparr>)"
    unfolding reads_body_def by (simp add: bind_r_def get_r_def)
qed

lemma reads_fields:
  assumes "length (write_fields fs) \<le> 16777216 \<Longrightarrow> fold_fields step s fs = Ok s'"
  shows "reads_body c p (fields_loop step s) (write_fields fs) s'"
  unfolding reads_body_def by (simp add: fields_loop_write assms)

lemma reads_body_map:
  "reads_body c p m bs x \<Longrightarrow> f x = ret_r y \<Longrightarrow> reads_body c p (bind_r m f) bs y"
  unfolding reads_body_def by (simp add: bind_r_def ret_r_def)

lemma sub_u64: "sub_r read_u64_be (write_u64_be n) = Ok n"
  by (rule sub_reads [OF reads_u64]) (simp add: write_u64_be_def)

lemma asked_suggestions:
  "list_all utf8_valid ss \<Longrightarrow>
   fold_fields asked_step (a, q, acc, e) (map (\<lambda>s. (3, s)) ss @ fs) = fold_fields asked_step (a, q, acc @ ss, e) fs"
  by (induction ss arbitrary: acc) (simp_all add: asked_step_def from_utf8_def)

lemma reads_asked:
  assumes "utf8_valid aid" "utf8_valid question" "list_all utf8_valid suggestions"
  shows "reads_body c p decode_asked_event (write_fields (encode_asked_fields aid question suggestions elapsed))
    (aid, question, suggestions, elapsed)"
proof -
  have "fold_fields asked_step ([], [], [], None) (encode_asked_fields aid question suggestions elapsed)
      = fold_fields asked_step (aid, question, suggestions, None)
          (case elapsed of None \<Rightarrow> [] | Some secs \<Rightarrow> [(4, write_u64_be secs)])"
    using assms asked_suggestions [OF assms(3), of aid question "[]" None]
    by (simp add: encode_asked_fields_def asked_step_def from_utf8_def)
  also have "\<dots> = Ok (aid, question, suggestions, elapsed)"
    by (cases elapsed) (simp_all add: asked_step_def sub_u64)
  finally show ?thesis unfolding decode_asked_event_def by (intro reads_fields)
qed

text \<open>A command's decoder after the tag has been read.\<close>

definition command_tail :: "nat \<Rightarrow> u8 \<Rightarrow> command reader" where
  "command_tail len tag =
     or_else_r (decode_terminal_subscription_command tag)
     (or_else_r (decode_live_affordance_command tag len)
     (or_else_r (decode_supervisory_command tag)
     (or_else_r (decode_agent_report_command tag)
     (or_else_r (decode_session_command tag)
     (or_else_r (decode_resource_command tag)
       (fail_r (unknown_enum ''Command'' tag)))))))"

lemma reads_command_tail:
  assumes "reads_body c p (command_tail (Suc (length bs)) tag) bs x"
  shows "reads_body c p decode_command (write_u8 tag @ bs) x"
proof -
  have "length (write_u8 tag @ bs) = Suc (length bs)" by (simp add: write_u8_def)
  then show ?thesis
    unfolding decode_command_def command_tail_def [symmetric]
    using assms by (intro reads_body_remaining reads_body_bind [OF reads_u8]) simp
qed

lemmas reads_plain_tail = reads_command_tail [OF reads_body]

lemmas family_simps = or_else_r_def bind_assoc bind_ret Let_def
  decode_terminal_subscription_command_def decode_live_affordance_command_def decode_supervisory_command_def
  decode_agent_report_command_def decode_session_command_def decode_resource_command_def

lemma command_tails:
  "command_tail n 0x01 = bind_r decode_terminal_id (\<lambda>rid. ret_r (CmdAttachResource rid))"
  "command_tail n 0x02 = bind_r decode_terminal_id (\<lambda>rid. ret_r (CmdDetachResource rid))"
  "command_tail n 0x03 = bind_r decode_terminal_id (\<lambda>rid. ret_r (CmdKillResource rid))"
  "command_tail n 0x1b = bind_r decode_terminal_id (\<lambda>rid. bind_r decode_kill_precondition (\<lambda>pre. ret_r (CmdKillResourceIf rid pre)))"
  "command_tail n 0x05 = bind_r decode_state_scope (\<lambda>scope. ret_r (CmdGetState scope))"
  "command_tail n 0x07 = bind_r decode_get_screen_command ret_r"
  "command_tail n 0x08 = bind_r decode_terminal_id (\<lambda>rid. bind_r decode_input_event (\<lambda>event. ret_r (CmdRouteInput rid event)))"
  "command_tail n 0x14 = bind_r (decode_apply_input_command n) ret_r"
  "command_tail n 0x0c = bind_r decode_get_terminal_state_command ret_r"
  "command_tail n 0x0d = bind_r decode_subscribe_terminal_events_command ret_r"
  "command_tail n 0x15 = bind_r decode_put_file_command ret_r"
  "command_tail n 0x19 = bind_r decode_file_upload_id (\<lambda>u. bind_r decode_terminal_id (\<lambda>rid. ret_r (CmdTranscribe u rid)))"
  "command_tail n 0x0f = bind_r decode_acquire_input_command ret_r"
  "command_tail n 0x10 = bind_r decode_terminal_id (\<lambda>rid. ret_r (CmdReleaseInput rid))"
  "command_tail n 0x11 = bind_r decode_signal_terminal_command ret_r"
  "command_tail n 0x12 = bind_r decode_report_asked_command ret_r"
  "command_tail n 0x17 = bind_r decode_report_agent_state_command ret_r"
  "command_tail n 0x09 = bind_r decode_kill_terminals_command ret_r"
  "command_tail n 0x13 = bind_r decode_detach_clients_command ret_r"
  "command_tail n 0x0e = ret_r CmdUpgrade"
  "command_tail n 0x16 = ret_r CmdShutdown"
  "command_tail n 0x18 = bind_r read_u8 (\<lambda>b. ret_r (CmdGetPerf (b \<noteq> 0)))"
  "command_tail n 0x1a = bind_r decode_append_resource_output_command ret_r"
  by (simp_all add: command_tail_def family_simps)

lemma bind_ret_r [simp]: "bind_r m ret_r = m"
  by (rule ext) (simp add: bind_r_def ret_r_def split: sum.split)

lemma reads_get_screen:
  "wf_rid rid \<Longrightarrow> reads_body c p decode_get_screen_command
     (encode_terminal_id rid @ encode_optional_u32 scrollback @ write_bool cells) (CmdGetScreen rid scrollback cells)"
  unfolding decode_get_screen_command_def
  by (rule reads_body_bind [OF reads_terminal_id], assumption, rule reads_body_bind [OF reads_optional_u32],
      rule reads_body_at_end) (auto simp: bind_assoc intro!: reads_body reads_intros)

lemma event_types_filter:
  "List.map_filter resource_event_type_from_u8 (map resource_event_type_to_u8 ts) = ts"
  by (induction ts) (simp_all add: List.map_filter_simps)

lemma reads_subscribe:
  assumes "wf_rid rid" "length ts < 2 ^ 16"
  shows "reads decode_subscribe_terminal_events_command (encode_terminal_id rid
     @ write_u16_be (count16_or 0 (length ts)) @ write_all (\<lambda>t. write_u8 (resource_event_type_to_u8 t)) ts)
     (CmdSubscribeResourceEvents rid ts)"
proof -
  have "write_all (\<lambda>t. write_u8 (resource_event_type_to_u8 t)) ts = write_all write_u8 (map resource_event_type_to_u8 ts)"
    by (simp add: write_all_def comp_def)
  moreover have r: "reads (read_n read_u8 (unat (count16_or 0 (length ts)))) (write_all write_u8 (map resource_event_type_to_u8 ts))
      (map resource_event_type_to_u8 ts)"
    using reads_count16 [of "map resource_event_type_to_u8 ts" read_u8 write_u8 0] assms(2) by (simp add: reads_u8)
  ultimately show ?thesis unfolding decode_subscribe_terminal_events_command_def
    using assms(1) by (auto simp: event_types_filter intro!: reads_intros reads_map [OF r])
qed

lemma reads_put_file:
  "wf_command (CmdPutFile u rid extension offset data final sha) \<Longrightarrow> reads decode_put_file_command
     (write_all write_u8 (upload_bytes u) @ encode_terminal_id rid @ write_str extension @ write_u64_be offset
      @ write_bytes data @ write_bool final @ write_opt (write_all write_u8) sha)
     (CmdPutFile u rid extension offset data final sha)"
  unfolding decode_put_file_command_def
  by (auto simp: wf_command_def intro!: reads_intros reads_bind [OF reads_put_file_extension]
      reads_bind [OF reads_put_file_chunk] reads_map [OF reads_optional_sha256])

lemma reads_apply_input:
  assumes "wf_command (CmdApplyInput op rid events)"
  shows "reads (decode_apply_input_command (length (encode_command (CmdApplyInput op rid events))))
     (write_all write_u8 (operation_bytes op) @ encode_terminal_id rid
      @ write_u16_be (count16_or 0xFFFF (length events)) @ write_all encode_input_event events)
     (CmdApplyInput op rid events)"
proof -
  have n: "length events \<le> 256" using assms by (simp add: wf_command_def max_apply_input_events_def)
  then have "unat (count16_or 0xFFFF (length events)) = length events"
    by (simp add: count16_or_def unat_of_nat)
  with n assms show ?thesis unfolding decode_apply_input_command_def
    by (auto simp: wf_command_def wf_id16_def list_all_iff max_apply_input_events_def
        intro!: reads_intros reads_map [OF reads_n] operation_id_new [unfolded wf_id16_def])
qed

lemma reads_report_asked:
  "wf_rid rid \<Longrightarrow> utf8_valid aid \<Longrightarrow> utf8_valid question \<Longrightarrow> list_all utf8_valid suggestions \<Longrightarrow>
   reads_body c p decode_report_asked_command
     (encode_terminal_id rid @ write_fields (encode_asked_fields aid question suggestions elapsed))
     (CmdReportAsked rid aid question suggestions elapsed)"
  unfolding decode_report_asked_command_def
  by (rule reads_body_bind [OF reads_terminal_id], assumption)
    (auto intro: reads_body_map [OF reads_asked])

lemmas command_reads = reads_subscribe reads_put_file
lemmas command_parts = decode_state_scope_def encode_state_scope_def decode_get_terminal_state_command_def
  decode_acquire_input_command_def decode_signal_terminal_command_def decode_report_agent_state_command_def
  decode_kill_terminals_command_def decode_detach_clients_command_def decode_append_resource_output_command_def

theorem reads_command:
  assumes "wf_command cmd"
  shows "reads_body c p decode_command (encode_command cmd) cmd"
proof (cases cmd)
  case (CmdGetScreen rid scrollback cells)
  with assms have "reads_body c p (command_tail n 0x07)
      (encode_terminal_id rid @ encode_optional_u32 scrollback @ write_bool cells) cmd" for n
    by (simp add: wf_command_def command_tails reads_get_screen)
  from reads_command_tail [OF this] show ?thesis by (simp add: CmdGetScreen encode_command_def)
next
  case (CmdApplyInput op rid events)
  let ?b = "write_all write_u8 (operation_bytes op) @ encode_terminal_id rid
      @ write_u16_be (count16_or 0xFFFF (length events)) @ write_all encode_input_event events"
  have e: "encode_command cmd = write_u8 0x14 @ ?b" by (simp add: CmdApplyInput encode_command_def)
  have "length (encode_command cmd) = Suc (length ?b)" unfolding e by (simp add: write_u8_def)
  with reads_apply_input [of op rid events] assms CmdApplyInput
  have "reads_body c p (command_tail (Suc (length ?b)) 0x14) ?b cmd" by (simp add: command_tails reads_body)
  then show ?thesis unfolding e by (rule reads_command_tail)
next
  case (CmdReportAsked rid aid question suggestions elapsed)
  with assms show ?thesis
    by (auto simp: encode_command_def wf_command_def command_tails intro!: reads_command_tail reads_report_asked)
next
  case (CmdPutFile u rid extension offset data final sha)
  with assms have "reads (command_tail n 0x15) (write_all write_u8 (upload_bytes u) @ encode_terminal_id rid
      @ write_str extension @ write_u64_be offset @ write_bytes data @ write_bool final
      @ write_opt (write_all write_u8) sha) cmd" for n
    by (simp add: command_tails reads_put_file)
  from reads_plain_tail [OF this] show ?thesis by (simp add: CmdPutFile encode_command_def)
next
  case (CmdSubscribeResourceEvents rid ts)
  with assms show ?thesis
    by (auto simp: encode_command_def wf_command_def command_tails intro!: reads_plain_tail reads_subscribe)
next
  case (CmdKillResources ids)
  with assms show ?thesis
    by (auto simp: encode_command_def wf_command_def command_tails command_parts list_all_iff
        intro!: reads_plain_tail reads_intros)
next
  case (CmdDetachClients session)
  with assms show ?thesis
    by (cases session) (auto simp: encode_command_def wf_command_def command_tails command_parts write_opt_def
        intro!: reads_plain_tail reads_intros)
next
  case (CmdUpgrade)
  then show ?thesis using reads_plain_tail [of "[]" 14 CmdUpgrade c p]
    by (simp add: encode_command_def command_tails reads_ret)
next
  case (CmdShutdown)
  then show ?thesis using reads_plain_tail [of "[]" 22 CmdShutdown c p]
    by (simp add: encode_command_def command_tails reads_ret)
next
  case (CmdGetState scope)
  then show ?thesis
    by (cases scope) (auto simp: encode_command_def command_tails command_parts bind_assoc intro!: reads_plain_tail reads_intros)
qed (use assms in \<open>auto simp: encode_command_def wf_command_def command_tails command_parts
      intro!: reads_plain_tail reads_intros\<close>)

section \<open>Results and events\<close>

theorem reads_command_result:
  assumes "wf_command_result ext r"
  shows "reads_body c p (decode_command_result ext) (encode_command_result ext r) r"
proof (cases r)
  case (ResOkWith v)
  show ?thesis
  proof (cases v)
    case (ValState s)
    with ResOkWith assms have "wf_snapshot ext s" by (simp add: wf_command_result_def)
    from reads_session_snapshot [OF this, of c p] show ?thesis
      unfolding ResOkWith ValState decode_command_result_def encode_command_result_def
        decode_command_value_def encode_command_value_def
      by (auto intro!: reads_body_bind [OF reads_u8] reads_body_map)
  next
    case (ValFileUpload ack)
    with ResOkWith assms show ?thesis
      by (cases ack; cases "ack_path ack") (auto simp: decode_command_result_def encode_command_result_def decode_command_value_def
          encode_command_value_def wf_command_result_def write_opt_def bind_assoc intro!: reads_body reads_intros)
  qed (use ResOkWith assms in \<open>auto simp: decode_command_result_def encode_command_result_def decode_command_value_def
      encode_command_value_def wf_command_result_def bind_assoc split: group_id.splits intro!: reads_body reads_intros\<close>)
qed (use assms in \<open>auto simp: decode_command_result_def encode_command_result_def wf_command_result_def
    intro!: reads_body reads_intros\<close>)

lemma reads_terminal_control:
  "reads decode_terminal_control_event
     (write_u8 (resource_lifecycle_to_u8 lifecycle) @ encode_optional_i32 exit_status
      @ encode_optional_client_id holder @ write_u8 (control_action_to_u8 action) @ encode_optional_client_id actor)
     (EvTerminalControl lifecycle exit_status holder action actor)"
  unfolding decode_terminal_control_event_def by (auto intro!: reads_intros)

lemma reads_pane_spawned:
  assumes "wf_kind kind" "wf_opt wf_rid parent"
  shows "reads_body c p decode_pane_spawned_event
    (write_fields ((if is_terminal kind then [] else [(1, [resource_kind_as_wire kind])])
       @ (case parent of None \<Rightarrow> [] | Some rid \<Rightarrow> [(2, encode_terminal_id rid)])))
    (EvResourceSpawned kind parent)"
proof -
  have k: "sub_r read_u8 [resource_kind_as_wire kind] = Ok (resource_kind_as_wire kind)"
    using sub_reads [OF reads_u8, of "resource_kind_as_wire kind"] by (simp add: write_u8_def)
  have r: "sub_r decode_terminal_id (encode_terminal_id rid) = Ok rid"
    if "parent = Some rid" "length (encode_terminal_id rid) \<le> 16777216" for rid
    using that assms(2) by (intro sub_reads [OF reads_terminal_id]) simp_all
  have "reads_body c p (fields_loop pane_spawned_step (KindTerminal, None))
    (write_fields ((if is_terminal kind then [] else [(1, [resource_kind_as_wire kind])])
       @ (case parent of None \<Rightarrow> [] | Some rid \<Rightarrow> [(2, encode_terminal_id rid)]))) (kind, parent)"
  proof (rule reads_fields, goal_cases)
    case 1
    show ?case
    proof (cases parent)
      case (Some rid)
      with 1 length_write_field [of "encode_terminal_id rid" 2] have "length (encode_terminal_id rid) \<le> 16777216"
        by (simp add: write_fields_def)
      with Some r k assms(1) show ?thesis by (auto simp: pane_spawned_step_def is_terminal_def)
    qed (use k assms(1) in \<open>auto simp: pane_spawned_step_def is_terminal_def\<close>)
  qed
  then show ?thesis unfolding decode_pane_spawned_event_def by (rule reads_body_map) simp
qed

lemma agent_event_body_decoded:
  assumes "wf_agent_event e" "agent_event_body e = (tag, body)" "length body \<le> 16777216"
  shows "decode_agent_event_body tag body = Ok e"
proof (cases e)
  case (EvResourceSpawned kind parent)
  with assms sub_reads_body [OF reads_pane_spawned [of kind parent]] show ?thesis
    by (auto simp: agent_event_body_def decode_agent_event_body_def wf_agent_event_def)
next
  case (EvTerminalControl lifecycle exit_status holder action actor)
  with assms sub_reads [OF reads_terminal_control] show ?thesis
    by (auto simp: agent_event_body_def decode_agent_event_body_def)
next
  case (EvAsked aid question suggestions elapsed)
  with assms sub_reads_body [OF reads_asked [of aid question suggestions]] show ?thesis
    by (auto simp: agent_event_body_def decode_agent_event_body_def wf_agent_event_def)
next
  case (EvUnknown t b)
  have "t \<notin> {0, 1, 2, 3, 4, 5, 6, 7, 8, 9, 0x0a}" using assms(1) EvUnknown by (auto simp: wf_agent_event_def)
  with assms(2) EvUnknown show ?thesis by (simp add: agent_event_body_def decode_agent_event_body_def)
qed (use assms sub_reads [OF reads_optional_i32] sub_reads [OF reads_str] in
    \<open>auto simp: agent_event_body_def decode_agent_event_body_def wf_agent_event_def\<close>)

theorem reads_agent_event:
  assumes "wf_agent_event e"
  shows "reads decode_agent_event (encode_agent_event e) e"
proof (rule reads_short)
  obtain tag body where b: "agent_event_body e = (tag, body)" by fastforce
  assume "length (encode_agent_event e) \<le> 16777216"
  then have "length body \<le> 16777216" by (simp add: encode_agent_event_def b)
  from agent_event_body_decoded [OF assms b this] show "reads decode_agent_event (encode_agent_event e) e"
    unfolding decode_agent_event_def encode_agent_event_def b by (auto intro!: reads_intros)
qed

end
