(* ===== verification/Wire_Frame.thy ===== *)
theory Wire_Frame
  imports Wire_Ssh_Origin Wire_Command_Round
begin

text \<open>
  The message catalog of the wire protocol, \<open>phux-protocol/src/wire/frame/kind.rs\<close>: the message
  type, its type bytes and the encoder of every body. An encoder is the list of the tagged fields
  it writes, in order; \<open>encode\<close> puts the length prefix and the type byte in front.
\<close>

section \<open>Messages\<close>

definition max_history_cursor_bytes :: nat where
  "max_history_cursor_bytes = 4 * 1024"

definition max_history_page_rows :: u32 where
  "max_history_page_rows = 4 * 1024"

definition max_input_terminal_reply_bytes :: nat where
  "max_input_terminal_reply_bytes = 64 * 1024"

definition max_resource_provider_bytes :: nat where
  "max_resource_provider_bytes = 120"

definition max_resource_native_id_bytes :: nat where
  "max_resource_native_id_bytes = 1024"

record spawn_resource =
  sr_kind :: resource_kind
  sr_parent :: "wire_resource_id option"
  sr_provider :: "str option"
  sr_native_id :: "str option"
  sr_bind_instance :: bool

definition spawn_resource_is_default :: "spawn_resource \<Rightarrow> bool" where
  "spawn_resource_is_default r \<longleftrightarrow> is_terminal (sr_kind r) \<and> sr_parent r = None \<and> sr_provider r = None
     \<and> sr_native_id r = None \<and> \<not> sr_bind_instance r"

definition spawn_result_instance :: "spawn_result \<Rightarrow> server_instance option" where
  "spawn_result_instance r = (case r of SpawnOkBound _ i \<Rightarrow> Some i | _ \<Rightarrow> None)"

text \<open>\<open>i32\<close> travels as its 32-bit pattern, the word that models it.\<close>

type_synonym wire_i32 = u32

datatype (plugins only: size code) frame_kind =
    Hello str u16 u16 u16 client_capabilities
  | HelloOk u16 u16 u16 server_capabilities bytes bootstrap_profile bootstrap_limits
  | Ping u64
  | Pong u64
  | ResourceOutput wire_resource_id stream_id bootstrap_id u64 bytes
  | Attach u32 attach_target viewport_info bool u32
  | Detach
  | InputKey wire_resource_id key_event
  | InputMouse wire_resource_id mouse_event
  | InputFocus wire_resource_id focus_event
  | InputPaste wire_resource_id paste_event
  | InputTerminalReply wire_resource_id bytes
  | FrameAck wire_resource_id stream_id bootstrap_id u64
  | ViewportResize viewport_info
  | Attached u32 session_snapshot client_id
  | AttachReady u32
  | Detached "detach_reason option" str
  | BootstrapBegin wire_resource_id stream_id bootstrap_id bootstrap_stream_profile u16 u16 u64
  | BootstrapChunk wire_resource_id stream_id bootstrap_id u32 bytes
  | BootstrapReady wire_resource_id stream_id bootstrap_id "bytes option"
  | HistoryRequest wire_resource_id stream_id bootstrap_id bytes u32 u32
  | HistoryPage wire_resource_id stream_id bootstrap_id u64 bytes "bytes option" bytes u32
  | BootstrapTombstone wire_resource_id stream_id bootstrap_id tombstone_reason u64
  | HistoryTombstone wire_resource_id stream_id bootstrap_id bytes history_tombstone_reason
  | HistoryRejected wire_resource_id stream_id bootstrap_id bytes history_rejection_reason u32 u32
  | Bell wire_resource_id
  | Error "u32 option" error_code str
  | GetMetadata u32 meta_scope str
  | SetMetadata u32 meta_scope str bytes
  | DeleteMetadata u32 meta_scope str
  | ListMetadata u32 meta_scope
  | SubscribeMetadata meta_scope str
  | MetadataChanged meta_scope str "bytes option"
  | MetadataValue u32 "bytes option"
  | MetadataKeys u32 "str list"
  | ListDirectory u32 str "str option"
  | DirectoryListing u32 directory_listing_result
  | SpawnResource u32 group_id "str list option" "str option" "(str \<times> str) list option" "str option"
      "str option" "wire_resource_id option" "bytes option" "(u16 \<times> u16) option" "spawn_resource option"
  | ResourceSpawned u32 spawn_result
  | MoveResource u32 wire_resource_id wire_resource_id
  | ResourceMoved u32 move_result
  | ResourceClosed wire_resource_id "wire_i32 option" close_reason
  | ResizeTerminal wire_resource_id u16 u16
  | CommandFrame u32 command
  | CommandResultFrame u32 command_result
  | SubscribeEvents "wire_resource_id option"
  | Event "wire_resource_id option" agent_event

definition into_frame :: "input_event \<Rightarrow> wire_resource_id \<Rightarrow> frame_kind" where
  "into_frame e terminal_id = (case e of
     InputEventKey event \<Rightarrow> InputKey terminal_id event
   | InputEventMouse event \<Rightarrow> InputMouse terminal_id event
   | InputEventFocus event \<Rightarrow> InputFocus terminal_id event
   | InputEventPaste event \<Rightarrow> InputPaste terminal_id event)"

primrec type_byte :: "frame_kind \<Rightarrow> u8" where
  "type_byte (Hello _ _ _ _ _) = 0x01"
| "type_byte (HelloOk _ _ _ _ _ _ _) = 0x80"
| "type_byte (Ping _) = 0x7F"
| "type_byte (Pong _) = 0xFF"
| "type_byte (ResourceOutput _ _ _ _ _) = 0x90"
| "type_byte (Attach _ _ _ _ _) = 0x02"
| "type_byte Detach = 0x03"
| "type_byte (InputKey _ _) = 0x10"
| "type_byte (InputMouse _ _) = 0x12"
| "type_byte (InputFocus _ _) = 0x14"
| "type_byte (InputPaste _ _) = 0x11"
| "type_byte (InputTerminalReply _ _) = 0x17"
| "type_byte (FrameAck _ _ _ _) = 0x21"
| "type_byte (ViewportResize _) = 0x20"
| "type_byte (Attached _ _ _) = 0x81"
| "type_byte (AttachReady _) = 0x83"
| "type_byte (Detached _ _) = 0x82"
| "type_byte (HistoryRequest _ _ _ _ _ _) = 0x16"
| "type_byte (BootstrapBegin _ _ _ _ _ _ _) = 0x93"
| "type_byte (BootstrapChunk _ _ _ _ _) = 0x94"
| "type_byte (BootstrapReady _ _ _ _) = 0x95"
| "type_byte (HistoryPage _ _ _ _ _ _ _ _) = 0x96"
| "type_byte (BootstrapTombstone _ _ _ _ _) = 0x97"
| "type_byte (HistoryTombstone _ _ _ _ _) = 0x98"
| "type_byte (HistoryRejected _ _ _ _ _ _ _) = 0x99"
| "type_byte (Bell _) = 0xB0"
| "type_byte (Error _ _ _) = 0xC1"
| "type_byte (GetMetadata _ _ _) = 0x50"
| "type_byte (SetMetadata _ _ _ _) = 0x51"
| "type_byte (DeleteMetadata _ _ _) = 0x52"
| "type_byte (ListMetadata _ _) = 0x53"
| "type_byte (SubscribeMetadata _ _) = 0x54"
| "type_byte (MetadataChanged _ _ _) = 0xD0"
| "type_byte (MetadataValue _ _) = 0xD1"
| "type_byte (MetadataKeys _ _) = 0xD2"
| "type_byte (ListDirectory _ _ _) = 0x55"
| "type_byte (DirectoryListing _ _) = 0xD3"
| "type_byte (SpawnResource _ _ _ _ _ _ _ _ _ _ _) = 0x22"
| "type_byte (MoveResource _ _ _) = 0x2A"
| "type_byte (ResourceMoved _ _) = 0xA8"
| "type_byte (ResourceSpawned _ _) = 0xA2"
| "type_byte (ResourceClosed _ _ _) = 0xA1"
| "type_byte (ResizeTerminal _ _ _) = 0x23"
| "type_byte (CommandFrame _ _) = 0x31"
| "type_byte (CommandResultFrame _ _) = 0xC2"
| "type_byte (SubscribeEvents _) = 0x41"
| "type_byte (Event _ _) = 0xB3"

section \<open>Message bodies\<close>

definition client_caps_bytes :: "client_capabilities \<Rightarrow> bytes" where
  "client_caps_bytes c = write_u8 (color_support_as_wire (cc_color_support c))
     @ write_u8 (layer_set_as_wire (cc_layers c))
     @ write_u8 (image_protocol_set_as_wire (cc_image_protocols c))
     @ write_u8 (keyboard_protocol_set_as_wire (cc_kbd_protocols c))
     @ write_u8 (if cc_hyperlinks c then 1 else 0)
     @ write_u8 (output_mode_as_wire (cc_output_mode c))
     @ (case cc_default_colors c of
          Some colors \<Rightarrow> write_u8 1
            @ write_u8 (color_r (colors_foreground colors)) @ write_u8 (color_g (colors_foreground colors))
            @ write_u8 (color_b (colors_foreground colors))
            @ write_u8 (color_r (colors_background colors)) @ write_u8 (color_g (colors_background colors))
            @ write_u8 (color_b (colors_background colors))
        | None \<Rightarrow> write_u8 0)
     @ write_u8 (profile_set_as_wire (cap_profiles (cc_bootstrap c)))
     @ write_u64_be (engine_codec_set_as_wire (cap_native_codecs (cc_bootstrap c)))
     @ write_u32_be (engine_feature_set_as_wire (cap_native_features (cc_bootstrap c)))
     @ write_u32_be (max_chunk_bytes (cap_limits (cc_bootstrap c)))
     @ write_u32_be (max_page_bytes (cap_limits (cc_bootstrap c)))"

definition encode_hello :: "str \<Rightarrow> u16 \<Rightarrow> u16 \<Rightarrow> u16 \<Rightarrow> client_capabilities \<Rightarrow> fields" where
  "encode_hello client_name major minor patch caps =
     [(1, client_name), (2, write_u16_be major), (3, write_u16_be minor), (4, write_u16_be patch),
      (5, client_caps_bytes caps)]
     @ (if cc_compression caps \<noteq> 0 then [(6, write_u8 (cc_compression caps))] else [])
     @ opt_field 9 encode_ssh_origin (cc_ssh_origin caps)"

definition encode_hello_ok_version :: "u16 \<Rightarrow> u16 \<Rightarrow> u16 \<Rightarrow> fields" where
  "encode_hello_ok_version major minor patch =
     [(1, write_u16_be major), (2, write_u16_be minor), (3, write_u16_be patch)]"

definition encode_hello_ok_negotiation ::
    "server_capabilities \<Rightarrow> bytes \<Rightarrow> bootstrap_profile \<Rightarrow> bootstrap_limits \<Rightarrow> fields" where
  "encode_hello_ok_negotiation caps server_id profile limits =
     [(4, write_u8 (layer_set_as_wire (sc_layers caps))
        @ (if sc_features caps \<noteq> 0 then write_u32_be (server_feature_set_as_wire (sc_features caps)) else [])),
      (5, server_id), (6, encode_bootstrap_profile profile), (7, write_u32_be (max_chunk_bytes limits)),
      (8, write_u32_be (max_page_bytes limits))]
     @ (if sc_compression caps \<noteq> NoCompression then [(9, write_u8 (compression_as_u8 (sc_compression caps)))] else [])"

definition encode_nonce :: "u64 \<Rightarrow> fields" where
  "encode_nonce nonce = [(1, write_u64_be nonce)]"

definition write_stream_id :: "stream_id \<Rightarrow> bytes" where
  "write_stream_id s = (case s of StreamId n \<Rightarrow> write_u64_be n)"

definition write_bootstrap_id :: "bootstrap_id \<Rightarrow> bytes" where
  "write_bootstrap_id b = (case b of BootstrapId n \<Rightarrow> write_u64_be n)"

definition encode_terminal_output :: "wire_resource_id \<Rightarrow> stream_id \<Rightarrow> bootstrap_id \<Rightarrow> u64 \<Rightarrow> bytes \<Rightarrow> fields" where
  "encode_terminal_output tid sid bid seq bs =
     [(1, encode_terminal_id tid), (2, write_u64_be seq), (3, bs), (4, write_stream_id sid), (5, write_bootstrap_id bid)]"

definition encode_attach :: "u32 \<Rightarrow> attach_target \<Rightarrow> viewport_info \<Rightarrow> bool \<Rightarrow> u32 \<Rightarrow> fields" where
  "encode_attach attach_id target viewport request_scrollback scrollback_limit_lines =
     [(1, encode_attach_target target), (2, encode_viewport_info viewport),
      (3, write_u8 (if request_scrollback then 1 else 0)), (4, write_u32_be scrollback_limit_lines),
      (5, write_u32_be attach_id)]"

definition encode_detached :: "detach_reason option \<Rightarrow> str \<Rightarrow> fields" where
  "encode_detached reason msg = opt_field 1 (\<lambda>r. write_u8 (detach_reason_as_wire r)) reason
     @ (if msg \<noteq> [] then [(2, msg)] else [])"

definition encode_input_key :: "wire_resource_id \<Rightarrow> key_event \<Rightarrow> fields" where
  "encode_input_key tid event = [(1, encode_terminal_id tid), (2, encode_key_event event)]"

definition encode_input_mouse :: "wire_resource_id \<Rightarrow> mouse_event \<Rightarrow> fields" where
  "encode_input_mouse tid event = [(1, encode_terminal_id tid), (2, encode_mouse_event event)]"

definition encode_input_focus :: "wire_resource_id \<Rightarrow> focus_event \<Rightarrow> fields" where
  "encode_input_focus tid event = [(1, encode_terminal_id tid), (2, write_u8 (encode_focus_event event))]"

definition encode_input_paste :: "wire_resource_id \<Rightarrow> paste_event \<Rightarrow> fields" where
  "encode_input_paste tid event = [(1, encode_terminal_id tid), (2, encode_paste_event event)]"

definition encode_input_terminal_reply :: "wire_resource_id \<Rightarrow> bytes \<Rightarrow> fields" where
  "encode_input_terminal_reply tid bs = [(1, encode_terminal_id tid), (2, bs)]"

definition encode_frame_ack :: "wire_resource_id \<Rightarrow> stream_id \<Rightarrow> bootstrap_id \<Rightarrow> u64 \<Rightarrow> fields" where
  "encode_frame_ack tid sid bid seq =
     [(1, encode_terminal_id tid), (2, write_u64_be seq), (3, write_stream_id sid), (4, write_bootstrap_id bid)]"

definition encode_viewport_resize :: "viewport_info \<Rightarrow> fields" where
  "encode_viewport_resize viewport = [(1, encode_viewport_info viewport)]"

definition encode_attached :: "externs \<Rightarrow> u32 \<Rightarrow> session_snapshot \<Rightarrow> client_id \<Rightarrow> fields" where
  "encode_attached ext attach_id snapshot initial_client_id =
     [(1, encode_session_snapshot ext snapshot), (2, encode_client_id initial_client_id), (3, write_u32_be attach_id)]"

definition encode_attach_ready :: "u32 \<Rightarrow> fields" where
  "encode_attach_ready attach_id = [(1, write_u32_be attach_id)]"

definition encode_bootstrap_begin_stream :: "wire_resource_id \<Rightarrow> stream_id \<Rightarrow> bootstrap_id \<Rightarrow> fields" where
  "encode_bootstrap_begin_stream tid sid bid =
     [(1, encode_terminal_id tid), (2, write_stream_id sid), (3, write_bootstrap_id bid)]"

definition encode_bootstrap_begin_profile :: "bootstrap_stream_profile \<Rightarrow> u16 \<Rightarrow> u16 \<Rightarrow> u64 \<Rightarrow> fields" where
  "encode_bootstrap_begin_profile profile cols rows base_seq =
     (let (codec, mode) = (case profile of
            StreamNativeState codec \<Rightarrow> (NativeCodec codec, OutRaw)
          | StreamSynthesizedVtRaw \<Rightarrow> (SynthesizedVtV1, OutRaw)
          | StreamSynthesizedVtStateSync \<Rightarrow> (SynthesizedVtV1, OutStateSync)
          | StreamAgentEventsJsonlV1 \<Rightarrow> (AgentEventsJsonlV1Codec, OutRaw))
      in [(4, encode_bootstrap_codec codec), (5, write_u16_be cols), (6, write_u16_be rows),
          (7, write_u8 (output_mode_as_wire mode)), (8, write_u64_be base_seq)])"

definition encode_bootstrap_chunk :: "wire_resource_id \<Rightarrow> stream_id \<Rightarrow> bootstrap_id \<Rightarrow> u32 \<Rightarrow> bytes \<Rightarrow> fields" where
  "encode_bootstrap_chunk tid sid bid chunk_seq payload =
     [(1, encode_terminal_id tid), (2, write_stream_id sid), (3, write_bootstrap_id bid),
      (4, write_u32_be chunk_seq), (5, payload)]"

definition encode_bootstrap_ready :: "wire_resource_id \<Rightarrow> stream_id \<Rightarrow> bootstrap_id \<Rightarrow> bytes option \<Rightarrow> fields" where
  "encode_bootstrap_ready tid sid bid history_cursor =
     [(1, encode_terminal_id tid), (2, write_stream_id sid), (3, write_bootstrap_id bid)]
     @ opt_field 4 id history_cursor"

definition encode_history_request ::
    "wire_resource_id \<Rightarrow> stream_id \<Rightarrow> bootstrap_id \<Rightarrow> bytes \<Rightarrow> u32 \<Rightarrow> u32 \<Rightarrow> fields" where
  "encode_history_request tid sid bid cursor max_bytes max_rows =
     [(1, encode_terminal_id tid), (2, write_stream_id sid), (3, write_bootstrap_id bid), (4, cursor),
      (5, write_u32_be max_bytes), (6, write_u32_be max_rows)]"

definition encode_history_page_stream :: "wire_resource_id \<Rightarrow> stream_id \<Rightarrow> bootstrap_id \<Rightarrow> fields" where
  "encode_history_page_stream tid sid bid =
     [(1, encode_terminal_id tid), (2, write_stream_id sid), (3, write_bootstrap_id bid)]"

definition encode_history_page_body :: "bytes \<Rightarrow> bytes option \<Rightarrow> bytes \<Rightarrow> u64 \<Rightarrow> u32 \<Rightarrow> fields" where
  "encode_history_page_body cursor next_cursor payload page_seq rows =
     [(4, cursor)] @ opt_field 5 id next_cursor
     @ [(6, payload), (7, write_u64_be page_seq), (8, write_u32_be rows)]"

definition encode_bootstrap_tombstone ::
    "wire_resource_id \<Rightarrow> stream_id \<Rightarrow> bootstrap_id \<Rightarrow> tombstone_reason \<Rightarrow> u64 \<Rightarrow> fields" where
  "encode_bootstrap_tombstone tid sid bid reason last_valid_seq =
     [(1, encode_terminal_id tid), (2, write_stream_id sid), (3, write_bootstrap_id bid),
      (4, write_u8 (tombstone_reason_as_wire reason)), (5, write_u64_be last_valid_seq)]"

definition encode_history_tombstone ::
    "wire_resource_id \<Rightarrow> stream_id \<Rightarrow> bootstrap_id \<Rightarrow> bytes \<Rightarrow> history_tombstone_reason \<Rightarrow> fields" where
  "encode_history_tombstone tid sid bid cursor reason =
     [(1, encode_terminal_id tid), (2, write_stream_id sid), (3, write_bootstrap_id bid), (4, cursor),
      (5, write_u8 (history_tombstone_reason_as_wire reason))]"

definition encode_history_rejected_stream :: "wire_resource_id \<Rightarrow> stream_id \<Rightarrow> bootstrap_id \<Rightarrow> fields" where
  "encode_history_rejected_stream tid sid bid =
     [(1, encode_terminal_id tid), (2, write_stream_id sid), (3, write_bootstrap_id bid)]"

definition encode_history_rejected_reason :: "bytes \<Rightarrow> history_rejection_reason \<Rightarrow> u32 \<Rightarrow> u32 \<Rightarrow> fields" where
  "encode_history_rejected_reason cursor reason required_bytes required_rows =
     [(4, cursor), (5, write_u8 (history_rejection_reason_as_wire reason)), (6, write_u32_be required_bytes),
      (7, write_u32_be required_rows)]"

definition encode_bell :: "wire_resource_id \<Rightarrow> fields" where
  "encode_bell tid = [(1, encode_terminal_id tid)]"

definition encode_error :: "u32 option \<Rightarrow> error_code \<Rightarrow> str \<Rightarrow> fields" where
  "encode_error request_id code msg = opt_field 1 write_u32_be request_id
     @ [(2, write_u16_be (error_code_as_wire code)), (3, msg)]"

definition encode_get_or_delete_metadata :: "u32 \<Rightarrow> meta_scope \<Rightarrow> str \<Rightarrow> fields" where
  "encode_get_or_delete_metadata request_id scope key =
     [(1, write_u32_be request_id), (2, encode_scope scope), (3, key)]"

definition encode_set_metadata :: "u32 \<Rightarrow> meta_scope \<Rightarrow> str \<Rightarrow> bytes \<Rightarrow> fields" where
  "encode_set_metadata request_id scope key value =
     [(1, write_u32_be request_id), (2, encode_scope scope), (3, key), (4, value)]"

definition encode_list_metadata :: "u32 \<Rightarrow> meta_scope \<Rightarrow> fields" where
  "encode_list_metadata request_id scope = [(1, write_u32_be request_id), (2, encode_scope scope)]"

definition encode_subscribe_metadata :: "meta_scope \<Rightarrow> str \<Rightarrow> fields" where
  "encode_subscribe_metadata scope key = [(1, encode_scope scope), (2, key)]"

definition encode_metadata_changed :: "meta_scope \<Rightarrow> str \<Rightarrow> bytes option \<Rightarrow> fields" where
  "encode_metadata_changed scope key value = [(1, encode_scope scope), (2, key)] @ opt_field 3 id value"

definition encode_metadata_value :: "u32 \<Rightarrow> bytes option \<Rightarrow> fields" where
  "encode_metadata_value request_id value = [(1, write_u32_be request_id)] @ opt_field 2 id value"

definition encode_metadata_keys :: "u32 \<Rightarrow> str list \<Rightarrow> fields" where
  "encode_metadata_keys request_id keys =
     [(1, write_u32_be request_id), (2, write_count32 (length keys) @ write_all write_str keys)]"

definition encode_spawn_terminal_request :: "u32 \<Rightarrow> group_id \<Rightarrow> fields" where
  "encode_spawn_terminal_request request_id gid =
     [(1, write_u32_be request_id), (2, case gid of GroupId n \<Rightarrow> write_u32_be n)]"

definition encode_spawn_terminal_process ::
    "str list option \<Rightarrow> str option \<Rightarrow> (str \<times> str) list option \<Rightarrow> str option \<Rightarrow> fields" where
  "encode_spawn_terminal_process cmd cwd env term = opt_field 3 encode_string_list cmd
     @ opt_field 4 id cwd @ opt_field 5 encode_env env @ opt_field 6 id term"

definition encode_spawn_terminal_placement ::
    "str option \<Rightarrow> wire_resource_id option \<Rightarrow> bytes option \<Rightarrow> (u16 \<times> u16) option \<Rightarrow> fields" where
  "encode_spawn_terminal_placement satellite owner_terminal agent_session initial_size =
     opt_field 7 id satellite @ opt_field 8 encode_terminal_id owner_terminal @ opt_field 9 id agent_session
     @ opt_field 10 (\<lambda>(cols, rows). write_u16_be cols @ write_u16_be rows) initial_size"

definition encode_spawn_terminal_resource :: "spawn_resource \<Rightarrow> fields" where
  "encode_spawn_terminal_resource r =
     (if \<not> is_terminal (sr_kind r) then [(11, [resource_kind_as_wire (sr_kind r)])] else [])
     @ opt_field 12 encode_terminal_id (sr_parent r) @ opt_field 13 id (sr_provider r)
     @ opt_field 14 id (sr_native_id r) @ (if sr_bind_instance r then [(15, [1])] else [])"

definition encode_terminal_spawned :: "u32 \<Rightarrow> spawn_result \<Rightarrow> fields" where
  "encode_terminal_spawned request_id result =
     [(1, write_u32_be request_id), (2, encode_spawn_result result)]
     @ opt_field 3 encode_server_instance (spawn_result_instance result)"

definition encode_move_terminal :: "u32 \<Rightarrow> wire_resource_id \<Rightarrow> wire_resource_id \<Rightarrow> fields" where
  "encode_move_terminal request_id terminal owner_terminal =
     [(1, write_u32_be request_id), (2, encode_terminal_id terminal), (3, encode_terminal_id owner_terminal)]"

definition encode_terminal_moved :: "u32 \<Rightarrow> move_result \<Rightarrow> fields" where
  "encode_terminal_moved request_id result = [(1, write_u32_be request_id), (2, encode_move_result result)]"

definition encode_terminal_closed :: "wire_resource_id \<Rightarrow> wire_i32 option \<Rightarrow> close_reason \<Rightarrow> fields" where
  "encode_terminal_closed tid exit_status reason = [(1, encode_terminal_id tid)]
     @ opt_field 2 write_u32_be exit_status
     @ (if reason \<noteq> CloseUnknown then [(3, [close_reason_as_wire reason])] else [])"

definition encode_terminal_resize :: "wire_resource_id \<Rightarrow> u16 \<Rightarrow> u16 \<Rightarrow> fields" where
  "encode_terminal_resize tid cols rows =
     [(1, encode_terminal_id tid), (2, write_u16_be cols), (3, write_u16_be rows)]"

definition encode_command_frame :: "u32 \<Rightarrow> command \<Rightarrow> fields" where
  "encode_command_frame request_id cmd = [(1, write_u32_be request_id), (2, encode_command cmd)]"

definition encode_command_result_frame :: "externs \<Rightarrow> u32 \<Rightarrow> command_result \<Rightarrow> fields" where
  "encode_command_result_frame ext request_id result =
     [(1, write_u32_be request_id), (2, encode_command_result ext result)]"

definition encode_subscribe_events :: "wire_resource_id option \<Rightarrow> fields" where
  "encode_subscribe_events terminal = opt_field 1 encode_terminal_id terminal"

definition encode_event :: "wire_resource_id option \<Rightarrow> agent_event \<Rightarrow> fields" where
  "encode_event terminal event = opt_field 1 encode_terminal_id terminal @ [(2, encode_agent_event event)]"

section \<open>Frames\<close>

primrec encode_payload :: "externs \<Rightarrow> frame_kind \<Rightarrow> fields" where
  "encode_payload ext (Hello client_name major minor patch caps) = encode_hello client_name major minor patch caps"
| "encode_payload ext (HelloOk major minor patch caps server_id profile limits) =
     encode_hello_ok_version major minor patch @ encode_hello_ok_negotiation caps server_id profile limits"
| "encode_payload ext (Ping nonce) = encode_nonce nonce"
| "encode_payload ext (Pong nonce) = encode_nonce nonce"
| "encode_payload ext (ResourceOutput tid sid bid seq bs) = encode_terminal_output tid sid bid seq bs"
| "encode_payload ext (Attach attach_id target viewport scrollback lines') =
     encode_attach attach_id target viewport scrollback lines'"
| "encode_payload ext Detach = []"
| "encode_payload ext (Detached reason msg) = encode_detached reason msg"
| "encode_payload ext (InputKey tid event) = encode_input_key tid event"
| "encode_payload ext (InputMouse tid event) = encode_input_mouse tid event"
| "encode_payload ext (InputFocus tid event) = encode_input_focus tid event"
| "encode_payload ext (InputPaste tid event) = encode_input_paste tid event"
| "encode_payload ext (InputTerminalReply tid bs) = encode_input_terminal_reply tid bs"
| "encode_payload ext (FrameAck tid sid bid seq) = encode_frame_ack tid sid bid seq"
| "encode_payload ext (ViewportResize viewport) = encode_viewport_resize viewport"
| "encode_payload ext (Attached attach_id snapshot cid) = encode_attached ext attach_id snapshot cid"
| "encode_payload ext (AttachReady attach_id) = encode_attach_ready attach_id"
| "encode_payload ext (BootstrapBegin tid sid bid profile cols rows base_seq) =
     encode_bootstrap_begin_stream tid sid bid @ encode_bootstrap_begin_profile profile cols rows base_seq"
| "encode_payload ext (BootstrapChunk tid sid bid chunk_seq payload) = encode_bootstrap_chunk tid sid bid chunk_seq payload"
| "encode_payload ext (BootstrapReady tid sid bid cursor) = encode_bootstrap_ready tid sid bid cursor"
| "encode_payload ext (HistoryRequest tid sid bid cursor max_bytes max_rows) =
     encode_history_request tid sid bid cursor max_bytes max_rows"
| "encode_payload ext (HistoryPage tid sid bid page_seq cursor next_cursor payload rows) =
     encode_history_page_stream tid sid bid @ encode_history_page_body cursor next_cursor payload page_seq rows"
| "encode_payload ext (BootstrapTombstone tid sid bid reason seq) = encode_bootstrap_tombstone tid sid bid reason seq"
| "encode_payload ext (HistoryTombstone tid sid bid cursor reason) = encode_history_tombstone tid sid bid cursor reason"
| "encode_payload ext (HistoryRejected tid sid bid cursor reason required_bytes required_rows) =
     encode_history_rejected_stream tid sid bid
     @ encode_history_rejected_reason cursor reason required_bytes required_rows"
| "encode_payload ext (Bell tid) = encode_bell tid"
| "encode_payload ext (Error request_id code msg) = encode_error request_id code msg"
| "encode_payload ext (GetMetadata request_id scope key) = encode_get_or_delete_metadata request_id scope key"
| "encode_payload ext (DeleteMetadata request_id scope key) = encode_get_or_delete_metadata request_id scope key"
| "encode_payload ext (SetMetadata request_id scope key value) = encode_set_metadata request_id scope key value"
| "encode_payload ext (ListMetadata request_id scope) = encode_list_metadata request_id scope"
| "encode_payload ext (SubscribeMetadata scope key) = encode_subscribe_metadata scope key"
| "encode_payload ext (MetadataChanged scope key value) = encode_metadata_changed scope key value"
| "encode_payload ext (MetadataValue request_id value) = encode_metadata_value request_id value"
| "encode_payload ext (MetadataKeys request_id keys) = encode_metadata_keys request_id keys"
| "encode_payload ext (ListDirectory request_id path host) = encode_list_directory request_id path host"
| "encode_payload ext (DirectoryListing request_id result) = encode_directory_listing request_id result"
| "encode_payload ext (SpawnResource request_id gid cmd cwd env term satellite owner agent_session sz resource) =
     encode_spawn_terminal_request request_id gid @ encode_spawn_terminal_process cmd cwd env term
     @ encode_spawn_terminal_placement satellite owner agent_session sz
     @ (case resource of Some r \<Rightarrow> encode_spawn_terminal_resource r | None \<Rightarrow> [])"
| "encode_payload ext (ResourceSpawned request_id result) = encode_terminal_spawned request_id result"
| "encode_payload ext (MoveResource request_id terminal owner) = encode_move_terminal request_id terminal owner"
| "encode_payload ext (ResourceMoved request_id result) = encode_terminal_moved request_id result"
| "encode_payload ext (ResourceClosed tid exit_status reason) = encode_terminal_closed tid exit_status reason"
| "encode_payload ext (ResizeTerminal tid cols rows) = encode_terminal_resize tid cols rows"
| "encode_payload ext (CommandFrame request_id cmd) = encode_command_frame request_id cmd"
| "encode_payload ext (CommandResultFrame request_id result) = encode_command_result_frame ext request_id result"
| "encode_payload ext (SubscribeEvents terminal) = encode_subscribe_events terminal"
| "encode_payload ext (Event terminal event) = encode_event terminal event"

text \<open>
  The length prefix counts the type byte and the fields. It saturates at \<open>u32::MAX\<close>; the debug
  assertion of the source states that a frame stays below \<open>MAX_FRAME_LEN\<close>.
\<close>

definition frame_bytes :: "u8 \<Rightarrow> fields \<Rightarrow> bytes" where
  "frame_bytes tb fs =
     (let body = write_u8 tb @ write_fields fs
      in write_u32_be (if length body < 2 ^ 32 then of_nat (length body) else 2 ^ 32 - 1) @ body)"

definition encode :: "externs \<Rightarrow> frame_kind \<Rightarrow> bytes" where
  "encode ext f = frame_bytes (type_byte f) (encode_payload ext f)"

section \<open>Compression\<close>

definition min_compress_bytes :: nat where
  "min_compress_bytes = 4 * 1024"

definition deflate :: "externs \<Rightarrow> bytes \<Rightarrow> bytes option" where
  "deflate ext body =
     (if length body < min_compress_bytes then None
      else case compress_vec ext body (length body) of
             None \<Rightarrow> None
           | Some (out, stream_end) \<Rightarrow> if stream_end \<and> length out < length body then Some out else None)"

definition inflate :: "externs \<Rightarrow> bytes \<Rightarrow> nat \<Rightarrow> decode_error + bytes" where
  "inflate ext payload uncompressed_len =
     (case decompress_vec ext payload uncompressed_len of
        None \<Rightarrow> Err CompressedFrameInvalid
      | Some (out, stream_end) \<Rightarrow>
          if \<not> stream_end \<or> length out \<noteq> uncompressed_len then Err CompressedFrameInvalid else Ok out)"

definition encode_compressed :: "externs \<Rightarrow> compression \<Rightarrow> frame_kind \<Rightarrow> bytes" where
  "encode_compressed ext compression f =
     (if compression = NoCompression then encode ext f
      else let scratch = encode ext f
           in if length scratch < 4 then encode ext f
              else let body = drop 4 scratch
                   in case deflate ext body of
                        None \<Rightarrow> scratch
                      | Some deflated \<Rightarrow>
                          if \<not> length body < 2 ^ 32 then scratch
                          else frame_bytes 0x9A
                                 [(1, write_u8 (compression_as_u8 compression)),
                                  (2, write_u32_be (of_nat (length body))), (3, deflated)])"

text \<open>The server wraps the two payload-bearing frames only: \<open>phux-server/src/runtime/client.rs\<close>.\<close>

definition compress_policy :: "frame_kind \<Rightarrow> compression \<Rightarrow> compression" where
  "compress_policy f negotiated = (case f of
     BootstrapChunk _ _ _ _ _ \<Rightarrow> negotiated
   | HistoryPage _ _ _ _ _ _ _ _ \<Rightarrow> negotiated
   | _ \<Rightarrow> NoCompression)"

end
