(* ===== verification/Wire_Decode.thy ===== *)
theory Wire_Decode
  imports Wire_Frame
begin

text \<open>
  The message decoders of \<open>phux-protocol/src/wire/decode.rs\<close>, one per message, and the frame reader
  that dispatches on the type byte. Each decoder is \<open>message step init finish\<close>: the match on the
  field id, the variables before the loop, and the assembly after it.
\<close>

section \<open>The handshake\<close>

definition decode_color_support :: "color_support reader" where
  "decode_color_support = bind_r read_u8 (\<lambda>v.
     known_or (UnknownEnumValue ''ColorSupport'' (ucast v)) (color_support_from_wire v))"

definition decode_hyperlinks_flag :: "bool reader" where
  "decode_hyperlinks_flag = bind_r read_u8 (\<lambda>v.
     if v = 0 then ret_r False else if v = 1 then ret_r True
     else fail_r (UnknownEnumValue ''hyperlinks'' (ucast v)))"

definition decode_output_mode :: "output_mode reader" where
  "decode_output_mode = bind_r read_u8 (\<lambda>v.
     if v = 0 then ret_r OutRaw else if v = 1 then ret_r OutStateSync
     else fail_r (UnknownEnumValue ''OutputMode'' (ucast v)))"

definition read_terminal_color :: "terminal_color reader" where
  "read_terminal_color = bind_r read_u8 (\<lambda>r. bind_r read_u8 (\<lambda>g. bind_r read_u8 (\<lambda>b.
     ret_r \<lparr>color_r = r, color_g = g, color_b = b\<rparr>)))"

definition decode_default_colors :: "terminal_default_colors option reader" where
  "decode_default_colors = bind_r read_u8 (\<lambda>tag.
     if tag = 0 then ret_r None
     else if tag = 1 then bind_r read_terminal_color (\<lambda>fg. bind_r read_terminal_color (\<lambda>bg.
       ret_r (Some \<lparr>colors_foreground = fg, colors_background = bg\<rparr>)))
     else fail_r (UnknownEnumValue ''default_colors presence'' (ucast tag)))"

definition decode_bootstrap_capabilities :: "bootstrap_capabilities reader" where
  "decode_bootstrap_capabilities = bind_r read_u8 (\<lambda>profiles. bind_r read_u64_be (\<lambda>codecs.
     bind_r read_u32_be (\<lambda>features. bind_r read_u32_be (\<lambda>chunk. bind_r read_u32_be (\<lambda>page.
     bind_r (known_or BootstrapLimitExceeded (bootstrap_limits_new chunk page)) (\<lambda>limits.
       ret_r \<lparr>cap_profiles = profile_set_from_wire profiles,
              cap_native_codecs = engine_codec_set_from_wire codecs,
              cap_native_features = engine_feature_set_from_wire features, cap_limits = limits\<rparr>))))))"

definition decode_client_capabilities :: "client_capabilities reader" where
  "decode_client_capabilities = bind_r decode_color_support (\<lambda>color. bind_r read_u8 (\<lambda>layers.
     bind_r read_u8 (\<lambda>images. bind_r read_u8 (\<lambda>keyboards. bind_r decode_hyperlinks_flag (\<lambda>hyperlinks.
     bind_r decode_output_mode (\<lambda>mode. bind_r decode_default_colors (\<lambda>colors.
     bind_r decode_bootstrap_capabilities (\<lambda>bootstrap.
       let caps = client_capabilities_new\<lparr>cc_color_support := color, cc_layers := layer_set_from_wire layers,
             cc_image_protocols := image_protocol_set_from_wire images,
             cc_kbd_protocols := keyboard_protocol_set_from_wire keyboards, cc_hyperlinks := hyperlinks,
             cc_output_mode := mode, cc_bootstrap := bootstrap\<rparr>
       in ret_r (case colors of Some c \<Rightarrow> caps\<lparr>cc_default_colors := Some c\<rparr> | None \<Rightarrow> caps)))))))))"

definition decode_server_capabilities :: "server_capabilities reader" where
  "decode_server_capabilities = bind_r read_u8 (\<lambda>layers.
     let caps = server_capabilities_new\<lparr>sc_layers := layer_set_from_wire layers\<rparr>
     in bind_r (get_r at_body_end) (\<lambda>done.
          if \<not> done then bind_r read_u32_be (\<lambda>features.
            ret_r (caps\<lparr>sc_features := server_feature_set_from_wire features\<rparr>))
          else ret_r caps))"

definition negotiated_bootstrap_limits :: "u32 option \<Rightarrow> u32 option \<Rightarrow> decode_error + bootstrap_limits" where
  "negotiated_bootstrap_limits chunk page = req chunk (\<lambda>chunk. req page (\<lambda>page.
     ok_or BootstrapLimitExceeded (bootstrap_limits_new chunk page)))"

record hello_fields =
  hf_client_name :: "str option"
  hf_major :: "u16 option"
  hf_minor :: "u16 option"
  hf_patch :: "u16 option"
  hf_caps :: "client_capabilities option"
  hf_compression :: "compression_set option"
  hf_ssh_origin :: "ssh_origin option"

definition hello_step :: "hello_fields \<Rightarrow> u32 \<Rightarrow> bytes \<Rightarrow> decode_error + hello_fields" where
  "hello_step s fid v =
     (if fid = 1 then put (\<lambda>x. s\<lparr>hf_client_name := Some x\<rparr>) (from_utf8 v)
      else if fid = 2 then put (\<lambda>x. s\<lparr>hf_major := Some x\<rparr>) (sub_r read_u16_be v)
      else if fid = 3 then put (\<lambda>x. s\<lparr>hf_minor := Some x\<rparr>) (sub_r read_u16_be v)
      else if fid = 4 then put (\<lambda>x. s\<lparr>hf_patch := Some x\<rparr>) (sub_r read_u16_be v)
      else if fid = 5 then put (\<lambda>x. s\<lparr>hf_caps := Some x\<rparr>) (sub_r decode_client_capabilities v)
      else if fid = 6 then put (\<lambda>x. s\<lparr>hf_compression := Some x\<rparr>) (sub_r read_u8 v)
      else if fid = 9 then Ok (s\<lparr>hf_ssh_origin := decode_ssh_origin v\<rparr>)
      else Ok s)"

definition hello_init :: hello_fields where
  "hello_init = \<lparr>hf_client_name = None, hf_major = None, hf_minor = None, hf_patch = None,
     hf_caps = None, hf_compression = None, hf_ssh_origin = None\<rparr>"

definition hello_finish :: "hello_fields \<Rightarrow> decode_error + frame_kind" where
  "hello_finish s = req (hf_caps s) (\<lambda>caps.
     let caps = (case hf_ssh_origin s of Some og \<Rightarrow> caps\<lparr>cc_ssh_origin := Some og\<rparr> | None \<Rightarrow> caps);
         caps = (case hf_compression s of Some z \<Rightarrow> caps\<lparr>cc_compression := z\<rparr> | None \<Rightarrow> caps)
     in req (hf_client_name s) (\<lambda>name. req (hf_major s) (\<lambda>major. req (hf_minor s) (\<lambda>minor.
        req (hf_patch s) (\<lambda>patch. Ok (Hello name major minor patch caps))))))"

definition decode_hello :: "frame_kind reader" where
  "decode_hello = message hello_step hello_init hello_finish"

record hello_ok_fields =
  ho_major :: "u16 option"
  ho_minor :: "u16 option"
  ho_patch :: "u16 option"
  ho_caps :: "server_capabilities option"
  ho_server_id :: "bytes option"
  ho_profile :: "bootstrap_profile option"
  ho_chunk :: "u32 option"
  ho_page :: "u32 option"
  ho_compression :: "compression option"

definition hello_ok_step :: "hello_ok_fields \<Rightarrow> u32 \<Rightarrow> bytes \<Rightarrow> decode_error + hello_ok_fields" where
  "hello_ok_step s fid v =
     (if fid = 1 then put (\<lambda>x. s\<lparr>ho_major := Some x\<rparr>) (sub_r read_u16_be v)
      else if fid = 2 then put (\<lambda>x. s\<lparr>ho_minor := Some x\<rparr>) (sub_r read_u16_be v)
      else if fid = 3 then put (\<lambda>x. s\<lparr>ho_patch := Some x\<rparr>) (sub_r read_u16_be v)
      else if fid = 4 then put (\<lambda>x. s\<lparr>ho_caps := Some x\<rparr>) (sub_r decode_server_capabilities v)
      else if fid = 5 then Ok (s\<lparr>ho_server_id := Some v\<rparr>)
      else if fid = 6 then put (\<lambda>x. s\<lparr>ho_profile := Some x\<rparr>) (sub_r decode_bootstrap_profile v)
      else if fid = 7 then put (\<lambda>x. s\<lparr>ho_chunk := Some x\<rparr>) (sub_r read_u32_be v)
      else if fid = 8 then put (\<lambda>x. s\<lparr>ho_page := Some x\<rparr>) (sub_r read_u32_be v)
      else if fid = 9 then put (\<lambda>x. s\<lparr>ho_compression := Some (compression_from_u8 x)\<rparr>) (sub_r read_u8 v)
      else Ok s)"

definition hello_ok_init :: hello_ok_fields where
  "hello_ok_init = \<lparr>ho_major = None, ho_minor = None, ho_patch = None, ho_caps = None, ho_server_id = None,
     ho_profile = None, ho_chunk = None, ho_page = None, ho_compression = None\<rparr>"

definition hello_ok_finish :: "hello_ok_fields \<Rightarrow> decode_error + frame_kind" where
  "hello_ok_finish s = rbind (negotiated_bootstrap_limits (ho_chunk s) (ho_page s)) (\<lambda>limits.
     req (ho_caps s) (\<lambda>caps.
     let caps = (case ho_compression s of Some z \<Rightarrow> caps\<lparr>sc_compression := z\<rparr> | None \<Rightarrow> caps)
     in req (ho_major s) (\<lambda>major. req (ho_minor s) (\<lambda>minor. req (ho_patch s) (\<lambda>patch.
        req (ho_server_id s) (\<lambda>server_id. req (ho_profile s) (\<lambda>profile.
          Ok (HelloOk major minor patch caps server_id profile limits))))))))"

definition decode_hello_ok :: "frame_kind reader" where
  "decode_hello_ok = message hello_ok_step hello_ok_init hello_ok_finish"

section \<open>Sessions and input\<close>

definition decode_ping :: "frame_kind reader" where
  "decode_ping = message
     (\<lambda>nonce fid v. if fid = 1 then put Some (sub_r read_u64_be v) else Ok nonce)
     None (\<lambda>nonce. req nonce (\<lambda>nonce. Ok (Ping nonce)))"

definition decode_pong :: "frame_kind reader" where
  "decode_pong = message
     (\<lambda>nonce fid v. if fid = 1 then put Some (sub_r read_u64_be v) else Ok nonce)
     None (\<lambda>nonce. req nonce (\<lambda>nonce. Ok (Pong nonce)))"

definition decode_terminal_output :: "frame_kind reader" where
  "decode_terminal_output = message
     (\<lambda>(t, s, b, q, y) fid v.
        if fid = 1 then put (\<lambda>x. (Some x, s, b, q, y)) (sub_r decode_terminal_id v)
        else if fid = 2 then put (\<lambda>x. (t, s, b, Some x, y)) (sub_r read_u64_be v)
        else if fid = 3 then Ok (t, s, b, q, Some v)
        else if fid = 4 then put (\<lambda>x. (t, Some x, b, q, y)) (sub_r decode_stream_id v)
        else if fid = 5 then put (\<lambda>x. (t, s, Some x, q, y)) (sub_r decode_bootstrap_id v)
        else Ok (t, s, b, q, y))
     (None, None, None, None, None)
     (\<lambda>(t, s, b, q, y). req t (\<lambda>t. req s (\<lambda>s. req b (\<lambda>b. req q (\<lambda>q. req y (\<lambda>y.
        Ok (ResourceOutput t s b q y)))))))"

definition decode_attach :: "frame_kind reader" where
  "decode_attach = message
     (\<lambda>(target, viewport, scrollback, lines', attach_id) fid v.
        if fid = 1 then put (\<lambda>x. (Some x, viewport, scrollback, lines', attach_id)) (sub_r decode_attach_target v)
        else if fid = 2 then put (\<lambda>x. (target, Some x, scrollback, lines', attach_id)) (sub_r decode_viewport_info v)
        else if fid = 3 then put (\<lambda>x. (target, viewport, x \<noteq> 0, lines', attach_id)) (sub_r read_u8 v)
        else if fid = 4 then put (\<lambda>x. (target, viewport, scrollback, x, attach_id)) (sub_r read_u32_be v)
        else if fid = 5 then put (\<lambda>x. (target, viewport, scrollback, lines', Some x)) (sub_r read_u32_be v)
        else Ok (target, viewport, scrollback, lines', attach_id))
     (None, None, False, 0, None)
     (\<lambda>(target, viewport, scrollback, lines', attach_id). req attach_id (\<lambda>attach_id.
        req target (\<lambda>target. req viewport (\<lambda>viewport.
          Ok (Attach attach_id target viewport scrollback lines')))))"

definition decode_detach :: "frame_kind reader" where
  "decode_detach = message (\<lambda>s fid v. Ok s) () (\<lambda>s. Ok Detach)"

definition decode_input_key :: "frame_kind reader" where
  "decode_input_key = message
     (\<lambda>(t, e) fid v.
        if fid = 1 then put (\<lambda>x. (Some x, e)) (sub_r decode_terminal_id v)
        else if fid = 2 then put (\<lambda>x. (t, Some x)) (sub_r decode_key_event v)
        else Ok (t, e))
     (None, None) (\<lambda>(t, e). req t (\<lambda>t. req e (\<lambda>e. Ok (InputKey t e))))"

definition decode_input_mouse :: "frame_kind reader" where
  "decode_input_mouse = message
     (\<lambda>(t, e) fid v.
        if fid = 1 then put (\<lambda>x. (Some x, e)) (sub_r decode_terminal_id v)
        else if fid = 2 then put (\<lambda>x. (t, Some x)) (sub_r decode_mouse_event v)
        else Ok (t, e))
     (None, None) (\<lambda>(t, e). req t (\<lambda>t. req e (\<lambda>e. Ok (InputMouse t e))))"

definition decode_input_focus :: "frame_kind reader" where
  "decode_input_focus = message
     (\<lambda>(t, e) fid v.
        if fid = 1 then put (\<lambda>x. (Some x, e)) (sub_r decode_terminal_id v)
        else if fid = 2 then put (\<lambda>x. (t, Some x)) (rbind (sub_r read_u8 v) decode_focus_event)
        else Ok (t, e))
     (None, None) (\<lambda>(t, e). req t (\<lambda>t. req e (\<lambda>e. Ok (InputFocus t e))))"

definition decode_input_paste :: "frame_kind reader" where
  "decode_input_paste = message
     (\<lambda>(t, e) fid v.
        if fid = 1 then put (\<lambda>x. (Some x, e)) (sub_r decode_terminal_id v)
        else if fid = 2 then put (\<lambda>x. (t, Some x)) (sub_r decode_paste_event v)
        else Ok (t, e))
     (None, None) (\<lambda>(t, e). req t (\<lambda>t. req e (\<lambda>e. Ok (InputPaste t e))))"

definition decode_input_terminal_reply :: "frame_kind reader" where
  "decode_input_terminal_reply = message
     (\<lambda>(t, y) fid v.
        if fid = 1 then put (\<lambda>x. (Some x, y)) (sub_r decode_terminal_id v)
        else if fid = 2 then
          (if v = [] \<or> max_input_terminal_reply_bytes < length v then Err InputTerminalReplyLimitExceeded
           else Ok (t, Some v))
        else Ok (t, y))
     (None, None) (\<lambda>(t, y). req t (\<lambda>t. req y (\<lambda>y. Ok (InputTerminalReply t y))))"

definition decode_frame_ack :: "frame_kind reader" where
  "decode_frame_ack = message
     (\<lambda>(t, s, b, q) fid v.
        if fid = 1 then put (\<lambda>x. (Some x, s, b, q)) (sub_r decode_terminal_id v)
        else if fid = 2 then put (\<lambda>x. (t, s, b, Some x)) (sub_r read_u64_be v)
        else if fid = 3 then put (\<lambda>x. (t, Some x, b, q)) (sub_r decode_stream_id v)
        else if fid = 4 then put (\<lambda>x. (t, s, Some x, q)) (sub_r decode_bootstrap_id v)
        else Ok (t, s, b, q))
     (None, None, None, None)
     (\<lambda>(t, s, b, q). req t (\<lambda>t. req s (\<lambda>s. req b (\<lambda>b. req q (\<lambda>q. Ok (FrameAck t s b q))))))"

definition decode_viewport_resize :: "frame_kind reader" where
  "decode_viewport_resize = message
     (\<lambda>vp fid v. if fid = 1 then put Some (sub_r decode_viewport_info v) else Ok vp)
     None (\<lambda>vp. req vp (\<lambda>vp. Ok (ViewportResize vp)))"

definition decode_attached :: "externs \<Rightarrow> frame_kind reader" where
  "decode_attached ext = message
     (\<lambda>(snapshot, cid, attach_id) fid v.
        if fid = 1 then put (\<lambda>x. (Some x, cid, attach_id)) (sub_r (decode_session_snapshot ext) v)
        else if fid = 2 then put (\<lambda>x. (snapshot, Some x, attach_id)) (sub_r decode_client_id v)
        else if fid = 3 then put (\<lambda>x. (snapshot, cid, Some x)) (sub_r read_u32_be v)
        else Ok (snapshot, cid, attach_id))
     (None, None, None)
     (\<lambda>(snapshot, cid, attach_id). req attach_id (\<lambda>attach_id. req snapshot (\<lambda>snapshot. req cid (\<lambda>cid.
        Ok (Attached attach_id snapshot cid)))))"

definition decode_attach_ready :: "frame_kind reader" where
  "decode_attach_ready = message
     (\<lambda>a fid v. if fid = 1 then put Some (sub_r read_u32_be v) else Ok a)
     None (\<lambda>a. req a (\<lambda>a. Ok (AttachReady a)))"

text \<open>An unknown detach reason is dropped, and a later one overwrites an earlier one even then.\<close>

definition decode_detached :: "frame_kind reader" where
  "decode_detached = message
     (\<lambda>(reason, msg) fid v.
        if fid = 1 then put (\<lambda>x. (detach_reason_from_wire x, msg)) (sub_r read_u8 v)
        else if fid = 2 then put (\<lambda>x. (reason, Some x)) (from_utf8 v)
        else Ok (reason, msg))
     (None, None)
     (\<lambda>(reason, msg). Ok (Detached reason (case msg of Some m \<Rightarrow> m | None \<Rightarrow> [])))"

definition decode_bell :: "frame_kind reader" where
  "decode_bell = message
     (\<lambda>t fid v. if fid = 1 then put Some (sub_r decode_terminal_id v) else Ok t)
     None (\<lambda>t. req t (\<lambda>t. Ok (Bell t)))"

definition decode_error_frame :: "frame_kind reader" where
  "decode_error_frame = message
     (\<lambda>(request_id, code, msg) fid v.
        if fid = 1 then put (\<lambda>x. (Some x, code, msg)) (sub_r read_u32_be v)
        else if fid = 2 then put (\<lambda>x. (request_id, Some x, msg))
          (rbind (sub_r read_u16_be v) (\<lambda>raw. ok_or (UnknownEnumValue ''ErrorCode'' (ucast raw)) (error_code_from_wire raw)))
        else if fid = 3 then put (\<lambda>x. (request_id, code, Some x)) (from_utf8 v)
        else Ok (request_id, code, msg))
     (None, None, None)
     (\<lambda>(request_id, code, msg). req code (\<lambda>code. req msg (\<lambda>msg. Ok (Error request_id code msg))))"

section \<open>Bootstrap and history\<close>

definition checked_history_cursor :: "bytes \<Rightarrow> decode_error + bytes" where
  "checked_history_cursor v = (if max_history_cursor_bytes < length v then Err BootstrapLimitExceeded else Ok v)"

definition checked_bootstrap_dimensions ::
    "bootstrap_stream_profile \<Rightarrow> u16 option \<Rightarrow> u16 option \<Rightarrow> decode_error + u16 \<times> u16" where
  "checked_bootstrap_dimensions profile cols rows = req cols (\<lambda>cols. req rows (\<lambda>rows.
     if (profile = StreamAgentEventsJsonlV1) \<noteq> (cols = 0 \<and> rows = 0) then Err InvalidBootstrapProfile
     else Ok (cols, rows)))"

definition checked_history_page_seq :: "bytes option \<Rightarrow> decode_error + u64" where
  "checked_history_page_seq value = req value (\<lambda>v. rbind (sub_r read_u64_be v) (\<lambda>page_seq.
     if page_seq = 0 then Err InvalidHistoryPageSequence else Ok page_seq))"

definition checked_history_page_rows :: "bytes option \<Rightarrow> decode_error + u32" where
  "checked_history_page_rows value = req value (\<lambda>v. rbind (sub_r read_u32_be v) (\<lambda>rows.
     if max_history_page_rows < rows then Err HistoryRowLimitExceeded else Ok rows))"

definition checked_history_required_rows :: "u32 option \<Rightarrow> decode_error + u32" where
  "checked_history_required_rows rows = req rows (\<lambda>rows.
     if rows = 0 \<or> max_history_page_rows < rows then Err HistoryRowLimitExceeded else Ok rows)"

definition checked_history_required_bytes :: "u32 \<Rightarrow> u32 option \<Rightarrow> decode_error + u32" where
  "checked_history_required_bytes limit required = req required (\<lambda>required.
     if required = 0 \<or> limit < required then Err BootstrapLimitExceeded else Ok required)"

definition decode_bootstrap_begin :: "frame_kind reader" where
  "decode_bootstrap_begin = message
     (\<lambda>(t, s, b, codec, cols, rows, mode, base) fid v.
        if fid = 1 then put (\<lambda>x. (Some x, s, b, codec, cols, rows, mode, base)) (sub_r decode_terminal_id v)
        else if fid = 2 then put (\<lambda>x. (t, Some x, b, codec, cols, rows, mode, base)) (sub_r decode_stream_id v)
        else if fid = 3 then put (\<lambda>x. (t, s, Some x, codec, cols, rows, mode, base)) (sub_r decode_bootstrap_id v)
        else if fid = 4 then put (\<lambda>x. (t, s, b, Some x, cols, rows, mode, base)) (sub_r decode_bootstrap_codec v)
        else if fid = 5 then put (\<lambda>x. (t, s, b, codec, Some x, rows, mode, base)) (sub_r read_u16_be v)
        else if fid = 6 then put (\<lambda>x. (t, s, b, codec, cols, Some x, mode, base)) (sub_r read_u16_be v)
        else if fid = 7 then put (\<lambda>x. (t, s, b, codec, cols, rows, Some x, base)) (sub_r read_u8 v)
        else if fid = 8 then put (\<lambda>x. (t, s, b, codec, cols, rows, mode, Some x)) (sub_r read_u64_be v)
        else Ok (t, s, b, codec, cols, rows, mode, base))
     (None, None, None, None, None, None, None, None)
     (\<lambda>(t, s, b, codec, cols, rows, mode, base).
        rbind (req codec (\<lambda>codec. req mode (\<lambda>mode. decode_bootstrap_stream_profile codec mode))) (\<lambda>profile.
        rbind (checked_bootstrap_dimensions profile cols rows) (\<lambda>(cols, rows).
        req t (\<lambda>t. req s (\<lambda>s. req b (\<lambda>b. req base (\<lambda>base.
          Ok (BootstrapBegin t s b profile cols rows base))))))))"

definition decode_bootstrap_chunk :: "frame_kind reader" where
  "decode_bootstrap_chunk = bind_r (get_r dec_max_chunk) (\<lambda>limit. message
     (\<lambda>(t, s, b, q, payload) fid v.
        if fid = 1 then put (\<lambda>x. (Some x, s, b, q, payload)) (sub_r decode_terminal_id v)
        else if fid = 2 then put (\<lambda>x. (t, Some x, b, q, payload)) (sub_r decode_stream_id v)
        else if fid = 3 then put (\<lambda>x. (t, s, Some x, q, payload)) (sub_r decode_bootstrap_id v)
        else if fid = 4 then put (\<lambda>x. (t, s, b, Some x, payload)) (sub_r read_u32_be v)
        else if fid = 5 then
          (if unat limit < length v then Err BootstrapLimitExceeded else Ok (t, s, b, q, Some v))
        else Ok (t, s, b, q, payload))
     (None, None, None, None, None)
     (\<lambda>(t, s, b, q, payload). req t (\<lambda>t. req s (\<lambda>s. req b (\<lambda>b. req q (\<lambda>q. req payload (\<lambda>payload.
        Ok (BootstrapChunk t s b q payload))))))))"

definition decode_bootstrap_ready :: "frame_kind reader" where
  "decode_bootstrap_ready = message
     (\<lambda>(t, s, b, cursor) fid v.
        if fid = 1 then put (\<lambda>x. (Some x, s, b, cursor)) (sub_r decode_terminal_id v)
        else if fid = 2 then put (\<lambda>x. (t, Some x, b, cursor)) (sub_r decode_stream_id v)
        else if fid = 3 then put (\<lambda>x. (t, s, Some x, cursor)) (sub_r decode_bootstrap_id v)
        else if fid = 4 then put (\<lambda>x. (t, s, b, Some x)) (checked_history_cursor v)
        else Ok (t, s, b, cursor))
     (None, None, None, None)
     (\<lambda>(t, s, b, cursor). req t (\<lambda>t. req s (\<lambda>s. req b (\<lambda>b. Ok (BootstrapReady t s b cursor)))))"

definition decode_history_request :: "frame_kind reader" where
  "decode_history_request = message
     (\<lambda>(t, s, b, cursor, max_bytes, max_rows) fid v.
        if fid = 1 then put (\<lambda>x. (Some x, s, b, cursor, max_bytes, max_rows)) (sub_r decode_terminal_id v)
        else if fid = 2 then put (\<lambda>x. (t, Some x, b, cursor, max_bytes, max_rows)) (sub_r decode_stream_id v)
        else if fid = 3 then put (\<lambda>x. (t, s, Some x, cursor, max_bytes, max_rows)) (sub_r decode_bootstrap_id v)
        else if fid = 4 then put (\<lambda>x. (t, s, b, Some x, max_bytes, max_rows)) (checked_history_cursor v)
        else if fid = 5 then put (\<lambda>x. (t, s, b, cursor, Some x, max_rows)) (sub_r read_u32_be v)
        else if fid = 6 then put (\<lambda>x. (t, s, b, cursor, max_bytes, Some x)) (sub_r read_u32_be v)
        else Ok (t, s, b, cursor, max_bytes, max_rows))
     (None, None, None, None, None, None)
     (\<lambda>(t, s, b, cursor, max_bytes, max_rows). req max_bytes (\<lambda>max_bytes. req max_rows (\<lambda>max_rows.
        req t (\<lambda>t. req s (\<lambda>s. req b (\<lambda>b. req cursor (\<lambda>cursor.
          Ok (HistoryRequest t s b cursor max_bytes max_rows))))))))"

text \<open>A history page keeps the raw bytes of its fields and decodes them after the loop.\<close>

definition decode_history_page :: "frame_kind reader" where
  "decode_history_page = bind_r (get_r dec_max_page) (\<lambda>limit. message
     (\<lambda>(t, s, b, cursor, next_cursor, payload, page_seq, rows) fid v.
        Ok (if fid = 1 then (Some v, s, b, cursor, next_cursor, payload, page_seq, rows)
        else if fid = 2 then (t, Some v, b, cursor, next_cursor, payload, page_seq, rows)
        else if fid = 3 then (t, s, Some v, cursor, next_cursor, payload, page_seq, rows)
        else if fid = 4 then (t, s, b, Some v, next_cursor, payload, page_seq, rows)
        else if fid = 5 then (t, s, b, cursor, Some v, payload, page_seq, rows)
        else if fid = 6 then (t, s, b, cursor, next_cursor, Some v, page_seq, rows)
        else if fid = 7 then (t, s, b, cursor, next_cursor, payload, Some v, rows)
        else if fid = 8 then (t, s, b, cursor, next_cursor, payload, page_seq, Some v)
        else (t, s, b, cursor, next_cursor, payload, page_seq, rows)))
     (None, None, None, None, None, None, None, None)
     (\<lambda>(t, s, b, cursor, next_cursor, payload, page_seq, rows).
        rbind (req s (sub_r decode_stream_id)) (\<lambda>s. rbind (req b (sub_r decode_bootstrap_id)) (\<lambda>b.
        rbind (checked_history_page_seq page_seq) (\<lambda>page_seq. rbind (checked_history_page_rows rows) (\<lambda>rows.
        req payload (\<lambda>payload.
        if unat limit < length payload then Err BootstrapLimitExceeded
        else req cursor (\<lambda>cursor.
        if max_history_cursor_bytes < length cursor then Err BootstrapLimitExceeded
        else if (case next_cursor of Some n \<Rightarrow> max_history_cursor_bytes < length n | None \<Rightarrow> False)
          then Err BootstrapLimitExceeded
        else rbind (req t (sub_r decode_terminal_id)) (\<lambda>t.
          Ok (HistoryPage t s b page_seq cursor next_cursor payload rows))))))))))"

definition decode_bootstrap_tombstone :: "frame_kind reader" where
  "decode_bootstrap_tombstone = message
     (\<lambda>(t, s, b, reason, seq) fid v.
        if fid = 1 then put (\<lambda>x. (Some x, s, b, reason, seq)) (sub_r decode_terminal_id v)
        else if fid = 2 then put (\<lambda>x. (t, Some x, b, reason, seq)) (sub_r decode_stream_id v)
        else if fid = 3 then put (\<lambda>x. (t, s, Some x, reason, seq)) (sub_r decode_bootstrap_id v)
        else if fid = 4 then put (\<lambda>x. (t, s, b, Some x, seq))
          (rbind (sub_r read_u8 v) (\<lambda>raw. ok_or (unknown_enum ''TombstoneReason'' raw) (tombstone_reason_from_wire raw)))
        else if fid = 5 then put (\<lambda>x. (t, s, b, reason, Some x)) (sub_r read_u64_be v)
        else Ok (t, s, b, reason, seq))
     (None, None, None, None, None)
     (\<lambda>(t, s, b, reason, seq). req t (\<lambda>t. req s (\<lambda>s. req b (\<lambda>b. req reason (\<lambda>reason. req seq (\<lambda>seq.
        Ok (BootstrapTombstone t s b reason seq)))))))"

definition decode_history_tombstone :: "frame_kind reader" where
  "decode_history_tombstone = message
     (\<lambda>(t, s, b, cursor, reason) fid v.
        if fid = 1 then put (\<lambda>x. (Some x, s, b, cursor, reason)) (sub_r decode_terminal_id v)
        else if fid = 2 then put (\<lambda>x. (t, Some x, b, cursor, reason)) (sub_r decode_stream_id v)
        else if fid = 3 then put (\<lambda>x. (t, s, Some x, cursor, reason)) (sub_r decode_bootstrap_id v)
        else if fid = 4 then put (\<lambda>x. (t, s, b, Some x, reason)) (checked_history_cursor v)
        else if fid = 5 then put (\<lambda>x. (t, s, b, cursor, Some x))
          (rbind (sub_r read_u8 v) (\<lambda>raw.
             ok_or (unknown_enum ''HistoryTombstoneReason'' raw) (history_tombstone_reason_from_wire raw)))
        else Ok (t, s, b, cursor, reason))
     (None, None, None, None, None)
     (\<lambda>(t, s, b, cursor, reason). req t (\<lambda>t. req s (\<lambda>s. req b (\<lambda>b. req cursor (\<lambda>cursor. req reason (\<lambda>reason.
        Ok (HistoryTombstone t s b cursor reason)))))))"

definition decode_history_rejected :: "frame_kind reader" where
  "decode_history_rejected = bind_r (get_r dec_max_page) (\<lambda>limit. message
     (\<lambda>(t, s, b, cursor, reason, rb, rr) fid v.
        if fid = 1 then put (\<lambda>x. (Some x, s, b, cursor, reason, rb, rr)) (sub_r decode_terminal_id v)
        else if fid = 2 then put (\<lambda>x. (t, Some x, b, cursor, reason, rb, rr)) (sub_r decode_stream_id v)
        else if fid = 3 then put (\<lambda>x. (t, s, Some x, cursor, reason, rb, rr)) (sub_r decode_bootstrap_id v)
        else if fid = 4 then put (\<lambda>x. (t, s, b, Some x, reason, rb, rr)) (checked_history_cursor v)
        else if fid = 5 then put (\<lambda>x. (t, s, b, cursor, Some x, rb, rr))
          (rbind (sub_r read_u8 v) (\<lambda>raw.
             ok_or (unknown_enum ''HistoryRejectionReason'' raw) (history_rejection_reason_from_wire raw)))
        else if fid = 6 then put (\<lambda>x. (t, s, b, cursor, reason, Some x, rr)) (sub_r read_u32_be v)
        else if fid = 7 then put (\<lambda>x. (t, s, b, cursor, reason, rb, Some x)) (sub_r read_u32_be v)
        else Ok (t, s, b, cursor, reason, rb, rr))
     (None, None, None, None, None, None, None)
     (\<lambda>(t, s, b, cursor, reason, rb, rr).
        rbind (checked_history_required_bytes limit rb) (\<lambda>rb. rbind (checked_history_required_rows rr) (\<lambda>rr.
        req t (\<lambda>t. req s (\<lambda>s. req b (\<lambda>b. req cursor (\<lambda>cursor. req reason (\<lambda>reason.
          Ok (HistoryRejected t s b cursor reason rb rr))))))))))"

section \<open>Metadata, directories and resources\<close>

definition decode_metadata_scope_key :: "(u32 \<times> meta_scope \<times> str) reader" where
  "decode_metadata_scope_key = message
     (\<lambda>(request_id, scope, key) fid v.
        if fid = 1 then put (\<lambda>x. (x, scope, key)) (sub_r read_u32_be v)
        else if fid = 2 then put (\<lambda>x. (request_id, Some x, key)) (sub_r decode_scope v)
        else if fid = 3 then put (\<lambda>x. (request_id, scope, Some x)) (from_utf8 v)
        else Ok (request_id, scope, key))
     (0, None, None)
     (\<lambda>(request_id, scope, key). req scope (\<lambda>scope. req key (\<lambda>key. Ok (request_id, scope, key))))"

definition decode_get_metadata :: "frame_kind reader" where
  "decode_get_metadata = bind_r decode_metadata_scope_key (\<lambda>(request_id, scope, key).
     ret_r (GetMetadata request_id scope key))"

definition decode_delete_metadata :: "frame_kind reader" where
  "decode_delete_metadata = bind_r decode_metadata_scope_key (\<lambda>(request_id, scope, key).
     ret_r (DeleteMetadata request_id scope key))"

definition decode_set_metadata :: "frame_kind reader" where
  "decode_set_metadata = message
     (\<lambda>(request_id, scope, key, value) fid v.
        if fid = 1 then put (\<lambda>x. (x, scope, key, value)) (sub_r read_u32_be v)
        else if fid = 2 then put (\<lambda>x. (request_id, Some x, key, value)) (sub_r decode_scope v)
        else if fid = 3 then put (\<lambda>x. (request_id, scope, Some x, value)) (from_utf8 v)
        else if fid = 4 then Ok (request_id, scope, key, v)
        else Ok (request_id, scope, key, value))
     (0, None, None, [])
     (\<lambda>(request_id, scope, key, value). req scope (\<lambda>scope. req key (\<lambda>key.
        Ok (SetMetadata request_id scope key value))))"

definition decode_list_metadata :: "frame_kind reader" where
  "decode_list_metadata = message
     (\<lambda>(request_id, scope) fid v.
        if fid = 1 then put (\<lambda>x. (x, scope)) (sub_r read_u32_be v)
        else if fid = 2 then put (\<lambda>x. (request_id, Some x)) (sub_r decode_scope v)
        else Ok (request_id, scope))
     (0, None) (\<lambda>(request_id, scope). req scope (\<lambda>scope. Ok (ListMetadata request_id scope)))"

definition decode_subscribe_metadata :: "frame_kind reader" where
  "decode_subscribe_metadata = message
     (\<lambda>(scope, key) fid v.
        if fid = 1 then put (\<lambda>x. (Some x, key)) (sub_r decode_scope v)
        else if fid = 2 then put (\<lambda>x. (scope, Some x)) (from_utf8 v)
        else Ok (scope, key))
     (None, None) (\<lambda>(scope, key). req scope (\<lambda>scope. req key (\<lambda>key. Ok (SubscribeMetadata scope key))))"

definition decode_metadata_changed :: "frame_kind reader" where
  "decode_metadata_changed = message
     (\<lambda>(scope, key, value) fid v.
        if fid = 1 then put (\<lambda>x. (Some x, key, value)) (sub_r decode_scope v)
        else if fid = 2 then put (\<lambda>x. (scope, Some x, value)) (from_utf8 v)
        else if fid = 3 then Ok (scope, key, Some v)
        else Ok (scope, key, value))
     (None, None, None)
     (\<lambda>(scope, key, value). req scope (\<lambda>scope. req key (\<lambda>key. Ok (MetadataChanged scope key value))))"

definition decode_metadata_value :: "frame_kind reader" where
  "decode_metadata_value = message
     (\<lambda>(request_id, value) fid v.
        if fid = 1 then put (\<lambda>x. (x, value)) (sub_r read_u32_be v)
        else if fid = 2 then Ok (request_id, Some v)
        else Ok (request_id, value))
     (0, None) (\<lambda>(request_id, value). Ok (MetadataValue request_id value))"

definition decode_metadata_keys :: "frame_kind reader" where
  "decode_metadata_keys = message
     (\<lambda>(request_id, keys) fid v.
        if fid = 1 then put (\<lambda>x. (x, keys)) (sub_r read_u32_be v)
        else if fid = 2 then put (\<lambda>x. (request_id, x)) (sub_r (read_list32 read_str) v)
        else Ok (request_id, keys))
     (0, []) (\<lambda>(request_id, keys). Ok (MetadataKeys request_id keys))"

definition decode_bind_instance :: "bool reader" where
  "decode_bind_instance = bind_r read_u8 (\<lambda>v.
     if v = 0 then ret_r False else if v = 1 then ret_r True
     else fail_r (unknown_enum ''SpawnResource.bind_instance'' v))"

definition decode_agent_facet_str :: "bytes \<Rightarrow> nat \<Rightarrow> decode_error + str" where
  "decode_agent_facet_str v max_bytes =
     (if v = [] \<or> max_bytes < length v then Err AgentFacetLimitExceeded else from_utf8 v)"

fun first_violation :: "u8 \<Rightarrow> bool \<Rightarrow> (u32 \<times> bool) list \<Rightarrow> decode_error option" where
  "first_violation kind required [] = None"
| "first_violation kind required ((field, present) # rest) =
     (if present \<noteq> required then Some (InvalidSpawnForKind kind field required)
      else first_violation kind required rest)"

text \<open>The cross-field rules of a spawn request, on the decoded frame.\<close>

definition validate_spawn_for_kind :: "frame_kind \<Rightarrow> decode_error + unit" where
  "validate_spawn_for_kind f = (case f of
     SpawnResource _ _ cmd cwd env term _ owner _ sz (Some r) \<Rightarrow>
       (let kind = resource_kind_as_wire (sr_kind r) in
        case sr_kind r of
          KindTerminal \<Rightarrow>
            (case first_violation kind False
               [(12, sr_parent r \<noteq> None), (13, sr_provider r \<noteq> None), (14, sr_native_id r \<noteq> None)]
             of Some e \<Rightarrow> Err e | None \<Rightarrow> Ok ())
        | KindAgentSession \<Rightarrow>
            (case first_violation kind True [(12, sr_parent r \<noteq> None), (13, sr_provider r \<noteq> None)] of
               Some e \<Rightarrow> Err e
             | None \<Rightarrow>
                 (case first_violation kind False
                    [(3, cmd \<noteq> None), (4, cwd \<noteq> None), (5, env \<noteq> None), (6, term \<noteq> None),
                     (8, owner \<noteq> None), (10, sz \<noteq> None)]
                  of Some e \<Rightarrow> Err e | None \<Rightarrow> Ok ()))
        | KindUnknown _ \<Rightarrow> Ok ())
   | _ \<Rightarrow> Ok ())"

record spawn_fields =
  sf_request_id :: u32
  sf_group :: group_id
  sf_command :: "str list option"
  sf_cwd :: "str option"
  sf_env :: "(str \<times> str) list option"
  sf_term :: "str option"
  sf_satellite :: "str option"
  sf_owner :: "wire_resource_id option"
  sf_agent_session :: "bytes option"
  sf_size :: "(u16 \<times> u16) option"
  sf_resource :: spawn_resource

definition spawn_init :: spawn_fields where
  "spawn_init = \<lparr>sf_request_id = 0, sf_group = GroupId 0, sf_command = None, sf_cwd = None, sf_env = None,
     sf_term = None, sf_satellite = None, sf_owner = None, sf_agent_session = None, sf_size = None,
     sf_resource = \<lparr>sr_kind = KindTerminal, sr_parent = None, sr_provider = None, sr_native_id = None,
                    sr_bind_instance = False\<rparr>\<rparr>"

definition spawn_step :: "spawn_fields \<Rightarrow> u32 \<Rightarrow> bytes \<Rightarrow> decode_error + spawn_fields" where
  "spawn_step s fid v =
     (if fid = 1 then put (\<lambda>x. s\<lparr>sf_request_id := x\<rparr>) (sub_r read_u32_be v)
      else if fid = 2 then put (\<lambda>x. s\<lparr>sf_group := GroupId x\<rparr>) (sub_r read_u32_be v)
      else if fid = 3 then put (\<lambda>x. s\<lparr>sf_command := Some x\<rparr>) (sub_r decode_string_list v)
      else if fid = 4 then put (\<lambda>x. s\<lparr>sf_cwd := Some x\<rparr>) (from_utf8 v)
      else if fid = 5 then put (\<lambda>x. s\<lparr>sf_env := Some x\<rparr>) (sub_r decode_env v)
      else if fid = 6 then put (\<lambda>x. s\<lparr>sf_term := Some x\<rparr>) (from_utf8 v)
      else if fid = 7 then put (\<lambda>x. s\<lparr>sf_satellite := Some x\<rparr>) (from_utf8 v)
      else if fid = 8 then put (\<lambda>x. s\<lparr>sf_owner := Some x\<rparr>) (sub_r decode_terminal_id v)
      else if fid = 9 then Ok (s\<lparr>sf_agent_session := Some v\<rparr>)
      else if fid = 10 then put (\<lambda>x. s\<lparr>sf_size := Some x\<rparr>)
        (sub_r (bind_r read_u16_be (\<lambda>cols. bind_r read_u16_be (\<lambda>rows. ret_r (cols, rows)))) v)
      else if fid = 11 then put (\<lambda>x. s\<lparr>sf_resource := (sf_resource s)\<lparr>sr_kind := resource_kind_from_wire x\<rparr>\<rparr>) (sub_r read_u8 v)
      else if fid = 12 then put (\<lambda>x. s\<lparr>sf_resource := (sf_resource s)\<lparr>sr_parent := Some x\<rparr>\<rparr>) (sub_r decode_terminal_id v)
      else if fid = 13 then put (\<lambda>x. s\<lparr>sf_resource := (sf_resource s)\<lparr>sr_provider := Some x\<rparr>\<rparr>)
        (decode_agent_facet_str v max_resource_provider_bytes)
      else if fid = 14 then put (\<lambda>x. s\<lparr>sf_resource := (sf_resource s)\<lparr>sr_native_id := Some x\<rparr>\<rparr>)
        (decode_agent_facet_str v max_resource_native_id_bytes)
      else if fid = 15 then put (\<lambda>x. s\<lparr>sf_resource := (sf_resource s)\<lparr>sr_bind_instance := x\<rparr>\<rparr>) (sub_r decode_bind_instance v)
      else Ok s)"

definition spawn_finish :: "spawn_fields \<Rightarrow> decode_error + frame_kind" where
  "spawn_finish s =
     (let frame = SpawnResource (sf_request_id s) (sf_group s) (sf_command s) (sf_cwd s) (sf_env s) (sf_term s)
            (sf_satellite s) (sf_owner s) (sf_agent_session s) (sf_size s)
            (if spawn_resource_is_default (sf_resource s) then None else Some (sf_resource s))
      in rbind (validate_spawn_for_kind frame) (\<lambda>_. Ok frame))"

definition decode_spawn_terminal :: "frame_kind reader" where
  "decode_spawn_terminal = message spawn_step spawn_init spawn_finish"

definition bind_spawn_result :: "spawn_result \<Rightarrow> server_instance option \<Rightarrow> spawn_result" where
  "bind_spawn_result result inst = (case (result, inst) of
     (SpawnOk rid, Some i) \<Rightarrow> SpawnOkBound rid i
   | _ \<Rightarrow> result)"

definition decode_terminal_spawned :: "frame_kind reader" where
  "decode_terminal_spawned = message
     (\<lambda>(request_id, result, inst) fid v.
        if fid = 1 then put (\<lambda>x. (x, result, inst)) (sub_r read_u32_be v)
        else if fid = 2 then put (\<lambda>x. (request_id, Some x, inst)) (sub_r decode_spawn_result v)
        else if fid = 3 then put (\<lambda>x. (request_id, result, Some x)) (sub_r decode_server_instance v)
        else Ok (request_id, result, inst))
     (0, None, None)
     (\<lambda>(request_id, result, inst). req result (\<lambda>result. Ok (ResourceSpawned request_id (bind_spawn_result result inst))))"

definition decode_move_terminal :: "frame_kind reader" where
  "decode_move_terminal = message
     (\<lambda>(request_id, terminal, owner) fid v.
        if fid = 1 then put (\<lambda>x. (x, terminal, owner)) (sub_r read_u32_be v)
        else if fid = 2 then put (\<lambda>x. (request_id, Some x, owner)) (sub_r decode_terminal_id v)
        else if fid = 3 then put (\<lambda>x. (request_id, terminal, Some x)) (sub_r decode_terminal_id v)
        else Ok (request_id, terminal, owner))
     (0, None, None)
     (\<lambda>(request_id, terminal, owner). req terminal (\<lambda>terminal. req owner (\<lambda>owner.
        Ok (MoveResource request_id terminal owner))))"

definition decode_terminal_moved :: "frame_kind reader" where
  "decode_terminal_moved = message
     (\<lambda>(request_id, result) fid v.
        if fid = 1 then put (\<lambda>x. (x, result)) (sub_r read_u32_be v)
        else if fid = 2 then put (\<lambda>x. (request_id, Some x)) (sub_r decode_move_result v)
        else Ok (request_id, result))
     (0, None) (\<lambda>(request_id, result). req result (\<lambda>result. Ok (ResourceMoved request_id result)))"

definition decode_terminal_closed :: "frame_kind reader" where
  "decode_terminal_closed = message
     (\<lambda>(t, status, reason) fid v.
        if fid = 1 then put (\<lambda>x. (Some x, status, reason)) (sub_r decode_terminal_id v)
        else if fid = 2 then put (\<lambda>x. (t, Some x, reason)) (sub_r read_u32_be v)
        else if fid = 3 then put (\<lambda>x. (t, status, close_reason_from_wire x)) (sub_r read_u8 v)
        else Ok (t, status, reason))
     (None, None, CloseUnknown)
     (\<lambda>(t, status, reason). req t (\<lambda>t. Ok (ResourceClosed t status reason)))"

definition decode_terminal_resize :: "frame_kind reader" where
  "decode_terminal_resize = message
     (\<lambda>(t, cols, rows) fid v.
        if fid = 1 then put (\<lambda>x. (Some x, cols, rows)) (sub_r decode_terminal_id v)
        else if fid = 2 then put (\<lambda>x. (t, x, rows)) (sub_r read_u16_be v)
        else if fid = 3 then put (\<lambda>x. (t, cols, x)) (sub_r read_u16_be v)
        else Ok (t, cols, rows))
     (None, 0, 0) (\<lambda>(t, cols, rows). req t (\<lambda>t. Ok (ResizeTerminal t cols rows)))"

section \<open>Commands and events\<close>

definition decode_command_frame :: "frame_kind reader" where
  "decode_command_frame = message
     (\<lambda>(request_id, cmd) fid v.
        if fid = 1 then put (\<lambda>x. (x, cmd)) (sub_r read_u32_be v)
        else if fid = 2 then put (\<lambda>x. (request_id, Some x)) (sub_r decode_command v)
        else Ok (request_id, cmd))
     (0, None) (\<lambda>(request_id, cmd). req cmd (\<lambda>cmd. Ok (CommandFrame request_id cmd)))"

definition decode_command_result_frame :: "externs \<Rightarrow> frame_kind reader" where
  "decode_command_result_frame ext = message
     (\<lambda>(request_id, result) fid v.
        if fid = 1 then put (\<lambda>x. (x, result)) (sub_r read_u32_be v)
        else if fid = 2 then put (\<lambda>x. (request_id, Some x)) (sub_r (decode_command_result ext) v)
        else Ok (request_id, result))
     (0, None) (\<lambda>(request_id, result). req result (\<lambda>result. Ok (CommandResultFrame request_id result)))"

definition decode_subscribe_events :: "frame_kind reader" where
  "decode_subscribe_events = message
     (\<lambda>t fid v. if fid = 1 then put Some (sub_r decode_terminal_id v) else Ok t)
     None (\<lambda>t. Ok (SubscribeEvents t))"

definition decode_event :: "frame_kind reader" where
  "decode_event = message
     (\<lambda>(t, e) fid v.
        if fid = 1 then put (\<lambda>x. (Some x, e)) (sub_r decode_terminal_id v)
        else if fid = 2 then put (\<lambda>x. (t, Some x)) (sub_r decode_agent_event v)
        else Ok (t, e))
     (None, None) (\<lambda>(t, e). req e (\<lambda>e. Ok (Event t e)))"

section \<open>The frame reader\<close>

text \<open>
  The dispatch on the type byte. The arm of \<open>FRAME_COMPRESSED\<close> inflates a body and runs the same
  dispatch on the frame inside, where it refuses a second envelope; it comes after the table of the
  plain messages, which is the whole dispatch of the inner frame.
\<close>

definition decode_catalog :: "externs \<Rightarrow> u8 \<Rightarrow> frame_kind reader" where
  "decode_catalog ext tb =
     (case map_of
        [(0x01, decode_hello), (0x80, decode_hello_ok), (0x7F, decode_ping), (0xFF, decode_pong),
         (0x90, decode_terminal_output), (0x02, decode_attach), (0x03, decode_detach),
         (0x10, decode_input_key), (0x12, decode_input_mouse), (0x14, decode_input_focus),
         (0x11, decode_input_paste), (0x17, decode_input_terminal_reply), (0x21, decode_frame_ack),
         (0x20, decode_viewport_resize), (0x81, decode_attached ext), (0x83, decode_attach_ready),
         (0x93, decode_bootstrap_begin), (0x94, decode_bootstrap_chunk), (0x95, decode_bootstrap_ready),
         (0x16, decode_history_request), (0x96, decode_history_page), (0x97, decode_bootstrap_tombstone),
         (0x98, decode_history_tombstone), (0x99, decode_history_rejected), (0x82, decode_detached),
         (0xB0, decode_bell), (0xC1, decode_error_frame), (0x50, decode_get_metadata),
         (0x51, decode_set_metadata), (0x52, decode_delete_metadata), (0x53, decode_list_metadata),
         (0x54, decode_subscribe_metadata), (0xD0, decode_metadata_changed), (0xD1, decode_metadata_value),
         (0xD2, decode_metadata_keys),
         (0x55, bind_r decode_list_directory (\<lambda>(request_id, path, host). ret_r (ListDirectory request_id path host))),
         (0xD3, bind_r decode_directory_listing (\<lambda>(request_id, result). ret_r (DirectoryListing request_id result))),
         (0x22, decode_spawn_terminal), (0xA2, decode_terminal_spawned), (0x2A, decode_move_terminal),
         (0xA8, decode_terminal_moved), (0xA1, decode_terminal_closed), (0x23, decode_terminal_resize),
         (0x31, decode_command_frame), (0xC2, decode_command_result_frame ext),
         (0x41, decode_subscribe_events), (0xB3, decode_event)] tb
      of Some r \<Rightarrow> r | None \<Rightarrow> fail_r (UnknownFrameKind (ucast tb)))"

definition max_compressed_frame_bytes :: "u32 \<Rightarrow> u32 \<Rightarrow> u32" where
  "max_compressed_frame_bytes chunk page =
     (let m = (if chunk < page then page else chunk);
          sum = (if unat m + 64 * 1024 < 2 ^ 32 then m + 64 * 1024 else 2 ^ 32 - 1)
      in if max_frame_len < sum then max_frame_len else sum)"

definition decoder_with_limits :: "bytes \<Rightarrow> bootstrap_limits \<Rightarrow> decoder" where
  "decoder_with_limits input limits = \<lparr>dec_input = input, dec_pos = 0, dec_body_end = None,
     dec_max_chunk = max_chunk_bytes limits, dec_max_page = max_page_bytes limits\<rparr>"

definition decode_inner :: "externs \<Rightarrow> u32 \<Rightarrow> u32 \<Rightarrow> bytes \<Rightarrow> decode_error + frame_kind" where
  "decode_inner ext chunk page body =
     (let inner = (decoder_with_limits body
            (case bootstrap_limits_new chunk page of Some l \<Rightarrow> l | None \<Rightarrow> bootstrap_limits_default))
            \<lparr>dec_body_end := Some (length body)\<rparr>
      in case bind_r read_u8 (\<lambda>tb.
           if tb = 0x9A then fail_r CompressedFrameInvalid else decode_catalog ext tb) inner
         of Inl e \<Rightarrow> Err e | Inr (f, _) \<Rightarrow> Ok f)"

definition decode_frame_compressed :: "externs \<Rightarrow> frame_kind reader" where
  "decode_frame_compressed ext = bind_r (get_r dec_max_chunk) (\<lambda>chunk. bind_r (get_r dec_max_page) (\<lambda>page. message
     (\<lambda>(algorithm, len, payload) fid v.
        if fid = 1 then put (\<lambda>x. (Some (compression_from_u8 x), len, payload)) (sub_r read_u8 v)
        else if fid = 2 then put (\<lambda>x. (algorithm, Some x, payload)) (sub_r read_u32_be v)
        else if fid = 3 then Ok (algorithm, len, Some v)
        else Ok (algorithm, len, payload))
     (None, None, None)
     (\<lambda>(algorithm, len, payload). req algorithm (\<lambda>algorithm.
        if algorithm \<noteq> Deflate then Err CompressedFrameInvalid
        else req len (\<lambda>declared.
          if declared = 0 \<or> max_compressed_frame_bytes chunk page < declared then Err LengthOverflow
          else req payload (\<lambda>payload.
            rbind (inflate ext payload (unat declared)) (\<lambda>body. decode_inner ext chunk page body)))))))"

definition decode_body :: "externs \<Rightarrow> u8 \<Rightarrow> frame_kind reader" where
  "decode_body ext tb = (if tb = 0x9A then decode_frame_compressed ext else decode_catalog ext tb)"

definition read_frame :: "externs \<Rightarrow> decoder \<Rightarrow> decode_error + (frame_kind \<times> bytes) \<times> decoder" where
  "read_frame ext d0 =
     bind_r read_u32_be (\<lambda>len d.
       if len < 1 \<or> max_frame_len < len then Err LengthOverflow
       else
         let body_end = dec_pos d + unat len
         in if 2 ^ 64 \<le> body_end then Err LengthOverflow
            else if length (dec_input d) < body_end then Err UnexpectedEof
            else case bind_r read_u8 (decode_body ext) (d\<lparr>dec_body_end := Some body_end\<rparr>) of
                   Inl e \<Rightarrow> Err e
                 | Inr (frame, d') \<Rightarrow>
                     if body_end < dec_pos d' then Err LengthOverflow
                     else let d'' = d'\<lparr>dec_pos := body_end\<rparr> in Ok ((frame, remaining d''), d'')) d0"

definition decode :: "externs \<Rightarrow> bytes \<Rightarrow> decode_error + frame_kind \<times> bytes" where
  "decode ext input = (case read_frame ext (decoder_new input) of Inl e \<Rightarrow> Err e | Inr (r, _) \<Rightarrow> Ok r)"

definition decode_with_limits :: "externs \<Rightarrow> bytes \<Rightarrow> bootstrap_limits \<Rightarrow> decode_error + frame_kind \<times> bytes" where
  "decode_with_limits ext input limits =
     (case read_frame ext (decoder_with_limits input limits) of Inl e \<Rightarrow> Err e | Inr (r, _) \<Rightarrow> Ok r)"

end
