(* ===== verification/Wire_Frame_Round.thy ===== *)
theory Wire_Frame_Round
  imports Wire_Decode
begin

text \<open>
  Round trips of the message catalog. \<open>wf_frame\<close> collects what the Rust types and the protocol's
  limits say of a message; for such a message the decoder of its type byte returns it from the
  fields its encoder writes, with any number of unknown fields in between.
\<close>

section \<open>Well-formed messages\<close>

definition wf_stream :: "wire_resource_id \<Rightarrow> stream_id \<Rightarrow> bootstrap_id \<Rightarrow> bool" where
  "wf_stream t s b \<longleftrightarrow> wf_rid t \<and> wf_stream_id s \<and> wf_bootstrap_id b"

definition wf_cursor :: "bytes \<Rightarrow> bool" where
  "wf_cursor cur \<longleftrightarrow> length cur \<le> max_history_cursor_bytes"

definition wf_facet_str :: "nat \<Rightarrow> str \<Rightarrow> bool" where
  "wf_facet_str n s \<longleftrightarrow> s \<noteq> [] \<and> length s \<le> n \<and> utf8_valid s"

definition wf_spawn_resource :: "spawn_resource \<Rightarrow> bool" where
  "wf_spawn_resource r \<longleftrightarrow> \<not> spawn_resource_is_default r \<and> wf_kind (sr_kind r) \<and> wf_opt wf_rid (sr_parent r)
     \<and> wf_opt (wf_facet_str max_resource_provider_bytes) (sr_provider r)
     \<and> wf_opt (wf_facet_str max_resource_native_id_bytes) (sr_native_id r)"

primrec wf_frame :: "externs \<Rightarrow> u32 \<Rightarrow> u32 \<Rightarrow> frame_kind \<Rightarrow> bool" where
  "wf_frame ext chunk page (Hello client_name _ _ _ caps) = (utf8_valid client_name \<and> wf_client_capabilities caps)"
| "wf_frame ext chunk page (HelloOk _ _ _ caps _ profile limits) =
     (wf_server_capabilities caps \<and> wf_profile profile \<and> wf_limits limits)"
| "wf_frame ext chunk page (Ping _) = True"
| "wf_frame ext chunk page (Pong _) = True"
| "wf_frame ext chunk page (ResourceOutput t s b _ _) = wf_stream t s b"
| "wf_frame ext chunk page (Attach _ target _ _ _) = wf_attach_target target"
| "wf_frame ext chunk page Detach = True"
| "wf_frame ext chunk page (InputKey t e) = (wf_rid t \<and> wf_key_event e)"
| "wf_frame ext chunk page (InputMouse t e) = (wf_rid t \<and> wf_mods (mouse_mods e))"
| "wf_frame ext chunk page (InputFocus t _) = wf_rid t"
| "wf_frame ext chunk page (InputPaste t _) = wf_rid t"
| "wf_frame ext chunk page (InputTerminalReply t bs) =
     (wf_rid t \<and> bs \<noteq> [] \<and> length bs \<le> max_input_terminal_reply_bytes)"
| "wf_frame ext chunk page (FrameAck t s b _) = wf_stream t s b"
| "wf_frame ext chunk page (ViewportResize _) = True"
| "wf_frame ext chunk page (Attached _ snapshot _) = wf_snapshot ext snapshot"
| "wf_frame ext chunk page (AttachReady _) = True"
| "wf_frame ext chunk page (Detached _ msg) = utf8_valid msg"
| "wf_frame ext chunk page (BootstrapBegin t s b profile cols rows _) =
     (wf_stream t s b \<and> (profile = StreamAgentEventsJsonlV1) = (cols = 0 \<and> rows = 0))"
| "wf_frame ext chunk page (BootstrapChunk t s b _ payload) = (wf_stream t s b \<and> length payload \<le> unat chunk)"
| "wf_frame ext chunk page (BootstrapReady t s b cursor) = (wf_stream t s b \<and> wf_opt wf_cursor cursor)"
| "wf_frame ext chunk page (HistoryRequest t s b cursor _ _) = (wf_stream t s b \<and> wf_cursor cursor)"
| "wf_frame ext chunk page (HistoryPage t s b page_seq cursor next_cursor payload rows) =
     (wf_stream t s b \<and> page_seq \<noteq> 0 \<and> wf_cursor cursor \<and> wf_opt wf_cursor next_cursor
      \<and> length payload \<le> unat page \<and> rows \<le> max_history_page_rows)"
| "wf_frame ext chunk page (BootstrapTombstone t s b _ _) = wf_stream t s b"
| "wf_frame ext chunk page (HistoryTombstone t s b cursor _) = (wf_stream t s b \<and> wf_cursor cursor)"
| "wf_frame ext chunk page (HistoryRejected t s b cursor _ rb rr) =
     (wf_stream t s b \<and> wf_cursor cursor \<and> rb \<noteq> 0 \<and> rb \<le> page \<and> rr \<noteq> 0 \<and> rr \<le> max_history_page_rows)"
| "wf_frame ext chunk page (Bell t) = wf_rid t"
| "wf_frame ext chunk page (Error _ _ msg) = utf8_valid msg"
| "wf_frame ext chunk page (GetMetadata _ scope key) = (wf_scope scope \<and> utf8_valid key)"
| "wf_frame ext chunk page (SetMetadata _ scope key _) = (wf_scope scope \<and> utf8_valid key)"
| "wf_frame ext chunk page (DeleteMetadata _ scope key) = (wf_scope scope \<and> utf8_valid key)"
| "wf_frame ext chunk page (ListMetadata _ scope) = wf_scope scope"
| "wf_frame ext chunk page (SubscribeMetadata scope key) = (wf_scope scope \<and> utf8_valid key)"
| "wf_frame ext chunk page (MetadataChanged scope key _) = (wf_scope scope \<and> utf8_valid key)"
| "wf_frame ext chunk page (MetadataValue _ _) = True"
| "wf_frame ext chunk page (MetadataKeys _ keys) = list_all utf8_valid keys"
| "wf_frame ext chunk page (ListDirectory _ path host) = (utf8_valid path \<and> wf_str_opt host)"
| "wf_frame ext chunk page (DirectoryListing _ result) = wf_directory_listing result"
| "wf_frame ext chunk page (SpawnResource request_id gid cmd cwd env term satellite owner agent_session sz resource) =
     (wf_opt (list_all utf8_valid) cmd \<and> wf_str_opt cwd
      \<and> wf_opt (list_all (\<lambda>(k, v). utf8_valid k \<and> utf8_valid v)) env \<and> wf_str_opt term \<and> wf_str_opt satellite
      \<and> wf_opt wf_rid owner \<and> wf_opt wf_spawn_resource resource
      \<and> validate_spawn_for_kind
          (SpawnResource request_id gid cmd cwd env term satellite owner agent_session sz resource) = Ok ())"
| "wf_frame ext chunk page (ResourceSpawned _ result) = wf_spawn_result result"
| "wf_frame ext chunk page (MoveResource _ terminal owner) = (wf_rid terminal \<and> wf_rid owner)"
| "wf_frame ext chunk page (ResourceMoved _ result) = wf_move_result result"
| "wf_frame ext chunk page (ResourceClosed t _ _) = wf_rid t"
| "wf_frame ext chunk page (ResizeTerminal t _ _) = wf_rid t"
| "wf_frame ext chunk page (CommandFrame _ cmd) = wf_command cmd"
| "wf_frame ext chunk page (CommandResultFrame _ result) = wf_command_result ext result"
| "wf_frame ext chunk page (SubscribeEvents terminal) = wf_opt wf_rid terminal"
| "wf_frame ext chunk page (Event terminal event) = (wf_opt wf_rid terminal \<and> wf_agent_event event)"

section \<open>The values of the fields\<close>

text \<open>
  Each rule says what a field's decoder makes of the bytes its encoder wrote; the length condition
  comes from the frame around the field.
\<close>

lemma decode_focus [simp]: "decode_focus_event (encode_focus_event e) = Ok e"
  by (cases e) (simp_all add: decode_focus_event_def encode_focus_event_def)

lemma write_ids [simp]:
  "write_stream_id (StreamId n) = write_u64_be n" "write_bootstrap_id (BootstrapId m) = write_u64_be m"
  by (simp_all add: write_stream_id_def write_bootstrap_id_def)

lemma short_ids [simp]:
  "length (write_stream_id s) \<le> 16777216" "length (write_bootstrap_id b) \<le> 16777216"
  by (simp_all add: write_stream_id_def write_bootstrap_id_def write_u64_be_def split: stream_id.splits bootstrap_id.splits)

lemma short_u64: "length (write_u64_be q) \<le> 16777216"
  by (simp add: write_u64_be_def)

lemma sub_stream [simp]:
  "wf_stream_id s \<Longrightarrow> sub_r decode_stream_id (write_stream_id s) = Ok s"
  by (cases s) (simp add: sub_reads [OF reads_stream_id short_u64])

lemma sub_bootstrap [simp]:
  "wf_bootstrap_id b \<Longrightarrow> sub_r decode_bootstrap_id (write_bootstrap_id b) = Ok b"
  by (cases b) (simp add: sub_reads [OF reads_bootstrap_id short_u64])

lemmas sub_fields [simp] =
  sub_reads [OF reads_terminal_id] sub_reads [OF reads_attach_target] sub_reads [OF reads_viewport_info]
  sub_reads [OF reads_key_event] sub_reads [OF reads_mouse_event] sub_reads [OF reads_paste_event]
  sub_reads [OF reads_scope] sub_reads [OF reads_bootstrap_codec] sub_reads [OF reads_bootstrap_profile]
  sub_reads [OF reads_string_list] sub_reads [OF reads_env] sub_reads [OF reads_server_instance]
  sub_reads [OF reads_spawn_result] sub_reads [OF reads_move_result] sub_reads [OF reads_client_id]
  sub_reads [OF reads_agent_event]
  sub_reads_body [OF reads_command] sub_reads_body [OF reads_command_result]
  sub_reads_body [OF reads_session_snapshot]

section \<open>Sessions and input\<close>

lemma reads_ping: "reads_msg c p decode_ping (encode_nonce n) (Ping n)"
  unfolding decode_ping_def encode_nonce_def by (rule reads_message) auto

lemma reads_pong: "reads_msg c p decode_pong (encode_nonce n) (Pong n)"
  unfolding decode_pong_def encode_nonce_def by (rule reads_message) auto

lemma reads_terminal_output:
  "wf_stream t s b \<Longrightarrow> reads_msg c p decode_terminal_output (encode_terminal_output t s b q bs) (ResourceOutput t s b q bs)"
  unfolding decode_terminal_output_def encode_terminal_output_def wf_stream_def by (rule reads_message) auto

lemma reads_attach:
  "wf_attach_target t \<Longrightarrow> reads_msg c p decode_attach (encode_attach a t v scrollback n) (Attach a t v scrollback n)"
  unfolding decode_attach_def encode_attach_def by (rule reads_message) auto

lemma reads_detach: "reads_msg c p decode_detach [] Detach"
  unfolding decode_detach_def by (rule reads_message) auto

lemma reads_input_key:
  "wf_rid t \<Longrightarrow> wf_key_event e \<Longrightarrow> reads_msg c p decode_input_key (encode_input_key t e) (InputKey t e)"
  unfolding decode_input_key_def encode_input_key_def by (rule reads_message) auto

lemma reads_input_mouse:
  "wf_rid t \<Longrightarrow> wf_mods (mouse_mods e) \<Longrightarrow> reads_msg c p decode_input_mouse (encode_input_mouse t e) (InputMouse t e)"
  unfolding decode_input_mouse_def encode_input_mouse_def by (rule reads_message) auto

lemma reads_input_focus:
  "wf_rid t \<Longrightarrow> reads_msg c p decode_input_focus (encode_input_focus t e) (InputFocus t e)"
  unfolding decode_input_focus_def encode_input_focus_def by (rule reads_message) auto

lemma reads_input_paste:
  "wf_rid t \<Longrightarrow> reads_msg c p decode_input_paste (encode_input_paste t e) (InputPaste t e)"
  unfolding decode_input_paste_def encode_input_paste_def by (rule reads_message) auto

lemma reads_input_terminal_reply:
  "wf_rid t \<Longrightarrow> bs \<noteq> [] \<Longrightarrow> length bs \<le> max_input_terminal_reply_bytes \<Longrightarrow>
   reads_msg c p decode_input_terminal_reply (encode_input_terminal_reply t bs) (InputTerminalReply t bs)"
  unfolding decode_input_terminal_reply_def encode_input_terminal_reply_def by (rule reads_message) auto

lemma reads_frame_ack:
  "wf_stream t s b \<Longrightarrow> reads_msg c p decode_frame_ack (encode_frame_ack t s b q) (FrameAck t s b q)"
  unfolding decode_frame_ack_def encode_frame_ack_def wf_stream_def by (rule reads_message) auto

lemma reads_viewport_resize:
  "reads_msg c p decode_viewport_resize (encode_viewport_resize v) (ViewportResize v)"
  unfolding decode_viewport_resize_def encode_viewport_resize_def by (rule reads_message) auto

lemma reads_attached:
  "wf_snapshot ext s \<Longrightarrow> reads_msg c p (decode_attached ext) (encode_attached ext a s i) (Attached a s i)"
  unfolding decode_attached_def encode_attached_def by (rule reads_message) auto

lemma reads_attach_ready: "reads_msg c p decode_attach_ready (encode_attach_ready a) (AttachReady a)"
  unfolding decode_attach_ready_def encode_attach_ready_def by (rule reads_message) auto

lemma reads_detached:
  "utf8_valid msg \<Longrightarrow> reads_msg c p decode_detached (encode_detached reason msg) (Detached reason msg)"
  unfolding decode_detached_def encode_detached_def by (cases reason; rule reads_message) auto

lemma reads_bell: "wf_rid t \<Longrightarrow> reads_msg c p decode_bell (encode_bell t) (Bell t)"
  unfolding decode_bell_def encode_bell_def by (rule reads_message) auto

lemma reads_error_frame:
  "utf8_valid msg \<Longrightarrow> reads_msg c p decode_error_frame (encode_error request_id code msg) (Error request_id code msg)"
  unfolding decode_error_frame_def encode_error_def by (cases request_id; rule reads_message) auto

section \<open>Bootstrap and history\<close>

lemma reads_bootstrap_begin:
  assumes "wf_stream t s b" "(profile = StreamAgentEventsJsonlV1) = (cols = 0 \<and> rows = 0)"
  shows "reads_msg c p decode_bootstrap_begin
    (encode_bootstrap_begin_stream t s b @ encode_bootstrap_begin_profile profile cols rows base)
    (BootstrapBegin t s b profile cols rows base)"
  unfolding decode_bootstrap_begin_def encode_bootstrap_begin_stream_def encode_bootstrap_begin_profile_def
  by (cases profile; rule reads_message) (use assms in \<open>auto simp: wf_stream_def Let_def
      checked_bootstrap_dimensions_def decode_bootstrap_stream_profile_def output_mode_as_wire_def\<close>)

lemma reads_bootstrap_chunk:
  "wf_stream t s b \<Longrightarrow> length payload \<le> unat c \<Longrightarrow>
   reads_msg c p decode_bootstrap_chunk (encode_bootstrap_chunk t s b q payload) (BootstrapChunk t s b q payload)"
  unfolding decode_bootstrap_chunk_def encode_bootstrap_chunk_def wf_stream_def
  by (rule reads_msg_limits, rule reads_message) auto

lemma checked_cursor [simp]: "wf_cursor v \<Longrightarrow> checked_history_cursor v = Ok v"
  by (simp add: wf_cursor_def checked_history_cursor_def)

lemma reads_bootstrap_ready:
  "wf_stream t s b \<Longrightarrow> wf_opt wf_cursor cursor \<Longrightarrow>
   reads_msg c p decode_bootstrap_ready (encode_bootstrap_ready t s b cursor) (BootstrapReady t s b cursor)"
  unfolding decode_bootstrap_ready_def encode_bootstrap_ready_def wf_stream_def
  by (cases cursor; rule reads_message) auto

lemma reads_history_request:
  "wf_stream t s b \<Longrightarrow> wf_cursor cursor \<Longrightarrow>
   reads_msg c p decode_history_request (encode_history_request t s b cursor m n) (HistoryRequest t s b cursor m n)"
  unfolding decode_history_request_def encode_history_request_def wf_stream_def by (rule reads_message) auto

lemma reads_history_page:
  assumes "wf_stream t s b" "page_seq \<noteq> 0" "wf_cursor cursor" "wf_opt wf_cursor next_cursor"
    "length payload \<le> unat p" "rows \<le> max_history_page_rows"
  shows "reads_msg c p decode_history_page
    (encode_history_page_stream t s b @ encode_history_page_body cursor next_cursor payload page_seq rows)
    (HistoryPage t s b page_seq cursor next_cursor payload rows)"
  unfolding decode_history_page_def encode_history_page_stream_def encode_history_page_body_def
  by (rule reads_msg_limits, cases next_cursor; rule reads_message) (use assms in \<open>auto simp: wf_stream_def
      wf_cursor_def checked_history_page_seq_def checked_history_page_rows_def\<close>)

lemma reads_bootstrap_tombstone:
  "wf_stream t s b \<Longrightarrow> reads_msg c p decode_bootstrap_tombstone
     (encode_bootstrap_tombstone t s b reason q) (BootstrapTombstone t s b reason q)"
  unfolding decode_bootstrap_tombstone_def encode_bootstrap_tombstone_def wf_stream_def by (rule reads_message) auto

lemma reads_history_tombstone:
  "wf_stream t s b \<Longrightarrow> wf_cursor cursor \<Longrightarrow> reads_msg c p decode_history_tombstone
     (encode_history_tombstone t s b cursor reason) (HistoryTombstone t s b cursor reason)"
  unfolding decode_history_tombstone_def encode_history_tombstone_def wf_stream_def by (rule reads_message) auto

lemma reads_history_rejected:
  assumes "wf_stream t s b" "wf_cursor cursor" "rb \<noteq> 0" "rb \<le> p" "rr \<noteq> 0" "rr \<le> max_history_page_rows"
  shows "reads_msg c p decode_history_rejected
    (encode_history_rejected_stream t s b @ encode_history_rejected_reason cursor reason rb rr)
    (HistoryRejected t s b cursor reason rb rr)"
  unfolding decode_history_rejected_def encode_history_rejected_stream_def encode_history_rejected_reason_def
  by (rule reads_msg_limits, rule reads_message) (use assms in \<open>auto simp: wf_stream_def
      checked_history_required_bytes_def checked_history_required_rows_def\<close>)

section \<open>Metadata, directories and resources\<close>

lemma reads_metadata_scope_key:
  "wf_scope scope \<Longrightarrow> utf8_valid key \<Longrightarrow> reads_msg c p decode_metadata_scope_key
     (encode_get_or_delete_metadata request_id scope key) (request_id, scope, key)"
  unfolding decode_metadata_scope_key_def encode_get_or_delete_metadata_def by (rule reads_message) auto

lemma reads_get_metadata:
  "wf_scope scope \<Longrightarrow> utf8_valid key \<Longrightarrow> reads_msg c p decode_get_metadata
     (encode_get_or_delete_metadata request_id scope key) (GetMetadata request_id scope key)"
  unfolding decode_get_metadata_def by (rule reads_msg_map [OF reads_metadata_scope_key]) auto

lemma reads_delete_metadata:
  "wf_scope scope \<Longrightarrow> utf8_valid key \<Longrightarrow> reads_msg c p decode_delete_metadata
     (encode_get_or_delete_metadata request_id scope key) (DeleteMetadata request_id scope key)"
  unfolding decode_delete_metadata_def by (rule reads_msg_map [OF reads_metadata_scope_key]) auto

lemma reads_set_metadata:
  "wf_scope scope \<Longrightarrow> utf8_valid key \<Longrightarrow> reads_msg c p decode_set_metadata
     (encode_set_metadata request_id scope key value) (SetMetadata request_id scope key value)"
  unfolding decode_set_metadata_def encode_set_metadata_def by (rule reads_message) auto

lemma reads_list_metadata:
  "wf_scope scope \<Longrightarrow> reads_msg c p decode_list_metadata (encode_list_metadata request_id scope) (ListMetadata request_id scope)"
  unfolding decode_list_metadata_def encode_list_metadata_def by (rule reads_message) auto

lemma reads_subscribe_metadata:
  "wf_scope scope \<Longrightarrow> utf8_valid key \<Longrightarrow>
   reads_msg c p decode_subscribe_metadata (encode_subscribe_metadata scope key) (SubscribeMetadata scope key)"
  unfolding decode_subscribe_metadata_def encode_subscribe_metadata_def by (rule reads_message) auto

lemma reads_metadata_changed:
  "wf_scope scope \<Longrightarrow> utf8_valid key \<Longrightarrow>
   reads_msg c p decode_metadata_changed (encode_metadata_changed scope key val) (MetadataChanged scope key val)"
  unfolding decode_metadata_changed_def encode_metadata_changed_def by (cases val; rule reads_message) auto

lemma reads_metadata_value:
  "reads_msg c p decode_metadata_value (encode_metadata_value request_id val) (MetadataValue request_id val)"
  unfolding decode_metadata_value_def encode_metadata_value_def by (cases val; rule reads_message) auto

lemma reads_metadata_keys:
  "list_all utf8_valid keys \<Longrightarrow>
   reads_msg c p decode_metadata_keys (encode_metadata_keys request_id keys) (MetadataKeys request_id keys)"
  using sub_reads [OF reads_string_list [of keys]] unfolding decode_metadata_keys_def encode_metadata_keys_def
  by (intro reads_message) (auto simp: decode_string_list_def encode_string_list_def)

lemma bind_instance_wire [simp]: "sub_r decode_bind_instance [1] = Ok True"
  using sub_reads [of decode_bind_instance "write_u8 1" True]
  by (simp add: decode_bind_instance_def write_u8_def reads_map [OF reads_u8 [unfolded write_u8_def]] reads_ret)

lemma size_wire [simp]:
  "sub_r (bind_r read_u16_be (\<lambda>cols. bind_r read_u16_be (\<lambda>rows. ret_r (cols, rows)))) (write_u16_be w @ write_u16_be h) = Ok (w, h)"
  by (rule sub_reads) (auto simp: write_u16_be_def [of w] write_u16_be_def [of h] intro!: reads_intros
      reads_bind [OF reads_u16 [unfolded write_u16_be_def]] reads_map [OF reads_u16 [unfolded write_u16_be_def]])

lemma facet_str_wire [simp]: "wf_facet_str n v \<Longrightarrow> decode_agent_facet_str v n = Ok v"
  by (simp add: wf_facet_str_def decode_agent_facet_str_def)

lemma reads_terminal_spawned:
  "wf_spawn_result r \<Longrightarrow> reads_msg c p decode_terminal_spawned (encode_terminal_spawned request_id r) (ResourceSpawned request_id r)"
  unfolding decode_terminal_spawned_def encode_terminal_spawned_def
  by (cases r; rule reads_message) (auto simp: spawn_result_instance_def bind_spawn_result_def wf_spawn_result_def)

lemma reads_move_terminal:
  "wf_rid t \<Longrightarrow> wf_rid owner \<Longrightarrow>
   reads_msg c p decode_move_terminal (encode_move_terminal request_id t owner) (MoveResource request_id t owner)"
  unfolding decode_move_terminal_def encode_move_terminal_def by (rule reads_message) auto

lemma reads_terminal_moved:
  "wf_move_result r \<Longrightarrow> reads_msg c p decode_terminal_moved (encode_terminal_moved request_id r) (ResourceMoved request_id r)"
  unfolding decode_terminal_moved_def encode_terminal_moved_def by (rule reads_message) auto

lemma reads_terminal_closed:
  "wf_rid t \<Longrightarrow> reads_msg c p decode_terminal_closed (encode_terminal_closed t status reason) (ResourceClosed t status reason)"
  unfolding decode_terminal_closed_def encode_terminal_closed_def by (cases status; rule reads_message) auto

lemma reads_terminal_resize:
  "wf_rid t \<Longrightarrow> reads_msg c p decode_terminal_resize (encode_terminal_resize t cols rows) (ResizeTerminal t cols rows)"
  unfolding decode_terminal_resize_def encode_terminal_resize_def by (rule reads_message) auto

section \<open>Commands and events\<close>

lemma reads_command_frame:
  "wf_command cmd \<Longrightarrow> reads_msg c p decode_command_frame (encode_command_frame request_id cmd) (CommandFrame request_id cmd)"
  unfolding decode_command_frame_def encode_command_frame_def by (rule reads_message) auto

lemma reads_command_result_frame:
  "wf_command_result ext r \<Longrightarrow>
   reads_msg c p (decode_command_result_frame ext) (encode_command_result_frame ext request_id r) (CommandResultFrame request_id r)"
  unfolding decode_command_result_frame_def encode_command_result_frame_def by (rule reads_message) auto

lemma reads_subscribe_events:
  "wf_opt wf_rid t \<Longrightarrow> reads_msg c p decode_subscribe_events (encode_subscribe_events t) (SubscribeEvents t)"
  unfolding decode_subscribe_events_def encode_subscribe_events_def by (cases t; rule reads_message) auto

lemma reads_event:
  "wf_opt wf_rid t \<Longrightarrow> wf_agent_event e \<Longrightarrow> reads_msg c p decode_event (encode_event t e) (Event t e)"
  unfolding decode_event_def encode_event_def by (cases t; rule reads_message) auto

section \<open>Spawn requests\<close>

lemma fold_fields_append:
  "fold_fields step s (fs @ gs) = rbind (fold_fields step s fs) (\<lambda>s'. fold_fields step s' gs)"
  by (induction step s fs rule: fold_fields.induct) (simp_all add: rbind_assoc)

abbreviation short_fields :: "fields \<Rightarrow> bool" where
  "short_fields fs \<equiv> \<forall>(fid, v) \<in> set fs. length v \<le> 16777216"

lemma spawn_process_fields:
  "sf_command s = None \<Longrightarrow> wf_opt (list_all utf8_valid) cmd \<Longrightarrow> short_fields (opt_field 3 encode_string_list cmd) \<Longrightarrow>
     fold_fields spawn_step s (opt_field 3 encode_string_list cmd) = Ok (s\<lparr>sf_command := cmd\<rparr>)"
  "sf_cwd s = None \<Longrightarrow> wf_str_opt cwd \<Longrightarrow> fold_fields spawn_step s (opt_field 4 id cwd) = Ok (s\<lparr>sf_cwd := cwd\<rparr>)"
  "sf_env s = None \<Longrightarrow> wf_opt (list_all (\<lambda>(k, v). utf8_valid k \<and> utf8_valid v)) env \<Longrightarrow>
     short_fields (opt_field 5 encode_env env) \<Longrightarrow>
     fold_fields spawn_step s (opt_field 5 encode_env env) = Ok (s\<lparr>sf_env := env\<rparr>)"
  "sf_term s = None \<Longrightarrow> wf_str_opt term \<Longrightarrow> fold_fields spawn_step s (opt_field 6 id term) = Ok (s\<lparr>sf_term := term\<rparr>)"
  subgoal by (cases s; cases cmd) (auto simp: spawn_step_def)
  subgoal by (cases s; cases cwd) (auto simp: spawn_step_def wf_str_opt_def)
  subgoal by (cases s; cases env) (auto simp: spawn_step_def)
  subgoal by (cases s; cases "term") (auto simp: spawn_step_def wf_str_opt_def)
  done

lemma spawn_placement_fields:
  "sf_satellite s = None \<Longrightarrow> wf_str_opt sat \<Longrightarrow> fold_fields spawn_step s (opt_field 7 id sat) = Ok (s\<lparr>sf_satellite := sat\<rparr>)"
  "sf_owner s = None \<Longrightarrow> wf_opt wf_rid owner \<Longrightarrow> short_fields (opt_field 8 encode_terminal_id owner) \<Longrightarrow>
     fold_fields spawn_step s (opt_field 8 encode_terminal_id owner) = Ok (s\<lparr>sf_owner := owner\<rparr>)"
  "sf_agent_session s = None \<Longrightarrow> fold_fields spawn_step s (opt_field 9 id agent) = Ok (s\<lparr>sf_agent_session := agent\<rparr>)"
  "sf_size s = None \<Longrightarrow> fold_fields spawn_step s (opt_field 10 (\<lambda>(w, h). write_u16_be w @ write_u16_be h) sz) = Ok (s\<lparr>sf_size := sz\<rparr>)"
  subgoal by (cases s; cases sat) (auto simp: spawn_step_def wf_str_opt_def)
  subgoal by (cases s; cases owner) (auto simp: spawn_step_def)
  subgoal by (cases s; cases agent) (auto simp: spawn_step_def)
  subgoal by (cases s; cases sz) (auto simp: spawn_step_def)
  done

lemma spawn_facet_fields:
  "sr_kind (sf_resource s) = KindTerminal \<Longrightarrow> wf_kind kind \<Longrightarrow>
     fold_fields spawn_step s (if \<not> is_terminal kind then [(11, [resource_kind_as_wire kind])] else [])
       = Ok (s\<lparr>sf_resource := (sf_resource s)\<lparr>sr_kind := kind\<rparr>\<rparr>)"
  "sr_parent (sf_resource s) = None \<Longrightarrow> wf_opt wf_rid parent \<Longrightarrow> short_fields (opt_field 12 encode_terminal_id parent) \<Longrightarrow>
     fold_fields spawn_step s (opt_field 12 encode_terminal_id parent)
       = Ok (s\<lparr>sf_resource := (sf_resource s)\<lparr>sr_parent := parent\<rparr>\<rparr>)"
  "sr_provider (sf_resource s) = None \<Longrightarrow> wf_opt (wf_facet_str max_resource_provider_bytes) provider \<Longrightarrow>
     fold_fields spawn_step s (opt_field 13 id provider) = Ok (s\<lparr>sf_resource := (sf_resource s)\<lparr>sr_provider := provider\<rparr>\<rparr>)"
  "sr_native_id (sf_resource s) = None \<Longrightarrow> wf_opt (wf_facet_str max_resource_native_id_bytes) native \<Longrightarrow>
     fold_fields spawn_step s (opt_field 14 id native) = Ok (s\<lparr>sf_resource := (sf_resource s)\<lparr>sr_native_id := native\<rparr>\<rparr>)"
  "\<not> sr_bind_instance (sf_resource s) \<Longrightarrow>
     fold_fields spawn_step s (if bound then [(15, [1])] else []) = Ok (s\<lparr>sf_resource := (sf_resource s)\<lparr>sr_bind_instance := bound\<rparr>\<rparr>)"
  subgoal by (cases s; cases "sf_resource s") (auto simp: spawn_step_def is_terminal_def)
  subgoal by (cases s; cases "sf_resource s"; cases parent) (auto simp: spawn_step_def)
  subgoal by (cases s; cases "sf_resource s"; cases provider) (auto simp: spawn_step_def)
  subgoal by (cases s; cases "sf_resource s"; cases native) (auto simp: spawn_step_def)
  subgoal by (cases s; cases "sf_resource s") (auto simp: spawn_step_def)
  done

lemma spawn_resource_fields:
  assumes "wf_spawn_resource r" "short_fields (encode_spawn_terminal_resource r)"
    "sf_resource s = sf_resource spawn_init"
  shows "fold_fields spawn_step s (encode_spawn_terminal_resource r) = Ok (s\<lparr>sf_resource := r\<rparr>)"
proof -
  have "fold_fields spawn_step s (encode_spawn_terminal_resource r) =
      Ok (s\<lparr>sf_resource := \<lparr>sr_kind = sr_kind r, sr_parent = sr_parent r, sr_provider = sr_provider r,
        sr_native_id = sr_native_id r, sr_bind_instance = sr_bind_instance r\<rparr>\<rparr>)"
    using assms by (simp add: encode_spawn_terminal_resource_def fold_fields_append spawn_facet_fields wf_spawn_resource_def
        spawn_init_def ball_Un del: opt_field_simps split del: if_split)
  then show ?thesis by simp
qed

lemma spawn_step_unknown:
  assumes "15 < fid"
  shows "spawn_step s fid v = Ok s"
proof -
  have "fid \<noteq> 1" "fid \<noteq> 2" "fid \<noteq> 3" "fid \<noteq> 4" "fid \<noteq> 5" "fid \<noteq> 6" "fid \<noteq> 7" "fid \<noteq> 8" 
    "fid \<noteq> 9" "fid \<noteq> 10" "fid \<noteq> 11" "fid \<noteq> 12" "fid \<noteq> 13" "fid \<noteq> 14" "fid \<noteq> 15"
    using assms by auto
  then show ?thesis by (simp add: spawn_step_def)
qed

lemma spawn_process_ok:
  assumes "wf_opt (list_all utf8_valid) cmd" "wf_str_opt cwd"
    "wf_opt (list_all (\<lambda>(k, v). utf8_valid k \<and> utf8_valid v)) env" "wf_str_opt term"
    "short_fields (encode_spawn_terminal_process cmd cwd env term)"
    "sf_command s = None" "sf_cwd s = None" "sf_env s = None" "sf_term s = None"
  shows "fold_fields spawn_step s (encode_spawn_terminal_process cmd cwd env term) =
    Ok (s\<lparr>sf_command := cmd, sf_cwd := cwd, sf_env := env, sf_term := term\<rparr>)"
  using assms unfolding encode_spawn_terminal_process_def
  by (simp add: fold_fields_append ball_Un spawn_process_fields del: opt_field_simps)

lemma spawn_placement_ok:
  assumes "wf_str_opt sat" "wf_opt wf_rid owner" "short_fields (encode_spawn_terminal_placement sat owner agent sz)"
    "sf_satellite s = None" "sf_owner s = None" "sf_agent_session s = None" "sf_size s = None"
  shows "fold_fields spawn_step s (encode_spawn_terminal_placement sat owner agent sz) =
    Ok (s\<lparr>sf_satellite := sat, sf_owner := owner, sf_agent_session := agent, sf_size := sz\<rparr>)"
  using assms unfolding encode_spawn_terminal_placement_def
  by (simp add: fold_fields_append ball_Un spawn_placement_fields del: opt_field_simps)

lemma spawn_resource_ok:
  assumes "wf_opt wf_spawn_resource resource" "sf_resource s = sf_resource spawn_init"
    "short_fields (case resource of Some r \<Rightarrow> encode_spawn_terminal_resource r | None \<Rightarrow> [])"
  shows "fold_fields spawn_step s (case resource of Some r \<Rightarrow> encode_spawn_terminal_resource r | None \<Rightarrow> []) =
    Ok (s\<lparr>sf_resource := (case resource of Some r \<Rightarrow> r | None \<Rightarrow> sf_resource spawn_init)\<rparr>)"
proof (cases resource)
  case None
  then show ?thesis by (simp flip: assms(2))
next
  case (Some r)
  then show ?thesis using spawn_resource_fields [of r s] assms by simp
qed

lemma reads_spawn_terminal:
  assumes wf: "wf_opt (list_all utf8_valid) cmd" "wf_str_opt cwd"
      "wf_opt (list_all (\<lambda>(k, v). utf8_valid k \<and> utf8_valid v)) env" "wf_str_opt term" "wf_str_opt sat"
      "wf_opt wf_rid owner" "wf_opt wf_spawn_resource resource"
    and valid: "validate_spawn_for_kind (SpawnResource request_id gid cmd cwd env term sat owner agent sz resource) = Ok ()"
  shows "reads_msg c p decode_spawn_terminal
    (encode_payload ext (SpawnResource request_id gid cmd cwd env term sat owner agent sz resource))
    (SpawnResource request_id gid cmd cwd env term sat owner agent sz resource)"
  unfolding decode_spawn_terminal_def
proof (rule reads_message [OF spawn_step_unknown], goal_cases)
  case 2
  then have short: "short_fields (encode_spawn_terminal_request request_id gid)
      \<and> short_fields (encode_spawn_terminal_process cmd cwd env term)
      \<and> short_fields (encode_spawn_terminal_placement sat owner agent sz)
      \<and> short_fields (case resource of Some r \<Rightarrow> encode_spawn_terminal_resource r | None \<Rightarrow> [])"
    by (simp only: encode_payload.simps set_append ball_Un)
  define s1 where "s1 = spawn_init\<lparr>sf_request_id := request_id, sf_group := gid\<rparr>"
  define s2 where "s2 = s1\<lparr>sf_command := cmd, sf_cwd := cwd, sf_env := env, sf_term := term\<rparr>"
  define s3 where "s3 = s2\<lparr>sf_satellite := sat, sf_owner := owner, sf_agent_session := agent, sf_size := sz\<rparr>"
  define res where "res = (case resource of Some r \<Rightarrow> r | None \<Rightarrow> sf_resource spawn_init)"
  have 1: "fold_fields spawn_step spawn_init (encode_spawn_terminal_request request_id gid) = Ok s1"
    by (cases gid) (simp add: encode_spawn_terminal_request_def spawn_step_def s1_def)
  have 2: "fold_fields spawn_step s1 (encode_spawn_terminal_process cmd cwd env term) = Ok s2"
    unfolding s2_def using short wf by (intro spawn_process_ok) (simp_all add: s1_def spawn_init_def)
  have 3: "fold_fields spawn_step s2 (encode_spawn_terminal_placement sat owner agent sz) = Ok s3"
    unfolding s3_def using short wf by (intro spawn_placement_ok) (simp_all add: s1_def s2_def spawn_init_def)
  have 4: "fold_fields spawn_step s3 (case resource of Some r \<Rightarrow> encode_spawn_terminal_resource r | None \<Rightarrow> [])
      = Ok (s3\<lparr>sf_resource := res\<rparr>)"
    unfolding res_def using short wf by (intro spawn_resource_ok) (simp_all add: s1_def s2_def s3_def)
  have "(if spawn_resource_is_default res then None else Some res) = resource"
    using wf by (cases resource) (simp_all add: res_def wf_spawn_resource_def spawn_init_def
        spawn_resource_is_default_def is_terminal_def)
  with valid have "spawn_finish (s3\<lparr>sf_resource := res\<rparr>) =
      Ok (SpawnResource request_id gid cmd cwd env term sat owner agent sz resource)"
    unfolding spawn_finish_def Let_def by (simp add: s1_def s2_def s3_def cong: if_cong split del: if_split)
  with 1 2 3 4 show ?case by (simp add: fold_fields_append)
qed

section \<open>The handshake\<close>

lemma reads_ret_eq: "x = y \<Longrightarrow> reads (ret_r x) [] y"
  by (simp add: reads_ret)

lemma reads_color_support: "reads decode_color_support (write_u8 (color_support_as_wire x)) x"
  unfolding decode_color_support_def by (auto intro!: reads_intros)

lemma reads_hyperlinks_flag: "reads decode_hyperlinks_flag (write_u8 (if x then 1 else 0)) x"
  unfolding decode_hyperlinks_flag_def by (auto intro!: reads_intros)

lemma reads_output_mode: "reads decode_output_mode (write_u8 (output_mode_as_wire x)) x"
  unfolding decode_output_mode_def by (cases x) (auto simp: output_mode_as_wire_def intro!: reads_intros)

lemma reads_terminal_color:
  "reads read_terminal_color (write_u8 (color_r x) @ write_u8 (color_g x) @ write_u8 (color_b x)) x"
  unfolding read_terminal_color_def by (cases x) (auto intro!: reads_intros)

definition colors_bytes :: "terminal_default_colors option \<Rightarrow> bytes" where
  "colors_bytes x = (case x of
     Some colors \<Rightarrow> write_u8 1
       @ (write_u8 (color_r (colors_foreground colors)) @ write_u8 (color_g (colors_foreground colors))
          @ write_u8 (color_b (colors_foreground colors)))
       @ (write_u8 (color_r (colors_background colors)) @ write_u8 (color_g (colors_background colors))
          @ write_u8 (color_b (colors_background colors)))
   | None \<Rightarrow> write_u8 0)"

lemma reads_default_colors: "reads decode_default_colors (colors_bytes x) x"
proof (cases x)
  case (Some colors)
  then show ?thesis unfolding decode_default_colors_def colors_bytes_def
    by (cases colors) (auto intro!: reads_bind [OF reads_u8] reads_bind [OF reads_terminal_color]
        reads_map [OF reads_terminal_color] reads_ret simp del: append_assoc)
qed (auto simp: decode_default_colors_def colors_bytes_def intro!: reads_intros)

lemma reads_bootstrap_capabilities:
  assumes "wf_bootstrap_capabilities b"
  shows "reads decode_bootstrap_capabilities (write_u8 (profile_set_as_wire (cap_profiles b))
     @ write_u64_be (engine_codec_set_as_wire (cap_native_codecs b))
     @ write_u32_be (engine_feature_set_as_wire (cap_native_features b))
     @ write_u32_be (max_chunk_bytes (cap_limits b)) @ write_u32_be (max_page_bytes (cap_limits b))) b"
  unfolding decode_bootstrap_capabilities_def
  by (use assms in \<open>cases b\<close>) (auto simp: wf_bootstrap_capabilities_def wf_limits_def mask_wire known_or_def
      intro!: reads_intros reads_bind [where bs = "[]" and m = "lift_r (Ok x)" for x, OF reads_lift, simplified])

lemma reads_client_capabilities:
  assumes "wf_client_capabilities x"
  shows "reads decode_client_capabilities (client_caps_bytes x) (x\<lparr>cc_compression := 0, cc_ssh_origin := None\<rparr>)"
proof -
  have "client_caps_bytes x = write_u8 (color_support_as_wire (cc_color_support x))
     @ write_u8 (layer_set_as_wire (cc_layers x)) @ write_u8 (image_protocol_set_as_wire (cc_image_protocols x))
     @ write_u8 (keyboard_protocol_set_as_wire (cc_kbd_protocols x))
     @ write_u8 (if cc_hyperlinks x then 1 else 0) @ write_u8 (output_mode_as_wire (cc_output_mode x))
     @ colors_bytes (cc_default_colors x)
     @ (write_u8 (profile_set_as_wire (cap_profiles (cc_bootstrap x)))
        @ write_u64_be (engine_codec_set_as_wire (cap_native_codecs (cc_bootstrap x)))
        @ write_u32_be (engine_feature_set_as_wire (cap_native_features (cc_bootstrap x)))
        @ write_u32_be (max_chunk_bytes (cap_limits (cc_bootstrap x)))
        @ write_u32_be (max_page_bytes (cap_limits (cc_bootstrap x))))"
    by (simp add: client_caps_bytes_def colors_bytes_def split: option.splits)
  then show ?thesis unfolding decode_client_capabilities_def Let_def
  proof (simp only:, intro reads_bind [OF reads_color_support] reads_bind [OF reads_u8] reads_bind [OF reads_hyperlinks_flag]
      reads_bind [OF reads_output_mode] reads_bind [OF reads_default_colors] reads_map [OF reads_bootstrap_capabilities],
      goal_cases)
    case 2
    show ?case by (rule reads_ret_eq) (use assms in \<open>cases x; auto simp: wf_client_capabilities_def mask_wire
        client_capabilities_new_def split: option.splits\<close>)
  qed (use assms in \<open>simp add: wf_client_capabilities_def\<close>)
qed

lemma reads_server_capabilities:
  assumes "wf_server_capabilities x" "sc_compression y = NoCompression" "sc_layers y = sc_layers x" "sc_features y = sc_features x"
  shows "reads_body c p decode_server_capabilities (write_u8 (layer_set_as_wire (sc_layers x))
     @ (if sc_features x \<noteq> 0 then write_u32_be (server_feature_set_as_wire (sc_features x)) else [])) y"
proof -
  have y: "y = \<lparr>sc_layers = sc_layers x, sc_features = sc_features x, sc_compression = NoCompression\<rparr>"
    using assms(2-4) by (cases y) simp
  show ?thesis unfolding decode_server_capabilities_def Let_def y
    by (rule reads_body_bind [OF reads_u8], rule reads_body_at_end)
      (use assms(1) in \<open>auto simp: wf_server_capabilities_def mask_wire server_capabilities_new_def
        intro!: reads_body reads_map [OF reads_u32] reads_ret_eq\<close>)
qed

lemma reads_hello:
  assumes "utf8_valid name" "wf_client_capabilities caps"
  shows "reads_msg c p decode_hello (encode_hello name major minor patch caps) (Hello name major minor patch caps)"
  unfolding decode_hello_def
proof (rule reads_message, goal_cases)
  case (1 s fid v)
  then have "fid \<noteq> 1" "fid \<noteq> 2" "fid \<noteq> 3" "fid \<noteq> 4" "fid \<noteq> 5" "fid \<noteq> 6" "fid \<noteq> 9" by auto
  then show ?case by (simp add: hello_step_def)
next
  case 2
  note caps = sub_reads [OF reads_client_capabilities [OF assms(2)]]
  have og: "decode_ssh_origin (encode_ssh_origin og) = Some og"
    if "cc_ssh_origin caps = Some og" "length (encode_ssh_origin og) \<le> 16777216" for og
    using that assms(2) by (intro decode_encode_ssh_origin) (simp_all add: wf_client_capabilities_def)
  from 2 assms caps og show ?case
    by (cases "cc_ssh_origin caps"; cases "cc_compression caps = 0")
      (simp_all add: encode_hello_def hello_step_def hello_init_def hello_finish_def)
qed

lemma reads_hello_ok:
  assumes "wf_server_capabilities caps" "wf_profile profile" "wf_limits limits"
  shows "reads_msg c p decode_hello_ok
    (encode_hello_ok_version major minor patch @ encode_hello_ok_negotiation caps server_id profile limits)
    (HelloOk major minor patch caps server_id profile limits)"
  unfolding decode_hello_ok_def
proof (rule reads_message, goal_cases)
  case (1 s fid v)
  then have "fid \<noteq> 1" "fid \<noteq> 2" "fid \<noteq> 3" "fid \<noteq> 4" "fid \<noteq> 5" "fid \<noteq> 6" "fid \<noteq> 7" "fid \<noteq> 8" "fid \<noteq> 9" by auto
  then show ?case by (simp add: hello_ok_step_def)
next
  case 2
  note caps = sub_reads_body [OF reads_server_capabilities [OF assms(1), of "caps\<lparr>sc_compression := NoCompression\<rparr>"]]
  from 2 assms caps show ?case
    by (cases "sc_compression caps") (auto simp: encode_hello_ok_version_def encode_hello_ok_negotiation_def
        hello_ok_step_def hello_ok_init_def hello_ok_finish_def negotiated_bootstrap_limits_def wf_limits_def)
qed

section \<open>The whole catalog\<close>

lemma reads_catalog:
  assumes "wf_frame ext c p f"
  shows "reads_msg c p (decode_catalog ext (type_byte f)) (encode_payload ext f) f"
  using assms by (cases f) (simp_all only: type_byte.simps encode_payload.simps wf_frame.simps, simp_all add: decode_catalog_def
    reads_hello reads_hello_ok reads_ping reads_pong reads_terminal_output reads_attach reads_detach reads_input_key
    reads_input_mouse reads_input_focus reads_input_paste reads_input_terminal_reply reads_frame_ack reads_viewport_resize
    reads_attached reads_attach_ready reads_detached reads_bootstrap_begin reads_bootstrap_chunk reads_bootstrap_ready
    reads_history_request reads_history_page reads_bootstrap_tombstone reads_history_tombstone reads_history_rejected
    reads_bell reads_error_frame reads_get_metadata reads_set_metadata reads_delete_metadata reads_list_metadata
    reads_subscribe_metadata reads_metadata_changed reads_metadata_value reads_metadata_keys
    reads_msg_map [OF reads_list_directory] reads_msg_map [OF reads_directory_listing]
    reads_spawn_terminal [simplified] reads_terminal_spawned reads_move_terminal reads_terminal_moved reads_terminal_closed
    reads_terminal_resize reads_command_frame reads_command_result_frame reads_subscribe_events reads_event)

end
