(* ===== verification/Wire_Framed.thy ===== *)
theory Wire_Framed
  imports Wire_Frame_Round
begin

text \<open>
  The frame boundary. Every message decoder stays inside the input, and what it returns depends only
  on the bytes of its own frame: replacing whatever follows the frame on the stream changes nothing.
\<close>

section \<open>Message decoders stay inside the input\<close>

lemma bounded_prod [inv_intros]: "(\<And>a b. bounded (f a b)) \<Longrightarrow> bounded (case_prod f x)"
  by (cases x) simp

lemma bounded_frames [inv_intros]:
  "bounded decode_hello" "bounded decode_hello_ok" "bounded decode_ping" "bounded decode_pong"
  "bounded decode_terminal_output" "bounded decode_attach" "bounded decode_detach" "bounded decode_input_key"
  "bounded decode_input_mouse" "bounded decode_input_focus" "bounded decode_input_paste"
  "bounded decode_input_terminal_reply" "bounded decode_frame_ack" "bounded decode_viewport_resize"
  "bounded (decode_attached ext)" "bounded decode_attach_ready" "bounded decode_detached" "bounded decode_bell"
  "bounded decode_error_frame"
  unfolding decode_hello_def decode_hello_ok_def decode_ping_def decode_pong_def decode_terminal_output_def
    decode_attach_def decode_detach_def decode_input_key_def decode_input_mouse_def decode_input_focus_def
    decode_input_paste_def decode_input_terminal_reply_def decode_frame_ack_def decode_viewport_resize_def
    decode_attached_def decode_attach_ready_def decode_detached_def decode_bell_def decode_error_frame_def
  by (intro inv_intros)+

lemma bounded_history_frames [inv_intros]:
  "bounded decode_bootstrap_begin" "bounded decode_bootstrap_chunk" "bounded decode_bootstrap_ready"
  "bounded decode_history_request" "bounded decode_history_page" "bounded decode_bootstrap_tombstone"
  "bounded decode_history_tombstone" "bounded decode_history_rejected"
  unfolding decode_bootstrap_begin_def decode_bootstrap_chunk_def decode_bootstrap_ready_def decode_history_request_def
    decode_history_page_def decode_bootstrap_tombstone_def decode_history_tombstone_def decode_history_rejected_def
  by (intro inv_intros)+

lemma bounded_metadata_frames [inv_intros]:
  "bounded decode_get_metadata" "bounded decode_set_metadata" "bounded decode_delete_metadata"
  "bounded decode_list_metadata" "bounded decode_subscribe_metadata" "bounded decode_metadata_changed"
  "bounded decode_metadata_value" "bounded decode_metadata_keys" "bounded decode_spawn_terminal"
  "bounded decode_terminal_spawned" "bounded decode_move_terminal" "bounded decode_terminal_moved"
  "bounded decode_terminal_closed" "bounded decode_terminal_resize" "bounded decode_command_frame"
  "bounded (decode_command_result_frame ext)" "bounded decode_subscribe_events" "bounded decode_event"
  unfolding decode_get_metadata_def decode_set_metadata_def decode_delete_metadata_def decode_list_metadata_def
    decode_subscribe_metadata_def decode_metadata_changed_def decode_metadata_value_def decode_metadata_keys_def
    decode_spawn_terminal_def decode_terminal_spawned_def decode_move_terminal_def decode_terminal_moved_def
    decode_terminal_closed_def decode_terminal_resize_def decode_command_frame_def decode_command_result_frame_def
    decode_subscribe_events_def decode_event_def decode_metadata_scope_key_def
  by (intro inv_intros)+

lemma bounded_map_of: "(\<forall>(k, r) \<in> set rs. bounded r) \<Longrightarrow> bounded (case map_of rs k of Some r \<Rightarrow> r | None \<Rightarrow> fail_r e)"
  by (cases "map_of rs k") (auto intro: inv_intros dest!: map_of_SomeD)

lemma bounded_decode_body [inv_intros]: "bounded (decode_body ext tb)"
proof -
  have "bounded (decode_catalog ext tb)" unfolding decode_catalog_def
    by (rule bounded_map_of) (simp, intro conjI inv_intros)
  then show ?thesis unfolding decode_body_def decode_frame_compressed_def by (auto intro!: inv_intros)
qed

section \<open>Message decoders look at their own frame only\<close>

definition framed :: "'a reader \<Rightarrow> bool" where
  "framed r \<longleftrightarrow> bounded r \<and> (\<forall>d x d' pre rest other.
     dec_input d = pre @ rest \<longrightarrow> dec_body_end d = Some (length pre) \<longrightarrow> r d = Ok (x, d') \<longrightarrow>
     dec_pos d' \<le> length pre \<longrightarrow> r (d\<lparr>dec_input := pre @ other\<rparr>) = Ok (x, d'\<lparr>dec_input := pre @ other\<rparr>))"

lemma framedD:
  assumes "framed r" and "r d = Ok (x, d')" and "dec_input d = pre @ rest"
    and "dec_body_end d = Some (length pre)" and "dec_pos d' \<le> length pre"
  shows "r (d\<lparr>dec_input := pre @ other\<rparr>) = Ok (x, d'\<lparr>dec_input := pre @ other\<rparr>)"
  using assms unfolding framed_def by blast

lemma framed_bounded: "framed r \<Longrightarrow> bounded r"
  by (simp add: framed_def)

lemma framedI:
  assumes "bounded r"
    and "\<And>d x d' pre rest other. r d = Ok (x, d') \<Longrightarrow> dec_input d = pre @ rest \<Longrightarrow> dec_body_end d = Some (length pre) \<Longrightarrow>
      dec_pos d' \<le> length pre \<Longrightarrow> r (d\<lparr>dec_input := pre @ other\<rparr>) = Ok (x, d'\<lparr>dec_input := pre @ other\<rparr>)"
  shows "framed r"
  using assms unfolding framed_def by blast

lemma framed_ret [inv_intros]: "framed (ret_r x)"
  by (simp add: framed_def inv_intros) (simp add: ret_r_def)

lemma framed_fail [inv_intros]: "framed (fail_r e)"
  by (simp add: framed_def inv_intros) (simp add: fail_r_def)

lemma framed_lift [inv_intros]: "framed (lift_r m)"
  by (simp add: framed_def inv_intros) (simp add: lift_r_def split: sum.splits)

lemma framed_get [inv_intros]:
  "framed (get_r at_body_end)" "framed (get_r dec_max_chunk)" "framed (get_r dec_max_page)"
  by (simp_all add: framed_def inv_intros) (auto simp: get_r_def at_body_end_def)

lemma framed_if [inv_intros]: "framed a \<Longrightarrow> framed b \<Longrightarrow> framed (if c then a else b)"
  by simp

lemma framed_prod [inv_intros]: "(\<And>a b. framed (f a b)) \<Longrightarrow> framed (case_prod f x)"
  by (cases x) simp

lemma framed_take [inv_intros]: "framed (take_r n)"
  unfolding framed_def
  by (auto simp: inv_intros) (auto simp: take_r_def Let_def split: if_splits)

lemma framed_bind [inv_intros]:
  assumes "framed m" and "\<And>x. framed (f x)"
  shows "framed (bind_r m f)"
proof (rule framedI)
  have b: "bounded m" "bounded (f x)" for x by (rule framed_bounded [OF assms(1)], rule framed_bounded [OF assms(2)])
  then show "bounded (bind_r m f)" by (intro inv_intros)
  fix d y d' pre rest other
  assume r: "bind_r m f d = Ok (y, d')" and d: "dec_input d = pre @ rest" "dec_body_end d = Some (length pre)"
    and pos: "dec_pos d' \<le> length pre"
  from r obtain x e where m: "m d = Ok (x, e)" and f: "f x e = Ok (y, d')"
    by (auto simp: bind_r_def split: sum.splits)
  have e: "dec_input e = pre @ rest" "dec_body_end e = Some (length pre)" "dec_pos e \<le> length pre"
    using boundedD(1,2) [OF b(1) m] boundedD(5) [OF b(2) f] d pos by simp_all
  have "m (d\<lparr>dec_input := pre @ other\<rparr>) = Ok (x, e\<lparr>dec_input := pre @ other\<rparr>)"
    by (rule framedD [OF assms(1) m d e(3)])
  moreover have "f x (e\<lparr>dec_input := pre @ other\<rparr>) = Ok (y, d'\<lparr>dec_input := pre @ other\<rparr>)"
    by (rule framedD [OF assms(2) f e(1,2) pos])
  ultimately show "bind_r m f (d\<lparr>dec_input := pre @ other\<rparr>) = Ok (y, d'\<lparr>dec_input := pre @ other\<rparr>)"
    by (simp add: bind_r_def)
qed

lemma framed_u8 [inv_intros]: "framed read_u8"
  unfolding read_u8_def by (intro inv_intros)

lemma framed_varint_loop [inv_intros]: "framed (read_varint_loop result shift)"
proof (induction "64 - shift" arbitrary: result shift rule: less_induct)
  case less
  have "framed (read_varint_loop r (shift + 7))" if "\<not> 64 \<le> shift" for r
    using less [of "shift + 7" r] that by simp
  then show ?case
    by (subst read_varint_loop_eq) (cases "64 \<le> shift", auto simp: Let_def intro!: inv_intros)
qed

lemma framed_field [inv_intros]: "framed read_field"
  unfolding read_field_def read_varint_def by (intro inv_intros)

lemma fields_loop_framed:
  assumes "fields_loop step s d = Ok (x, d')" and "dec_input d = pre @ rest"
    and "dec_body_end d = Some (length pre)" and "dec_pos d' \<le> length pre"
  shows "fields_loop step s (d\<lparr>dec_input := pre @ other\<rparr>) = Ok (x, d'\<lparr>dec_input := pre @ other\<rparr>)"
  using assms
proof (induction step s d rule: fields_loop.induct)
  case (1 step s d)
  from 1(2) obtain m e where f: "read_field d = Ok (m, e)"
    by (subst (asm) fields_loop.simps) (auto split: sum.splits)
  note be = boundedD [OF bounded_read_field f]
  show ?case
  proof (cases m)
    case None
    with 1(2) f have "x = s" "d' = e" by (auto simp: fields_loop.simps [of step s d])
    moreover from this have "read_field (d\<lparr>dec_input := pre @ other\<rparr>) = Ok (m, e\<lparr>dec_input := pre @ other\<rparr>)"
      using 1(5) by (intro framedD [OF framed_field f 1(3,4)]) simp
    ultimately show ?thesis using None by (subst fields_loop.simps) simp
  next
    case (Some fv)
    obtain fid v where fv: "fv = (fid, v)" by (cases fv)
    with 1(2) f Some obtain s' where s': "step s fid v = Ok s'" and l: "fields_loop step s' e = Ok (x, d')"
      by (subst (asm) fields_loop.simps) (auto split: sum.splits)
    have "dec_pos e \<le> length pre" using boundedD(5) [OF bounded_fields_loop l] 1(5) by simp
    from framedD [OF framed_field f 1(3,4) this] have
      "read_field (d\<lparr>dec_input := pre @ other\<rparr>) = Ok (Some (fid, v), e\<lparr>dec_input := pre @ other\<rparr>)"
      using Some fv by simp
    moreover have "fields_loop step s' (e\<lparr>dec_input := pre @ other\<rparr>) = Ok (x, d'\<lparr>dec_input := pre @ other\<rparr>)"
      using 1(1) [OF f refl Some fv [symmetric] s' l] be(1,2) 1(3-5) by simp
    ultimately show ?thesis using s' by (subst fields_loop.simps) simp
  qed
qed

lemma framed_fields_loop [inv_intros]: "framed (fields_loop step s)"
  by (rule framedI [OF bounded_fields_loop]) (rule fields_loop_framed)

lemma framed_message [inv_intros]: "framed (message step init finish)"
  unfolding message_def by (intro inv_intros)

lemma framed_map_of: "(\<forall>(k, r) \<in> set rs. framed r) \<Longrightarrow> framed (case map_of rs k of Some r \<Rightarrow> r | None \<Rightarrow> fail_r e)"
  by (cases "map_of rs k") (auto intro: inv_intros dest!: map_of_SomeD)

lemma framed_frames [inv_intros]:
  "framed decode_hello" "framed decode_hello_ok" "framed decode_ping" "framed decode_pong"
  "framed decode_terminal_output" "framed decode_attach" "framed decode_detach" "framed decode_input_key"
  "framed decode_input_mouse" "framed decode_input_focus" "framed decode_input_paste"
  "framed decode_input_terminal_reply" "framed decode_frame_ack" "framed decode_viewport_resize"
  "framed (decode_attached ext)" "framed decode_attach_ready" "framed decode_detached" "framed decode_bell"
  "framed decode_error_frame"
  unfolding decode_hello_def decode_hello_ok_def decode_ping_def decode_pong_def decode_terminal_output_def
    decode_attach_def decode_detach_def decode_input_key_def decode_input_mouse_def decode_input_focus_def
    decode_input_paste_def decode_input_terminal_reply_def decode_frame_ack_def decode_viewport_resize_def
    decode_attached_def decode_attach_ready_def decode_detached_def decode_bell_def decode_error_frame_def
  by (intro inv_intros)+

lemma framed_history_frames [inv_intros]:
  "framed decode_bootstrap_begin" "framed decode_bootstrap_chunk" "framed decode_bootstrap_ready"
  "framed decode_history_request" "framed decode_history_page" "framed decode_bootstrap_tombstone"
  "framed decode_history_tombstone" "framed decode_history_rejected"
  unfolding decode_bootstrap_begin_def decode_bootstrap_chunk_def decode_bootstrap_ready_def decode_history_request_def
    decode_history_page_def decode_bootstrap_tombstone_def decode_history_tombstone_def decode_history_rejected_def
  by (intro inv_intros)+

lemma framed_metadata_frames [inv_intros]:
  "framed decode_get_metadata" "framed decode_set_metadata" "framed decode_delete_metadata"
  "framed decode_list_metadata" "framed decode_subscribe_metadata" "framed decode_metadata_changed"
  "framed decode_metadata_value" "framed decode_metadata_keys" "framed decode_spawn_terminal"
  "framed decode_terminal_spawned" "framed decode_move_terminal" "framed decode_terminal_moved"
  "framed decode_terminal_closed" "framed decode_terminal_resize" "framed decode_command_frame"
  "framed (decode_command_result_frame ext)" "framed decode_subscribe_events" "framed decode_event"
  unfolding decode_get_metadata_def decode_set_metadata_def decode_delete_metadata_def decode_list_metadata_def
    decode_subscribe_metadata_def decode_metadata_changed_def decode_metadata_value_def decode_metadata_keys_def
    decode_spawn_terminal_def decode_terminal_spawned_def decode_move_terminal_def decode_terminal_moved_def
    decode_terminal_closed_def decode_terminal_resize_def decode_command_frame_def decode_command_result_frame_def
    decode_subscribe_events_def decode_event_def decode_metadata_scope_key_def
  by (intro inv_intros)+

lemma framed_directory [inv_intros]: "framed decode_list_directory" "framed decode_directory_listing"
  unfolding decode_list_directory_def decode_directory_listing_def by (intro inv_intros)+

lemma framed_decode_body [inv_intros]: "framed (decode_body ext tb)"
proof -
  have "framed (decode_catalog ext tb)" unfolding decode_catalog_def
    by (rule framed_map_of) (simp, intro conjI inv_intros)
  then show ?thesis unfolding decode_body_def decode_frame_compressed_def by (auto intro!: inv_intros)
qed

section \<open>The reader consumes what the prefix declares\<close>

lemma read_u32_prefix:
  assumes "length bs = 4"
  shows "read_u32_be (decoder_with_limits (bs @ tail) l) = Ok (from_be bs, (decoder_with_limits (bs @ tail) l)\<lparr>dec_pos := 4\<rparr>)"
  using assms by (simp add: read_u32_be_def bind_r_def take_r_def ret_r_def decoder_with_limits_def)

lemma read_frame_framed:
  assumes "decode_with_limits ext input l = Ok (f, rest)"
  shows "\<exists>(n :: u32) body. input = write_u32_be n @ body @ rest \<and> length body = unat n
    \<and> 1 \<le> unat n \<and> unat n \<le> unat max_frame_len
    \<and> (\<forall>other. decode_with_limits ext (write_u32_be n @ body @ other) l = Ok (f, other))"
proof -
  let ?d = "decoder_with_limits input l"
  from assms obtain d2 where rf: "read_frame ext ?d = Ok ((f, rest), d2)"
    by (auto simp: decode_with_limits_def split: sum.splits)
  then obtain n d1 where n: "read_u32_be ?d = Ok (n, d1)"
    by (auto simp: read_frame_def bind_r_def split: sum.splits)
  then have d1: "d1 = ?d\<lparr>dec_pos := 4\<rparr>" and nv: "n = from_be (take 4 input)" and len: "4 \<le> length input"
    by (auto simp: read_u32_be_def bind_r_def take_r_def ret_r_def Let_def decoder_with_limits_def split: if_splits)
  let ?e = "d1\<lparr>dec_body_end := Some (4 + unat n)\<rparr>"
  from rf n have lim: "\<not> (n < 1 \<or> max_frame_len < n)" and fits: "4 + unat n \<le> length input"
    by (auto simp: read_frame_def bind_r_def [of read_u32_be] d1 Let_def decoder_with_limits_def split: if_splits sum.splits)
  from rf n lim fits obtain d' where b: "bind_r read_u8 (decode_body ext) ?e = Ok (f, d')"
    and rest: "rest = remaining (d'\<lparr>dec_pos := 4 + unat n\<rparr>)" and pos: "dec_pos d' \<le> 4 + unat n"
    by (auto simp: read_frame_def bind_r_def [of read_u32_be] d1 Let_def decoder_with_limits_def split: if_splits sum.splits)
  have fr: "framed (bind_r read_u8 (decode_body ext))" by (intro inv_intros)
  from boundedD(1) [OF framed_bounded [OF fr] b] have "dec_input d' = input" by (simp add: d1 decoder_with_limits_def)
  then have rest: "rest = drop (4 + unat n) input" using rest by (simp add: remaining_def)
  have w: "take 4 input = write_u32_be n"
    using to_from_be [of "take 4 input", where 'a = 32] len nv by (simp add: write_u32_be_def min_def)
  let ?pre = "take (4 + unat n) input" and ?body = "take (unat n) (drop 4 input)"
  have pre: "?pre = write_u32_be n @ ?body" by (simp add: take_add w)
  have "decode_with_limits ext (write_u32_be n @ ?body @ other) l = Ok (f, other)" for other
  proof -
    let ?o = "decoder_with_limits (write_u32_be n @ ?body @ other) l"
    let ?eo = "(?o\<lparr>dec_pos := 4\<rparr>)\<lparr>dec_body_end := Some (4 + unat n)\<rparr>"
    have "?eo = ?e\<lparr>dec_input := ?pre @ other\<rparr>" by (simp add: d1 decoder_with_limits_def pre)
    moreover have "bind_r read_u8 (decode_body ext) (?e\<lparr>dec_input := ?pre @ other\<rparr>) = Ok (f, d'\<lparr>dec_input := ?pre @ other\<rparr>)"
      by (rule framedD [OF fr b, of _ "drop (4 + unat n) input"])
        (use fits pos in \<open>simp_all add: d1 decoder_with_limits_def min_absorb2\<close>)
    moreover have "read_u32_be ?o = Ok (n, ?o\<lparr>dec_pos := 4\<rparr>)"
      using read_u32_prefix [of "write_u32_be n"] from_to_be [of 4 n] by (simp add: write_u32_be_def)
    moreover have "4 + unat n < 2 ^ 64" using lim by (simp add: word_less_nat_alt not_less)
    moreover have "length ?pre = 4 + unat n" using fits by simp
    ultimately show ?thesis using lim pos
      by (simp add: decode_with_limits_def read_frame_def bind_r_def [of read_u32_be] Let_def
          remaining_def pre decoder_with_limits_def)
  qed
  moreover have "input = write_u32_be n @ ?body @ rest"
    by (metis append_assoc append_take_drop_id pre rest)
  moreover have "length ?body = unat n" using fits by simp
  moreover have "1 \<le> unat n" "unat n \<le> unat max_frame_len" using lim by (simp_all add: word_less_nat_alt not_less word_le_nat_alt)
  ultimately show ?thesis by blast
qed

end
