(* ===== verification/Wire_Skip.thy ===== *)
theory Wire_Skip
  imports Wire_Frame_Round
begin

text \<open>
  Forward compatibility of the wire format. Each message has a list of field ids; a decoder skips
  every other field wherever it stands, so what it makes of a body is what it makes of the body
  without them, errors included.
\<close>

section \<open>The field ids of the catalog\<close>

text \<open>The ids of each message, by its type byte.\<close>

definition field_ids :: "u8 \<Rightarrow> u32 list" where
  "field_ids tb = (case map_of
        [(0x01, [1, 2, 3, 4, 5, 6, 9]), (0x80, [1, 2, 3, 4, 5, 6, 7, 8, 9]), (0x7F, [1]), (0xFF, [1]),
         (0x90, [1, 2, 3, 4, 5]), (0x02, [1, 2, 3, 4, 5]), (0x03, []), (0x10, [1, 2]), (0x12, [1, 2]),
         (0x14, [1, 2]), (0x11, [1, 2]), (0x17, [1, 2]), (0x21, [1, 2, 3, 4]), (0x20, [1]), (0x81, [1, 2, 3]),
         (0x83, [1]), (0x93, [1, 2, 3, 4, 5, 6, 7, 8]), (0x94, [1, 2, 3, 4, 5]), (0x95, [1, 2, 3, 4]),
         (0x16, [1, 2, 3, 4, 5, 6]), (0x96, [1, 2, 3, 4, 5, 6, 7, 8]), (0x97, [1, 2, 3, 4, 5]),
         (0x98, [1, 2, 3, 4, 5]), (0x99, [1, 2, 3, 4, 5, 6, 7]), (0x82, [1, 2]), (0xB0, [1]),
         (0xC1, [1, 2, 3]), (0x50, [1, 2, 3]), (0x52, [1, 2, 3]), (0x51, [1, 2, 3, 4]), (0x53, [1, 2]),
         (0x54, [1, 2]), (0xD0, [1, 2, 3]), (0xD1, [1, 2]), (0xD2, [1, 2]), (0x55, [1, 2, 3]),
         (0xD3, [1, 2, 3, 4, 5, 6, 7]), (0x22, [1, 2, 3, 4, 5, 6, 7, 8, 9, 10, 11, 12, 13, 14, 15]),
         (0xA2, [1, 2, 3]), (0x2A, [1, 2, 3]), (0xA8, [1, 2]), (0xA1, [1, 2, 3]), (0x23, [1, 2, 3]),
         (0x31, [1, 2]), (0xC2, [1, 2]), (0x41, [1]), (0xB3, [1, 2]), (0x9A, [1, 2, 3])] tb
      of Some ids \<Rightarrow> ids | None \<Rightarrow> [])"

definition of_message :: "u8 \<Rightarrow> u32 \<times> bytes \<Rightarrow> bool" where
  "of_message tb f \<longleftrightarrow> fst f \<in> set (field_ids tb)"

section \<open>Decoders that skip the other fields\<close>

text \<open>\<open>runs\<close>: on a body that is a list of fields, the reader returns what \<open>h\<close> makes of the list.\<close>

definition runs :: "u32 \<Rightarrow> u32 \<Rightarrow> 'a reader \<Rightarrow> (fields \<Rightarrow> decode_error + 'a) \<Rightarrow> bool" where
  "runs c p r h \<longleftrightarrow> (\<forall>d gs. wf_dec d \<longrightarrow> dec_max_chunk d = c \<longrightarrow> dec_max_page d = p \<longrightarrow>
     body_is d (write_fields gs) \<longrightarrow> length (write_fields gs) \<le> 16777216 \<longrightarrow>
     r d = rbind (h gs) (\<lambda>x. Ok (x, d\<lparr>dec_pos := dec_pos d + length (write_fields gs)\<rparr>)))"

definition skips :: "u8 \<Rightarrow> u32 \<Rightarrow> u32 \<Rightarrow> 'a reader \<Rightarrow> bool" where
  "skips tb c p r \<longleftrightarrow> (\<exists>h. runs c p r h \<and> (\<forall>gs. h (filter (of_message tb) gs) = h gs))"

lemma fold_fields_skip:
  assumes "\<And>s fid v. fid \<notin> set (field_ids tb) \<Longrightarrow> step s fid v = Ok s"
  shows "fold_fields step s (filter (of_message tb) gs) = fold_fields step s gs"
proof (induction gs arbitrary: s)
  case (Cons g gs)
  obtain fid v where g: "g = (fid, v)" by (cases g)
  show ?case
  proof (cases "fid \<in> set (field_ids tb)")
    case False
    then have "\<not> of_message tb g" by (simp add: g of_message_def)
    with assms [OF False, of s v] show ?thesis by (simp add: g Cons.IH)
  next
    case True
    then have "of_message tb g" by (simp add: g of_message_def)
    then show ?thesis by (simp add: g Cons.IH)
  qed
qed simp

lemma skips_message:
  assumes "\<And>s fid v. fid \<notin> set (field_ids tb) \<Longrightarrow> step s fid v = Ok s"
  shows "skips tb c p (message step init finish)"
  unfolding skips_def
proof (intro exI conjI allI)
  show "runs c p (message step init finish) (\<lambda>gs. rbind (fold_fields step init gs) finish)"
    unfolding runs_def
  proof (intro allI impI)
    fix d gs
    assume "wf_dec d" "body_is d (write_fields gs)" "length (write_fields gs) \<le> 16777216"
    from fields_loop_write [OF this, of step init]
    show "message step init finish d = rbind (rbind (fold_fields step init gs) finish)
        (\<lambda>x. Ok (x, d\<lparr>dec_pos := dec_pos d + length (write_fields gs)\<rparr>))"
      by (cases "fold_fields step init gs") (auto simp: message_def bind_r_def lift_r_def split: sum.splits)
  qed
qed (simp add: fold_fields_skip [OF assms])

lemma skips_bind_ret: "skips tb c p r \<Longrightarrow> skips tb c p (bind_r r (\<lambda>x. ret_r (g x)))"
proof -
  assume "skips tb c p r"
  then obtain h where h: "runs c p r h" "\<And>gs. h (filter (of_message tb) gs) = h gs" by (auto simp: skips_def)
  have "runs c p (bind_r r (\<lambda>x. ret_r (g x))) (\<lambda>gs. rbind (h gs) (\<lambda>x. Ok (g x)))"
    unfolding runs_def
  proof (intro allI impI)
    fix d gs
    assume "wf_dec d" "dec_max_chunk d = c" "dec_max_page d = p" "body_is d (write_fields gs)"
      "length (write_fields gs) \<le> 16777216"
    with h(1) have "r d = rbind (h gs) (\<lambda>x. Ok (x, d\<lparr>dec_pos := dec_pos d + length (write_fields gs)\<rparr>))"
      by (simp add: runs_def)
    then show "bind_r r (\<lambda>x. ret_r (g x)) d = rbind (rbind (h gs) (\<lambda>x. Ok (g x)))
        (\<lambda>x. Ok (x, d\<lparr>dec_pos := dec_pos d + length (write_fields gs)\<rparr>))"
      by (cases "h gs") (simp_all add: bind_r_def ret_r_def)
  qed
  with h(2) show ?thesis unfolding skips_def by (intro exI conjI) auto
qed

lemma skips_limits:
  "skips tb c p (f c) \<Longrightarrow> skips tb c p (bind_r (get_r dec_max_chunk) f)"
  "skips tb c p (f p) \<Longrightarrow> skips tb c p (bind_r (get_r dec_max_page) f)"
  by (auto simp: skips_def runs_def bind_r_def get_r_def intro!: exI)

lemma skips_fail: "skips tb c p (fail_r e)"
  unfolding skips_def runs_def by (intro exI [of _ "\<lambda>_. Err e"]) (simp add: fail_r_def)

section \<open>Every message of the catalog\<close>

lemma skips_frames:
  "skips 0x01 c p decode_hello" "skips 0x80 c p decode_hello_ok" "skips 0x7F c p decode_ping"
  "skips 0xFF c p decode_pong" "skips 0x90 c p decode_terminal_output" "skips 0x02 c p decode_attach"
  "skips 0x03 c p decode_detach" "skips 0x10 c p decode_input_key" "skips 0x12 c p decode_input_mouse"
  "skips 0x14 c p decode_input_focus" "skips 0x11 c p decode_input_paste"
  "skips 0x17 c p decode_input_terminal_reply" "skips 0x21 c p decode_frame_ack"
  "skips 0x20 c p decode_viewport_resize" "skips 0x81 c p (decode_attached ext)"
  "skips 0x83 c p decode_attach_ready" "skips 0x82 c p decode_detached" "skips 0xB0 c p decode_bell"
  "skips 0xC1 c p decode_error_frame"
  unfolding decode_hello_def decode_hello_ok_def decode_ping_def decode_pong_def decode_terminal_output_def
    decode_attach_def decode_detach_def decode_input_key_def decode_input_mouse_def decode_input_focus_def
    decode_input_paste_def decode_input_terminal_reply_def decode_frame_ack_def decode_viewport_resize_def
    decode_attached_def decode_attach_ready_def decode_detached_def decode_bell_def decode_error_frame_def
    case_prod_unfold
  by (intro skips_limits skips_bind_ret skips_message; simp add: field_ids_def hello_step_def hello_ok_step_def)+

lemma skips_history:
  "skips 0x93 c p decode_bootstrap_begin" "skips 0x94 c p decode_bootstrap_chunk"
  "skips 0x95 c p decode_bootstrap_ready" "skips 0x16 c p decode_history_request"
  "skips 0x96 c p decode_history_page" "skips 0x97 c p decode_bootstrap_tombstone"
  "skips 0x98 c p decode_history_tombstone" "skips 0x99 c p decode_history_rejected"
  unfolding decode_bootstrap_begin_def decode_bootstrap_chunk_def decode_bootstrap_ready_def
    decode_history_request_def decode_history_page_def decode_bootstrap_tombstone_def
    decode_history_tombstone_def decode_history_rejected_def case_prod_unfold
  by (intro skips_limits skips_bind_ret skips_message; simp add: field_ids_def )+

lemma skips_metadata:
  "skips 0x50 c p decode_get_metadata" "skips 0x51 c p decode_set_metadata"
  "skips 0x52 c p decode_delete_metadata" "skips 0x53 c p decode_list_metadata"
  "skips 0x54 c p decode_subscribe_metadata" "skips 0xD0 c p decode_metadata_changed"
  "skips 0xD1 c p decode_metadata_value" "skips 0xD2 c p decode_metadata_keys"
  "skips 0x22 c p decode_spawn_terminal" "skips 0xA2 c p decode_terminal_spawned"
  "skips 0x2A c p decode_move_terminal" "skips 0xA8 c p decode_terminal_moved"
  "skips 0xA1 c p decode_terminal_closed" "skips 0x23 c p decode_terminal_resize"
  "skips 0x31 c p decode_command_frame" "skips 0xC2 c p (decode_command_result_frame ext)"
  "skips 0x41 c p decode_subscribe_events" "skips 0xB3 c p decode_event"
  unfolding decode_get_metadata_def decode_set_metadata_def decode_delete_metadata_def decode_list_metadata_def
    decode_subscribe_metadata_def decode_metadata_changed_def decode_metadata_value_def decode_metadata_keys_def
    decode_spawn_terminal_def decode_terminal_spawned_def decode_move_terminal_def decode_terminal_moved_def
    decode_terminal_closed_def decode_terminal_resize_def decode_command_frame_def
    decode_command_result_frame_def decode_subscribe_events_def decode_event_def decode_metadata_scope_key_def
    case_prod_unfold
  by (intro skips_limits skips_bind_ret skips_message; simp add: field_ids_def spawn_step_def)+

lemma skips_directory:
  "skips 0x55 c p (bind_r decode_list_directory (\<lambda>(request_id, path, host). ret_r (ListDirectory request_id path host)))"
  "skips 0xD3 c p (bind_r decode_directory_listing (\<lambda>(request_id, result). ret_r (DirectoryListing request_id result)))"
  unfolding decode_list_directory_def decode_directory_listing_def case_prod_unfold
  by (intro skips_bind_ret skips_message; simp add: field_ids_def listing_absorb_def)+

lemma skips_compressed: "skips 0x9A c p (decode_frame_compressed ext)"
  unfolding decode_frame_compressed_def case_prod_unfold
  by (intro skips_limits skips_message; simp add: field_ids_def)

lemma skips_map_of:
  "(\<forall>(k, r) \<in> set rs. skips k c p r) \<Longrightarrow> skips tb c p (case map_of rs tb of Some r \<Rightarrow> r | None \<Rightarrow> fail_r e)"
  by (cases "map_of rs tb") (auto intro: skips_fail dest!: map_of_SomeD)

lemma skips_decode_body: "skips tb c p (decode_body ext tb)"
proof -
  have "skips tb c p (decode_catalog ext tb)" unfolding decode_catalog_def
    by (rule skips_map_of) (simp add: skips_frames skips_history skips_metadata skips_directory)
  then show ?thesis by (simp add: decode_body_def skips_compressed)
qed

section \<open>Frames\<close>

lemma length_filter_fields: "length (write_fields (filter P gs)) \<le> length (write_fields gs)"
  by (induction gs) (auto simp: write_fields_def)

lemma decode_frame_bytes:
  assumes r: "runs (max_chunk_bytes l) (max_page_bytes l) (decode_body ext tb) h"
    and len: "1 + length (write_fields gs) \<le> 16777216" and small: "length rest < 2 ^ 62"
  shows "decode_with_limits ext (frame_bytes tb gs @ rest) l = rbind (h gs) (\<lambda>f. Ok (f, rest))"
proof -
  let ?n = "1 + length (write_fields gs)"
  have fb: "frame_bytes tb gs = write_u32_be (of_nat ?n) @ write_u8 tb @ write_fields gs"
    using len by (simp add: frame_bytes_def Let_def write_u8_def)
  have un: "unat (of_nat ?n :: u32) = ?n" using len by (subst unat_of_nat) simp
  let ?d = "decoder_with_limits (frame_bytes tb gs @ rest) l"
  have wf: "wf_dec ?d" "remaining ?d = write_u32_be (of_nat ?n) @ (write_u8 tb @ write_fields gs @ rest)"
    using small len by (simp_all add: wf_dec_def remaining_def decoder_with_limits_def fb write_u8_def write_u32_be_def)
  have 1: "read_u32_be ?d = Ok (of_nat ?n, ?d\<lparr>dec_pos := 4\<rparr>)"
    using reads_u32 [of "of_nat ?n"] wf unfolding reads_def
    by (fastforce simp: decoder_with_limits_def write_u32_be_def)
  let ?e = "?d\<lparr>dec_pos := 4, dec_body_end := Some (4 + ?n)\<rparr>"
  have e: "wf_dec ?e" "remaining ?e = write_u8 tb @ (write_fields gs @ rest)"
    using small len by (simp_all add: wf_dec_def remaining_def decoder_with_limits_def fb write_u8_def write_u32_be_def)
  have 2: "read_u8 ?e = Ok (tb, ?e\<lparr>dec_pos := 5\<rparr>)"
    using reads_u8 [of tb] e unfolding reads_def by (fastforce simp: write_u8_def)
  have b: "decode_body ext tb (?e\<lparr>dec_pos := 5\<rparr>) = rbind (h gs) (\<lambda>x. Ok (x, ?e\<lparr>dec_pos := 5 + length (write_fields gs)\<rparr>))"
  proof -
    have "wf_dec (?e\<lparr>dec_pos := 5\<rparr>)" "body_is (?e\<lparr>dec_pos := 5\<rparr>) (write_fields gs)"
      using small len
      by (simp_all add: wf_dec_def body_is_def remaining_def decoder_with_limits_def fb write_u8_def write_u32_be_def)
    with r len show ?thesis unfolding runs_def by (fastforce simp: decoder_with_limits_def)
  qed
  have "\<not> (of_nat ?n :: u32) < 1" "\<not> max_frame_len < of_nat ?n"
    using len un by (simp_all add: word_less_nat_alt)
  with 1 2 b un len small have "read_frame ext ?d = rbind (h gs) (\<lambda>f. Ok ((f, rest), ?e\<lparr>dec_pos := 4 + ?n\<rparr>))"
    by (cases "h gs") (simp_all add: read_frame_def bind_r_def Let_def decoder_with_limits_def remaining_def
        fb write_u8_def write_u32_be_def)
  then show ?thesis by (cases "h gs") (simp_all add: decode_with_limits_def)
qed

lemma other_fields_skipped:
  assumes "length (frame_bytes tb gs) \<le> 16777220" and "length rest < 2 ^ 62"
  shows "decode_with_limits ext (frame_bytes tb gs @ rest) l =
    decode_with_limits ext (frame_bytes tb (filter (of_message tb) gs) @ rest) l"
proof -
  from skips_decode_body [of tb "max_chunk_bytes l" "max_page_bytes l" ext] obtain h where
    h: "runs (max_chunk_bytes l) (max_page_bytes l) (decode_body ext tb) h" "\<And>gs. h (filter (of_message tb) gs) = h gs"
    by (auto simp: skips_def)
  have n: "1 + length (write_fields gs) \<le> 16777216"
    using assms(1) by (simp add: frame_bytes_def Let_def write_u8_def write_u32_be_def)
  then have "1 + length (write_fields (filter (of_message tb) gs)) \<le> 16777216"
    using length_filter_fields [of "of_message tb" gs] by simp
  from decode_frame_bytes [OF h(1) this assms(2)] decode_frame_bytes [OF h(1) n assms(2)] h(2) show ?thesis by simp
qed

end
