(* ===== verification/Wire_Limits.thy ===== *)
theory Wire_Limits
  imports Wire_Frame_Round
begin

text \<open>
  The limits of the protocol on received messages, and that every decoder enforces them.
\<close>

section \<open>Limits on what is returned\<close>

text \<open>What the protocol bounds in a received message, given the limits the connection negotiated.\<close>

definition within_cursor :: "bytes \<Rightarrow> bool" where
  "within_cursor cursor \<longleftrightarrow> length cursor \<le> max_history_cursor_bytes"

definition within_range :: "bootstrap_limits \<Rightarrow> bool" where
  "within_range l \<longleftrightarrow> max_chunk_bytes l \<noteq> 0 \<and> max_chunk_bytes l \<le> max_bootstrap_chunk_bytes
     \<and> max_page_bytes l \<noteq> 0 \<and> max_page_bytes l \<le> max_history_page_bytes"

definition within_command :: "command \<Rightarrow> bool" where
  "within_command cmd = (case cmd of
     CmdAppendResourceOutput _ data \<Rightarrow> data \<noteq> [] \<and> length data \<le> max_append_bytes
   | CmdApplyInput _ _ events \<Rightarrow> length events \<le> max_apply_input_events
   | CmdPutFile _ _ extension offset data _ _ \<Rightarrow>
       length extension \<le> 16 \<and> length data \<le> max_file_upload_chunk
       \<and> unat offset + length data \<le> max_file_upload_size
   | _ \<Rightarrow> True)"

definition within_facet :: "nat \<Rightarrow> str option \<Rightarrow> bool" where
  "within_facet cap s = (case s of None \<Rightarrow> True | Some name \<Rightarrow> name \<noteq> [] \<and> length name \<le> cap)"

definition within_limits :: "u32 \<Rightarrow> u32 \<Rightarrow> frame_kind \<Rightarrow> bool" where
  "within_limits chunk page f = (case f of
     BootstrapChunk _ _ _ _ payload \<Rightarrow> length payload \<le> unat chunk
   | HistoryPage _ _ _ page_seq cursor next_cursor payload rows \<Rightarrow>
       page_seq \<noteq> 0 \<and> length payload \<le> unat page \<and> rows \<le> max_history_page_rows \<and> within_cursor cursor
       \<and> (case next_cursor of Some n \<Rightarrow> within_cursor n | None \<Rightarrow> True)
   | BootstrapReady _ _ _ cursor \<Rightarrow> (case cursor of Some n \<Rightarrow> within_cursor n | None \<Rightarrow> True)
   | HistoryRequest _ _ _ cursor _ _ \<Rightarrow> within_cursor cursor
   | HistoryTombstone _ _ _ cursor _ \<Rightarrow> within_cursor cursor
   | HistoryRejected _ _ _ cursor _ required_bytes required_rows \<Rightarrow>
       within_cursor cursor \<and> required_bytes \<noteq> 0 \<and> required_bytes \<le> page
       \<and> required_rows \<noteq> 0 \<and> required_rows \<le> max_history_page_rows
   | InputTerminalReply _ bs \<Rightarrow> bs \<noteq> [] \<and> length bs \<le> max_input_terminal_reply_bytes
   | BootstrapBegin _ _ _ profile cols rows _ \<Rightarrow> (profile = StreamAgentEventsJsonlV1) = (cols = 0 \<and> rows = 0)
   | Hello _ _ _ _ caps \<Rightarrow> within_range (cap_limits (cc_bootstrap caps))
   | HelloOk _ _ _ _ _ _ limits \<Rightarrow> within_range limits
   | DirectoryListing _ result \<Rightarrow>
       (case result of Inr l \<Rightarrow> length (listing_entries l) \<le> max_directory_entries | Inl _ \<Rightarrow> True)
   | CommandFrame _ cmd \<Rightarrow> within_command cmd
   | SpawnResource _ _ cmd cwd env term _ owner _ sz (Some r) \<Rightarrow>
       within_facet max_resource_provider_bytes (sr_provider r)
       \<and> within_facet max_resource_native_id_bytes (sr_native_id r)
       \<and> (case sr_kind r of
            KindTerminal \<Rightarrow> sr_parent r = None \<and> sr_provider r = None \<and> sr_native_id r = None
          | KindAgentSession \<Rightarrow> sr_parent r \<noteq> None \<and> sr_provider r \<noteq> None \<and> cmd = None \<and> cwd = None
              \<and> env = None \<and> term = None \<and> owner = None \<and> sz = None
          | KindUnknown _ \<Rightarrow> True)
   | _ \<Rightarrow> True)"

section \<open>What a reader yields\<close>

definition yields :: "'a reader \<Rightarrow> ('a \<Rightarrow> bool) \<Rightarrow> bool" where
  "yields r P \<longleftrightarrow> (\<forall>d x d'. r d = Ok (x, d') \<longrightarrow> P x)"

lemma yields_ret: "P x \<Longrightarrow> yields (ret_r x) P"
  by (simp add: yields_def ret_r_def)

lemma yields_fail: "yields (fail_r e) P"
  by (simp add: yields_def fail_r_def)

lemma yields_known: "(\<And>x. m = Some x \<Longrightarrow> P x) \<Longrightarrow> yields (known_or e m) P"
  by (auto simp: yields_def known_or_def lift_r_def ok_or_def split: option.splits)

lemma yields_bind: "(\<And>x. yields (f x) P) \<Longrightarrow> yields (bind_r m f) P"
  unfolding yields_def by (auto simp: bind_r_def split: sum.splits)

lemma yields_bind_of: "yields m Q \<Longrightarrow> (\<And>x. Q x \<Longrightarrow> yields (f x) P) \<Longrightarrow> yields (bind_r m f) P"
  unfolding yields_def by (fastforce simp: bind_r_def split: sum.splits)

lemma yields_if: "(c \<Longrightarrow> yields a P) \<Longrightarrow> (\<not> c \<Longrightarrow> yields b P) \<Longrightarrow> yields (if c then a else b) P"
  by simp

lemma yields_prod: "(\<And>a b. yields (f a b) P) \<Longrightarrow> yields (case_prod f x) P"
  by (cases x) simp

lemma yields_or_else:
  "yields r (\<lambda>x. case x of Some c \<Rightarrow> P c | None \<Rightarrow> True) \<Longrightarrow> yields s P \<Longrightarrow> yields (or_else_r r s) P"
  unfolding or_else_r_def by (erule yields_bind_of) (auto intro: yields_ret split: option.splits)

lemmas yields_intros = yields_ret yields_fail yields_if yields_prod yields_bind

lemma yields_read_n: "yields (read_n r n) (\<lambda>xs. length xs = n)"
proof (induction n)
  case (Suc n)
  show ?case by (simp, intro yields_bind yields_bind_of [OF Suc] yields_ret) simp
qed (simp add: yields_ret)

lemma sub_yields: "yields r P \<Longrightarrow> sub_r r v = Ok x \<Longrightarrow> P x"
  unfolding yields_def by (auto simp: sub_r_def split: sum.splits)

section \<open>Commands, listings and offers\<close>

lemma yields_append: "yields decode_append_resource_output_command within_command"
  unfolding decode_append_resource_output_command_def by (intro yields_intros) (auto simp: within_command_def)

lemma yields_apply: "yields (decode_apply_input_command len) within_command"
  unfolding decode_apply_input_command_def
  by (intro yields_intros yields_bind_of [OF yields_read_n]) (auto simp: within_command_def intro: yields_intros)

lemma yields_put_file: "yields decode_put_file_command within_command"
proof -
  have e: "yields decode_put_file_extension (\<lambda>s. length s \<le> 16)"
    unfolding decode_put_file_extension_def by (intro yields_intros) simp
  have c: "yields (decode_put_file_chunk offset) (\<lambda>data. length data \<le> max_file_upload_chunk
      \<and> unat offset + length data \<le> max_file_upload_size)" for offset
    unfolding decode_put_file_chunk_def by (intro yields_intros) simp
  show ?thesis unfolding decode_put_file_command_def
    by (rule yields_bind, rule yields_bind, rule yields_bind_of [OF e], rule yields_bind, rule yields_bind_of [OF c],
        rule yields_bind, rule yields_bind, rule yields_ret) (simp add: within_command_def)
qed

lemma yields_some: "yields r P \<Longrightarrow> yields (bind_r r (\<lambda>c. ret_r (Some c))) (\<lambda>x. case x of Some c \<Rightarrow> P c | None \<Rightarrow> True)"
  by (rule yields_bind_of, assumption, rule yields_ret) simp

lemma yields_families:
  "yields (decode_terminal_subscription_command tag) (\<lambda>x. case x of Some c \<Rightarrow> within_command c | None \<Rightarrow> True)"
  "yields (decode_live_affordance_command tag len) (\<lambda>x. case x of Some c \<Rightarrow> within_command c | None \<Rightarrow> True)"
  "yields (decode_supervisory_command tag) (\<lambda>x. case x of Some c \<Rightarrow> within_command c | None \<Rightarrow> True)"
  "yields (decode_agent_report_command tag) (\<lambda>x. case x of Some c \<Rightarrow> within_command c | None \<Rightarrow> True)"
  "yields (decode_session_command tag) (\<lambda>x. case x of Some c \<Rightarrow> within_command c | None \<Rightarrow> True)"
  "yields (decode_resource_command tag) (\<lambda>x. case x of Some c \<Rightarrow> within_command c | None \<Rightarrow> True)"
proof -
  have plain: "yields decode_get_screen_command within_command" "yields decode_get_terminal_state_command within_command"
    "yields decode_subscribe_terminal_events_command within_command" "yields decode_acquire_input_command within_command"
    "yields decode_signal_terminal_command within_command" "yields decode_report_asked_command within_command"
    "yields decode_report_agent_state_command within_command" "yields decode_kill_terminals_command within_command"
    "yields decode_detach_clients_command within_command"
    unfolding decode_get_screen_command_def decode_get_terminal_state_command_def decode_subscribe_terminal_events_command_def
      decode_acquire_input_command_def decode_signal_terminal_command_def decode_report_asked_command_def
      decode_report_agent_state_command_def decode_kill_terminals_command_def decode_detach_clients_command_def
    by (intro yields_intros; simp add: within_command_def)+
  note defs = decode_terminal_subscription_command_def decode_live_affordance_command_def decode_supervisory_command_def
    decode_agent_report_command_def decode_session_command_def decode_resource_command_def
  show "yields (decode_terminal_subscription_command tag) (\<lambda>x. case x of Some c \<Rightarrow> within_command c | None \<Rightarrow> True)"
    "yields (decode_live_affordance_command tag len) (\<lambda>x. case x of Some c \<Rightarrow> within_command c | None \<Rightarrow> True)"
    "yields (decode_supervisory_command tag) (\<lambda>x. case x of Some c \<Rightarrow> within_command c | None \<Rightarrow> True)"
    "yields (decode_agent_report_command tag) (\<lambda>x. case x of Some c \<Rightarrow> within_command c | None \<Rightarrow> True)"
    "yields (decode_session_command tag) (\<lambda>x. case x of Some c \<Rightarrow> within_command c | None \<Rightarrow> True)"
    "yields (decode_resource_command tag) (\<lambda>x. case x of Some c \<Rightarrow> within_command c | None \<Rightarrow> True)"
    unfolding defs Let_def
    by (intro yields_if yields_some plain yields_append yields_apply yields_put_file;
        (intro yields_intros, simp add: within_command_def; fail)?)+
qed

lemma yields_command: "yields decode_command within_command"
  unfolding decode_command_def by (intro yields_bind yields_or_else yields_families yields_fail)

lemma yields_entries: "yields decode_entries (\<lambda>es. length es \<le> max_directory_entries)"
  unfolding decode_entries_def
proof (intro yields_bind yields_if yields_fail)
  fix n :: u32
  assume "\<not> max_directory_entries < unat n"
  with yields_read_n [of decode_entry "unat n"] show "yields (read_n decode_entry (unat n)) (\<lambda>es. length es \<le> max_directory_entries)"
    by (auto simp: yields_def)
qed

lemma bootstrap_limits_within: "bootstrap_limits_new c p = Some l \<Longrightarrow> within_range l"
  by (auto simp: bootstrap_limits_new_def within_range_def split: if_splits)

lemma yields_capabilities: "yields decode_client_capabilities (\<lambda>c. within_range (cap_limits (cc_bootstrap c)))"
proof -
  have k: "yields (known_or e (bootstrap_limits_new c p)) within_range" for e c p
    by (rule yields_known) (rule bootstrap_limits_within)
  have b: "yields decode_bootstrap_capabilities (\<lambda>b. within_range (cap_limits b))"
    unfolding decode_bootstrap_capabilities_def
    by (rule yields_bind, rule yields_bind, rule yields_bind, rule yields_bind, rule yields_bind,
        rule yields_bind_of [OF k], rule yields_ret) simp
  show ?thesis unfolding decode_client_capabilities_def Let_def
    by (rule yields_bind, rule yields_bind, rule yields_bind, rule yields_bind, rule yields_bind, rule yields_bind,
        rule yields_bind, rule yields_bind_of [OF b], rule yields_ret) (auto split: option.splits)
qed

section \<open>Messages\<close>

definition gives :: "u32 \<Rightarrow> u32 \<Rightarrow> 'a reader \<Rightarrow> ('a \<Rightarrow> bool) \<Rightarrow> bool" where
  "gives c p r P \<longleftrightarrow> (\<forall>d x d'. dec_max_chunk d = c \<longrightarrow> dec_max_page d = p \<longrightarrow> r d = Ok (x, d') \<longrightarrow> P x)"

lemma fields_loop_inv:
  assumes "fields_loop step s d = Ok (t, d')" and "I s"
    and "\<And>s fid v s'. I s \<Longrightarrow> step s fid v = Ok s' \<Longrightarrow> I s'"
  shows "I t"
  using assms
proof (induction step s d rule: fields_loop.induct)
  case (1 step s d)
  show ?case
  proof (cases "read_field d")
    case (Inr fe)
    obtain m e where fe: "fe = (m, e)" by (cases fe)
    show ?thesis
    proof (cases m)
      case None
      with 1(2,3) Inr fe show ?thesis by (subst (asm) fields_loop.simps) simp
    next
      case (Some fv)
      obtain fid v where fv: "fv = (fid, v)" by (cases fv)
      with 1(2) Inr fe Some obtain s' where s': "step s fid v = Ok s'" and l: "fields_loop step s' e = Ok (t, d')"
        by (subst (asm) fields_loop.simps) (auto split: sum.splits)
      from 1(1) [OF Inr fe [symmetric] Some fv [symmetric] s' l 1(4) [OF 1(3) s'] 1(4)] show ?thesis .
    qed
  qed (use 1(2) in \<open>subst (asm) fields_loop.simps, simp\<close>)
qed

lemma gives_message_inv:
  assumes "I init" and "\<And>s fid v s'. I s \<Longrightarrow> step s fid v = Ok s' \<Longrightarrow> I s'"
    and "\<And>s x. I s \<Longrightarrow> finish s = Ok x \<Longrightarrow> P x"
  shows "gives c p (message step init finish) P"
  unfolding gives_def
proof (intro allI impI)
  fix d x d'
  assume "message step init finish d = Ok (x, d')"
  then obtain s e where "fields_loop step init d = Ok (s, e)" "finish s = Ok x"
    by (auto simp: message_def bind_r_def lift_r_def split: sum.splits)
  with fields_loop_inv [of step init d s e I] assms show "P x" by blast
qed

lemmas gives_message = gives_message_inv [where I = "\<lambda>_. True", simplified]

lemma gives_limits:
  "gives c p (f c) P \<Longrightarrow> gives c p (bind_r (get_r dec_max_chunk) f) P"
  "gives c p (f p) P \<Longrightarrow> gives c p (bind_r (get_r dec_max_page) f) P"
  unfolding gives_def by (auto simp: bind_r_def get_r_def)

lemma gives_bind_ret: "(\<And>x. P (g x)) \<Longrightarrow> gives c p (bind_r r (\<lambda>x. ret_r (g x))) P"
  unfolding gives_def by (auto simp: bind_r_def ret_r_def split: sum.splits)

lemma req_eq_Ok [simp]: "req m k = Inr x \<longleftrightarrow> (\<exists>y. m = Some y \<and> k y = Inr x)"
  by (cases m) auto

lemma put_eq_Ok [simp]: "put f m = Inr x \<longleftrightarrow> (\<exists>y. m = Inr y \<and> x = f y)"
  by (cases m) auto

lemma gives_plain_frames:
  "gives c p decode_ping (within_limits c p)" "gives c p decode_pong (within_limits c p)"
  "gives c p decode_terminal_output (within_limits c p)" "gives c p decode_attach (within_limits c p)"
  "gives c p decode_detach (within_limits c p)" "gives c p decode_input_key (within_limits c p)"
  "gives c p decode_input_mouse (within_limits c p)" "gives c p decode_input_focus (within_limits c p)"
  "gives c p decode_input_paste (within_limits c p)" "gives c p decode_frame_ack (within_limits c p)"
  "gives c p decode_viewport_resize (within_limits c p)" "gives c p (decode_attached ext) (within_limits c p)"
  "gives c p decode_attach_ready (within_limits c p)" "gives c p decode_detached (within_limits c p)"
  "gives c p decode_bell (within_limits c p)" "gives c p decode_error_frame (within_limits c p)"
  "gives c p decode_bootstrap_tombstone (within_limits c p)"
  unfolding decode_ping_def decode_pong_def decode_terminal_output_def decode_attach_def decode_detach_def
    decode_input_key_def decode_input_mouse_def decode_input_focus_def decode_input_paste_def decode_frame_ack_def
    decode_viewport_resize_def decode_attached_def decode_attach_ready_def decode_detached_def decode_bell_def
    decode_error_frame_def decode_bootstrap_tombstone_def
  by (rule gives_message, auto simp: within_limits_def)+

lemma gives_more_plain_frames:
  "gives c p decode_get_metadata (within_limits c p)" "gives c p decode_delete_metadata (within_limits c p)"
  "gives c p decode_set_metadata (within_limits c p)" "gives c p decode_list_metadata (within_limits c p)"
  "gives c p decode_subscribe_metadata (within_limits c p)" "gives c p decode_metadata_changed (within_limits c p)"
  "gives c p decode_metadata_value (within_limits c p)" "gives c p decode_metadata_keys (within_limits c p)"
  "gives c p decode_terminal_spawned (within_limits c p)" "gives c p decode_move_terminal (within_limits c p)"
  "gives c p decode_terminal_moved (within_limits c p)" "gives c p decode_terminal_closed (within_limits c p)"
  "gives c p decode_terminal_resize (within_limits c p)"
  "gives c p (decode_command_result_frame ext) (within_limits c p)"
  "gives c p decode_subscribe_events (within_limits c p)" "gives c p decode_event (within_limits c p)"
  unfolding decode_get_metadata_def decode_delete_metadata_def decode_set_metadata_def decode_list_metadata_def
    decode_subscribe_metadata_def decode_metadata_changed_def decode_metadata_value_def decode_metadata_keys_def
    decode_terminal_spawned_def decode_move_terminal_def decode_terminal_moved_def decode_terminal_closed_def
    decode_terminal_resize_def decode_command_result_frame_def decode_subscribe_events_def
    decode_event_def case_prod_unfold
  by (rule gives_bind_ret gives_message, auto simp: within_limits_def)+

lemma checked_cursor_within: "checked_history_cursor v = Inr x \<Longrightarrow> within_cursor x"
  by (auto simp: checked_history_cursor_def within_cursor_def split: if_splits)

lemma gives_handshake:
  "gives c p decode_hello (within_limits c p)" "gives c p decode_hello_ok (within_limits c p)"
proof -
  show "gives c p decode_hello (within_limits c p)" unfolding decode_hello_def
    by (rule gives_message_inv [where I = "\<lambda>s. case hf_caps s of None \<Rightarrow> True | Some x \<Rightarrow> within_range (cap_limits (cc_bootstrap x))"])
      (auto simp: hello_init_def hello_step_def hello_finish_def within_limits_def Let_def split: if_splits option.splits
        dest!: sub_yields [OF yields_capabilities])
  show "gives c p decode_hello_ok (within_limits c p)" unfolding decode_hello_ok_def
    by (rule gives_message) (auto simp: hello_ok_finish_def within_limits_def negotiated_bootstrap_limits_def
        rbind_eq_Inr ok_or_def split: option.splits dest!: bootstrap_limits_within)
qed

lemma gives_streams:
  "gives c p decode_input_terminal_reply (within_limits c p)" "gives c p decode_bootstrap_begin (within_limits c p)"
  "gives c p decode_bootstrap_chunk (within_limits c p)" "gives c p decode_bootstrap_ready (within_limits c p)"
proof -
  show "gives c p decode_input_terminal_reply (within_limits c p)" unfolding decode_input_terminal_reply_def
    by (rule gives_message_inv [where I = "\<lambda>(t, y). case y of None \<Rightarrow> True | Some bs \<Rightarrow> bs \<noteq> [] \<and> length bs \<le> max_input_terminal_reply_bytes"])
      (auto simp: within_limits_def split: if_splits)
  show "gives c p decode_bootstrap_begin (within_limits c p)" unfolding decode_bootstrap_begin_def
    by (rule gives_message) (auto simp: within_limits_def checked_bootstrap_dimensions_def rbind_eq_Inr split: if_splits)
  show "gives c p decode_bootstrap_chunk (within_limits c p)" unfolding decode_bootstrap_chunk_def
    by (rule gives_limits, rule gives_message_inv [where
        I = "\<lambda>(t, s, b, q, payload). case payload of None \<Rightarrow> True | Some bs \<Rightarrow> length bs \<le> unat c"])
      (auto simp: within_limits_def split: if_splits)
  show "gives c p decode_bootstrap_ready (within_limits c p)" unfolding decode_bootstrap_ready_def
    by (rule gives_message_inv [where I = "\<lambda>(t, s, b, cursor). case cursor of None \<Rightarrow> True | Some n \<Rightarrow> within_cursor n"])
      (auto simp: within_limits_def checked_cursor_within split: if_splits)
qed

lemma gives_history:
  "gives c p decode_history_request (within_limits c p)" "gives c p decode_history_page (within_limits c p)"
  "gives c p decode_history_tombstone (within_limits c p)" "gives c p decode_history_rejected (within_limits c p)"
proof -
  show "gives c p decode_history_request (within_limits c p)" unfolding decode_history_request_def
    by (rule gives_message_inv [where I = "\<lambda>(t, s, b, cursor, mb, mr). case cursor of None \<Rightarrow> True | Some n \<Rightarrow> within_cursor n"])
      (auto simp: within_limits_def checked_cursor_within split: if_splits)
  show "gives c p decode_history_page (within_limits c p)" unfolding decode_history_page_def
    by (rule gives_limits, rule gives_message) (auto simp: within_limits_def within_cursor_def rbind_eq_Inr
        checked_history_page_seq_def checked_history_page_rows_def split: if_splits option.splits)
  show "gives c p decode_history_tombstone (within_limits c p)" unfolding decode_history_tombstone_def
    by (rule gives_message_inv [where I = "\<lambda>(t, s, b, cursor, reason). case cursor of None \<Rightarrow> True | Some n \<Rightarrow> within_cursor n"])
      (auto simp: within_limits_def checked_cursor_within split: if_splits)
  show "gives c p decode_history_rejected (within_limits c p)" unfolding decode_history_rejected_def
    by (rule gives_limits, rule gives_message_inv [where
        I = "\<lambda>(t, s, b, cursor, reason, rb, rr). case cursor of None \<Rightarrow> True | Some n \<Rightarrow> within_cursor n"])
      (auto simp: within_limits_def checked_cursor_within rbind_eq_Inr checked_history_required_bytes_def
        checked_history_required_rows_def not_less split: if_splits)
qed

lemma gives_command: "gives c p decode_command_frame (within_limits c p)"
  unfolding decode_command_frame_def
  by (rule gives_message_inv [where I = "\<lambda>(n, cmd). case cmd of None \<Rightarrow> True | Some x \<Rightarrow> within_command x"])
    (auto simp: within_limits_def split: if_splits dest!: sub_yields [OF yields_command])

lemma facet_within: "decode_agent_facet_str v cap = Inr x \<Longrightarrow> within_facet cap (Some x)"
  by (auto simp: decode_agent_facet_str_def within_facet_def from_utf8_def split: if_splits)

definition spawn_within :: "spawn_fields \<Rightarrow> bool" where
  "spawn_within s \<longleftrightarrow> within_facet max_resource_provider_bytes (sr_provider (sf_resource s))
     \<and> within_facet max_resource_native_id_bytes (sr_native_id (sf_resource s))"

lemma spawn_step_within: "spawn_within s \<Longrightarrow> spawn_step s fid v = Ok s' \<Longrightarrow> spawn_within s'"
  unfolding spawn_step_def spawn_within_def by (auto split: if_splits dest: facet_within)

lemma gives_spawn: "gives c p decode_spawn_terminal (within_limits c p)"
  unfolding decode_spawn_terminal_def
proof (rule gives_message_inv [where I = spawn_within, OF _ spawn_step_within])
  show "spawn_within spawn_init" by (simp add: spawn_within_def spawn_init_def within_facet_def)
  fix s x
  assume "spawn_within s" "spawn_finish s = Ok x"
  then show "within_limits c p x"
    by (cases "sr_kind (sf_resource s)") (auto simp: spawn_finish_def Let_def rbind_eq_Inr validate_spawn_for_kind_def
        spawn_within_def within_limits_def not_None_eq [symmetric] simp del: not_None_eq split: if_splits option.splits)
qed

lemma listing_within:
  "length (lf_entries s) \<le> max_directory_entries \<Longrightarrow> listing_absorb s fid v = Ok s' \<Longrightarrow>
     length (lf_entries s') \<le> max_directory_entries"
  unfolding listing_absorb_def by (auto split: if_splits dest: sub_yields [OF yields_entries])

lemma gives_listing:
  "gives c p decode_directory_listing (\<lambda>(n, r). case r of Inr l \<Rightarrow> length (listing_entries l) \<le> max_directory_entries | Inl _ \<Rightarrow> True)"
  unfolding decode_directory_listing_def
  by (rule gives_message_inv [where I = "\<lambda>s. length (lf_entries s) \<le> max_directory_entries", OF _ listing_within])
    (auto simp: listing_fields_default_def listing_into_result_def split: option.splits)

lemma gives_map_of:
  "(\<forall>(k, r) \<in> set rs. gives c p r P) \<Longrightarrow> gives c p (case map_of rs k of Some r \<Rightarrow> r | None \<Rightarrow> fail_r e) P"
  by (cases "map_of rs k") (auto simp: gives_def fail_r_def dest!: map_of_SomeD)

lemma gives_bind_ret_of: "gives c p r Q \<Longrightarrow> (\<And>x. Q x \<Longrightarrow> P (g x)) \<Longrightarrow> gives c p (bind_r r (\<lambda>x. ret_r (g x))) P"
  unfolding gives_def by (auto simp: bind_r_def ret_r_def split: sum.splits)

lemma gives_directory:
  "gives c p (bind_r decode_list_directory (\<lambda>(request_id, path, host). ret_r (ListDirectory request_id path host))) (within_limits c p)"
  "gives c p (bind_r decode_directory_listing (\<lambda>(request_id, result). ret_r (DirectoryListing request_id result))) (within_limits c p)"
proof -
  show "gives c p (bind_r decode_list_directory (\<lambda>(request_id, path, host). ret_r (ListDirectory request_id path host))) (within_limits c p)"
    unfolding case_prod_unfold by (rule gives_bind_ret, simp add: within_limits_def)
  show "gives c p (bind_r decode_directory_listing (\<lambda>(request_id, result). ret_r (DirectoryListing request_id result))) (within_limits c p)"
    unfolding case_prod_unfold by (rule gives_bind_ret_of [OF gives_listing]) (simp add: within_limits_def case_prod_beta)
qed

lemma gives_catalog: "gives c p (decode_catalog ext tb) (within_limits c p)"
  unfolding decode_catalog_def
  by (rule gives_map_of) (simp add: gives_plain_frames gives_more_plain_frames gives_handshake gives_streams gives_history
      gives_command gives_spawn gives_directory)

lemma gives_decode_inner:
  assumes "decode_inner ext c p body = Ok f" "wf_limits \<lparr>max_chunk_bytes = c, max_page_bytes = p\<rparr>"
  shows "within_limits c p f"
proof -
  let ?d = "(decoder_with_limits body \<lparr>max_chunk_bytes = c, max_page_bytes = p\<rparr>)\<lparr>dec_body_end := Some (length body)\<rparr>"
  from assms obtain tb e e' where tb: "read_u8 ?d = Ok (tb, e)" and f: "decode_catalog ext tb e = Ok (f, e')"
    by (auto simp: decode_inner_def Let_def wf_limits_def bind_r_def fail_r_def split: sum.splits if_splits)
  from boundedD(3,4) [OF bounded_prims(1) tb] have "dec_max_chunk e = c" "dec_max_page e = p"
    by (simp_all add: decoder_with_limits_def)
  with f gives_catalog [of c p ext tb] show ?thesis unfolding gives_def by blast
qed

lemma gives_decode_body:
  assumes "wf_limits \<lparr>max_chunk_bytes = c, max_page_bytes = p\<rparr>"
  shows "gives c p (decode_body ext tb) (within_limits c p)"
proof (cases "tb = 0x9A")
  case True
  then show ?thesis unfolding decode_body_def decode_frame_compressed_def
    by (simp, intro gives_limits gives_message)
      (auto simp: rbind_eq_Inr split: if_splits dest: gives_decode_inner [OF _ assms])
qed (simp add: decode_body_def gives_catalog)

lemma decode_gives:
  assumes "decode_with_limits ext input l = Ok (f, rest)" "wf_limits l"
  shows "within_limits (max_chunk_bytes l) (max_page_bytes l) f"
proof -
  let ?d = "decoder_with_limits input l"
  from assms(1) obtain d2 where "read_frame ext ?d = Ok ((f, rest), d2)"
    by (auto simp: decode_with_limits_def split: sum.splits)
  then obtain n d1 e where n: "read_u32_be ?d = Ok (n, d1)"
    and b: "bind_r read_u8 (decode_body ext) (d1\<lparr>dec_body_end := Some (dec_pos d1 + unat n)\<rparr>) = Ok (f, e)"
    by (auto simp: read_frame_def bind_r_def [of read_u32_be] Let_def split: sum.splits if_splits)
  from b obtain tb e1 where tb: "read_u8 (d1\<lparr>dec_body_end := Some (dec_pos d1 + unat n)\<rparr>) = Ok (tb, e1)"
    and f: "decode_body ext tb e1 = Ok (f, e)"
    by (auto simp: bind_r_def split: sum.splits)
  have "dec_max_chunk e1 = max_chunk_bytes l" "dec_max_page e1 = max_page_bytes l"
    using boundedD(3,4) [OF bounded_prims(1) tb] boundedD(3,4) [OF bounded_prims(3) n]
    by (simp_all add: decoder_with_limits_def)
  moreover have "wf_limits \<lparr>max_chunk_bytes = max_chunk_bytes l, max_page_bytes = max_page_bytes l\<rparr>"
    using assms(2) by (cases l) simp
  ultimately show ?thesis using gives_decode_body f unfolding gives_def by blast
qed

end
