(* ===== verification/Wire_Compress.thy ===== *)
theory Wire_Compress
  imports Wire_Frame_Props
begin

text \<open>
  The compressed envelope: what the server wraps, the peer unwraps to the same message, and no
  envelope makes the peer allocate more than the connection negotiated. \<open>flate2\<close> is a parameter;
  the hypothesis on it is that inflating what was deflated gives the input back.
\<close>

section \<open>Size of a wrapped frame\<close>

definition short_terminal_id :: "frame_kind \<Rightarrow> bool" where
  "short_terminal_id f = (case f of
     BootstrapChunk t _ _ _ _ \<Rightarrow> length (encode_terminal_id t) \<le> 32768
   | HistoryPage t _ _ _ _ _ _ _ \<Rightarrow> length (encode_terminal_id t) \<le> 32768
   | _ \<Rightarrow> True)"

lemma length_ids:
  "length (write_stream_id s) = 8" "length (write_bootstrap_id b) = 8" "length (write_u64_be q) = 8"
  by (simp_all add: write_stream_id_def write_bootstrap_id_def write_u64_be_def split: stream_id.splits bootstrap_id.splits)

lemma unat_max_compressed:
  assumes "wf_limits \<lparr>max_chunk_bytes = c, max_page_bytes = p\<rparr>"
  shows "unat (max_compressed_frame_bytes c p) = max (unat c) (unat p) + 65536"
    and "unat c \<le> 8388608" and "unat p \<le> 8388608"
proof -
  from assms show le: "unat c \<le> 8388608" "unat p \<le> 8388608"
    by (auto simp: wf_limits_def bootstrap_limits_new_def max_bootstrap_chunk_bytes_def max_history_page_bytes_def
        word_less_nat_alt not_less split: if_splits)
  have "unat (m + 65536) = unat m + 65536" if "unat m \<le> 8388608" for m :: u32
    using that by (subst unat_add_lem [THEN iffD1]) simp_all
  then show "unat (max_compressed_frame_bytes c p) = max (unat c) (unat p) + 65536"
    using le by (simp add: max_compressed_frame_bytes_def Let_def max_def word_less_nat_alt)
qed

lemma wrapped_size:
  assumes "compress_policy f z \<noteq> NoCompression" "wf_frame ext c p f" "short_terminal_id f"
    and lim: "wf_limits \<lparr>max_chunk_bytes = c, max_page_bytes = p\<rparr>"
  shows "1 + length (write_fields (encode_payload ext f)) \<le> unat (max_compressed_frame_bytes c p)"
proof (cases f)
  case (BootstrapChunk t s b q payload)
  with assms unat_max_compressed [OF lim] length_fields_le [of "encode_payload ext f"] show ?thesis
    by (auto simp: encode_bootstrap_chunk_def short_terminal_id_def length_ids)
next
  case (HistoryPage t s b q cursor next_cursor payload rows)
  with assms unat_max_compressed [OF lim] length_fields_le [of "encode_payload ext f"] show ?thesis
    by (cases next_cursor) (auto simp: encode_history_page_stream_def encode_history_page_body_def short_terminal_id_def
        length_ids wf_cursor_def max_history_cursor_bytes_def)
qed (use assms in \<open>simp_all add: compress_policy_def\<close>)

section \<open>Unwrapping\<close>

lemma decode_inner_body:
  assumes "wf_frame ext c p f" "wf_limits \<lparr>max_chunk_bytes = c, max_page_bytes = p\<rparr>"
    and "1 + length (write_fields (encode_payload ext f)) \<le> 16777216"
  shows "decode_inner ext c p (write_u8 (type_byte f) @ write_fields (encode_payload ext f)) = Ok f"
proof -
  let ?body = "write_u8 (type_byte f) @ write_fields (encode_payload ext f)"
  let ?d = "(decoder_with_limits ?body \<lparr>max_chunk_bytes = c, max_page_bytes = p\<rparr>)\<lparr>dec_body_end := Some (length ?body)\<rparr>"
  have "type_byte f \<noteq> 0x9A" by (cases f) simp_all
  moreover have "reads_body c p (decode_catalog ext (type_byte f)) (write_fields (encode_payload ext f)) f"
    using reads_catalog [OF assms(1)] known_payload unfolding reads_msg_def by blast
  ultimately have "reads_body c p (bind_r read_u8 (\<lambda>tb.
      if tb = 0x9A then fail_r CompressedFrameInvalid else decode_catalog ext tb)) ?body f"
    by (intro reads_body_bind [OF reads_u8]) simp
  moreover have "wf_dec ?d" "dec_max_chunk ?d = c" "dec_max_page ?d = p" "body_is ?d ?body" "length ?body \<le> 16777216"
    using assms(3) by (simp_all add: wf_dec_def decoder_with_limits_def body_is_def remaining_def)
  ultimately obtain d' where "bind_r read_u8 (\<lambda>tb.
      if tb = 0x9A then fail_r CompressedFrameInvalid else decode_catalog ext tb) ?d = Ok (f, d')"
    unfolding reads_body_def by blast
  then show ?thesis using assms(2) by (simp add: decode_inner_def wf_limits_def Let_def)
qed

lemma reads_frame_compressed:
  assumes wf: "wf_frame ext c p f" "wf_limits \<lparr>max_chunk_bytes = c, max_page_bytes = p\<rparr>"
    and body: "body = write_u8 (type_byte f) @ write_fields (encode_payload ext f)"
    and len: "length body \<le> unat (max_compressed_frame_bytes c p)"
    and inf: "inflate ext deflated (length body) = Ok body"
  shows "reads_msg c p (decode_body ext 0x9A)
    [(1, write_u8 (compression_as_u8 Deflate)), (2, write_u32_be (of_nat (length body))), (3, deflated)] f"
proof -
  have small: "length body \<le> 16777216" using len unat_max_compressed [OF wf(2)] by simp
  then have un: "unat (of_nat (length body) :: u32) = length body" by (rule unat_of_nat_small)
  then have "(of_nat (length body) :: u32) \<noteq> 0" using body by (metis length_append length_write_u8 unat_eq_zero add_is_0 zero_neq_one)
  moreover have "\<not> max_compressed_frame_bytes c p < of_nat (length body)"
    using len un by (simp add: word_less_nat_alt)
  moreover have "decode_inner ext c p body = Ok f"
    unfolding body by (rule decode_inner_body [OF wf]) (use small body in simp)
  ultimately show ?thesis unfolding decode_body_def decode_frame_compressed_def
    by (simp, intro reads_msg_limits, intro reads_message) (use inf un in auto)
qed

lemma encode_split: "encode ext f = frame_bytes (type_byte f) (encode_payload ext f)"
  "4 \<le> length (encode ext f)"
  "drop 4 (encode ext f) = write_u8 (type_byte f) @ write_fields (encode_payload ext f)"
  by (simp_all add: encode_def frame_bytes_def Let_def)

lemma deflate_SomeD:
  assumes "deflate ext body = Some out"
  shows "compress_vec ext body (length body) = Some (out, True)" "length out < length body"
  using assms by (auto simp: deflate_def split: if_splits option.splits)

text \<open>
  C29. What the server sends is what the client gets, whether or not the frame went out compressed:
  for a well-formed message within the negotiated limits and the frame cap whose terminal id takes at
  most 32 KiB, under the server's policy, with any negotiated algorithm, the peer decodes the written
  bytes to the message itself and the bytes after it. The bound on the id is needed: the decoder
  allows 64 KiB around the payload, which a satellite's host name alone can exceed. The hypothesis on
  the external library is that inflating a completed deflate stream restores its input.
\<close>

theorem compressed_roundtrip:
  assumes wf: "wf_frame ext (max_chunk_bytes l) (max_page_bytes l) f" "wf_limits l"
    and short: "short_terminal_id f"
    and len: "length (encode ext f) \<le> 4 + unat max_frame_len" and rest: "length rest < 2 ^ 62"
    and flate2: "\<And>body n out. compress_vec ext body n = Some (out, True) \<Longrightarrow>
      decompress_vec ext out (length body) = Some (body, True)"
  shows "decode_with_limits ext (encode_compressed ext (compress_policy f negotiated) f @ rest) l = Ok (f, rest)"
proof (cases "compress_policy f negotiated = NoCompression \<or> deflate ext (drop 4 (encode ext f)) = None")
  case True
  then have "encode_compressed ext (compress_policy f negotiated) f = encode ext f"
    by (auto simp: encode_compressed_def Let_def)
  with frame_decodes [OF wf(1) len rest] show ?thesis by simp
next
  case False
  let ?body = "write_u8 (type_byte f) @ write_fields (encode_payload ext f)"
  from False obtain deflated where d: "deflate ext ?body = Some deflated" and p: "compress_policy f negotiated = Deflate"
    by (cases "compress_policy f negotiated") (auto simp: encode_split(3))
  have lim: "wf_limits \<lparr>max_chunk_bytes = max_chunk_bytes l, max_page_bytes = max_page_bytes l\<rparr>" using wf(2) by (cases l) simp
  have small: "length ?body \<le> unat (max_compressed_frame_bytes (max_chunk_bytes l) (max_page_bytes l))"
    using wrapped_size [OF _ wf(1) short lim, of negotiated] p by simp
  have inf: "inflate ext deflated (length ?body) = Ok ?body" and shrunk: "length deflated < length ?body"
    using flate2 [OF deflate_SomeD(1) [OF d]] deflate_SomeD(2) [OF d] by (simp_all add: inflate_def)
  let ?fs = "[(1, write_u8 (compression_as_u8 Deflate)), (2, write_u32_be (of_nat (length ?body))), (3, deflated)]"
  have enc: "encode_compressed ext (compress_policy f negotiated) f = frame_bytes 0x9A ?fs"
    using d p len encode_split [of ext f] by (simp add: encode_compressed_def Let_def)
  have "length deflated \<le> 8454144" using shrunk small unat_max_compressed [OF lim] by simp
  then have size: "length (frame_bytes 0x9A ?fs) \<le> 16777220"
    using length_fields_le [of ?fs] by (simp add: frame_bytes_def Let_def)
  show ?thesis unfolding enc
    by (rule read_frame_bytes [OF reads_frame_compressed [OF wf(1) lim refl small inf]]) (use size rest in auto)
qed

text \<open>A codec that drops trailing zeros and restores them from the declared length.\<close>

definition zero_codec :: externs where
  "zero_codec = no_externs
     \<lparr>compress_vec := \<lambda>body _. Some (rev (dropWhile (\<lambda>b. b = 0) (rev body)), True),
      decompress_vec := \<lambda>out n. Some (out @ replicate (n - length out) 0, True)\<rparr>"

lemma zero_codec_restores:
  "compress_vec zero_codec body n = Some (out, True) \<Longrightarrow> decompress_vec zero_codec out (length body) = Some (body, True)"
proof -
  assume "compress_vec zero_codec body n = Some (out, True)"
  then have out: "out = rev (dropWhile (\<lambda>b. b = 0) (rev body))" by (simp add: zero_codec_def)
  have "\<exists>k. body = rev (dropWhile (\<lambda>b. b = 0) (rev body)) @ replicate k 0"
  proof (induction body rule: rev_induct)
    case (snoc b bs)
    then obtain k where k: "bs = rev (dropWhile (\<lambda>b. b = 0) (rev bs)) @ replicate k 0" by blast
    then have zero: "bs @ [0] = rev (dropWhile (\<lambda>b. b = 0) (rev bs)) @ replicate (Suc k) 0"
      by (metis append.assoc replicate_Suc replicate_append_same)
    show ?case
    proof (cases "b = 0")
      case True
      show ?thesis unfolding True by (rule exI [of _ "Suc k"], subst zero) simp
    qed (auto intro: exI [of _ 0])
  qed simp
  then obtain k where "body = out @ replicate k 0" unfolding out by blast
  then show ?thesis by (simp add: zero_codec_def)
qed

definition blank_rows :: bytes where
  "blank_rows = replicate 5000 0"

lemma length_blank_rows: "length blank_rows = 5000"
  by (simp only: blank_rows_def length_replicate)

definition blank_chunk :: frame_kind where
  "blank_chunk = BootstrapChunk (Satellite (ascii ''edge'') 7) (StreamId 3) (BootstrapId 9) 0 blank_rows"

theorem compressed_roundtrip_witness:
  "decode_with_limits zero_codec (encode_compressed zero_codec (compress_policy blank_chunk Deflate) blank_chunk @ [0, 1])
     bootstrap_limits_default = Ok (blank_chunk, [0, 1])"
proof (rule compressed_roundtrip)
  show "wf_frame zero_codec (max_chunk_bytes bootstrap_limits_default) (max_page_bytes bootstrap_limits_default) blank_chunk"
    by (simp add: blank_chunk_def wf_stream_def wf_rid_def wf_stream_id_def wf_bootstrap_id_def
        ascii_def of_char_def bootstrap_limits_default_def length_blank_rows)
  show "wf_limits bootstrap_limits_default"
    by (simp add: bootstrap_limits_default_def wf_limits_def bootstrap_limits_new_def
      max_bootstrap_chunk_bytes_def max_history_page_bytes_def)
  show "short_terminal_id blank_chunk"
    by (simp add: short_terminal_id_def blank_chunk_def encode_terminal_id_def write_str_def ascii_def)
  show "length (encode zero_codec blank_chunk) \<le> 4 + unat max_frame_len"
    using length_fields_le [of "encode_payload zero_codec blank_chunk"]
    by (simp add: encode_def blank_chunk_def encode_bootstrap_chunk_def length_ids
        encode_terminal_id_def write_str_def ascii_def length_blank_rows)
  show "compress_vec zero_codec body n = Some (out, True) \<Longrightarrow> decompress_vec zero_codec out (length body) = Some (body, True)"
    for body n out by (rule zero_codec_restores)
qed simp

section \<open>Allocation\<close>

lemma decode_snapshot_decompress:
  "decode_session_snapshot (ext\<lparr>decompress_vec := d\<rparr>) = decode_session_snapshot ext"
proof -
  have "from_json (ext\<lparr>decompress_vec := d\<rparr>) = from_json ext" by (simp add: from_json_def fun_eq_iff)
  then show ?thesis unfolding decode_session_snapshot_def decode_listeners_def by (simp only:)
qed

lemma decode_catalog_decompress: "decode_catalog (ext\<lparr>decompress_vec := d\<rparr>) = decode_catalog ext"
  unfolding decode_catalog_def decode_attached_def decode_command_result_frame_def decode_command_result_def
    decode_command_value_def decode_snapshot_decompress by (rule refl)

lemma decode_body_decompress:
  assumes "\<And>payload n. n \<le> unat (max_compressed_frame_bytes (dec_max_chunk d) (dec_max_page d)) \<Longrightarrow>
    g payload n = decompress_vec ext payload n"
  shows "decode_body (ext\<lparr>decompress_vec := g\<rparr>) tb d = decode_body ext tb d"
proof -
  let ?max = "max_compressed_frame_bytes (dec_max_chunk d) (dec_max_page d)"
  have inf: "inflate (ext\<lparr>decompress_vec := g\<rparr>) payload (unat n) = inflate ext payload (unat n)" if "\<not> ?max < n" for payload n
    using assms [of "unat n" payload] that by (simp add: inflate_def not_less word_le_nat_alt)
  have inner: "decode_inner (ext\<lparr>decompress_vec := g\<rparr>) c p = decode_inner ext c p" for c p
    unfolding decode_inner_def decode_catalog_decompress by (rule refl)
  show ?thesis
    unfolding decode_body_def decode_frame_compressed_def
    by (auto simp: bind_r_def get_r_def inner message_def inf decode_catalog_decompress req_def lift_r_def rbind_def
        split: sum.splits)
qed

text \<open>
  C30. A compression bomb cannot make the receiver allocate beyond the negotiated limits: whatever
  bytes arrive, the decompressor is never run with an output buffer above the larger payload limit
  plus the fixed envelope allowance. Stated as non-interference: the result of decoding is the same
  for every decompressor that agrees with the real one on buffers up to that size.
\<close>

theorem decompression_bounded:
  assumes "\<And>payload n. n \<le> max (unat (max_chunk_bytes l)) (unat (max_page_bytes l)) + 65536 \<Longrightarrow>
    g payload n = decompress_vec ext payload n" and "wf_limits l"
  shows "decode_with_limits (ext\<lparr>decompress_vec := g\<rparr>) bs l = decode_with_limits ext bs l"
proof -
  have lim: "wf_limits \<lparr>max_chunk_bytes = max_chunk_bytes l, max_page_bytes = max_page_bytes l\<rparr>" using assms(2) by (cases l) simp
  have u8: "bind_r read_u8 (decode_body (ext\<lparr>decompress_vec := g\<rparr>)) d = bind_r read_u8 (decode_body ext) d"
    if "dec_max_chunk d = max_chunk_bytes l" "dec_max_page d = max_page_bytes l" for d
  proof (cases "read_u8 d")
    case (Inr r)
    then obtain n where "snd r = d\<lparr>dec_pos := dec_pos d + n\<rparr>"
      using bounded_prims(1) unfolding bounded_def by (metis prod.collapse)
    then have "decode_body (ext\<lparr>decompress_vec := g\<rparr>) (fst r) (snd r) = decode_body ext (fst r) (snd r)"
      using that assms(1) unat_max_compressed(1) [OF lim] by (intro decode_body_decompress) simp
    then show ?thesis using Inr by (simp add: bind_r_def split_beta)
  qed (simp add: bind_r_def)
  have "read_frame (ext\<lparr>decompress_vec := g\<rparr>) d = read_frame ext d"
    if "dec_max_chunk d = max_chunk_bytes l" "dec_max_page d = max_page_bytes l" for d
  proof (cases "read_u32_be d")
    case (Inr r)
    then obtain n where "snd r = d\<lparr>dec_pos := dec_pos d + n\<rparr>"
      using bounded_prims(3) unfolding bounded_def by (metis prod.collapse)
    then show ?thesis using Inr that u8
      by (simp add: read_frame_def bind_r_def [of read_u32_be] split_beta Let_def cong: if_cong)
  qed (simp add: read_frame_def bind_r_def [of read_u32_be])
  then show ?thesis by (simp add: decode_with_limits_def decoder_with_limits_def)
qed

theorem decompression_bounded_witness:
  "decode_with_limits (no_externs\<lparr>decompress_vec := \<lambda>payload n. if n \<le> 8454144 then None else Some (payload, True)\<rparr>)
     (frame_bytes 0x9A [(1, [1]), (2, write_u32_be 9000000), (3, [7])]) bootstrap_limits_default
   = decode_with_limits no_externs
     (frame_bytes 0x9A [(1, [1]), (2, write_u32_be 9000000), (3, [7])]) bootstrap_limits_default"
  by (rule decompression_bounded)
    (simp_all add: no_externs_def bootstrap_limits_default_def wf_limits_def bootstrap_limits_new_def
      max_bootstrap_chunk_bytes_def max_history_page_bytes_def)

end
