(* ===== verification/Wire_Restamp.thy ===== *)
theory Wire_Restamp
  imports Wire_Compress Framing
begin

text \<open>
  The ssh bridge's rewriting of a client's HELLO: \<open>restamp_hello\<close> of
  \<open>phux-protocol/src/wire/ssh_origin.rs\<close> and the loop over the opening frames that calls it,
  \<open>forward_hello\<close> of \<open>phux/src/commands/stdio_bridge.rs\<close>. The standard input is the list of bytes
  the client sends before closing.
\<close>

section \<open>Definitions\<close>

definition hello_body :: "bytes \<Rightarrow> bytes option" where
  "hello_body frame =
     (if length frame < length_prefix_len then None
      else let declared = unat (from_be (take length_prefix_len frame) :: u32);
               rest = drop length_prefix_len frame
           in case rest of
                [] \<Rightarrow> None
              | tb # body \<Rightarrow> if declared = length rest \<and> tb = 0x01 then Some body else None)"

function strip_loop :: "bytes \<Rightarrow> bytes \<Rightarrow> decoder \<Rightarrow> bytes option" where
  "strip_loop body kept d =
     (case read_field d of
        Inl _ \<Rightarrow> None
      | Inr (None, _) \<Rightarrow> Some kept
      | Inr (Some (fid, _), d') \<Rightarrow>
          if fid \<noteq> 9 then
            (if dec_pos d \<le> dec_pos d' \<and> dec_pos d' \<le> length body
             then strip_loop body (kept @ take (dec_pos d' - dec_pos d) (drop (dec_pos d) body)) d'
             else None)
          else strip_loop body kept d')"
  by pat_completeness auto

termination strip_loop
  by (relation "measure (\<lambda>(body, kept, d). length (dec_input d) - dec_pos d)")
    (auto intro: read_field_measure [simplified])

declare strip_loop.simps [simp del]

definition fields_without_origin :: "bytes \<Rightarrow> bytes option" where
  "fields_without_origin body = strip_loop body [] (decoder_new body)"

definition append_origin_if_it_fits :: "bytes \<Rightarrow> ssh_origin \<Rightarrow> bytes" where
  "append_origin_if_it_fits flds og =
     (let encoded = write_field 9 (encode_ssh_origin og);
          body_len = 1 + length flds + length encoded
      in if body_len < 2 ^ 32 \<and> body_len \<le> unat max_frame_len then flds @ encoded else flds)"

definition hello_frame :: "bytes \<Rightarrow> bytes" where
  "hello_frame flds =
     (let body_len = 1 + length flds
      in write_u32_be (if body_len < 2 ^ 32 then of_nat body_len else 2 ^ 32 - 1) @ [0x01] @ flds)"

definition restamp_hello :: "bytes \<Rightarrow> ssh_origin option \<Rightarrow> bytes option" where
  "restamp_hello frame origin =
     (case hello_body frame of
        None \<Rightarrow> None
      | Some body \<Rightarrow>
          (case fields_without_origin body of
             None \<Rightarrow> None
           | Some flds \<Rightarrow>
               if length flds = length body \<and> origin = None then None
               else Some (hello_frame (case origin of None \<Rightarrow> flds | Some og \<Rightarrow> append_origin_if_it_fits flds og))))"

text \<open>The bridge. A closed input ends the loop with what was forwarded so far.\<close>

datatype opening_read = OpeningFrame bytes | Unframed bytes | OpeningClosed

definition read_opening_frame :: "bytes \<Rightarrow> opening_read \<times> bytes" where
  "read_opening_frame inp =
     (case read_exact length_prefix_len inp of
        None \<Rightarrow> (OpeningClosed, [])
      | Some (header, inp1) \<Rightarrow>
          (case decode_length header of
             Inl _ \<Rightarrow> (Unframed header, inp1)
           | Inr body_len \<Rightarrow>
               (case read_exact body_len inp1 of
                  None \<Rightarrow> (OpeningClosed, [])
                | Some (body, inp2) \<Rightarrow> (OpeningFrame (header @ body), inp2))))"

lemma read_opening_shrinks: "read_opening_frame inp = (OpeningFrame frame, inp') \<Longrightarrow> length inp' < length inp"
  by (auto simp: read_opening_frame_def read_exact_def length_prefix_len_def split: if_splits option.splits sum.splits)

function forward_hello :: "bytes \<Rightarrow> bytes \<Rightarrow> ssh_origin option \<Rightarrow> bytes \<times> bytes" where
  "forward_hello inp out origin =
     (case read_opening_frame inp of
        (OpeningClosed, inp1) \<Rightarrow> (out, inp1)
      | (Unframed bs, inp1) \<Rightarrow> (out @ bs, inp1)
      | (OpeningFrame frame, inp1) \<Rightarrow>
          if length_prefix_len < length frame \<and> frame ! length_prefix_len = 0x7F
          then forward_hello inp1 (out @ frame) origin
          else (out @ (case restamp_hello frame origin of Some stamped \<Rightarrow> stamped | None \<Rightarrow> frame), inp1))"
  by pat_completeness auto

termination forward_hello
  by (relation "measure (\<lambda>(inp, out, origin). length inp)") (auto dest: read_opening_shrinks [OF sym])

declare forward_hello.simps [simp del]

section \<open>What a reader consumed determines what it read\<close>

definition stable :: "'a reader \<Rightarrow> bool" where
  "stable r \<longleftrightarrow> (\<forall>d x d'. wf_dec d \<longrightarrow> r d = Ok (x, d') \<longrightarrow>
     (\<exists>bs rest. remaining d = bs @ rest \<and> d' = d\<lparr>dec_pos := dec_pos d + length bs\<rparr> \<and> reads r bs x))"

lemma stable_ret [inv_intros]: "stable (ret_r x)"
  unfolding stable_def using reads_ret [of x] by (force simp: ret_r_def)

lemma stable_fail [inv_intros]: "stable (fail_r e)"
  by (simp add: stable_def fail_r_def)

lemma stable_if [inv_intros]: "stable a \<Longrightarrow> stable b \<Longrightarrow> stable (if c then a else b)"
  by simp

lemma stable_bind [inv_intros]:
  assumes m: "stable m" and k: "\<And>x. stable (k x)"
  shows "stable (bind_r m k)"
  unfolding stable_def
proof (intro allI impI)
  fix d y d'
  assume wf: "wf_dec d" and "bind_r m k d = Ok (y, d')"
  then obtain x e where x: "m d = Ok (x, e)" "k x e = Ok (y, d')"
    by (auto simp: bind_r_def split: sum.splits)
  from m wf x(1) obtain bs rest where bs: "remaining d = bs @ rest" "e = d\<lparr>dec_pos := dec_pos d + length bs\<rparr>" "reads m bs x"
    unfolding stable_def by blast
  have "wf_dec e" "remaining e = rest" using wf_dec_advance [OF wf bs(1)] remaining_advance [OF bs(1)] bs(2) by simp_all
  with k [of x] x(2) obtain cs rest' where cs: "rest = cs @ rest'" "d' = e\<lparr>dec_pos := dec_pos e + length cs\<rparr>" "reads (k x) cs y"
    unfolding stable_def by blast
  show "\<exists>bs rest. remaining d = bs @ rest \<and> d' = d\<lparr>dec_pos := dec_pos d + length bs\<rparr> \<and> reads (bind_r m k) bs y"
    using bs cs reads_bind [of m bs x k cs y] by (intro exI [of _ "bs @ cs"] exI [of _ rest']) (simp add: add.assoc)
qed

lemma stable_take [inv_intros]: "stable (take_r n)"
  unfolding stable_def
proof (intro allI impI)
  fix d x d'
  assume "wf_dec d" "take_r n d = Ok (x, d')"
  then have x: "x = take n (remaining d)" "d' = d\<lparr>dec_pos := dec_pos d + n\<rparr>" "n \<le> length (remaining d)"
    by (auto simp: take_r_def Let_def remaining_def split: if_splits)
  then show "\<exists>bs rest. remaining d = bs @ rest \<and> d' = d\<lparr>dec_pos := dec_pos d + length bs\<rparr> \<and> reads (take_r n) bs x"
    by (intro exI [of _ x] exI [of _ "drop n (remaining d)"]) (simp add: reads_take)
qed

lemma stable_u8 [inv_intros]: "stable read_u8"
  unfolding read_u8_def by (intro inv_intros)

lemma stable_varint_loop [inv_intros]: "stable (read_varint_loop result shift)"
proof (induction "64 - shift" arbitrary: result shift rule: less_induct)
  case less
  have "stable (read_varint_loop r (shift + 7))" if "\<not> 64 \<le> shift" for r
    using less [of "shift + 7" r] that by simp
  then show ?case
    by (subst read_varint_loop_eq) (cases "64 \<le> shift", auto simp: Let_def intro!: inv_intros)
qed

lemma stable_varint [inv_intros]: "stable read_varint"
  unfolding read_varint_def by (intro inv_intros)

section \<open>A body as a sequence of fields\<close>

text \<open>A chunk is one field with the bytes it was read from, which need not be those the encoder writes.\<close>

definition field_tail :: "(u32 \<times> bytes) option reader" where
  "field_tail = bind_r read_varint (\<lambda>fid.
     if 2 ^ 32 \<le> fid then fail_r LengthOverflow
     else bind_r read_u8 (\<lambda>wire_type.
       bind_r read_varint (\<lambda>len.
         if ucast max_frame_len < len then fail_r LengthOverflow
         else bind_r (take_r (unat len)) (\<lambda>v. ret_r (Some (ucast fid, v))))))"

lemma read_field_tail: "read_field d = (if at_body_end d then Ok (None, d) else field_tail d)"
  by (simp add: read_field_def field_tail_def bind_r_def [of "get_r at_body_end"] get_r_def ret_r_def)

lemma stable_field_tail: "stable field_tail"
  unfolding field_tail_def by (intro inv_intros)

definition chunk :: "bytes \<times> u32 \<times> bytes \<Rightarrow> bool" where
  "chunk c \<longleftrightarrow> fst c \<noteq> [] \<and> reads field_tail (fst c) (Some (snd c))"

definition chunk_bytes :: "(bytes \<times> u32 \<times> bytes) list \<Rightarrow> bytes" where
  "chunk_bytes cs = concat (map fst cs)"

lemma chunk_bytes_simps [simp]: "chunk_bytes [] = []" "chunk_bytes (c # cs) = fst c @ chunk_bytes cs"
  "chunk_bytes (as @ cs) = chunk_bytes as @ chunk_bytes cs"
  by (simp_all add: chunk_bytes_def)

lemma chunk_write_field:
  assumes "length v \<le> 16777216"
  shows "chunk (write_field fid v, fid, v)"
  using reads_field_body [OF assms] by (simp add: chunk_def field_tail_def)

lemma read_field_chunk:
  assumes "wf_dec d" "body_is d (bs @ rest)" "length bs \<le> 16777216" "chunk (bs, fid, v)"
  shows "read_field d = Ok (Some (fid, v), d\<lparr>dec_pos := dec_pos d + length bs\<rparr>)"
proof -
  have "\<not> at_body_end d" using body_is_at_end [OF assms(1,2)] assms(4) by (simp add: chunk_def)
  moreover obtain more where "remaining d = bs @ more" using body_is_remaining [OF assms(2)] by auto
  then have "field_tail d = Ok (Some (fid, v), d\<lparr>dec_pos := dec_pos d + length bs\<rparr>)"
    using assms(1,3,4) unfolding chunk_def reads_def by auto
  ultimately show ?thesis by (simp add: read_field_tail)
qed

lemma read_field_inv:
  assumes "wf_dec d" "remaining d = body" "body_is d body" "read_field d = Ok (Some (fid, v), d')"
  obtains bs rest where "body = bs @ rest" "chunk (bs, fid, v)" "d' = d\<lparr>dec_pos := dec_pos d + length bs\<rparr>"
proof -
  from assms(4) have "field_tail d = Ok (Some (fid, v), d')" by (simp add: read_field_tail split: if_splits)
  then obtain bs rest where "body = bs @ rest" "d' = d\<lparr>dec_pos := dec_pos d + length bs\<rparr>" "reads field_tail bs (Some (fid, v))"
    using stable_field_tail assms(1,2) unfolding stable_def by blast
  moreover from read_field_advances(1) [OF assms(4)] this(2) have "bs \<noteq> []" by auto
  ultimately show ?thesis using that by (simp add: chunk_def)
qed

lemma read_field_end: "at_body_end d \<Longrightarrow> read_field d = Ok (None, d)"
  by (simp add: read_field_tail)

lemma read_field_None: "read_field d = Ok (None, d') \<Longrightarrow> wf_dec d \<Longrightarrow> body_is d body \<Longrightarrow> body = [] \<and> d' = d"
proof -
  assume rf: "read_field d = Ok (None, d')" and wf: "wf_dec d" "body_is d body"
  have "field_tail d \<noteq> Ok (None, e)" for e
    by (auto simp: field_tail_def bind_r_def ret_r_def fail_r_def split: sum.splits if_splits)
  with rf have "at_body_end d" "d' = d" by (auto simp: read_field_tail split: if_splits)
  with body_is_at_end [OF wf] show ?thesis by simp
qed

text \<open>Whatever loop walks a body to its end has split it into chunks.\<close>

lemma fields_loop_splits:
  assumes "fields_loop step s d = Ok (x, d')" "wf_dec d" "body_is d (remaining d)"
  shows "\<exists>cs. list_all chunk cs \<and> remaining d = chunk_bytes cs"
  using assms
proof (induction step s d rule: fields_loop.induct)
  case (1 step s d)
  from 1(2) obtain f e where f: "read_field d = Ok (f, e)"
    by (subst (asm) fields_loop.simps) (auto split: sum.splits)
  show ?case
  proof (cases f)
    case None
    with read_field_None [of d e] f 1(3,4) show ?thesis by (intro exI [of _ "[]"]) simp
  next
    case (Some fv)
    obtain fid v where fv: "fv = (fid, v)" by (cases fv)
    from f Some fv have rf: "read_field d = Ok (Some (fid, v), e)" by simp
    obtain bs rest where bs: "remaining d = bs @ rest" "chunk (bs, fid, v)" "e = d\<lparr>dec_pos := dec_pos d + length bs\<rparr>"
      by (rule read_field_inv [OF 1(3) refl 1(4) rf])
    have e: "wf_dec e" "remaining e = rest" "body_is e rest"
      using wf_dec_advance [OF 1(3) bs(1)] remaining_advance [OF bs(1)] body_is_advance [of d bs rest] 1(4) bs(1,3) by simp_all
    from 1(2) rf obtain s' where "step s fid v = Ok s'" "fields_loop step s' e = Ok (x, d')"
      by (subst (asm) fields_loop.simps) (auto split: sum.splits)
    from 1(1) [OF f refl Some fv [symmetric] this] e obtain cs where "list_all chunk cs" "rest = chunk_bytes cs" by auto
    with bs show ?thesis by (intro exI [of _ "(bs, fid, v) # cs"]) simp
  qed
qed

lemma strip_loop_splits:
  assumes "strip_loop body kept d = Some out" "wf_dec d" "body_is d (remaining d)"
  shows "\<exists>cs. list_all chunk cs \<and> remaining d = chunk_bytes cs"
  using assms
proof (induction body kept d rule: strip_loop.induct)
  case (1 body kept d)
  from 1(3) obtain f e where f: "read_field d = Ok (f, e)"
    by (subst (asm) strip_loop.simps) (auto split: sum.splits)
  show ?case
  proof (cases f)
    case None
    with read_field_None [of d e] f 1(4,5) show ?thesis by (intro exI [of _ "[]"]) simp
  next
    case (Some fv)
    obtain fid v where fv: "fv = (fid, v)" by (cases fv)
    from f Some fv have rf: "read_field d = Ok (Some (fid, v), e)" by simp
    obtain bs rest where bs: "remaining d = bs @ rest" "chunk (bs, fid, v)" "e = d\<lparr>dec_pos := dec_pos d + length bs\<rparr>"
      by (rule read_field_inv [OF 1(4) refl 1(5) rf])
    have e: "wf_dec e" "remaining e = rest" "body_is e rest"
      using wf_dec_advance [OF 1(4) bs(1)] remaining_advance [OF bs(1)] body_is_advance [of d bs rest] 1(5) bs(1,3) by simp_all
    have "\<exists>cs. list_all chunk cs \<and> remaining e = chunk_bytes cs"
    proof (cases "fid = 9")
      case True
      with 1(3) rf have "strip_loop body kept e = Some out" by (subst (asm) strip_loop.simps) simp
      with 1(2) [OF f refl Some fv [symmetric]] True e show ?thesis by simp
    next
      case False
      with 1(3) rf have le: "dec_pos d \<le> dec_pos e \<and> dec_pos e \<le> length body"
        and "strip_loop body (kept @ take (dec_pos e - dec_pos d) (drop (dec_pos d) body)) e = Some out"
        by (subst (asm) strip_loop.simps, simp split: if_splits)+
      with 1(1) [OF f refl Some fv [symmetric] False le] e show ?thesis by simp
    qed
    with bs e show ?thesis by (auto intro: exI [of _ "(bs, fid, v) # _"])
  qed
qed

text \<open>On a body that splits into chunks, both loops do what they say.\<close>

lemma fields_loop_chunks:
  assumes "wf_dec d" "body_is d (chunk_bytes cs)" "length (chunk_bytes cs) \<le> 16777216" "list_all chunk cs"
  shows "fields_loop step s d = rbind (fold_fields step s (map snd cs))
    (\<lambda>s'. Ok (s', d\<lparr>dec_pos := dec_pos d + length (chunk_bytes cs)\<rparr>))"
  using assms
proof (induction cs arbitrary: s d)
  case Nil
  then have "at_body_end d" by (simp add: body_is_at_end)
  then show ?case by (subst fields_loop.simps) (simp add: read_field_end)
next
  case (Cons c cs)
  obtain bs fid v where c: "c = (bs, fid, v)" by (cases c)
  let ?e = "d\<lparr>dec_pos := dec_pos d + length bs\<rparr>"
  have b: "body_is d (bs @ chunk_bytes cs)" using Cons.prems c by simp
  obtain rest where r: "remaining d = bs @ rest" using body_is_remaining [OF b] by auto
  have "read_field d = Ok (Some (fid, v), ?e)" using Cons.prems c by (intro read_field_chunk [OF _ b]) simp_all
  moreover have "fields_loop step s' ?e = rbind (fold_fields step s' (map snd cs))
      (\<lambda>s''. Ok (s'', ?e\<lparr>dec_pos := dec_pos ?e + length (chunk_bytes cs)\<rparr>))" for s'
    using Cons.prems c wf_dec_advance [OF Cons.prems(1) r] body_is_advance [OF b] by (intro Cons.IH) simp_all
  ultimately show ?case using c by (subst fields_loop.simps) (auto simp: add.assoc split: sum.splits)
qed

definition other_field :: "bytes \<times> u32 \<times> bytes \<Rightarrow> bool" where
  "other_field c \<longleftrightarrow> fst (snd c) \<noteq> 9"

lemma strip_loop_chunks:
  assumes "wf_dec d" "body_is d (chunk_bytes cs)" "length (chunk_bytes cs) \<le> 16777216" "list_all chunk cs"
    "dec_input d = body" "dec_body_end d = None"
  shows "strip_loop body kept d = Some (kept @ chunk_bytes (filter other_field cs))"
  using assms
proof (induction cs arbitrary: kept d)
  case Nil
  then have "at_body_end d" by (simp add: body_is_at_end)
  then show ?case by (subst strip_loop.simps) (simp add: read_field_end)
next
  case (Cons c cs)
  obtain bs fid v where c: "c = (bs, fid, v)" by (cases c)
  let ?e = "d\<lparr>dec_pos := dec_pos d + length bs\<rparr>"
  have b: "body_is d (bs @ chunk_bytes cs)" using Cons.prems c by simp
  obtain rest where r: "remaining d = bs @ rest" using body_is_remaining [OF b] by auto
  have rf: "read_field d = Ok (Some (fid, v), ?e)" using Cons.prems c by (intro read_field_chunk [OF _ b]) simp_all
  have ih: "strip_loop body kept' ?e = Some (kept' @ chunk_bytes (filter other_field cs))" for kept'
    using Cons.prems c wf_dec_advance [OF Cons.prems(1) r] body_is_advance [OF b] by (intro Cons.IH) simp_all
  have "take (length bs) (drop (dec_pos d) body) = bs" using r Cons.prems(5) by (simp add: remaining_def)
  moreover have "dec_pos d + length bs \<le> length body"
    using remaining_length [OF _ r] Cons.prems(1,5) by (simp add: wf_dec_def)
  ultimately show ?case using c by (subst strip_loop.simps) (simp add: rf ih other_field_def)
qed

section \<open>Decoding a HELLO\<close>

definition hello_of :: "fields \<Rightarrow> decode_error + frame_kind" where
  "hello_of fs = rbind (fold_fields hello_step hello_init fs) hello_finish"

definition with_origin :: "ssh_origin option \<Rightarrow> frame_kind \<Rightarrow> frame_kind" where
  "with_origin a f = (case f of
     Hello name major minor patch caps \<Rightarrow> Hello name major minor patch (caps\<lparr>cc_ssh_origin := a\<rparr>)
   | _ \<Rightarrow> f)"

definition framed_hello :: "bytes \<Rightarrow> decoder" where
  "framed_hello body = \<lparr>dec_input = hello_frame body, dec_pos = 5, dec_body_end = Some (length (hello_frame body)),
     dec_max_chunk = max_bootstrap_chunk_bytes, dec_max_page = max_history_page_bytes\<rparr>"

lemma length_hello_frame [simp]: "length (hello_frame body) = 5 + length body"
  by (simp add: hello_frame_def Let_def)

lemma framed_hello_body:
  assumes "length body < 16777216"
  shows "wf_dec (framed_hello body)" "remaining (framed_hello body) = body" "body_is (framed_hello body) body"
proof -
  show "wf_dec (framed_hello body)" using assms by (simp add: wf_dec_def framed_hello_def)
  show rem: "remaining (framed_hello body) = body"
    by (simp add: remaining_def framed_hello_def hello_frame_def Let_def)
  show "body_is (framed_hello body) body" using rem by (simp add: body_is_def framed_hello_def)
qed

lemma decode_hello_frame:
  assumes "length body < 16777216"
  shows "decode ext (hello_frame body) = rbind (decode_hello (framed_hello body)) (\<lambda>(f, _). Ok (f, []))"
proof -
  let ?n = "1 + length body" and ?d = "decoder_new (hello_frame body)"
  have n: "?n \<le> 16777216" using assms by simp
  have un: "unat (of_nat ?n :: u32) = ?n" by (rule unat_of_nat_small [OF n])
  have inp: "hello_frame body = write_u32_be (of_nat ?n) @ write_u8 0x01 @ body"
    using n by (simp add: hello_frame_def Let_def write_u8_def)
  have wf: "wf_dec ?d" and rem: "remaining ?d = write_u32_be (of_nat ?n) @ (write_u8 0x01 @ body)"
    using n inp by (simp_all add: wf_dec_def decoder_new_def remaining_def)
  let ?e = "?d\<lparr>dec_pos := 4\<rparr>"
  have 1: "read_u32_be ?d = Ok (of_nat ?n, ?e)"
    using reads_u32 [of "of_nat ?n"] wf rem unfolding reads_def by (fastforce simp: decoder_new_def)
  let ?e' = "?e\<lparr>dec_body_end := Some (4 + ?n)\<rparr>"
  have "wf_dec ?e'" "remaining ?e' = write_u8 0x01 @ body"
    using n inp by (simp_all add: wf_dec_def decoder_new_def remaining_def)
  then have 2: "read_u8 ?e' = Ok (0x01, framed_hello body)"
    using reads_u8 [of "0x01"] unfolding reads_def by (fastforce simp: decoder_new_def framed_hello_def)
  have "\<not> (of_nat ?n :: u32) < 1" "\<not> max_frame_len < of_nat ?n"
    using n un by (simp_all add: word_less_nat_alt)
  moreover have "decode_body ext 0x01 = decode_hello" by (simp add: decode_body_def decode_catalog_def)
  moreover have "dec_pos d' \<le> 4 + ?n \<and> dec_input d' = hello_frame body" if "decode_hello (framed_hello body) = Ok (f, d')" for f d'
    using that bounded_message [of hello_step hello_init hello_finish] framed_hello_body(1) [OF assms]
    unfolding bounded_def decode_hello_def wf_dec_def by (fastforce simp: framed_hello_def)
  ultimately show ?thesis using 1 2 un n
    by (auto simp: decode_def read_frame_def bind_r_def [of read_u32_be] bind_r_def [of read_u8] Let_def
        decoder_new_def remaining_def not_less split: sum.splits)
qed

lemma decode_hello_chunks:
  assumes "list_all chunk cs" "length (chunk_bytes cs) < 16777216"
  shows "decode ext (hello_frame (chunk_bytes cs)) = rbind (hello_of (map snd cs)) (\<lambda>f. Ok (f, []))"
proof -
  have "fields_loop hello_step hello_init (framed_hello (chunk_bytes cs)) =
      rbind (fold_fields hello_step hello_init (map snd cs))
        (\<lambda>s'. Ok (s', (framed_hello (chunk_bytes cs))\<lparr>dec_pos := dec_pos (framed_hello (chunk_bytes cs)) + length (chunk_bytes cs)\<rparr>))"
    using assms framed_hello_body [OF assms(2)] by (intro fields_loop_chunks) simp_all
  then show ?thesis
    by (simp add: decode_hello_frame [OF assms(2)] decode_hello_def message_def bind_r_def lift_r_def hello_of_def rbind_def
        split: sum.splits)
qed

section \<open>The origin of a rewritten HELLO\<close>

lemma decode_caps_no_origin: "sub_r decode_client_capabilities v = Ok caps \<Longrightarrow> cc_ssh_origin caps = None"
  by (auto simp: sub_r_def decode_client_capabilities_def bind_r_def ret_r_def client_capabilities_new_def Let_def
      split: sum.splits option.splits)

definition no_inner_origin :: "hello_fields \<Rightarrow> bool" where
  "no_inner_origin s \<longleftrightarrow> (\<forall>caps. hf_caps s = Some caps \<longrightarrow> cc_ssh_origin caps = None)"

lemma hello_step_no_inner: "hello_step s fid v = Ok s' \<Longrightarrow> no_inner_origin s \<Longrightarrow> no_inner_origin s'"
  by (auto simp: hello_step_def no_inner_origin_def put_def rbind_def dest: decode_caps_no_origin
      split: if_splits sum.splits)

lemma fold_no_inner: "fold_fields hello_step s fs = Ok s' \<Longrightarrow> no_inner_origin s \<Longrightarrow> no_inner_origin s'"
  by (induction hello_step s fs rule: fold_fields.induct) (auto simp: rbind_def dest: hello_step_no_inner split: sum.splits)

lemma hello_step_9: "hello_step s 9 v = Ok (s\<lparr>hf_ssh_origin := decode_ssh_origin v\<rparr>)"
  by (simp add: hello_step_def)

lemma hello_step_origin:
  "fid \<noteq> 9 \<Longrightarrow> hello_step (s\<lparr>hf_ssh_origin := a\<rparr>) fid v = rbind (hello_step s fid v) (\<lambda>s'. Ok (s'\<lparr>hf_ssh_origin := a\<rparr>))"
  by (simp add: hello_step_def put_def rbind_def split: sum.splits)

lemma fold_without_origin:
  "fold_fields hello_step (s\<lparr>hf_ssh_origin := a\<rparr>) (map snd (filter other_field cs)) =
     rbind (fold_fields hello_step s (map snd cs)) (\<lambda>s'. Ok (s'\<lparr>hf_ssh_origin := a\<rparr>))"
proof (induction cs arbitrary: s)
  case (Cons c cs)
  obtain bs fid v where c: "c = (bs, fid, v)" by (cases c)
  show ?case
  proof (cases "fid = 9")
    case True
    with c hello_step_9 Cons.IH [of "s\<lparr>hf_ssh_origin := decode_ssh_origin v\<rparr>"] show ?thesis by (simp add: other_field_def)
  next
    case False
    with c Cons.IH show ?thesis by (auto simp: other_field_def hello_step_origin rbind_def split: sum.splits)
  qed
qed simp

lemma hello_finish_origin:
  assumes "no_inner_origin s"
  shows "hello_finish (s\<lparr>hf_ssh_origin := a\<rparr>) = rbind (hello_finish s) (\<lambda>f. Ok (with_origin a f))"
  using assms
  by (auto simp: hello_finish_def req_def no_inner_origin_def with_origin_def rbind_def ok_or_def Let_def split: option.splits)

lemma hello_of_stripped:
  "hello_of (map snd (filter other_field cs)) = rbind (hello_of (map snd cs)) (\<lambda>f. Ok (with_origin None f))"
proof -
  have "hello_init\<lparr>hf_ssh_origin := None\<rparr> = hello_init" "no_inner_origin hello_init"
    by (simp_all add: hello_init_def no_inner_origin_def)
  then show ?thesis using fold_without_origin [where s = hello_init and a = None and cs = cs] fold_no_inner [of hello_init "map snd cs"]
    by (auto simp: hello_of_def rbind_def hello_finish_origin split: sum.splits)
qed

lemma hello_of_appended:
  "hello_of (fs @ [(9, v)]) = rbind (hello_of fs) (\<lambda>f. Ok (with_origin (decode_ssh_origin v) f))"
proof -
  have app: "fold_fields hello_step s (fs @ [(9, v)]) =
      rbind (fold_fields hello_step s fs) (\<lambda>s'. Ok (s'\<lparr>hf_ssh_origin := decode_ssh_origin v\<rparr>))" for s
    by (induction fs arbitrary: s) (auto simp: hello_step_9 rbind_def split: sum.splits)
  have "no_inner_origin hello_init" by (simp add: hello_init_def no_inner_origin_def)
  with app fold_no_inner [of hello_init fs] show ?thesis
    by (auto simp: hello_of_def rbind_def hello_finish_origin split: sum.splits)
qed

lemma hello_body_frame:
  assumes "hello_body frame = Some body" "length frame \<le> 4 + unat max_frame_len"
  shows "frame = hello_frame body" "length body < 16777216"
proof -
  from assms(1) have l: "4 \<le> length frame" and d: "drop 4 frame = 0x01 # body"
    and n: "unat (from_be (take 4 frame) :: u32) = 1 + length body"
    by (auto simp: hello_body_def length_prefix_len_def Let_def split: if_splits list.splits)
  have "length (drop 4 frame) = 1 + length body" using d by simp
  then have len: "length frame = 5 + length body" using l by simp
  with assms(2) show small: "length body < 16777216" by simp
  have "to_be 4 (from_be (take 4 frame) :: u32) = take 4 frame"
    using to_from_be [of "take 4 frame", where 'a = 32] l by (simp add: min_def)
  moreover have "(from_be (take 4 frame) :: u32) = of_nat (1 + length body)"
    unfolding n [symmetric] by simp
  ultimately have "take 4 frame = write_u32_be (of_nat (1 + length body))"
    by (simp add: write_u32_be_def)
  moreover have "frame = take 4 frame @ drop 4 frame" by simp
  ultimately show "frame = hello_frame body" using d small by (simp add: hello_frame_def Let_def)
qed

lemma filter_keeps_length:
  assumes "list_all chunk cs" "length (chunk_bytes (filter other_field cs)) = length (chunk_bytes cs)"
  shows "filter other_field cs = cs"
proof -
  have le: "length (chunk_bytes (filter other_field cs)) \<le> length (chunk_bytes cs)" for cs
    by (induction cs) auto
  show ?thesis using assms
  proof (induction cs)
    case (Cons c cs)
    then have "length (fst c) > 0" by (simp add: chunk_def)
    with Cons le [of cs] show ?case by (auto split: if_splits)
  qed simp
qed

lemma with_origin_twice: "with_origin a (with_origin b f) = with_origin a f"
  by (cases f) (simp_all add: with_origin_def)

definition forwarded :: "bytes \<Rightarrow> ssh_origin option \<Rightarrow> bytes" where
  "forwarded frame origin = (case restamp_hello frame origin of Some stamped \<Rightarrow> stamped | None \<Rightarrow> frame)"

lemma forwarded_malformed:
  assumes "fields_without_origin body = None" "length body < 16777216"
  shows "\<exists>e. decode ext (hello_frame body) = Err e"
proof (rule ccontr)
  assume "\<not> ?thesis"
  then obtain r where "decode_hello (framed_hello body) = Ok r"
    by (cases "decode_hello (framed_hello body)") (auto simp: decode_hello_frame [OF assms(2)])
  then obtain x d' where "fields_loop hello_step hello_init (framed_hello body) = Ok (x, d')"
    by (auto simp: decode_hello_def message_def bind_r_def split: sum.splits)
  then obtain cs where cs: "list_all chunk cs" "body = chunk_bytes cs"
    using fields_loop_splits framed_hello_body [OF assms(2)] by metis
  have "strip_loop body [] (decoder_new body) = Some ([] @ chunk_bytes (filter other_field cs))"
    using cs assms(2) by (intro strip_loop_chunks) (simp_all add: wf_dec_def decoder_new_def body_is_def remaining_def)
  with assms(1) show False by (simp add: fields_without_origin_def)
qed

lemma forwarded_chunks:
  assumes "fields_without_origin body = Some flds" "length body < 16777216"
  obtains cs where "list_all chunk cs" "body = chunk_bytes cs" "flds = chunk_bytes (filter other_field cs)"
proof -
  have d: "wf_dec (decoder_new body)" "remaining (decoder_new body) = body" "body_is (decoder_new body) body"
    using assms(2) by (simp_all add: wf_dec_def decoder_new_def body_is_def remaining_def)
  from assms(1) strip_loop_splits [of body "[]" "decoder_new body" flds] d
  obtain cs where cs: "list_all chunk cs" "body = chunk_bytes cs" by (auto simp: fields_without_origin_def)
  have "strip_loop body [] (decoder_new body) = Some ([] @ chunk_bytes (filter other_field cs))"
    using cs d assms(2) by (intro strip_loop_chunks) (simp_all add: decoder_new_def)
  with assms(1) cs that show ?thesis by (simp add: fields_without_origin_def)
qed

lemma length_filter_chunks: "length (chunk_bytes (filter P cs)) \<le> length (chunk_bytes cs)"
  by (induction cs) auto

lemma decode_stripped:
  assumes "list_all chunk cs" "length (chunk_bytes cs) < 16777216"
  shows "decode ext (hello_frame (chunk_bytes (filter other_field cs))) =
    rbind (decode ext (hello_frame (chunk_bytes cs))) (\<lambda>(f, r). Ok (with_origin None f, r))"
proof -
  have "list_all chunk (filter other_field cs)" "length (chunk_bytes (filter other_field cs)) < 16777216"
    using assms length_filter_chunks [of other_field cs] by (auto simp: list_all_iff)
  from decode_hello_chunks [OF this, of ext] decode_hello_chunks [OF assms, of ext] show ?thesis
    by (auto simp: hello_of_stripped rbind_def split: sum.splits)
qed

lemma decode_appended:
  assumes "list_all chunk cs" "length (chunk_bytes cs @ write_field 9 (encode_ssh_origin og)) < 16777216" "wf_ssh_origin og"
  shows "decode ext (hello_frame (chunk_bytes cs @ write_field 9 (encode_ssh_origin og))) =
    rbind (decode ext (hello_frame (chunk_bytes cs))) (\<lambda>(f, r). Ok (with_origin (Some og) f, r))"
proof -
  let ?c = "(write_field 9 (encode_ssh_origin og), 9 :: u32, encode_ssh_origin og)"
  have l: "length (encode_ssh_origin og) \<le> 16777216"
    using assms(2) length_write_field [of "encode_ssh_origin og" 9] by simp
  have "list_all chunk (cs @ [?c])" "length (chunk_bytes (cs @ [?c])) < 16777216"
    using assms(1,2) chunk_write_field [OF l] by simp_all
  from decode_hello_chunks [OF this, of ext] decode_hello_chunks [OF assms(1), of ext] assms(2)
    decode_encode_ssh_origin [OF assms(3) l]
  show ?thesis by (auto simp: hello_of_appended rbind_def split: sum.splits)
qed

lemma decode_forwarded:
  assumes "hello_body frame = Some body" "length frame \<le> 4 + unat max_frame_len"
    and "\<And>og. origin = Some og \<Longrightarrow> wf_ssh_origin og"
  shows "\<exists>a. (a = None \<or> a = origin)
    \<and> (\<forall>og. origin = Some og \<longrightarrow> length frame + length (write_field 9 (encode_ssh_origin og)) \<le> 4 + unat max_frame_len \<longrightarrow> a = origin)
    \<and> decode ext (forwarded frame origin) = rbind (decode ext frame) (\<lambda>(f, r). Ok (with_origin a f, r))"
proof -
  note fr = hello_body_frame [OF assms(1,2)]
  show ?thesis
  proof (cases "fields_without_origin body")
    case None
    with forwarded_malformed [OF None fr(2), of ext] assms(1) fr(1) show ?thesis
      by (intro exI [of _ origin]) (auto simp: forwarded_def restamp_hello_def)
  next
    case (Some flds)
    then obtain cs where cs: "list_all chunk cs" "body = chunk_bytes cs" "flds = chunk_bytes (filter other_field cs)"
      using fr(2) by (rule forwarded_chunks)
    have small: "length (chunk_bytes cs) < 16777216" and le: "length flds \<le> length body"
      using fr(2) cs length_filter_chunks by auto
    note strip = decode_stripped [OF cs(1) small, of ext]
    show ?thesis
    proof (cases origin)
      case None
      have "decode ext (forwarded frame origin) = decode ext (hello_frame flds)"
        using assms(1) Some None fr(1) cs filter_keeps_length [OF cs(1)] by (auto simp: forwarded_def restamp_hello_def)
      with strip cs fr(1) None show ?thesis by auto
    next
      case (Some og)
      have fw: "forwarded frame origin = hello_frame (append_origin_if_it_fits flds og)"
        using assms(1) Some \<open>fields_without_origin body = _\<close> by (simp add: forwarded_def restamp_hello_def)
      show ?thesis
      proof (cases "1 + length flds + length (write_field 9 (encode_ssh_origin og)) \<le> 16777216")
        case True
        then have "append_origin_if_it_fits flds og = flds @ write_field 9 (encode_ssh_origin og)"
          by (simp add: append_origin_if_it_fits_def Let_def)
        moreover have "list_all chunk (filter other_field cs)" using cs(1) by (auto simp: list_all_iff)
        ultimately have "decode ext (forwarded frame origin) =
            rbind (decode ext (hello_frame flds)) (\<lambda>(f, r). Ok (with_origin (Some og) f, r))"
          unfolding fw cs(3) using True assms(3) [OF Some] cs(3) decode_appended [of "filter other_field cs" og ext] by simp
        with strip cs fr(1) Some show ?thesis
          by (intro exI [of _ origin]) (auto simp: with_origin_twice rbind_def split: sum.splits)
      next
        case False
        then have "append_origin_if_it_fits flds og = flds" by (simp add: append_origin_if_it_fits_def Let_def)
        with strip cs fr Some False le fw show ?thesis by (intro exI [of _ None]) auto
      qed
    qed
  qed
qed

section \<open>The bridge\<close>

lemma read_opening_whole:
  assumes "check_frame p = Ok n"
  shows "read_opening_frame (p @ rest) = (OpeningFrame p, rest)"
proof -
  from assms have l: "length p = 4 + n" and n: "decode_length (take 4 p) = Ok n"
    by (auto simp: check_frame_def length_prefix_len_def rbind_def Let_def split: if_splits sum.splits)
  from n l show ?thesis
    by (simp add: read_opening_frame_def read_exact_def length_prefix_len_def flip: append_assoc)
qed

lemma forward_hello_pings:
  assumes "list_all (\<lambda>p. (\<exists>n. check_frame p = Ok n) \<and> p ! 4 = 0x7F) pings"
  shows "forward_hello (concat pings @ inp) out origin = forward_hello inp (out @ concat pings) origin"
  using assms
proof (induction pings arbitrary: out)
  case (Cons p ps)
  then obtain n where n: "check_frame p = Ok n" "p ! 4 = 0x7F" by auto
  then have "1 \<le> n" "length p = 4 + n"
    by (auto simp: check_frame_def length_prefix_len_def rbind_def Let_def dest: decode_length_range split: if_splits sum.splits)
  with n read_opening_whole [OF n(1), of "concat ps @ inp"]
  have "forward_hello (concat (p # ps) @ inp) out origin = forward_hello (concat ps @ inp) (out @ p) origin"
    by (subst forward_hello.simps) (simp add: length_prefix_len_def)
  with Cons show ?case by simp
qed simp

lemma forward_hello_other:
  assumes "check_frame p = Ok n" "p ! 4 \<noteq> 0x7F"
  shows "forward_hello (p @ rest) out origin = (out @ forwarded p origin, rest)"
  using assms read_opening_whole [OF assms(1), of rest]
  by (subst forward_hello.simps) (simp add: length_prefix_len_def forwarded_def)

lemma check_hello_frame:
  assumes "length body < 16777216"
  shows "check_frame (hello_frame body) = Ok (1 + length body)" "hello_frame body ! 4 = 0x01"
proof -
  have f: "hello_frame body = frame_of (0x01 # body)" using assms by (simp add: hello_frame_def frame_of_def Let_def)
  have "good_body (0x01 # body)" using assms by (simp add: good_body_def)
  from decode_length_frame [OF this] show "check_frame (hello_frame body) = Ok (1 + length body)"
    unfolding f by (simp add: check_frame_def length_prefix_len_def take_frame_of)
  show "hello_frame body ! 4 = 0x01" by (simp add: hello_frame_def Let_def nth_append)
qed

text \<open>
  C31. The ssh bridge stamps its own origin on the client's HELLO. After any number of PINGs, which
  pass unchanged, a HELLO frame leaves the bridge as a frame that the server decodes exactly as it
  would the client's own, errors included, except that the ssh origin is the bridge's, or none, never
  one the client put in; and it is the bridge's whenever the HELLO has room for it. The bytes after
  the HELLO are left for the splice.
\<close>

theorem bridge_stamps_hello:
  assumes pings: "list_all (\<lambda>p. (\<exists>n. check_frame p = Ok n) \<and> p ! 4 = 0x7F) pings"
    and frame: "hello_body frame = Some body" "length frame \<le> 4 + unat max_frame_len"
    and origin: "\<And>og. origin = Some og \<Longrightarrow> wf_ssh_origin og"
  shows "\<exists>stamped a. forward_hello (concat pings @ frame @ rest) [] origin = (concat pings @ stamped, rest)
    \<and> decode ext stamped = rbind (decode ext frame) (\<lambda>(f, r). Ok (with_origin a f, r))
    \<and> (a = None \<or> a = origin)
    \<and> (\<forall>og. origin = Some og \<longrightarrow>
         length frame + length (write_field 9 (encode_ssh_origin og)) \<le> 4 + unat max_frame_len \<longrightarrow> a = origin)"
proof -
  note fr = hello_body_frame [OF frame]
  have "forward_hello (frame @ rest) (concat pings) origin = (concat pings @ forwarded frame origin, rest)"
    unfolding fr(1) using check_hello_frame [OF fr(2)] by (intro forward_hello_other) simp_all
  with forward_hello_pings [OF pings, of "frame @ rest" "[]" origin] decode_forwarded [OF frame origin, where ext = ext]
  show ?thesis by auto
qed

lemma decode_limits:
  "decode ext bs = decode_with_limits ext bs \<lparr>max_chunk_bytes = max_bootstrap_chunk_bytes, max_page_bytes = max_history_page_bytes\<rparr>"
  by (simp add: decode_def decode_with_limits_def decoder_new_def decoder_with_limits_def)

definition address :: "u8 \<Rightarrow> ssh_origin" where
  "address n = \<lparr>origin_client = SocketV4 10 0 0 n 22, origin_server = None\<rparr>"

definition forged_hello :: frame_kind where
  "forged_hello = Hello (ascii ''hub'') 0 9 0 (client_capabilities_new\<lparr>cc_ssh_origin := Some (address 1)\<rparr>)"

lemma wf_forged_hello: "wf_frame ext c p forged_hello"
proof -
  have "wf_client_capabilities (client_capabilities_new\<lparr>cc_ssh_origin := Some (address 1)\<rparr>)" by code_simp
  then show ?thesis by (simp add: forged_hello_def ascii_def of_char_def)
qed

lemma address_size: "length (encode_ssh_origin (address n)) \<le> 22"
proof -
  have "unat v < 256" for v :: u8 using unsigned_less [of v] by simp
  then have "length (to_radix 10 (unat v)) \<le> 3" for v :: u8
    using length_to_radix [of 10 "unat v" 2] less_trans [of "unat v" 256 1000] by simp
  from this [of 10] this [of 0] this [of n] show ?thesis
    by (simp add: encode_ssh_origin_def address_def write_endpoint_def write_str_def ip_to_string_def socket_ip_def
        socket_port_def ipv4_display_def write_u16_be_def)
qed

lemma forged_hello_payload: "length (write_fields (encode_payload ext forged_hello)) \<le> 200"
  using length_fields_le [of "encode_payload ext forged_hello"] address_size [of 1]
  by (simp add: forged_hello_def encode_hello_def opt_field_def client_capabilities_new_def client_caps_bytes_def
      length_ids(3) ascii_def write_u16_be_def)

lemma forged_hello_decodes: "decode ext (encode ext forged_hello) = Ok (forged_hello, [])"
  using frame_decodes [OF wf_forged_hello, where ext = ext and rest = "[]"] forged_hello_payload [of ext]
  by (simp add: decode_limits encode_def)

lemma forged_hello_frame: "encode ext forged_hello = hello_frame (write_fields (encode_payload ext forged_hello))"
  by (simp add: encode_def frame_bytes_def hello_frame_def write_u8_def Let_def forged_hello_def)

theorem bridge_stamps_hello_witness:
  "\<exists>stamped. forward_hello (frame_of [0x7F, 5] @ encode no_externs forged_hello @ [1, 2]) [] (Some (address 2)) =
       (frame_of [0x7F, 5] @ stamped, [1, 2])
     \<and> decode no_externs stamped = Ok (with_origin (Some (address 2)) forged_hello, [])"
proof -
  let ?body = "write_fields (encode_payload no_externs forged_hello)"
  have "check_frame (frame_of [0x7F, 5]) = Ok 2 \<and> frame_of [0x7F, 5] ! 4 = 0x7F" by code_simp
  then have pings: "list_all (\<lambda>p. (\<exists>n. check_frame p = Ok n) \<and> p ! 4 = 0x7F) [frame_of [0x7F, 5]]" by auto
  have body: "hello_body (hello_frame ?body) = Some ?body" "length (hello_frame ?body) \<le> 4 + unat max_frame_len"
    using forged_hello_payload [of no_externs] unat_of_nat_small [of "1 + length ?body"]
    by (simp_all add: hello_body_def length_prefix_len_def Let_def hello_frame_def write_u32_be_def from_to_be)
  have origin: "Some (address 2) = Some og \<Longrightarrow> wf_ssh_origin og" for og
    by (auto simp: wf_ssh_origin_def address_def wf_socket_def)
  have room: "length (hello_frame ?body) + length (write_field 9 (encode_ssh_origin (address 2))) \<le> 4 + unat max_frame_len"
    using forged_hello_payload [of no_externs] length_field_le [of 9 "encode_ssh_origin (address 2)"] address_size [of 2] by simp
  from bridge_stamps_hello [OF pings body origin, where rest = "[1, 2]" and ext = no_externs] room forged_hello_decodes [of no_externs]
  show ?thesis unfolding forged_hello_frame by auto
qed

text \<open>
  C32. A HELLO inside a compressed envelope escapes the stamp: the bridge looks at the outer type byte
  only and forwards the envelope as it is, and the server, which unwraps envelopes before the
  handshake too, decodes the client's own HELLO from it, with whatever ssh origin the client put in.
\<close>

theorem compressed_hello_escapes_stamp:
  assumes wf: "wf_frame ext max_bootstrap_chunk_bytes max_history_page_bytes hello" and hello: "type_byte hello = 0x01"
    and body: "body = drop 4 (encode ext hello)" "length body \<le> 8454144"
    and payload: "inflate ext deflated (length body) = Ok body" "length deflated \<le> 16000000"
    and envelope: "envelope = frame_bytes 0x9A [(1, [1]), (2, write_u32_be (of_nat (length body))), (3, deflated)]"
  shows "forward_hello (envelope @ rest) [] origin = (envelope, rest) \<and> decode ext envelope = Ok (hello, [])"
proof -
  let ?fs = "[(1 :: u32, [1 :: u8]), (2, write_u32_be (of_nat (length body))), (3, deflated)]"
  let ?l = "\<lparr>max_chunk_bytes = max_bootstrap_chunk_bytes, max_page_bytes = max_history_page_bytes\<rparr>"
  have lim: "wf_limits ?l" by code_simp
  have one: "write_u8 (compression_as_u8 Deflate) = [1]" by code_simp
  have size: "1 + length (write_fields ?fs) \<le> 16777216" using length_fields_le [of ?fs] payload(2) by simp
  have env: "envelope = frame_of (0x9A # write_fields ?fs)"
    unfolding envelope using size by (simp add: frame_bytes_def frame_of_def write_u8_def Let_def)
  have "good_body (0x9A # write_fields ?fs)" using size by (simp add: good_body_def)
  from decode_length_frame [OF this] have check: "check_frame envelope = Ok (1 + length (write_fields ?fs))"
    unfolding env by (simp add: check_frame_def length_prefix_len_def take_frame_of)
  have at4: "envelope ! 4 = 0x9A" "drop 4 envelope ! 0 = 0x9A" by (simp_all add: env frame_of_def nth_append)
  then have "hello_body envelope = None"
    by (auto simp: hello_body_def Let_def length_prefix_len_def split: list.splits)
  then have fw: "forwarded envelope origin = envelope" by (simp add: forwarded_def restamp_hello_def)
  have forward: "forward_hello (envelope @ rest) [] origin = (envelope, rest)"
    using forward_hello_other [OF check, of rest "[]" origin] at4 fw by simp
  have "length body \<le> unat (max_compressed_frame_bytes max_bootstrap_chunk_bytes max_history_page_bytes)"
    using body(2) unat_max_compressed(1) [OF lim] by (simp add: max_bootstrap_chunk_bytes_def max_history_page_bytes_def)
  from reads_frame_compressed [OF wf lim body(1) [unfolded encode_split(3)] this payload(1)]
  have "reads_msg max_bootstrap_chunk_bytes max_history_page_bytes (decode_body ext 0x9A) ?fs hello" by (simp add: one)
  then have "decode ext (frame_bytes 0x9A ?fs @ []) = Ok (hello, [])"
    unfolding decode_limits by (intro read_frame_bytes [where fs = ?fs]) (use size in \<open>simp_all add: frame_bytes_def Let_def\<close>)
  with forward show ?thesis by (simp add: envelope)
qed

theorem compressed_hello_escapes_stamp_witness:
  "\<exists>envelope. forward_hello (envelope @ [7]) [] (Some (address 2)) = (envelope, [7])
     \<and> decode zero_codec envelope = Ok (forged_hello, [])"
proof -
  let ?body = "drop 4 (encode zero_codec forged_hello)"
  have len: "length ?body \<le> 201" using forged_hello_payload [of zero_codec] by (simp add: encode_split(3))
  have inf: "inflate zero_codec ?body (length ?body) = Ok ?body" by (simp add: inflate_def zero_codec_def)
  have hello: "type_byte forged_hello = 0x01" by (simp add: forged_hello_def)
  have small: "length ?body \<le> 8454144" "length ?body \<le> 16000000" using len by linarith+
  show ?thesis
    by (rule exI, rule compressed_hello_escapes_stamp [OF wf_forged_hello hello refl small(1) inf small(2) refl])
qed

end
