(* ===== verification/Id_Bridge.thy ===== *)
theory Id_Bridge
  imports Core_Window Wire_Codec
begin

text \<open>
  The server's wire identifiers: \<open>IdBridge\<close> of \<open>phux-server/src/id_bridge.rs\<close>, a two-way table
  between core keys and wire ids with a monotonic allocator, and the three bridges of \<open>IdSpace\<close>
  in \<open>phux-server/src/state/id_space.rs\<close>. The panic on exhaustion is \<open>None\<close>.
\<close>

section \<open>The bridge\<close>

record ('c, 'w) id_bridge =
  br_forward :: "'c \<rightharpoonup> 'w"
  br_reverse :: "'w \<rightharpoonup> 'c"
  br_next :: u32

definition bridge_new :: "('c, 'w) id_bridge" where
  "bridge_new = \<lparr>br_forward = Map.empty, br_reverse = Map.empty, br_next = 1\<rparr>"

text \<open>\<open>from_raw\<close> is the \<open>WireId\<close> implementation of the id space.\<close>

definition bridge_intern :: "(u32 \<Rightarrow> 'w) \<Rightarrow> ('c, 'w) id_bridge \<Rightarrow> 'c \<Rightarrow> ('w \<times> ('c, 'w) id_bridge) option" where
  "bridge_intern from_raw b core =
     (case br_forward b core of
        Some wire \<Rightarrow> Some (wire, b)
      | None \<Rightarrow>
          (let raw = br_next b
           in if raw = 0xFFFFFFFF then None
              else let wire = from_raw raw
                   in Some (wire, b\<lparr>br_next := raw + 1, br_forward := (br_forward b)(core \<mapsto> wire),
                        br_reverse := (br_reverse b)(wire \<mapsto> core)\<rparr>)))"

definition bridge_wire :: "('c, 'w) id_bridge \<Rightarrow> 'c \<Rightarrow> 'w option" where
  "bridge_wire b core = br_forward b core"

definition bridge_bind :: "('c, 'w) id_bridge \<Rightarrow> 'c \<Rightarrow> 'w \<Rightarrow> ('c, 'w) id_bridge" where
  "bridge_bind b core wire =
     b\<lparr>br_forward := (br_forward b)(core \<mapsto> wire), br_reverse := (br_reverse b)(wire \<mapsto> core)\<rparr>"

definition bridge_set_next :: "('c, 'w) id_bridge \<Rightarrow> u32 \<Rightarrow> ('c, 'w) id_bridge" where
  "bridge_set_next b next = b\<lparr>br_next := next\<rparr>"

definition bridge_resolve :: "('c, 'w) id_bridge \<Rightarrow> 'w \<Rightarrow> 'c option" where
  "bridge_resolve b wire = br_reverse b wire"

definition bridge_forget :: "('c, 'w) id_bridge \<Rightarrow> 'c \<Rightarrow> 'w option \<times> ('c, 'w) id_bridge" where
  "bridge_forget b core =
     (case br_forward b core of
        None \<Rightarrow> (None, b)
      | Some wire \<Rightarrow> (Some wire, b\<lparr>br_forward := (br_forward b)(core := None), br_reverse := (br_reverse b)(wire := None)\<rparr>))"

section \<open>The three id spaces\<close>

record id_space =
  ids_sessions :: "(session_id, wire_session_id) id_bridge"
  ids_terminals :: "(resource_id, wire_resource_id) id_bridge"
  ids_windows :: "(window_id, wire_window_id) id_bridge"
  ids_instance :: server_instance

definition id_space_new :: "server_instance \<Rightarrow> id_space" where
  "id_space_new fresh_instance =
     \<lparr>ids_sessions = bridge_new, ids_terminals = bridge_new, ids_windows = bridge_new, ids_instance = fresh_instance\<rparr>"

definition intern_session :: "id_space \<Rightarrow> session_id \<Rightarrow> (wire_session_id \<times> id_space) option" where
  "intern_session s core = map_option (\<lambda>(w, b). (w, s\<lparr>ids_sessions := b\<rparr>)) (bridge_intern WireSessionId (ids_sessions s) core)"

definition forget_session :: "id_space \<Rightarrow> session_id \<Rightarrow> id_space" where
  "forget_session s core = s\<lparr>ids_sessions := snd (bridge_forget (ids_sessions s) core)\<rparr>"

definition intern_terminal :: "id_space \<Rightarrow> resource_id \<Rightarrow> (wire_resource_id \<times> id_space) option" where
  "intern_terminal s t = map_option (\<lambda>(w, b). (w, s\<lparr>ids_terminals := b\<rparr>)) (bridge_intern Local (ids_terminals s) t)"

definition terminal_from_wire :: "id_space \<Rightarrow> wire_resource_id \<Rightarrow> resource_id option" where
  "terminal_from_wire s w = bridge_resolve (ids_terminals s) w"

definition retire_terminal :: "id_space \<Rightarrow> resource_id \<Rightarrow> wire_resource_id option \<times> id_space" where
  "retire_terminal s t = (case bridge_forget (ids_terminals s) t of (w, b) \<Rightarrow> (w, s\<lparr>ids_terminals := b\<rparr>))"

definition intern_window :: "id_space \<Rightarrow> window_id \<Rightarrow> (wire_window_id \<times> id_space) option" where
  "intern_window s w = map_option (\<lambda>(x, b). (x, s\<lparr>ids_windows := b\<rparr>)) (bridge_intern WireWindowId (ids_windows s) w)"

definition retire_window :: "id_space \<Rightarrow> window_id \<Rightarrow> id_space" where
  "retire_window s w = s\<lparr>ids_windows := snd (bridge_forget (ids_windows s) w)\<rparr>"

definition bind_session :: "id_space \<Rightarrow> session_id \<Rightarrow> wire_session_id \<Rightarrow> id_space" where
  "bind_session s core wire = s\<lparr>ids_sessions := bridge_bind (ids_sessions s) core wire\<rparr>"

definition bind_terminal :: "id_space \<Rightarrow> resource_id \<Rightarrow> wire_resource_id \<Rightarrow> id_space" where
  "bind_terminal s t wire = s\<lparr>ids_terminals := bridge_bind (ids_terminals s) t wire\<rparr>"

definition bind_window :: "id_space \<Rightarrow> window_id \<Rightarrow> wire_window_id \<Rightarrow> id_space" where
  "bind_window s w wire = s\<lparr>ids_windows := bridge_bind (ids_windows s) w wire\<rparr>"

definition set_next_session_wire :: "id_space \<Rightarrow> u32 \<Rightarrow> id_space" where
  "set_next_session_wire s n = s\<lparr>ids_sessions := bridge_set_next (ids_sessions s) n\<rparr>"

definition set_next_terminal_wire :: "id_space \<Rightarrow> u32 \<Rightarrow> id_space" where
  "set_next_terminal_wire s n = s\<lparr>ids_terminals := bridge_set_next (ids_terminals s) n\<rparr>"

definition set_next_window_wire :: "id_space \<Rightarrow> u32 \<Rightarrow> id_space" where
  "set_next_window_wire s n = s\<lparr>ids_windows := bridge_set_next (ids_windows s) n\<rparr>"

definition set_instance :: "id_space \<Rightarrow> server_instance \<Rightarrow> id_space" where
  "set_instance s inst = s\<lparr>ids_instance := inst\<rparr>"

section \<open>Every bridge of one wire space\<close>

text \<open>
  A bridge with the list of everything it has minted so far, newest first. Interning a known key
  mints nothing; forgetting leaves the list as it is.
\<close>

inductive bridge_run :: "(u32 \<Rightarrow> 'w) \<Rightarrow> ('c, 'w) id_bridge \<Rightarrow> ('c \<times> 'w) list \<Rightarrow> bool" for from_raw where
  run_new: "bridge_run from_raw bridge_new []"
| run_intern: "bridge_run from_raw b log \<Longrightarrow> bridge_intern from_raw b core = Some (w, b') \<Longrightarrow>
    bridge_run from_raw b' (if bridge_wire b core = None then (core, w) # log else log)"
| run_forget: "bridge_run from_raw b log \<Longrightarrow> bridge_run from_raw (snd (bridge_forget b core)) log"

definition id_in_range :: "(u32 \<Rightarrow> 'w) \<Rightarrow> u32 \<Rightarrow> 'w \<Rightarrow> bool" where
  "id_in_range from_raw next w \<longleftrightarrow> (\<exists>n. w = from_raw n \<and> 1 \<le> n \<and> n < next)"

definition bridge_sound :: "(u32 \<Rightarrow> 'w) \<Rightarrow> ('c, 'w) id_bridge \<Rightarrow> ('c \<times> 'w) list \<Rightarrow> bool" where
  "bridge_sound from_raw b log \<longleftrightarrow>
     (\<forall>core w. bridge_wire b core = Some w \<longleftrightarrow> bridge_resolve b w = Some core)
     \<and> (\<forall>core w. bridge_wire b core = Some w \<longrightarrow> (core, w) \<in> set log)
     \<and> distinct (map snd log) \<and> (\<forall>w \<in> set (map snd log). id_in_range from_raw (br_next b) w)
     \<and> 1 \<le> br_next b"

lemmas bridge_defs = bridge_new_def bridge_intern_def bridge_wire_def bridge_bind_def bridge_set_next_def
  bridge_resolve_def bridge_forget_def

lemma u32_top: "n \<le> 0xFFFFFFFF" for n :: u32
proof -
  have "unat n < 2 ^ 32" using unsigned_less [of n] by simp
  then show ?thesis by (simp add: word_le_nat_alt)
qed

lemma next_above: "n \<noteq> 0xFFFFFFFF \<Longrightarrow> n < n + 1" for n :: u32
proof -
  assume n: "n \<noteq> 0xFFFFFFFF"
  have "unat n < 2 ^ 32" using unsigned_less [of n] by simp
  moreover have "unat n \<noteq> 4294967295"
  proof
    assume "unat n = 4294967295"
    then have "of_nat (unat n) = (4294967295 :: u32)" by (simp only: of_nat_numeral)
    with n show False by simp
  qed
  ultimately have "unat n + 1 < 2 ^ LENGTH(32)" by simp
  then have "unat (n + 1) = unat n + 1" by (simp add: unat_add_lem [THEN iffD1])
  then show ?thesis by (simp add: word_less_nat_alt)
qed

locale wire_space =
  fixes from_raw :: "u32 \<Rightarrow> 'w"
  assumes from_raw_inj: "from_raw m = from_raw n \<Longrightarrow> m = n"
begin

lemma sound_new: "bridge_sound from_raw bridge_new []"
  by (simp add: bridge_sound_def bridge_defs)

lemma next_fresh:
  assumes "bridge_sound from_raw b log"
  shows "from_raw (br_next b) \<notin> set (map snd log)" "br_reverse b (from_raw (br_next b)) = None"
proof -
  show f: "from_raw (br_next b) \<notin> set (map snd log)"
  proof
    assume "from_raw (br_next b) \<in> set (map snd log)"
    with assms obtain n where "from_raw (br_next b) = from_raw n" "n < br_next b"
      by (auto simp: bridge_sound_def id_in_range_def)
    then show False using from_raw_inj by fastforce
  qed
  show "br_reverse b (from_raw (br_next b)) = None"
  proof (rule ccontr)
    assume "br_reverse b (from_raw (br_next b)) \<noteq> None"
    then obtain core where "br_reverse b (from_raw (br_next b)) = Some core" by auto
    with assms have "(core, from_raw (br_next b)) \<in> set log"
      by (simp add: bridge_sound_def bridge_resolve_def bridge_wire_def)
    with f show False by force
  qed
qed

lemma range_mono: "id_in_range from_raw n w \<Longrightarrow> n \<le> m \<Longrightarrow> id_in_range from_raw m w"
  by (auto simp: id_in_range_def)

lemma sound_intern:
  assumes b: "bridge_sound from_raw b log" and i: "bridge_intern from_raw b core = Some (w, b')"
  shows "bridge_sound from_raw b' (if bridge_wire b core = None then (core, w) # log else log)"
proof (cases "br_forward b core")
  case (Some w')
  with assms show ?thesis by (simp add: bridge_defs)
next
  case None
  let ?n = "br_next b"
  from i None have w: "w = from_raw ?n" and n: "?n \<noteq> 0xFFFFFFFF"
    and b': "b' = b\<lparr>br_next := ?n + 1, br_forward := (br_forward b)(core \<mapsto> w), br_reverse := (br_reverse b)(w \<mapsto> core)\<rparr>"
    by (auto simp: bridge_intern_def Let_def split: if_splits)
  have up: "?n < ?n + 1" "?n \<le> ?n + 1" using next_above [OF n] by simp_all
  note fr = next_fresh [OF b, folded w]
  have range: "id_in_range from_raw (?n + 1) w" using b up w by (auto simp: id_in_range_def bridge_sound_def)
  have inv: "br_forward b c = Some v \<longleftrightarrow> br_reverse b v = Some c" for c v
    using b by (simp add: bridge_sound_def bridge_wire_def bridge_resolve_def)
  have "\<forall>c v. br_forward b' c = Some v \<longleftrightarrow> br_reverse b' v = Some c"
    using inv None fr(2) by (auto simp: b') (metis option.distinct(1))
  then show ?thesis using b None fr range up
    by (auto simp: bridge_sound_def bridge_wire_def bridge_resolve_def b' intro: range_mono order_trans)
qed

lemma sound_forget:
  assumes "bridge_sound from_raw b log"
  shows "bridge_sound from_raw (snd (bridge_forget b core)) log"
  using assms by (auto simp: bridge_sound_def bridge_defs split: option.splits) (metis option.inject)

lemma run_sound: "bridge_run from_raw b log \<Longrightarrow> bridge_sound from_raw b log"
  by (induction rule: bridge_run.induct) (rule sound_new sound_intern sound_forget; assumption)+

lemma run_intern_total:
  "bridge_run from_raw b log \<Longrightarrow> bridge_intern from_raw b core = None \<longleftrightarrow>
     br_next b = 0xFFFFFFFF \<and> bridge_wire b core = None"
  by (simp add: bridge_intern_def bridge_wire_def Let_def split: option.splits)

end

interpretation sessions: wire_space WireSessionId
  by unfold_locales simp

interpretation terminals: wire_space Local
  by unfold_locales simp

interpretation windows: wire_space WireWindowId
  by unfold_locales simp

section \<open>The server's id space\<close>

record mint_logs =
  log_sessions :: "(session_id \<times> wire_session_id) list"
  log_terminals :: "(resource_id \<times> wire_resource_id) list"
  log_windows :: "(window_id \<times> wire_window_id) list"

inductive id_space_run :: "id_space \<Rightarrow> mint_logs \<Rightarrow> bool" where
  ids_new: "id_space_run (id_space_new inst) \<lparr>log_sessions = [], log_terminals = [], log_windows = []\<rparr>"
| ids_intern_session: "id_space_run s l \<Longrightarrow> intern_session s c = Some (w, s') \<Longrightarrow>
    id_space_run s' (if bridge_wire (ids_sessions s) c = None then l\<lparr>log_sessions := (c, w) # log_sessions l\<rparr> else l)"
| ids_forget_session: "id_space_run s l \<Longrightarrow> id_space_run (forget_session s c) l"
| ids_intern_terminal: "id_space_run s l \<Longrightarrow> intern_terminal s t = Some (r, s') \<Longrightarrow>
    id_space_run s' (if bridge_wire (ids_terminals s) t = None then l\<lparr>log_terminals := (t, r) # log_terminals l\<rparr> else l)"
| ids_retire_terminal: "id_space_run s l \<Longrightarrow> id_space_run (snd (retire_terminal s t)) l"
| ids_intern_window: "id_space_run s l \<Longrightarrow> intern_window s w = Some (x, s') \<Longrightarrow>
    id_space_run s' (if bridge_wire (ids_windows s) w = None then l\<lparr>log_windows := (w, x) # log_windows l\<rparr> else l)"
| ids_retire_window: "id_space_run s l \<Longrightarrow> id_space_run (retire_window s w) l"

lemma id_space_run_bridges:
  assumes "id_space_run s l"
  shows "bridge_run WireSessionId (ids_sessions s) (log_sessions l) \<and> bridge_run Local (ids_terminals s) (log_terminals l)
    \<and> bridge_run WireWindowId (ids_windows s) (log_windows l)"
  using assms
proof (induction rule: id_space_run.induct)
  case (ids_intern_session s l c w s')
  then obtain b where "bridge_intern WireSessionId (ids_sessions s) c = Some (w, b)" "s' = s\<lparr>ids_sessions := b\<rparr>"
    by (auto simp: intern_session_def)
  with ids_intern_session run_intern [of WireSessionId "ids_sessions s" "log_sessions l" c w b] show ?case by auto
next
  case (ids_intern_terminal s l t r s')
  then obtain b where "bridge_intern Local (ids_terminals s) t = Some (r, b)" "s' = s\<lparr>ids_terminals := b\<rparr>"
    by (auto simp: intern_terminal_def)
  with ids_intern_terminal run_intern [of Local "ids_terminals s" "log_terminals l" t r b] show ?case by auto
next
  case (ids_intern_window s l w x s')
  then obtain b where "bridge_intern WireWindowId (ids_windows s) w = Some (x, b)" "s' = s\<lparr>ids_windows := b\<rparr>"
    by (auto simp: intern_window_def)
  with ids_intern_window run_intern [of WireWindowId "ids_windows s" "log_windows l" w x b] show ?case by auto
qed (auto simp: id_space_new_def forget_session_def retire_terminal_def retire_window_def split_beta
    intro: run_new run_forget)

text \<open>
  C33. A wire id is well typed for the life of the server: it is a local id between 1 and the largest
  number but one, it was handed out once and never again, in whatever order resources, sessions and
  windows are interned and retired, and what a client names by it is the resource it was handed out
  for or nothing. A satellite's id never resolves.
\<close>

theorem wire_ids_never_reused:
  assumes "id_space_run s l"
  shows "distinct (map snd (log_terminals l)) \<and> distinct (map snd (log_sessions l)) \<and> distinct (map snd (log_windows l))
    \<and> (\<forall>t w. (t, w) \<in> set (log_terminals l) \<longrightarrow> (\<exists>n. w = Local n \<and> 1 \<le> n \<and> n < 0xFFFFFFFF))
    \<and> (\<forall>t w. terminal_from_wire s w = Some t \<longrightarrow> (t, w) \<in> set (log_terminals l))
    \<and> (\<forall>t w. terminal_from_wire s w = Some t \<longleftrightarrow> bridge_wire (ids_terminals s) t = Some w)
    \<and> (\<forall>host n. terminal_from_wire s (Satellite host n) = None)"
proof -
  note runs = id_space_run_bridges [OF assms]
  have t: "bridge_sound Local (ids_terminals s) (log_terminals l)" using runs terminals.run_sound by blast
  have "distinct (map snd (log_sessions l))" "distinct (map snd (log_windows l))"
    using runs sessions.run_sound windows.run_sound unfolding bridge_sound_def by blast+
  moreover have top: "n < 0xFFFFFFFF" if "n < br_next (ids_terminals s)" for n
    using that u32_top [of "br_next (ids_terminals s)"] by (rule less_le_trans)
  have range: "\<exists>n. w = Local n \<and> 1 \<le> n \<and> n < 0xFFFFFFFF" if "(c, w) \<in> set (log_terminals l)" for c w
    using t that top unfolding bridge_sound_def id_in_range_def by force
  moreover have "terminal_from_wire s (Satellite host n) = None" for host n
  proof (rule ccontr)
    assume "terminal_from_wire s (Satellite host n) \<noteq> None"
    then obtain c where "terminal_from_wire s (Satellite host n) = Some c" by auto
    then have "(c, Satellite host n) \<in> set (log_terminals l)"
      using t by (simp add: bridge_sound_def terminal_from_wire_def)
    from range [OF this] show False by simp
  qed
  ultimately show ?thesis using t by (auto simp: bridge_sound_def terminal_from_wire_def)
qed

theorem wire_ids_never_reused_witness:
  "\<exists>s l. id_space_run s l \<and> terminal_from_wire s (Local 1) = None \<and> terminal_from_wire s (Local 2) = Some (ResourceId 7)
     \<and> distinct (map snd (log_terminals l)) \<and> log_terminals l = [(ResourceId 7, Local 2), (ResourceId 7, Local 1)]"
proof -
  let ?s0 = "id_space_new (ServerInstance [])"
  let ?b1 = "\<lparr>br_forward = [ResourceId 7 \<mapsto> Local 1], br_reverse = [Local 1 \<mapsto> ResourceId 7], br_next = 2\<rparr>"
  let ?b3 = "\<lparr>br_forward = [ResourceId 7 \<mapsto> Local 2], br_reverse = [Local 2 \<mapsto> ResourceId 7], br_next = 3\<rparr>"
  let ?l = "\<lambda>ts. \<lparr>log_sessions = [], log_terminals = ts, log_windows = []\<rparr>"
  have i1: "intern_terminal ?s0 (ResourceId 7) = Some (Local 1, ?s0\<lparr>ids_terminals := ?b1\<rparr>)"
    by (simp add: intern_terminal_def id_space_new_def bridge_defs Let_def)
  have r: "snd (retire_terminal (?s0\<lparr>ids_terminals := ?b1\<rparr>) (ResourceId 7)) = ?s0\<lparr>ids_terminals := bridge_new\<lparr>br_next := 2\<rparr>\<rparr>"
    by (simp add: retire_terminal_def bridge_defs)
  have i2: "intern_terminal (?s0\<lparr>ids_terminals := bridge_new\<lparr>br_next := 2\<rparr>\<rparr>) (ResourceId 7) =
      Some (Local 2, ?s0\<lparr>ids_terminals := ?b3\<rparr>)" by (simp add: intern_terminal_def bridge_defs Let_def)
  have "id_space_run (?s0\<lparr>ids_terminals := ?b1\<rparr>) (?l [(ResourceId 7, Local 1)])"
    using ids_intern_terminal [OF ids_new i1] by (simp add: id_space_new_def bridge_defs)
  from ids_retire_terminal [OF this, of "ResourceId 7"]
  have "id_space_run (?s0\<lparr>ids_terminals := bridge_new\<lparr>br_next := 2\<rparr>\<rparr>) (?l [(ResourceId 7, Local 1)])" by (simp only: r)
  from ids_intern_terminal [OF this i2]
  have run: "id_space_run (?s0\<lparr>ids_terminals := ?b3\<rparr>) (?l [(ResourceId 7, Local 2), (ResourceId 7, Local 1)])"
    by (simp add: bridge_defs)
  have "terminal_from_wire (?s0\<lparr>ids_terminals := ?b3\<rparr>) (Local 1) = None"
    "terminal_from_wire (?s0\<lparr>ids_terminals := ?b3\<rparr>) (Local 2) = Some (ResourceId 7)"
    by (simp_all add: terminal_from_wire_def bridge_defs)
  with run wire_ids_never_reused [OF run] show ?thesis by (intro exI conjI) (assumption | simp)+
qed

end
