(* ===== verification/Input_Lease.thy ===== *)
theory Input_Lease
  imports Id_Bridge
begin

text \<open>
  The input leases of the server, \<open>LeaseTable\<close> of \<open>phux-server/src/state/lease_table.rs\<close> as reached
  through \<open>ServerState\<close> (\<open>state/leases.rs\<close>, \<open>state/client.rs\<close>): who may type into a local pane, which
  hub consumer may type into a satellite's pane, and which consumers proxy which satellite
  terminals. A mailbox is opaque.
\<close>

section \<open>Definitions\<close>

datatype server_client_id = ServerClientId u64

type_synonym satellite_key = "str \<times> u32"

record 'm satellite_lease =
  sl_holder :: server_client_id
  sl_out_tx :: 'm

record 'm lease_table =
  lt_input :: "resource_id \<rightharpoonup> server_client_id"
  lt_satellite :: "satellite_key \<rightharpoonup> 'm satellite_lease"
  lt_proxy :: "(server_client_id \<times> satellite_key) set"

definition lease_table_new :: "'m lease_table" where
  "lease_table_new = \<lparr>lt_input = Map.empty, lt_satellite = Map.empty, lt_proxy = {}\<rparr>"

definition has_satellite_proxy_attach :: "'m lease_table \<Rightarrow> server_client_id \<Rightarrow> satellite_key \<Rightarrow> bool" where
  "has_satellite_proxy_attach t client key \<longleftrightarrow> (client, key) \<in> lt_proxy t"

definition register_satellite_proxy_attach :: "'m lease_table \<Rightarrow> server_client_id \<Rightarrow> satellite_key \<Rightarrow> 'm lease_table" where
  "register_satellite_proxy_attach t client key = t\<lparr>lt_proxy := insert (client, key) (lt_proxy t)\<rparr>"

definition unregister_satellite_proxy_attach :: "'m lease_table \<Rightarrow> server_client_id \<Rightarrow> satellite_key \<Rightarrow> 'm lease_table" where
  "unregister_satellite_proxy_attach t client key = t\<lparr>lt_proxy := lt_proxy t - {(client, key)}\<rparr>"

definition lease_holder :: "'m lease_table \<Rightarrow> resource_id \<Rightarrow> server_client_id option" where
  "lease_holder t terminal = lt_input t terminal"

definition lease_blocked :: "'m lease_table \<Rightarrow> resource_id \<Rightarrow> server_client_id \<Rightarrow> bool" where
  "lease_blocked t terminal client = (case lt_input t terminal of None \<Rightarrow> False | Some holder \<Rightarrow> holder \<noteq> client)"

definition lease_acquire :: "'m lease_table \<Rightarrow> resource_id \<Rightarrow> server_client_id \<Rightarrow> server_client_id option \<times> 'm lease_table" where
  "lease_acquire t terminal client = (lt_input t terminal, t\<lparr>lt_input := (lt_input t)(terminal \<mapsto> client)\<rparr>)"

definition lease_release :: "'m lease_table \<Rightarrow> resource_id \<Rightarrow> server_client_id \<Rightarrow> bool \<times> 'm lease_table" where
  "lease_release t terminal client =
     (if lt_input t terminal = Some client then (True, t\<lparr>lt_input := (lt_input t)(terminal := None)\<rparr>) else (False, t))"

definition satellite_holder :: "'m lease_table \<Rightarrow> satellite_key \<Rightarrow> server_client_id option" where
  "satellite_holder t key = map_option sl_holder (lt_satellite t key)"

definition set_satellite :: "'m lease_table \<Rightarrow> satellite_key \<Rightarrow> server_client_id \<Rightarrow> 'm \<Rightarrow> 'm satellite_lease option \<times> 'm lease_table" where
  "set_satellite t key client out_tx =
     (case lt_satellite t key of Some prior \<Rightarrow> if sl_holder prior \<noteq> client then Some prior else None | None \<Rightarrow> None,
      t\<lparr>lt_satellite := (lt_satellite t)(key \<mapsto> \<lparr>sl_holder = client, sl_out_tx = out_tx\<rparr>)\<rparr>)"

definition release_satellite :: "'m lease_table \<Rightarrow> satellite_key \<Rightarrow> server_client_id \<Rightarrow> bool \<times> 'm lease_table" where
  "release_satellite t key client =
     (if map_option sl_holder (lt_satellite t key) = Some client
      then (True, t\<lparr>lt_satellite := (lt_satellite t)(key := None)\<rparr>) else (False, t))"

definition release_all_for :: "'m lease_table \<Rightarrow> server_client_id \<Rightarrow> 'm lease_table" where
  "release_all_for t client =
     t\<lparr>lt_input := (\<lambda>pane. case lt_input t pane of Some holder \<Rightarrow> if holder \<noteq> client then Some holder else None | None \<Rightarrow> None),
       lt_satellite := (\<lambda>key. case lt_satellite t key of
         Some lease \<Rightarrow> if sl_holder lease \<noteq> client then Some lease else None | None \<Rightarrow> None)\<rparr>"

text \<open>The operations as one type, in the order a server performs them.\<close>

datatype 'm lease_op =
    AcquireLease resource_id server_client_id
  | ReleaseLease resource_id server_client_id
  | SetSatelliteLease satellite_key server_client_id 'm
  | ReleaseSatelliteLease satellite_key server_client_id
  | RegisterProxy server_client_id satellite_key
  | UnregisterProxy server_client_id satellite_key
  | DetachClient server_client_id

definition lease_step :: "'m lease_table \<Rightarrow> 'm lease_op \<Rightarrow> 'm lease_table" where
  "lease_step t op = (case op of
     AcquireLease terminal c \<Rightarrow> snd (lease_acquire t terminal c)
   | ReleaseLease terminal c \<Rightarrow> snd (lease_release t terminal c)
   | SetSatelliteLease key c m \<Rightarrow> snd (set_satellite t key c m)
   | ReleaseSatelliteLease key c \<Rightarrow> snd (release_satellite t key c)
   | RegisterProxy c key \<Rightarrow> register_satellite_proxy_attach t c key
   | UnregisterProxy c key \<Rightarrow> unregister_satellite_proxy_attach t c key
   | DetachClient c \<Rightarrow> release_all_for t c)"

definition lease_run :: "'m lease_op list \<Rightarrow> 'm lease_table" where
  "lease_run ops = foldl lease_step lease_table_new ops"

section \<open>What a ledger promises\<close>

text \<open>
  A ledger of exclusive grants, driven by operations. An operation may grant a key to a holder and
  may revoke what a holder has; everything else leaves the key alone. Then the holder of a key is
  the one granted last, unless it was revoked since.
\<close>

locale grant_ledger =
  fixes init :: 's and step :: "'s \<Rightarrow> 'op \<Rightarrow> 's" and holder :: "'s \<Rightarrow> 'k \<Rightarrow> 'h option"
    and grants :: "'op \<Rightarrow> 'k \<Rightarrow> 'h option" and revokes :: "'op \<Rightarrow> 'k \<Rightarrow> 'h \<Rightarrow> bool"
  assumes holder_init: "holder init k = None"
    and holder_granted: "grants op k = Some h \<Longrightarrow> holder (step s op) k = Some h"
    and holder_kept: "grants op k = None \<Longrightarrow>
      holder (step s op) k = (case holder s k of Some h \<Rightarrow> if revokes op k h then None else Some h | None \<Rightarrow> None)"
begin

definition standing :: "'op list \<Rightarrow> 'k \<Rightarrow> 'h \<Rightarrow> bool" where
  "standing ops k h \<longleftrightarrow> (\<exists>before op after. ops = before @ op # after \<and> grants op k = Some h
     \<and> (\<forall>op' \<in> set after. grants op' k = None \<and> \<not> revokes op' k h))"

lemma standing_snoc:
  "standing (ops @ [op]) k h \<longleftrightarrow> grants op k = Some h \<or> (grants op k = None \<and> \<not> revokes op k h \<and> standing ops k h)"
proof
  assume "standing (ops @ [op]) k h"
  then obtain bef g aft where s: "ops @ [op] = bef @ g # aft" "grants g k = Some h"
    "\<forall>op' \<in> set aft. grants op' k = None \<and> \<not> revokes op' k h" unfolding standing_def by blast
  show "grants op k = Some h \<or> (grants op k = None \<and> \<not> revokes op k h \<and> standing ops k h)"
  proof (cases aft rule: rev_cases)
    case Nil
    with s show ?thesis by simp
  next
    case (snoc aft' z)
    with s have "ops = bef @ g # aft'" "z = op" by simp_all
    with s snoc show ?thesis unfolding standing_def by auto
  qed
next
  assume "grants op k = Some h \<or> (grants op k = None \<and> \<not> revokes op k h \<and> standing ops k h)"
  then show "standing (ops @ [op]) k h"
  proof (elim disjE conjE)
    assume "grants op k = Some h"
    then show ?thesis unfolding standing_def by fastforce
  next
    assume a: "grants op k = None" "\<not> revokes op k h" "standing ops k h"
    then obtain bef g aft where "ops = bef @ g # aft" "grants g k = Some h"
      "\<forall>op' \<in> set aft. grants op' k = None \<and> \<not> revokes op' k h" unfolding standing_def by blast
    with a show ?thesis unfolding standing_def
      by (intro exI [of _ bef] exI [of _ g] exI [of _ "aft @ [op]"]) auto
  qed
qed

lemma holder_iff_standing: "holder (foldl step init ops) k = Some h \<longleftrightarrow> standing ops k h"
proof (induction ops rule: rev_induct)
  case Nil
  then show ?case by (simp add: holder_init standing_def)
next
  case (snoc op ops)
  show ?case
  proof (cases "grants op k")
    case None
    with snoc holder_kept [OF None, of "foldl step init ops"] show ?thesis
      by (auto simp: standing_snoc split: option.splits)
  next
    case (Some h')
    with holder_granted [OF Some, of "foldl step init ops"] show ?thesis by (auto simp: standing_snoc)
  qed
qed

end

section \<open>The three ledgers of the table\<close>

definition lease_grants :: "'m lease_op \<Rightarrow> resource_id \<Rightarrow> server_client_id option" where
  "lease_grants op t = (case op of AcquireLease t' c \<Rightarrow> if t' = t then Some c else None | _ \<Rightarrow> None)"

definition lease_revokes :: "'m lease_op \<Rightarrow> resource_id \<Rightarrow> server_client_id \<Rightarrow> bool" where
  "lease_revokes op t c = (case op of ReleaseLease t' c' \<Rightarrow> t' = t \<and> c' = c | DetachClient c' \<Rightarrow> c' = c | _ \<Rightarrow> False)"

definition satellite_grants :: "'m lease_op \<Rightarrow> satellite_key \<Rightarrow> server_client_id option" where
  "satellite_grants op k = (case op of SetSatelliteLease k' c _ \<Rightarrow> if k' = k then Some c else None | _ \<Rightarrow> None)"

definition satellite_revokes :: "'m lease_op \<Rightarrow> satellite_key \<Rightarrow> server_client_id \<Rightarrow> bool" where
  "satellite_revokes op k c =
     (case op of ReleaseSatelliteLease k' c' \<Rightarrow> k' = k \<and> c' = c | DetachClient c' \<Rightarrow> c' = c | _ \<Rightarrow> False)"

definition proxy_holder :: "'m lease_table \<Rightarrow> server_client_id \<times> satellite_key \<Rightarrow> unit option" where
  "proxy_holder t p = (if has_satellite_proxy_attach t (fst p) (snd p) then Some () else None)"

definition proxy_grants :: "'m lease_op \<Rightarrow> server_client_id \<times> satellite_key \<Rightarrow> unit option" where
  "proxy_grants op p = (case op of RegisterProxy c k \<Rightarrow> if p = (c, k) then Some () else None | _ \<Rightarrow> None)"

definition proxy_revokes :: "'m lease_op \<Rightarrow> server_client_id \<times> satellite_key \<Rightarrow> unit \<Rightarrow> bool" where
  "proxy_revokes op p u = (case op of UnregisterProxy c k \<Rightarrow> p = (c, k) | _ \<Rightarrow> False)"

lemmas lease_defs = lease_step_def lease_table_new_def lease_holder_def lease_acquire_def lease_release_def
  satellite_holder_def set_satellite_def release_satellite_def release_all_for_def has_satellite_proxy_attach_def
  register_satellite_proxy_attach_def unregister_satellite_proxy_attach_def

interpretation pane: grant_ledger "lease_table_new :: 'm lease_table" lease_step lease_holder lease_grants lease_revokes
  by unfold_locales (auto simp: lease_defs lease_grants_def lease_revokes_def split: lease_op.splits if_splits option.splits)

interpretation sat: grant_ledger "lease_table_new :: 'm lease_table" lease_step satellite_holder satellite_grants satellite_revokes
  by unfold_locales
    (auto simp: lease_defs satellite_grants_def satellite_revokes_def split: lease_op.splits if_splits option.splits)

interpretation proxy: grant_ledger "lease_table_new :: 'm lease_table" lease_step proxy_holder proxy_grants proxy_revokes
  by unfold_locales
    (auto simp: lease_defs proxy_holder_def proxy_grants_def proxy_revokes_def split: lease_op.splits if_splits option.splits)

lemma lease_grants_simps:
  "lease_grants op t = Some c \<longleftrightarrow> op = AcquireLease t c" "lease_grants op t = None \<longleftrightarrow> (\<forall>c. op \<noteq> AcquireLease t c)"
  "lease_revokes op t c \<longleftrightarrow> op = ReleaseLease t c \<or> op = DetachClient c"
  by (auto simp: lease_grants_def lease_revokes_def split: lease_op.splits)

lemma satellite_grants_simps:
  "satellite_grants op k = Some c \<longleftrightarrow> (\<exists>m. op = SetSatelliteLease k c m)"
  "satellite_grants op k = None \<longleftrightarrow> (\<forall>c m. op \<noteq> SetSatelliteLease k c m)"
  "satellite_revokes op k c \<longleftrightarrow> op = ReleaseSatelliteLease k c \<or> op = DetachClient c"
  by (auto simp: satellite_grants_def satellite_revokes_def split: lease_op.splits)

lemma proxy_grants_simps:
  "proxy_grants op p = Some u \<longleftrightarrow> op = RegisterProxy (fst p) (snd p)"
  "proxy_grants op p = None \<longleftrightarrow> op \<noteq> RegisterProxy (fst p) (snd p)"
  "proxy_revokes op p u \<longleftrightarrow> op = UnregisterProxy (fst p) (snd p)"
  by (auto simp: proxy_grants_def proxy_revokes_def split: lease_op.splits)

text \<open>
  C34. The lease table answers from the history of the server: the wheel of a pane is held by the
  client that acquired it last, unless that client released it or detached since; the same holds of
  satellite panes; every other client, and nobody else, is blocked. A proxy registration stands until
  it is withdrawn, and detaching does not withdraw it.
\<close>

theorem lease_follows_history:
  "(lease_holder (lease_run ops) t = Some c \<longleftrightarrow> (\<exists>bef aft. ops = bef @ AcquireLease t c # aft
      \<and> (\<forall>op \<in> set aft. (\<forall>c'. op \<noteq> AcquireLease t c') \<and> op \<noteq> ReleaseLease t c \<and> op \<noteq> DetachClient c)))
   \<and> (lease_blocked (lease_run ops) t c \<longleftrightarrow> (\<exists>c'. c' \<noteq> c \<and> lease_holder (lease_run ops) t = Some c'))
   \<and> (satellite_holder (lease_run ops) k = Some c \<longleftrightarrow> (\<exists>bef m aft. ops = bef @ SetSatelliteLease k c m # aft
      \<and> (\<forall>op \<in> set aft. (\<forall>c' m'. op \<noteq> SetSatelliteLease k c' m') \<and> op \<noteq> ReleaseSatelliteLease k c \<and> op \<noteq> DetachClient c)))
   \<and> (has_satellite_proxy_attach (lease_run ops) c k \<longleftrightarrow> (\<exists>bef aft. ops = bef @ RegisterProxy c k # aft
      \<and> (\<forall>op \<in> set aft. op \<noteq> RegisterProxy c k \<and> op \<noteq> UnregisterProxy c k)))"
proof (intro conjI)
  show "lease_holder (lease_run ops) t = Some c \<longleftrightarrow> (\<exists>bef aft. ops = bef @ AcquireLease t c # aft
      \<and> (\<forall>op \<in> set aft. (\<forall>c'. op \<noteq> AcquireLease t c') \<and> op \<noteq> ReleaseLease t c \<and> op \<noteq> DetachClient c))"
    unfolding lease_run_def pane.holder_iff_standing pane.standing_def lease_grants_simps by blast
  show "lease_blocked (lease_run ops) t c \<longleftrightarrow> (\<exists>c'. c' \<noteq> c \<and> lease_holder (lease_run ops) t = Some c')"
    by (auto simp: lease_blocked_def lease_holder_def split: option.splits)
  show "satellite_holder (lease_run ops) k = Some c \<longleftrightarrow> (\<exists>bef m aft. ops = bef @ SetSatelliteLease k c m # aft
      \<and> (\<forall>op \<in> set aft. (\<forall>c' m'. op \<noteq> SetSatelliteLease k c' m') \<and> op \<noteq> ReleaseSatelliteLease k c \<and> op \<noteq> DetachClient c))"
    unfolding lease_run_def sat.holder_iff_standing sat.standing_def satellite_grants_simps by blast
  have "has_satellite_proxy_attach (lease_run ops) c k \<longleftrightarrow> proxy.standing ops (c, k) ()"
    by (simp add: lease_run_def proxy_holder_def flip: proxy.holder_iff_standing)
  then show "has_satellite_proxy_attach (lease_run ops) c k \<longleftrightarrow> (\<exists>bef aft. ops = bef @ RegisterProxy c k # aft
      \<and> (\<forall>op \<in> set aft. op \<noteq> RegisterProxy c k \<and> op \<noteq> UnregisterProxy c k))"
    unfolding proxy.standing_def proxy_grants_simps fst_conv snd_conv by blast
qed

theorem lease_follows_history_witness:
  "lease_holder (lease_run [AcquireLease (ResourceId 1) (ServerClientId 5), AcquireLease (ResourceId 1) (ServerClientId 6),
       DetachClient (ServerClientId 5)] :: nat lease_table) (ResourceId 1) = Some (ServerClientId 6)
   \<and> has_satellite_proxy_attach (lease_run [RegisterProxy (ServerClientId 6) ([], 3), DetachClient (ServerClientId 6)] :: nat lease_table)
       (ServerClientId 6) ([], 3)"
proof
  show "lease_holder (lease_run [AcquireLease (ResourceId 1) (ServerClientId 5), AcquireLease (ResourceId 1) (ServerClientId 6),
       DetachClient (ServerClientId 5)] :: nat lease_table) (ResourceId 1) = Some (ServerClientId 6)"
    by (rule lease_follows_history [THEN conjunct1, THEN iffD2], rule exI [of _ "[AcquireLease (ResourceId 1) (ServerClientId 5)]"],
      rule exI [of _ "[DetachClient (ServerClientId 5)]"]) simp
  show "has_satellite_proxy_attach (lease_run [RegisterProxy (ServerClientId 6) ([], 3), DetachClient (ServerClientId 6)] :: nat lease_table)
       (ServerClientId 6) ([], 3)"
    by (rule lease_follows_history [THEN conjunct2, THEN conjunct2, THEN conjunct2, THEN iffD2], rule exI [of _ "[]"],
      rule exI [of _ "[DetachClient (ServerClientId 6)]"]) simp
qed

end
