(* ===== verification/Spawn_Ledger.thy ===== *)
theory Spawn_Ledger
  imports Input_Lease
begin

text \<open>
  The hub's record of who asked for each satellite resource, \<open>SatelliteSpawnLedger\<close> of
  \<open>phux-server/src/state/satellite_spawns.rs\<close>. A conditional kill over a satellite is relayed only
  when the ledger vouches that nobody but the spawner has used the resource.
\<close>

section \<open>Definitions\<close>

definition max_satellite_spawns :: nat where
  "max_satellite_spawns = 1024"

record spawn_record =
  sr_seq :: u64
  sr_spawner :: server_client_id
  sr_instance :: "server_instance option"
  sr_used_by_other :: bool

record spawn_ledger =
  sp_records :: "satellite_key \<rightharpoonup> spawn_record"
  sp_order :: "(u64 \<times> satellite_key) list"
  sp_next_seq :: u64

definition spawn_ledger_new :: spawn_ledger where
  "spawn_ledger_new = \<lparr>sp_records = Map.empty, sp_order = [], sp_next_seq = 0\<rparr>"

function evict_oldest :: "spawn_ledger \<Rightarrow> spawn_ledger" where
  "evict_oldest l =
     (if max_satellite_spawns < length (sp_order l)
      then case hd (sp_order l) of (seq, key) \<Rightarrow>
        evict_oldest (l\<lparr>sp_order := tl (sp_order l),
          sp_records := (case sp_records l key of
             Some r \<Rightarrow> if sr_seq r = seq then (sp_records l)(key := None) else sp_records l
           | None \<Rightarrow> sp_records l)\<rparr>)
      else l)"
  by pat_completeness auto

termination evict_oldest
  by (relation "measure (\<lambda>l. length (sp_order l))") auto

declare evict_oldest.simps [simp del]

definition record_spawn :: "spawn_ledger \<Rightarrow> satellite_key \<Rightarrow> server_instance option \<Rightarrow> server_client_id \<Rightarrow> spawn_ledger" where
  "record_spawn l key inst spawner =
     (let seq = sp_next_seq l
      in evict_oldest (l\<lparr>sp_next_seq := seq + 1,
           sp_records := (sp_records l)(key \<mapsto>
             \<lparr>sr_seq = seq, sr_spawner = spawner, sr_instance = inst, sr_used_by_other = False\<rparr>),
           sp_order := sp_order l @ [(seq, key)]\<rparr>))"

definition note_use :: "spawn_ledger \<Rightarrow> satellite_key \<Rightarrow> server_client_id \<Rightarrow> spawn_ledger" where
  "note_use l key client =
     (case sp_records l key of
        None \<Rightarrow> l
      | Some r \<Rightarrow> if sr_spawner r \<noteq> client
          then l\<lparr>sp_records := (sp_records l)(key \<mapsto> r\<lparr>sr_used_by_other := True\<rparr>)\<rparr> else l)"

definition vouches_unattached :: "spawn_ledger \<Rightarrow> satellite_key \<Rightarrow> server_instance \<Rightarrow> bool" where
  "vouches_unattached l key inst =
     (case sp_records l key of None \<Rightarrow> False | Some r \<Rightarrow> sr_instance r = Some inst \<and> \<not> sr_used_by_other r)"

datatype spawn_op =
    RecordSpawn satellite_key "server_instance option" server_client_id
  | NoteUse satellite_key server_client_id

definition spawn_step :: "spawn_ledger \<Rightarrow> spawn_op \<Rightarrow> spawn_ledger" where
  "spawn_step l op = (case op of
     RecordSpawn key inst c \<Rightarrow> record_spawn l key inst c | NoteUse key c \<Rightarrow> note_use l key c)"

definition spawn_run :: "spawn_op list \<Rightarrow> spawn_ledger" where
  "spawn_run ops = foldl spawn_step spawn_ledger_new ops"

section \<open>The ledger against the history\<close>

text \<open>The keys of all spawns so far, and the newest spawn of a key, with nothing forgotten.\<close>

fun spawn_keys :: "spawn_op list \<Rightarrow> satellite_key list" where
  "spawn_keys [] = []"
| "spawn_keys (RecordSpawn key _ _ # ops) = key # spawn_keys ops"
| "spawn_keys (NoteUse _ _ # ops) = spawn_keys ops"

lemma spawn_keys_append [simp]: "spawn_keys (as @ bs) = spawn_keys as @ spawn_keys bs"
  by (induction as rule: spawn_keys.induct) simp_all

definition spawn_at :: "spawn_op list \<Rightarrow> satellite_key \<Rightarrow> nat \<Rightarrow> spawn_record \<Rightarrow> bool" where
  "spawn_at ops key i r \<longleftrightarrow> (\<exists>before after. ops = before @ RecordSpawn key (sr_instance r) (sr_spawner r) # after
     \<and> i = length (spawn_keys before) \<and> sr_seq r = of_nat i
     \<and> key \<notin> set (spawn_keys after)
     \<and> (sr_used_by_other r \<longleftrightarrow> (\<exists>c. c \<noteq> sr_spawner r \<and> NoteUse key c \<in> set after)))"

lemma spawn_at_snoc_record:
  "spawn_at (ops @ [RecordSpawn key' inst c]) key i r \<longleftrightarrow>
     (if key' = key then i = length (spawn_keys ops) \<and> r = \<lparr>sr_seq = of_nat i, sr_spawner = c, sr_instance = inst, sr_used_by_other = False\<rparr>
      else spawn_at ops key i r)" (is "?l \<longleftrightarrow> ?r")
proof
  assume ?l
  then obtain bef aft where s: "ops @ [RecordSpawn key' inst c] = bef @ RecordSpawn key (sr_instance r) (sr_spawner r) # aft"
    "i = length (spawn_keys bef)" "sr_seq r = of_nat i" "key \<notin> set (spawn_keys aft)"
    "sr_used_by_other r \<longleftrightarrow> (\<exists>c. c \<noteq> sr_spawner r \<and> NoteUse key c \<in> set aft)" unfolding spawn_at_def by blast
  show ?r
  proof (cases aft rule: rev_cases)
    case Nil
    with s show ?thesis by (cases r) auto
  next
    case (snoc aft' z)
    with s have "ops = bef @ RecordSpawn key (sr_instance r) (sr_spawner r) # aft'" "z = RecordSpawn key' inst c" by simp_all
    with s snoc show ?thesis unfolding spawn_at_def by auto
  qed
next
  assume r: ?r
  show ?l
  proof (cases "key' = key")
    case True
    with r show ?thesis unfolding spawn_at_def by (intro exI [of _ ops] exI [of _ "[]"]) auto
  next
    case False
    with r obtain bef aft where "ops = bef @ RecordSpawn key (sr_instance r) (sr_spawner r) # aft"
      "i = length (spawn_keys bef)" "sr_seq r = of_nat i" "key \<notin> set (spawn_keys aft)"
      "sr_used_by_other r \<longleftrightarrow> (\<exists>c. c \<noteq> sr_spawner r \<and> NoteUse key c \<in> set aft)" unfolding spawn_at_def by auto
    with False show ?thesis unfolding spawn_at_def
      by (intro exI [of _ bef] exI [of _ "aft @ [RecordSpawn key' inst c]"]) auto
  qed
qed

lemma used_snoc:
  "(\<exists>d. d \<noteq> sp \<and> NoteUse key d \<in> set (ops @ [NoteUse key' c])) \<longleftrightarrow>
     (\<exists>d. d \<noteq> sp \<and> NoteUse key d \<in> set ops) \<or> (key' = key \<and> sp \<noteq> c)"
  by simp metis

lemma spawn_at_snoc_use:
  "spawn_at (ops @ [NoteUse key' c]) key i r \<longleftrightarrow>
     (\<exists>q. spawn_at ops key i q \<and> r = (if key' = key \<and> sr_spawner q \<noteq> c then q\<lparr>sr_used_by_other := True\<rparr> else q))" (is "?l \<longleftrightarrow> ?r")
proof
  assume ?l
  then obtain bef aft where s: "ops @ [NoteUse key' c] = bef @ RecordSpawn key (sr_instance r) (sr_spawner r) # aft"
    "i = length (spawn_keys bef)" "sr_seq r = of_nat i" "key \<notin> set (spawn_keys aft)"
    "sr_used_by_other r \<longleftrightarrow> (\<exists>c. c \<noteq> sr_spawner r \<and> NoteUse key c \<in> set aft)" unfolding spawn_at_def by blast
  obtain aft' where aft: "aft = aft' @ [NoteUse key' c]" "ops = bef @ RecordSpawn key (sr_instance r) (sr_spawner r) # aft'"
    using s(1) by (cases aft rule: rev_cases) auto
  have used: "sr_used_by_other r \<longleftrightarrow> (\<exists>c. c \<noteq> sr_spawner r \<and> NoteUse key c \<in> set aft') \<or> (key' = key \<and> sr_spawner r \<noteq> c)"
    unfolding s(5) aft(1) by (rule used_snoc)
  let ?q = "r\<lparr>sr_used_by_other := (\<exists>c. c \<noteq> sr_spawner r \<and> NoteUse key c \<in> set aft')\<rparr>"
  have "spawn_at ops key i ?q" using s aft unfolding spawn_at_def by auto
  moreover have "r = (if key' = key \<and> sr_spawner ?q \<noteq> c then ?q\<lparr>sr_used_by_other := True\<rparr> else ?q)"
    using used by (auto intro!: spawn_record.equality)
  ultimately show ?r by blast
next
  assume ?r
  then obtain q where q: "spawn_at ops key i q"
    "r = (if key' = key \<and> sr_spawner q \<noteq> c then q\<lparr>sr_used_by_other := True\<rparr> else q)" by blast
  then obtain bef aft where "ops = bef @ RecordSpawn key (sr_instance q) (sr_spawner q) # aft"
      "i = length (spawn_keys bef)" "sr_seq q = of_nat i" "key \<notin> set (spawn_keys aft)"
      "sr_used_by_other q \<longleftrightarrow> (\<exists>c. c \<noteq> sr_spawner q \<and> NoteUse key c \<in> set aft)" unfolding spawn_at_def by auto
  with q(2) show ?l unfolding spawn_at_def
    by (rule_tac exI [of _ bef], rule_tac exI [of _ "aft @ [NoteUse key' c]"], unfold used_snoc) auto
qed

lemma spawn_at_key: "spawn_at ops key i r \<Longrightarrow> i < length (spawn_keys ops) \<and> spawn_keys ops ! i = key \<and> sr_seq r = of_nat i"
  unfolding spawn_at_def by (auto simp: nth_append)

definition numbered :: "spawn_op list \<Rightarrow> (u64 \<times> satellite_key) list" where
  "numbered ops = zip (map of_nat [0..<length (spawn_keys ops)]) (spawn_keys ops)"

definition ledger_shows :: "spawn_ledger \<Rightarrow> spawn_op list \<Rightarrow> bool" where
  "ledger_shows l ops \<longleftrightarrow> sp_next_seq l = of_nat (length (spawn_keys ops))
     \<and> sp_order l = drop (length (spawn_keys ops) - 1024) (numbered ops)
     \<and> (\<forall>key r. sp_records l key = Some r \<longleftrightarrow> (\<exists>i. spawn_at ops key i r \<and> length (spawn_keys ops) \<le> i + 1024))"

lemma shows_new: "ledger_shows spawn_ledger_new []"
  by (simp add: ledger_shows_def spawn_ledger_new_def numbered_def spawn_at_def)

lemma shows_use:
  assumes "ledger_shows l ops"
  shows "ledger_shows (note_use l key' c) (ops @ [NoteUse key' c])"
proof -
  have recs: "sp_records l key = Some q \<longleftrightarrow> (\<exists>i. spawn_at ops key i q \<and> length (spawn_keys ops) \<le> i + 1024)" for key q
    using assms unfolding ledger_shows_def by blast
  have "sp_records (note_use l key' c) key = Some r \<longleftrightarrow>
      (\<exists>q. sp_records l key = Some q \<and> r = (if key' = key \<and> sr_spawner q \<noteq> c then q\<lparr>sr_used_by_other := True\<rparr> else q))" for key r
    by (auto simp: note_use_def split: option.splits)
  then have "sp_records (note_use l key' c) key = Some r \<longleftrightarrow>
      (\<exists>i. spawn_at (ops @ [NoteUse key' c]) key i r \<and> length (spawn_keys ops) \<le> i + 1024)" for key r
    unfolding recs spawn_at_snoc_use by blast
  moreover have "sp_order (note_use l key' c) = sp_order l" "sp_next_seq (note_use l key' c) = sp_next_seq l"
    by (auto simp: note_use_def split: option.splits)
  ultimately show ?thesis using assms by (simp add: ledger_shows_def numbered_def)
qed

lemma numbered_snoc:
  "numbered (ops @ [RecordSpawn key inst c]) = numbered ops @ [(of_nat (length (spawn_keys ops)), key)]"
  by (simp add: numbered_def)

lemma evict_none: "length (sp_order l) \<le> 1024 \<Longrightarrow> evict_oldest l = l"
  by (subst evict_oldest.simps) (simp add: max_satellite_spawns_def)

lemma evict_one:
  assumes "sp_order l = (seq, key) # rest" "length rest = 1024"
  shows "evict_oldest l = l\<lparr>sp_order := rest, sp_records := (case sp_records l key of
     Some r \<Rightarrow> if sr_seq r = seq then (sp_records l)(key := None) else sp_records l | None \<Rightarrow> sp_records l)\<rparr>"
  using assms by (subst evict_oldest.simps) (simp add: max_satellite_spawns_def evict_none)

lemma of_nat64_inj: "i < 2 ^ 64 \<Longrightarrow> j < 2 ^ 64 \<Longrightarrow> (of_nat i :: u64) = of_nat j \<longleftrightarrow> i = j"
  by (auto dest!: arg_cong [where f = unat] simp: unat_of_nat)

lemma shows_record:
  assumes l: "ledger_shows l ops" and small: "length (spawn_keys ops) + 1 < 2 ^ 64"
  shows "ledger_shows (record_spawn l key' inst c) (ops @ [RecordSpawn key' inst c])"
proof -
  let ?n = "length (spawn_keys ops)"
  let ?fresh = "\<lparr>sr_seq = of_nat ?n, sr_spawner = c, sr_instance = inst, sr_used_by_other = False\<rparr>"
  let ?l = "l\<lparr>sp_next_seq := of_nat ?n + 1, sp_records := (sp_records l)(key' \<mapsto> ?fresh), sp_order := sp_order l @ [(of_nat ?n, key')]\<rparr>"
  have ev: "record_spawn l key' inst c = evict_oldest ?l" using l by (simp add: record_spawn_def ledger_shows_def Let_def)
  have recs: "sp_records ?l key = Some r \<longleftrightarrow> (\<exists>i. spawn_at (ops @ [RecordSpawn key' inst c]) key i r \<and> ?n \<le> i + 1024)" for key r
  proof -
    have "sp_records l key = Some r \<longleftrightarrow> (\<exists>i. spawn_at ops key i r \<and> ?n \<le> i + 1024)"
      using l unfolding ledger_shows_def by blast
    then show ?thesis by (auto simp: spawn_at_snoc_record)
  qed
  have order: "sp_order ?l = drop (?n - 1024) (numbered (ops @ [RecordSpawn key' inst c]))"
    using l by (simp add: ledger_shows_def numbered_snoc numbered_def)
  have len: "length (numbered (ops @ [RecordSpawn key' inst c])) = ?n + 1" by (simp add: numbered_def)
  show ?thesis
  proof (cases "?n < 1024")
    case True
    then have "evict_oldest ?l = ?l" using order len by (intro evict_none) (simp del: spawn_ledger.simps)
    with ev True recs order show ?thesis by (simp add: ledger_shows_def)
  next
    case False
    let ?m = "?n - 1024"
    have hd: "drop ?m (numbered (ops @ [RecordSpawn key' inst c])) =
        (of_nat ?m, spawn_keys ops ! ?m) # drop (?m + 1) (numbered (ops @ [RecordSpawn key' inst c]))"
      using False len by (subst Cons_nth_drop_Suc [symmetric]) (simp_all add: numbered_def nth_append)
    have e: "evict_oldest ?l = ?l\<lparr>sp_order := drop (?m + 1) (numbered (ops @ [RecordSpawn key' inst c])),
        sp_records := (case sp_records ?l (spawn_keys ops ! ?m) of
          Some r \<Rightarrow> if sr_seq r = of_nat ?m then (sp_records ?l)(spawn_keys ops ! ?m := None) else sp_records ?l
        | None \<Rightarrow> sp_records ?l)\<rparr>"
      by (rule evict_one) (use False len order hd in simp_all)
    have kept: "sr_seq r = of_nat ?m \<longleftrightarrow> i = ?m" if "spawn_at (ops @ [RecordSpawn key' inst c]) key i r" for key i r
      using spawn_at_key [OF that] small of_nat64_inj [of i ?m] by auto
    have "sp_records (evict_oldest ?l) key = Some r \<longleftrightarrow>
        (\<exists>i. spawn_at (ops @ [RecordSpawn key' inst c]) key i r \<and> ?n + 1 \<le> i + 1024)" for key r
    proof -
      have "sp_records (evict_oldest ?l) key = Some r \<longleftrightarrow>
          sp_records ?l key = Some r \<and> \<not> (key = spawn_keys ops ! ?m \<and> sr_seq r = of_nat ?m)"
        unfolding e by (auto split: option.splits)
      moreover have "(key = spawn_keys ops ! ?m \<and> sr_seq r = of_nat ?m) \<longleftrightarrow> i = ?m"
        if "spawn_at (ops @ [RecordSpawn key' inst c]) key i r" for i
        using kept [OF that] spawn_at_key [OF that] False by (auto simp: nth_append)
      moreover have "?n \<le> i + 1024 \<and> i \<noteq> ?m \<longleftrightarrow> ?n + 1 \<le> i + 1024" for i using False by auto
      ultimately show ?thesis unfolding recs by blast
    qed
    moreover have "sp_order (evict_oldest ?l) = drop (?n + 1 - 1024) (numbered (ops @ [RecordSpawn key' inst c]))"
      "sp_next_seq (evict_oldest ?l) = of_nat (?n + 1)" unfolding e using False by (simp_all flip: Suc_diff_le)
    ultimately show ?thesis unfolding ledger_shows_def ev by simp
  qed
qed

lemma spawn_run_shows: "length ops < 2 ^ 64 \<Longrightarrow> ledger_shows (spawn_run ops) ops"
proof (induction ops rule: rev_induct)
  case Nil
  then show ?case by (simp add: spawn_run_def shows_new)
next
  case (snoc op ops)
  have "length (spawn_keys ops) \<le> length ops" by (induction ops rule: spawn_keys.induct) simp_all
  with snoc shows_record [of "spawn_run ops" ops] shows_use [of "spawn_run ops" ops] show ?case
    by (cases op) (simp_all add: spawn_run_def spawn_step_def)
qed

text \<open>
  C35. The hub never vouches wrongly: it vouches for a satellite resource exactly when the newest
  spawn it relayed for that id came back under the token of the kill, nobody but that spawner has
  attached or used the resource since, and fewer than 1024 spawns have been relayed since. A
  resource it has forgotten, or one of another incarnation, is never vouched for.
\<close>

theorem vouches_iff_unused:
  assumes "length ops < 2 ^ 64"
  shows "vouches_unattached (spawn_run ops) key inst \<longleftrightarrow>
    (\<exists>bef spawner aft. ops = bef @ RecordSpawn key (Some inst) spawner # aft
       \<and> key \<notin> set (spawn_keys aft)
       \<and> (\<forall>c. NoteUse key c \<in> set aft \<longrightarrow> c = spawner)
       \<and> length (spawn_keys aft) < max_satellite_spawns)"
proof -
  have recs: "sp_records (spawn_run ops) key = Some r \<longleftrightarrow>
      (\<exists>i. spawn_at ops key i r \<and> length (spawn_keys ops) \<le> i + 1024)" for r
    using spawn_run_shows [OF assms] unfolding ledger_shows_def by blast
  have "vouches_unattached (spawn_run ops) key inst \<longleftrightarrow>
      (\<exists>r. sp_records (spawn_run ops) key = Some r \<and> sr_instance r = Some inst \<and> \<not> sr_used_by_other r)"
    by (auto simp: vouches_unattached_def split: option.splits)
  also have "\<dots> \<longleftrightarrow> (\<exists>r i. spawn_at ops key i r \<and> length (spawn_keys ops) \<le> i + 1024 \<and> sr_instance r = Some inst \<and> \<not> sr_used_by_other r)"
    unfolding recs by blast
  also have "\<dots> \<longleftrightarrow> (\<exists>bef spawner aft. ops = bef @ RecordSpawn key (Some inst) spawner # aft
       \<and> key \<notin> set (spawn_keys aft) \<and> (\<forall>c. NoteUse key c \<in> set aft \<longrightarrow> c = spawner)
       \<and> length (spawn_keys aft) < max_satellite_spawns)" (is "?l \<longleftrightarrow> ?r")
  proof
    assume ?l
    then obtain r i where r: "spawn_at ops key i r" "length (spawn_keys ops) \<le> i + 1024"
      "sr_instance r = Some inst" "\<not> sr_used_by_other r" by blast
    then obtain bef aft where s: "ops = bef @ RecordSpawn key (Some inst) (sr_spawner r) # aft"
      "i = length (spawn_keys bef)" "key \<notin> set (spawn_keys aft)"
      "\<forall>c. NoteUse key c \<in> set aft \<longrightarrow> c = sr_spawner r"
      unfolding spawn_at_def by auto
    with r(2) have "length (spawn_keys aft) < max_satellite_spawns" by (simp add: max_satellite_spawns_def)
    with s show ?r by blast
  next
    assume ?r
    then obtain bef spawner aft where s: "ops = bef @ RecordSpawn key (Some inst) spawner # aft"
      "key \<notin> set (spawn_keys aft)" "\<forall>c. NoteUse key c \<in> set aft \<longrightarrow> c = spawner" "length (spawn_keys aft) < 1024"
      by (auto simp: max_satellite_spawns_def)
    then have "spawn_at ops key (length (spawn_keys bef))
        \<lparr>sr_seq = of_nat (length (spawn_keys bef)), sr_spawner = spawner, sr_instance = Some inst, sr_used_by_other = False\<rparr>"
      unfolding spawn_at_def by auto
    with s show ?l by fastforce
  qed
  finally show ?thesis .
qed

theorem vouches_iff_unused_witness:
  "vouches_unattached (spawn_run [RecordSpawn ([], 9) (Some (ServerInstance [1])) (ServerClientId 1),
     NoteUse ([], 9) (ServerClientId 1), NoteUse ([], 8) (ServerClientId 2)]) ([], 9) (ServerInstance [1])"
  by (rule vouches_iff_unused [THEN iffD2], simp, rule exI [of _ "[]"], rule exI [of _ "ServerClientId 1"],
    rule exI [of _ "[NoteUse ([], 9) (ServerClientId 1), NoteUse ([], 8) (ServerClientId 2)]"])
    (simp add: max_satellite_spawns_def)

end
