(* ===== verification/Record_Ring.thy ===== *)
theory Record_Ring
  imports Prelude
begin

text \<open>
  The bounded log of an agent session, \<open>RecordRing\<close> of \<open>phux-server/src/resource/agent_session/ring.rs\<close>:
  a queue of records pruned from its oldest end by total size. Sizes and counts saturate at the
  machine width, written out.
\<close>

section \<open>Definitions\<close>

definition saturating_add64 :: "nat \<Rightarrow> nat \<Rightarrow> nat" where
  "saturating_add64 a b = min (a + b) (2 ^ 64 - 1)"

record record_ring =
  ring_records :: "bytes list"
  ring_bytes :: nat
  ring_ceiling :: nat
  ring_dropped :: nat

definition ring_new :: "nat \<Rightarrow> record_ring" where
  "ring_new ceiling = \<lparr>ring_records = [], ring_bytes = 0, ring_ceiling = ceiling, ring_dropped = 0\<rparr>"

function ring_evict :: "record_ring \<Rightarrow> record_ring" where
  "ring_evict r =
     (if ring_ceiling r < ring_bytes r \<and> 1 < length (ring_records r)
      then ring_evict (r\<lparr>ring_records := tl (ring_records r),
             ring_bytes := ring_bytes r - length (hd (ring_records r)),
             ring_dropped := saturating_add64 (ring_dropped r) 1\<rparr>)
      else r)"
  by pat_completeness auto

termination ring_evict
  by (relation "measure (\<lambda>r. length (ring_records r))") auto

declare ring_evict.simps [simp del]

definition ring_push :: "record_ring \<Rightarrow> bytes \<Rightarrow> record_ring" where
  "ring_push r record =
     ring_evict (r\<lparr>ring_bytes := saturating_add64 (ring_bytes r) (length record),
       ring_records := ring_records r @ [record]\<rparr>)"

section \<open>The ring is the newest window of the log\<close>

definition total_bytes :: "bytes list \<Rightarrow> nat" where
  "total_bytes rs = sum_list (map length rs)"

lemma total_bytes_simps [simp]:
  "total_bytes [] = 0" "total_bytes (r # rs) = length r + total_bytes rs"
  "total_bytes (rs @ qs) = total_bytes rs + total_bytes qs"
  by (simp_all add: total_bytes_def)

text \<open>The ring after the log \<open>old @ records\<close>, of which \<open>old\<close> has been dropped.\<close>

definition ring_shows :: "record_ring \<Rightarrow> nat \<Rightarrow> bytes list \<Rightarrow> bool" where
  "ring_shows r c old \<longleftrightarrow> ring_ceiling r = c \<and> ring_bytes r = total_bytes (ring_records r) \<and> ring_dropped r = length old
     \<and> (old \<noteq> [] \<longrightarrow> ring_records r \<noteq> [] \<and> c < length (last old) + total_bytes (ring_records r))"

lemma evict_shows:
  assumes "ring_shows r c old" "length old + length (ring_records r) < 2 ^ 64"
  shows "\<exists>old'. ring_shows (ring_evict r) c (old @ old') \<and> ring_records r = old' @ ring_records (ring_evict r)
    \<and> (ring_bytes (ring_evict r) \<le> c \<or> length (ring_records (ring_evict r)) \<le> 1)"
  using assms
proof (induction r arbitrary: old rule: ring_evict.induct)
  case (1 r)
  show ?case
  proof (cases "ring_ceiling r < ring_bytes r \<and> 1 < length (ring_records r)")
    case True
    then obtain x q qs where xs: "ring_records r = x # q # qs" by (cases "ring_records r" rule: remdups_adj.cases) auto
    let ?r = "r\<lparr>ring_records := tl (ring_records r), ring_bytes := ring_bytes r - length (hd (ring_records r)),
             ring_dropped := saturating_add64 (ring_dropped r) 1\<rparr>"
    have "ring_shows ?r c (old @ [x])" "length (old @ [x]) + length (ring_records ?r) < 2 ^ 64"
      using 1(2,3) True xs by (auto simp: ring_shows_def saturating_add64_def min_def)
    from 1(1) [OF True this] obtain old' where ih: "ring_shows (ring_evict ?r) c ((old @ [x]) @ old')"
      "ring_records ?r = old' @ ring_records (ring_evict ?r)"
      "ring_bytes (ring_evict ?r) \<le> c \<or> length (ring_records (ring_evict ?r)) \<le> 1" by blast
    have "ring_evict r = ring_evict ?r" using True by (subst ring_evict.simps) simp
    with ih xs show ?thesis by (intro exI [of _ "x # old'"]) simp
  next
    case False
    then have "ring_evict r = r" by (subst ring_evict.simps) auto
    with False 1(2) show ?thesis by (intro exI [of _ "[]"]) (auto simp: ring_shows_def)
  qed
qed

lemma push_shows:
  assumes "ring_shows r c old" "total_bytes (ring_records r) + length record < 2 ^ 64"
    "length old + length (ring_records r) + 1 < 2 ^ 64"
  shows "\<exists>old'. ring_shows (ring_push r record) c (old @ old') \<and> ring_records r @ [record] = old' @ ring_records (ring_push r record)
    \<and> ring_records (ring_push r record) \<noteq> []
    \<and> (ring_bytes (ring_push r record) \<le> c \<or> length (ring_records (ring_push r record)) \<le> 1)"
proof -
  let ?r = "r\<lparr>ring_bytes := saturating_add64 (ring_bytes r) (length record), ring_records := ring_records r @ [record]\<rparr>"
  have "ring_shows ?r c old" using assms by (auto simp: ring_shows_def saturating_add64_def)
  then obtain old' where e: "ring_shows (ring_evict ?r) c (old @ old')" "ring_records ?r = old' @ ring_records (ring_evict ?r)"
    "ring_bytes (ring_evict ?r) \<le> c \<or> length (ring_records (ring_evict ?r)) \<le> 1"
    using evict_shows [of ?r c old] assms(3) by auto
  have "ring_records (ring_evict ?r) \<noteq> []"
  proof
    assume n: "ring_records (ring_evict ?r) = []"
    then have "old' \<noteq> []" using e(2) by auto
    with e(1) n show False by (auto simp: ring_shows_def)
  qed
  with e show ?thesis by (intro exI [of _ old']) (simp add: ring_push_def)
qed

text \<open>
  C36. The agent log is a faithful window of everything that was pushed: what it retains is the
  newest part of the log, whole records in order; the count it reports is exactly the number of
  records lost; it stays under its ceiling unless the newest record alone exceeds it; the newest
  record is always there; and one record more would not have fitted.
\<close>

theorem ring_is_newest_window:
  assumes "total_bytes rs < 2 ^ 64" "length rs < 2 ^ 64"
    and "r = foldl ring_push (ring_new c) rs"
  shows "\<exists>old. rs = old @ ring_records r \<and> ring_dropped r = length old
    \<and> ring_bytes r = total_bytes (ring_records r)
    \<and> (rs \<noteq> [] \<longrightarrow> ring_records r \<noteq> [])
    \<and> (ring_bytes r \<le> c \<or> length (ring_records r) = 1)
    \<and> (old \<noteq> [] \<longrightarrow> c < length (last old) + total_bytes (ring_records r))"
proof -
  have "\<exists>old. rs = old @ ring_records (foldl ring_push (ring_new c) rs) \<and> ring_shows (foldl ring_push (ring_new c) rs) c old
    \<and> (rs \<noteq> [] \<longrightarrow> ring_records (foldl ring_push (ring_new c) rs) \<noteq> [])
    \<and> (ring_bytes (foldl ring_push (ring_new c) rs) \<le> c \<or> length (ring_records (foldl ring_push (ring_new c) rs)) = 1)"
    using assms(1,2)
  proof (induction rs rule: rev_induct)
    case Nil
    then show ?case by (simp add: ring_new_def ring_shows_def)
  next
    case (snoc x rs)
    let ?r = "foldl ring_push (ring_new c) rs"
    from snoc obtain old where old: "rs = old @ ring_records ?r" "ring_shows ?r c old" by auto
    have "total_bytes (ring_records ?r) \<le> total_bytes rs" "length rs = length old + length (ring_records ?r)"
      by (subst (2) old(1), simp) (subst old(1), simp)
    with snoc.prems push_shows [OF old(2), of x] obtain old' where
      p: "ring_shows (ring_push ?r x) c (old @ old')" "ring_records ?r @ [x] = old' @ ring_records (ring_push ?r x)"
      "ring_records (ring_push ?r x) \<noteq> []" "ring_bytes (ring_push ?r x) \<le> c \<or> length (ring_records (ring_push ?r x)) \<le> 1" by auto
    have f: "foldl ring_push (ring_new c) (rs @ [x]) = ring_push ?r x" by simp
    have "rs @ [x] = (old @ old') @ ring_records (ring_push ?r x)" using p(2) old(1) by (metis append.assoc)
    moreover have "ring_bytes (ring_push ?r x) \<le> c \<or> length (ring_records (ring_push ?r x)) = 1"
      using p(3,4) by (cases "ring_records (ring_push ?r x)") simp_all
    ultimately show ?case unfolding f using p(1,3) by blast
  qed
  then show ?thesis unfolding assms(3) ring_shows_def by blast
qed

theorem ring_is_newest_window_witness:
  "\<exists>old. [[1, 2], [3], [4, 5], [6]] = old @ ring_records (foldl ring_push (ring_new 3) [[1, 2], [3], [4, 5], [6]])
    \<and> ring_dropped (foldl ring_push (ring_new 3) [[1, 2], [3], [4, 5], [6]]) = length old \<and> length old = 2"
proof -
  have "ring_records (foldl ring_push (ring_new 3) [[1, 2], [3], [4, 5], [6]]) = [[4, 5], [6]]"
    by (simp add: ring_push_def ring_new_def ring_evict.simps saturating_add64_def)
  then show ?thesis
    using ring_is_newest_window [where rs = "[[1, 2], [3], [4, 5], [6]]" and c = 3, OF _ _ refl] by auto
qed

end
