(* ===== verification/Ack_Input.thy ===== *)
theory Ack_Input
  imports Input_Lease Wire_Frame_Props "HOL-Library.Product_Lexorder"
begin

text \<open>
  Acknowledged input: \<open>phux-server/src/runtime/input_lane/acknowledged.rs\<close> and the part of
  \<open>input_lane/mod.rs\<close> it serves. A client's \<open>APPLY_INPUT\<close> is admitted if its terminal has no
  unresolved operation, queued on the lane, deduplicated by operation id, encoded, registered with
  the completion waiter and handed to the pane; the waiter answers with the writer's verdict or, past
  a deadline, with "delivery unknown". Clients, lane, waiter and writer run concurrently; a step of the
  model is what one of them does under one lock or on one channel. Time is in nanoseconds.
\<close>

type_synonym instant = nat

definition dedupe_max_entries :: nat where
  "dedupe_max_entries = 65536"

definition dedupe_retention :: nat where
  "dedupe_retention = 10 * 60 * 10 ^ 9"

definition acknowledged_completion_timeout :: nat where
  "acknowledged_completion_timeout = 5 * 10 ^ 9"

definition input_lane_capacity :: nat where
  "input_lane_capacity = 1024"

section \<open>Admission\<close>

record reservation =
  rv_terminal :: wire_resource_id
  rv_admitted_at :: instant

definition try_acquire :: "wire_resource_id set \<Rightarrow> wire_resource_id \<Rightarrow> instant \<Rightarrow> (reservation \<times> wire_resource_id set) option" where
  "try_acquire in_flight t now =
     (if t \<in> in_flight then None
      else Some (\<lparr>rv_terminal = t, rv_admitted_at = now\<rparr>, insert t in_flight))"

definition drop_reservation :: "wire_resource_id set \<Rightarrow> reservation \<Rightarrow> wire_resource_id set" where
  "drop_reservation in_flight rv = in_flight - {rv_terminal rv}"

section \<open>Dedupe record\<close>

record cached_operation =
  co_digest :: bytes
  co_result :: "command_result option"
  co_inserted_at :: instant

datatype cache_binding = BindNew | BindPending | BindFinal command_result | BindConflict | BindFull

record operation_cache =
  oc_entries :: "input_operation_id \<rightharpoonup> cached_operation"
  oc_expiry :: "(instant \<times> input_operation_id) list"

fun prune_loop :: "instant \<Rightarrow> (instant \<times> input_operation_id) list \<Rightarrow> (input_operation_id \<rightharpoonup> cached_operation)
    \<Rightarrow> (instant \<times> input_operation_id) list \<times> (input_operation_id \<rightharpoonup> cached_operation)" where
  "prune_loop now [] es = ([], es)"
| "prune_loop now ((t, op) # q) es =
     (if dedupe_retention \<le> now - t
      then prune_loop now q
             (case es op of
                Some e \<Rightarrow> if co_inserted_at e = t then es(op := None) else es
              | None \<Rightarrow> es)
      else ((t, op) # q, es))"

definition prune_expired :: "operation_cache \<Rightarrow> instant \<Rightarrow> operation_cache" where
  "prune_expired c now =
     (let (q, es) = prune_loop now (oc_expiry c) (oc_entries c) in c\<lparr>oc_expiry := q, oc_entries := es\<rparr>)"

definition bind_at :: "operation_cache \<Rightarrow> input_operation_id \<Rightarrow> bytes \<Rightarrow> instant \<Rightarrow> cache_binding \<times> operation_cache" where
  "bind_at c0 op digest admitted_at =
     (let c = prune_expired c0 admitted_at
      in case oc_entries c op of
           Some cached \<Rightarrow>
             (if co_digest cached \<noteq> digest then BindConflict
              else case co_result cached of None \<Rightarrow> BindPending | Some r \<Rightarrow> BindFinal r, c)
         | None \<Rightarrow>
             if dedupe_max_entries \<le> card (dom (oc_entries c)) then (BindFull, c)
             else (BindNew, c\<lparr>oc_entries := (oc_entries c)(op \<mapsto>
                      \<lparr>co_digest = digest, co_result = None, co_inserted_at = admitted_at\<rparr>),
                    oc_expiry := oc_expiry c @ [(admitted_at, op)]\<rparr>))"

definition set_final :: "operation_cache \<Rightarrow> input_operation_id \<Rightarrow> command_result \<Rightarrow> operation_cache" where
  "set_final c op r =
     (case oc_entries c op of
        Some cached \<Rightarrow> c\<lparr>oc_entries := (oc_entries c)(op \<mapsto> cached\<lparr>co_result := Some r\<rparr>)\<rparr>
      | None \<Rightarrow> c)"

text \<open>SHA-256 is an argument.\<close>

definition operation_digest :: "(bytes \<Rightarrow> bytes) \<Rightarrow> externs \<Rightarrow> input_operation_id \<Rightarrow> wire_resource_id
    \<Rightarrow> input_event list \<Rightarrow> bytes" where
  "operation_digest sha ext op t events = sha (encode ext (CommandFrame 0 (CmdApplyInput op t events)))"

section \<open>Completion waiter\<close>

definition next_ticket :: "u64 \<Rightarrow> u64" where
  "next_ticket n = n + 1"

record pending_completion =
  pc_ticket :: u64
  pc_operation :: input_operation_id
  pc_deadline :: instant
  pc_reservation :: reservation
  pc_reply :: nat

datatype write_completion = Delivered | Failed | CanonicalLimitExceeded nat | NotWritten

text \<open>
  Releasing a terminal, recording a result and answering a caller take three locks in turn, so the
  thread that does them carries them as actions still to be done. A reply channel is the number of
  the call that waits on it.
\<close>

datatype ack_action =
    SetFinal input_operation_id command_result
  | Release reservation
  | Reply nat command_result

definition resolve_without_writer :: "pending_completion \<Rightarrow> command_result \<Rightarrow> ack_action list" where
  "resolve_without_writer p r = [Release (pc_reservation p), Reply (pc_reply p) r]"

definition finalize :: "pending_completion \<Rightarrow> command_result \<Rightarrow> ack_action list" where
  "finalize p r = [SetFinal (pc_operation p) r, Release (pc_reservation p), Reply (pc_reply p) r]"

datatype waiter_message =
    Registered pending_completion
  | Completed u64 write_completion
  | Abandoned u64 command_result
  | Shutdown

definition delivery_unknown :: command_result where
  "delivery_unknown = ResError EcInputDeliveryUnknown (ascii ''PTY input delivery could not be confirmed'')"

definition not_written :: command_result where
  "not_written = ResError EcInputNotWritten
     (ascii ''PTY input was not written; the pane's writer never received it'')"

definition completion_result :: "write_completion \<Rightarrow> command_result" where
  "completion_result outcome = (case outcome of
     Delivered \<Rightarrow> ResOk
   | CanonicalLimitExceeded limit \<Rightarrow> ResError EcCanonicalLimitExceeded
       (ascii ''the pane is in canonical (cooked) mode and this batch's encoded PTY bytes contain a line longer than ''
        @ to_radix 10 limit
        @ ascii '' bytes with no line terminator; split it into newline-terminated lines, or have the pane enter raw mode (e.g. run a program that disables ICANON) before sending it'')
   | Failed \<Rightarrow> delivery_unknown
   | NotWritten \<Rightarrow> not_written)"

text \<open>The tree set of deadlines is its ascending list.\<close>

record pending_set =
  ps_by_ticket :: "u64 \<rightharpoonup> pending_completion"
  ps_by_deadline :: "(instant \<times> u64) list"

definition pending_insert :: "pending_set \<Rightarrow> pending_completion \<Rightarrow> pending_set" where
  "pending_insert ps p = ps\<lparr>ps_by_deadline := insort_insert (pc_deadline p, pc_ticket p) (ps_by_deadline ps),
     ps_by_ticket := (ps_by_ticket ps)(pc_ticket p \<mapsto> p)\<rparr>"

definition pending_take :: "pending_set \<Rightarrow> u64 \<Rightarrow> (pending_completion \<times> pending_set) option" where
  "pending_take ps t =
     (case ps_by_ticket ps t of
        None \<Rightarrow> None
      | Some p \<Rightarrow> Some (p, ps\<lparr>ps_by_ticket := (ps_by_ticket ps)(t := None),
                            ps_by_deadline := removeAll (pc_deadline p, t) (ps_by_deadline ps)\<rparr>))"

definition next_deadline :: "pending_set \<Rightarrow> instant option" where
  "next_deadline ps = map_option fst (first (ps_by_deadline ps))"

fun expire_loop :: "instant \<Rightarrow> (instant \<times> u64) list \<Rightarrow> (u64 \<rightharpoonup> pending_completion)
    \<Rightarrow> pending_completion list \<times> (instant \<times> u64) list \<times> (u64 \<rightharpoonup> pending_completion)" where
  "expire_loop now [] bt = ([], [], bt)"
| "expire_loop now ((d, t) # ds) bt =
     (if now < d then ([], (d, t) # ds, bt)
      else let (expired, rest) = expire_loop now ds (bt(t := None))
           in ((case bt t of Some p \<Rightarrow> p # expired | None \<Rightarrow> expired), rest))"

definition take_expired :: "pending_set \<Rightarrow> instant \<Rightarrow> pending_completion list \<times> pending_set" where
  "take_expired ps now =
     (let (expired, ds, bt) = expire_loop now (ps_by_deadline ps) (ps_by_ticket ps)
      in (expired, ps\<lparr>ps_by_deadline := ds, ps_by_ticket := bt\<rparr>))"

text \<open>
  One round of \<open>run_waiter\<close>, from the message it received (none when the wait timed out): what it
  does next, the operations that stay pending, and whether it goes on.
\<close>

definition run_waiter_round :: "instant \<Rightarrow> waiter_message option \<Rightarrow> pending_set \<Rightarrow> ack_action list \<times> pending_set \<times> bool" where
  "run_waiter_round now message0 ps0 =
     (let (expired, ps) = take_expired ps0 now;
          acts = concat (map (\<lambda>p. finalize p delivery_unknown) expired)
      in case message0 of
           None \<Rightarrow> (acts, ps, True)
         | Some Shutdown \<Rightarrow> (acts, ps, False)
         | Some (Registered p) \<Rightarrow> (acts, pending_insert ps p, True)
         | Some (Completed t outcome) \<Rightarrow>
             (case pending_take ps t of
                Some (p, ps') \<Rightarrow> (acts @ finalize p (completion_result outcome), ps', True)
              | None \<Rightarrow> (acts, ps, True))
         | Some (Abandoned t r) \<Rightarrow>
             (case pending_take ps t of
                Some (p, ps') \<Rightarrow> (acts @ resolve_without_writer p r, ps', True)
              | None \<Rightarrow> (acts, ps, True)))"

text \<open>An instant is a signed 64-bit number of seconds and nanoseconds.\<close>

definition deadline_from :: "instant \<Rightarrow> nat \<Rightarrow> instant" where
  "deadline_from now timeout = (if now + timeout < 2 ^ 63 * 10 ^ 9 then now + timeout else now)"

section \<open>Where input goes\<close>

text \<open>
  The server state the lane consults under the state lock: the wire ids, the input leases and the
  handles of the resources. A terminal's handle names its snapshot channel, which tells one
  incarnation of the pane's actor from the next, and the state its mailbox is in.
\<close>

datatype mailbox = MailboxReady | MailboxFull | MailboxClosed

record terminal_handle =
  th_channel :: nat
  th_mailbox :: mailbox

datatype resource_handle = TerminalFacet terminal_handle | AgentSessionFacet

record server_view =
  sv_ids :: id_space
  sv_leases :: "nat lease_table"
  sv_handles :: "resource_id \<rightharpoonup> resource_handle"

datatype resolved = ResolvedLocal resource_id resource_handle | ResolvedRemote str u32 | ResolvedUnknown

definition resolve_resource :: "server_view \<Rightarrow> wire_resource_id \<Rightarrow> resolved" where
  "resolve_resource sv wire = (case wire of
     Satellite host i \<Rightarrow> ResolvedRemote host i
   | Local _ \<Rightarrow>
       (case terminal_from_wire (sv_ids sv) wire of
          None \<Rightarrow> ResolvedUnknown
        | Some i \<Rightarrow>
            (case sv_handles sv i of
               None \<Rightarrow> ResolvedUnknown
             | Some h \<Rightarrow> ResolvedLocal i h)))"

text \<open>The text Rust derives for printing a terminal id in a message is an argument.\<close>

definition with_route_input_destination :: "(wire_resource_id \<Rightarrow> str) \<Rightarrow> server_view \<Rightarrow> server_client_id
    \<Rightarrow> wire_resource_id \<Rightarrow> command_result + resource_id \<times> terminal_handle" where
  "with_route_input_destination debug sv client t = (case resolve_resource sv t of
     ResolvedRemote _ _ \<Rightarrow> Err (ResError EcUnsupportedSatelliteRoute
       (ascii ''ROUTE_INPUT to satellite route unsupported: '' @ debug t))
   | ResolvedUnknown \<Rightarrow> Err (ResError EcTerminalNotFound (ascii ''no such terminal: '' @ debug t))
   | ResolvedLocal pane h \<Rightarrow>
       if lease_blocked (sv_leases sv) pane client
       then Err (ResError EcInputLeaseHeld (ascii ''input lease held by another client''))
       else (case h of
               TerminalFacet th \<Rightarrow> Ok (pane, th)
             | AgentSessionFacet \<Rightarrow> Err (ResError EcWrongResourceKind
                 (ascii ''resource is agent_session, operation requires terminal''))))"

section \<open>Preparing a batch\<close>

definition invalid_command :: "string \<Rightarrow> command_result" where
  "invalid_command msg = ResError EcInvalidCommand (ascii msg)"

definition acknowledged_resource_exhausted :: "string \<Rightarrow> command_result" where
  "acknowledged_resource_exhausted msg = ResError EcResourceExhausted (ascii msg)"

definition acknowledged_not_written :: "string \<Rightarrow> command_result" where
  "acknowledged_not_written msg = ResError EcInputNotWritten (ascii msg)"

text \<open>
  The terminal library's encoders are arguments: whether the pane's set of encoders can be built,
  which pastes are unsafe, and what an event encodes to after the events before it (an error, nothing
  to write, or bytes).
\<close>

record encoders =
  en_available :: bool
  en_would_reject :: "paste_event \<Rightarrow> bool"
  en_encode :: "input_event list \<Rightarrow> input_event \<Rightarrow> bytes option option"

record prepared_batch =
  pb_pane :: resource_id
  pb_handle :: terminal_handle
  pb_bytes :: bytes

fun encode_batch :: "encoders \<Rightarrow> input_event list \<Rightarrow> input_event list \<Rightarrow> bytes \<Rightarrow> command_result + bytes" where
  "encode_batch en seen [] bytes = Ok bytes"
| "encode_batch en seen (i # inputs) bytes = (case en_encode en seen i of
     Some (Some event_bytes) \<Rightarrow>
       if max_apply_input_command_body < length bytes + length event_bytes
       then Err (invalid_command ''APPLY_INPUT encoded PTY bytes exceed 64 KiB'')
       else encode_batch en (seen @ [i]) inputs (bytes @ event_bytes)
   | Some None \<Rightarrow> encode_batch en (seen @ [i]) inputs bytes
   | None \<Rightarrow> Err (invalid_command ''APPLY_INPUT event encoding failed''))"

definition encode_checked :: "encoders \<Rightarrow> resource_id \<Rightarrow> terminal_handle \<Rightarrow> input_event list \<Rightarrow> command_result + prepared_batch" where
  "encode_checked en pane th inputs =
     (if \<not> en_available en then Err (invalid_command ''APPLY_INPUT encoder unavailable'')
      else if list_ex (\<lambda>i. case i of InputEventPaste e \<Rightarrow> en_would_reject en e | _ \<Rightarrow> False) inputs
      then Err (ResError EcUnsafePaste (ascii ''APPLY_INPUT batch contains an unsafe paste''))
      else rbind (encode_batch en [] inputs []) (\<lambda>bs.
        Ok \<lparr>pb_pane = pane, pb_handle = th, pb_bytes = bs\<rparr>))"

definition prepare_acknowledged_batch :: "(bytes \<Rightarrow> bytes) \<Rightarrow> externs \<Rightarrow> (wire_resource_id \<Rightarrow> str) \<Rightarrow> server_view
    \<Rightarrow> encoders \<Rightarrow> operation_cache \<Rightarrow> server_client_id \<Rightarrow> input_operation_id \<Rightarrow> wire_resource_id
    \<Rightarrow> input_event list \<Rightarrow> instant \<Rightarrow> (command_result + prepared_batch) \<times> operation_cache" where
  "prepare_acknowledged_batch sha ext debug sv en cache client op t events admitted_at =
     (if events = [] \<or> max_apply_input_events < length events
      then (Err (invalid_command ''APPLY_INPUT requires 1..=256 events''), cache)
      else let (binding, cache') = bind_at cache op (operation_digest sha ext op t events) admitted_at
           in (case binding of
                 BindFinal r \<Rightarrow> Err r
               | BindConflict \<Rightarrow> Err (invalid_command ''APPLY_INPUT operation id reused with a different payload'')
               | BindFull \<Rightarrow> Err (acknowledged_resource_exhausted ''acknowledged-input dedupe cache is full'')
               | _ \<Rightarrow> rbind (with_route_input_destination debug sv client t) (\<lambda>(pane, th).
                         encode_checked en pane th events),
               cache'))"

section \<open>The lane\<close>

text \<open>
  A queued operation, and where the lane stands with the one it is processing: it has to release
  and answer, it has prepared the batch, it has registered it, or it has to tell the waiter that it
  gave up. The bracket of \<open>LanePrepared\<close> and \<open>LaneRegistered\<close> also notes when the operation id was
  bound; only the statements use it.
\<close>

record routed_operation =
  ro_client :: server_client_id
  ro_terminal :: wire_resource_id
  ro_operation :: input_operation_id
  ro_events :: "input_event list"
  ro_reservation :: reservation
  ro_reply :: nat

datatype routed_input = OtherInput | Acknowledged routed_operation

datatype lane_state =
    LaneIdle
  | LaneActs "ack_action list"
  | LanePrepared routed_operation u64 prepared_batch instant
  | LaneRegistered routed_operation u64 prepared_batch instant
  | LaneAbandon u64 command_result

text \<open>What was handed to a pane, in order; only the statements use it.\<close>

record handoff =
  hd_job :: routed_operation
  hd_ticket :: u64
  hd_bytes :: bytes
  hd_pane :: resource_id
  hd_bound_at :: instant

record ack_state =
  as_now :: instant
  as_in_flight :: "wire_resource_id set"
  as_lane :: "routed_input list"
  as_pc :: lane_state
  as_cache :: operation_cache
  as_tickets :: u64
  as_chan :: "waiter_message list"
  as_pending :: pending_set
  as_todo :: "ack_action list"
  as_waiter_up :: bool
  as_open :: bool
  as_sinks :: "u64 list"
  as_calls :: nat
  as_answers :: "(nat \<times> command_result) list"
  as_submitted :: "(input_operation_id \<times> wire_resource_id \<times> input_event list) list"
  as_minted :: nat
  as_handed :: "handoff list"

definition ack_start :: ack_state where
  "ack_start = \<lparr>as_now = 0, as_in_flight = {}, as_lane = [], as_pc = LaneIdle,
     as_cache = \<lparr>oc_entries = Map.empty, oc_expiry = []\<rparr>, as_tickets = 0, as_chan = [],
     as_pending = \<lparr>ps_by_ticket = Map.empty, ps_by_deadline = []\<rparr>, as_todo = [], as_waiter_up = True,
     as_open = True, as_sinks = [], as_calls = 0, as_answers = [], as_submitted = [], as_minted = 0,
     as_handed = []\<rparr>"

text \<open>A call of a client: admission and the try-send, with nothing in between on the one runtime thread.\<close>

definition apply_input :: "ack_state \<Rightarrow> server_client_id \<Rightarrow> input_operation_id \<Rightarrow> wire_resource_id
    \<Rightarrow> input_event list \<Rightarrow> ack_state" where
  "apply_input st0 client op t events =
     (let st = st0\<lparr>as_calls := Suc (as_calls st0)\<rparr>;
          answer = (\<lambda>r. st\<lparr>as_answers := as_answers st @ [(as_calls st0, r)]\<rparr>)
      in case try_acquire (as_in_flight st) t (as_now st) of
           None \<Rightarrow> answer (acknowledged_resource_exhausted
             ''another APPLY_INPUT operation is in flight for this terminal'')
         | Some (rv, fl) \<Rightarrow>
             if \<not> as_open st then answer (acknowledged_not_written ''input lane unavailable for APPLY_INPUT'')
             else if input_lane_capacity \<le> length (as_lane st)
             then answer (acknowledged_resource_exhausted ''input lane queue is full'')
             else st\<lparr>as_in_flight := fl,
               as_lane := as_lane st @ [Acknowledged \<lparr>ro_client = client, ro_terminal = t, ro_operation = op,
                 ro_events = events, ro_reservation = rv, ro_reply = as_calls st0\<rparr>],
               as_submitted := as_submitted st @ [(op, t, events)]\<rparr>)"

definition perform :: "ack_state \<Rightarrow> ack_action \<Rightarrow> ack_state" where
  "perform st a = (case a of
     SetFinal op r \<Rightarrow> st\<lparr>as_cache := set_final (as_cache st) op r\<rparr>
   | Release rv \<Rightarrow> st\<lparr>as_in_flight := drop_reservation (as_in_flight st) rv\<rparr>
   | Reply k r \<Rightarrow> st\<lparr>as_answers := as_answers st @ [(k, r)]\<rparr>)"

text \<open>A message on the waiter's queue; once the waiter has ended nobody receives it.\<close>

definition tell :: "ack_state \<Rightarrow> waiter_message list \<Rightarrow> ack_state" where
  "tell st ms = (if as_waiter_up st then st\<lparr>as_chan := as_chan st @ ms\<rparr> else st)"

text \<open>\<open>process_apply_input\<close>, cut where another thread may come between.\<close>

definition process_prepare :: "(bytes \<Rightarrow> bytes) \<Rightarrow> externs \<Rightarrow> (wire_resource_id \<Rightarrow> str) \<Rightarrow> server_view \<Rightarrow> encoders
    \<Rightarrow> ack_state \<Rightarrow> routed_operation \<Rightarrow> ack_state" where
  "process_prepare sha ext debug sv en st0 j =
     (let ticket = next_ticket (as_tickets st0);
          (prepared, cache) = prepare_acknowledged_batch sha ext debug sv en (as_cache st0) (ro_client j)
            (ro_operation j) (ro_terminal j) (ro_events j) (rv_admitted_at (ro_reservation j));
          st = st0\<lparr>as_tickets := ticket, as_minted := Suc (as_minted st0), as_cache := cache\<rparr>
      in case prepared of
           Inl r \<Rightarrow> st\<lparr>as_pc := LaneActs [Release (ro_reservation j), Reply (ro_reply j) r]\<rparr>
         | Inr b \<Rightarrow> st\<lparr>as_pc := LanePrepared j ticket b
             (case oc_entries cache (ro_operation j) of Some e \<Rightarrow> co_inserted_at e | None \<Rightarrow> 0)\<rparr>)"

definition process_register :: "ack_state \<Rightarrow> routed_operation \<Rightarrow> u64 \<Rightarrow> prepared_batch \<Rightarrow> instant \<Rightarrow> ack_state" where
  "process_register st j ticket b bound_at =
     (let p = \<lparr>pc_ticket = ticket, pc_operation = ro_operation j,
            pc_deadline = deadline_from (as_now st) acknowledged_completion_timeout,
            pc_reservation = ro_reservation j, pc_reply = ro_reply j\<rparr>
      in if as_waiter_up st then (tell st [Registered p])\<lparr>as_pc := LaneRegistered j ticket b bound_at\<rparr>
         else st\<lparr>as_pc := LaneActs (resolve_without_writer p
                (acknowledged_not_written ''acknowledged completion waiter unavailable for APPLY_INPUT''))\<rparr>)"

definition process_handoff :: "(wire_resource_id \<Rightarrow> str) \<Rightarrow> server_view \<Rightarrow> ack_state \<Rightarrow> routed_operation \<Rightarrow> u64
    \<Rightarrow> prepared_batch \<Rightarrow> instant \<Rightarrow> ack_state" where
  "process_handoff debug sv st j ticket b bound_at =
     (let give_up = (\<lambda>r. (tell st [Abandoned ticket r, Completed ticket Failed])\<lparr>as_pc := LaneAbandon ticket r\<rparr>)
      in case with_route_input_destination debug sv (ro_client j) (ro_terminal j) of
           Inl r \<Rightarrow> st\<lparr>as_pc := LaneAbandon ticket r\<rparr>
         | Inr (pane, th) \<Rightarrow>
             if th_channel (pb_handle b) \<noteq> th_channel th
             then st\<lparr>as_pc := LaneAbandon ticket
                    (acknowledged_not_written ''pane actor changed before APPLY_INPUT handoff'')\<rparr>
             else (case th_mailbox th of
                     MailboxReady \<Rightarrow> st\<lparr>as_pc := LaneIdle, as_sinks := ticket # as_sinks st,
                       as_handed := as_handed st @ [\<lparr>hd_job = j, hd_ticket = ticket, hd_bytes = pb_bytes b,
                         hd_pane = pane, hd_bound_at = bound_at\<rparr>]\<rparr>
                   | MailboxFull \<Rightarrow> give_up (acknowledged_resource_exhausted ''pane actor input mailbox is full'')
                   | MailboxClosed \<Rightarrow> give_up (acknowledged_not_written ''pane actor unavailable for APPLY_INPUT'')))"

text \<open>One step of the lane's loop.\<close>

definition lane_ready :: "ack_state \<Rightarrow> bool" where
  "lane_ready st \<longleftrightarrow> as_pc st \<noteq> LaneIdle \<or> as_lane st \<noteq> []"

definition lane_step :: "(bytes \<Rightarrow> bytes) \<Rightarrow> externs \<Rightarrow> (wire_resource_id \<Rightarrow> str) \<Rightarrow> server_view \<Rightarrow> encoders
    \<Rightarrow> ack_state \<Rightarrow> ack_state" where
  "lane_step sha ext debug sv en st = (case as_pc st of
     LaneIdle \<Rightarrow> (case as_lane st of
         [] \<Rightarrow> st
       | OtherInput # q \<Rightarrow> st\<lparr>as_lane := q\<rparr>
       | Acknowledged j # q \<Rightarrow> process_prepare sha ext debug sv en (st\<lparr>as_lane := q\<rparr>) j)
   | LaneActs [] \<Rightarrow> st\<lparr>as_pc := LaneIdle\<rparr>
   | LaneActs (a # as) \<Rightarrow> (perform st a)\<lparr>as_pc := LaneActs as\<rparr>
   | LanePrepared j ticket b bound_at \<Rightarrow> process_register st j ticket b bound_at
   | LaneRegistered j ticket b bound_at \<Rightarrow> process_handoff debug sv st j ticket b bound_at
   | LaneAbandon ticket r \<Rightarrow> (tell st [Abandoned ticket r])\<lparr>as_pc := LaneIdle\<rparr>)"

section \<open>The waiter's thread\<close>

text \<open>
  When the waiter ends, the operations still pending and those still queued are dropped, which
  releases their terminals and closes their reply channels.
\<close>

definition dropped :: "pending_completion \<Rightarrow> ack_action list" where
  "dropped p = resolve_without_writer p
     (ResError EcInternalError (ascii ''input lane stopped before APPLY_INPUT completed''))"

definition pending_list :: "pending_set \<Rightarrow> pending_completion list" where
  "pending_list ps = List.map_filter (\<lambda>(d, t). ps_by_ticket ps t) (ps_by_deadline ps)"

definition registered_in :: "waiter_message list \<Rightarrow> pending_completion list" where
  "registered_in ms = List.map_filter (\<lambda>m. case m of Registered p \<Rightarrow> Some p | _ \<Rightarrow> None) ms"

definition waiter_receive :: "ack_state \<Rightarrow> waiter_message option \<Rightarrow> waiter_message list \<Rightarrow> ack_state" where
  "waiter_receive st m q =
     (let (acts, ps, go) = run_waiter_round (as_now st) m (as_pending st)
      in if go then st\<lparr>as_chan := q, as_pending := ps, as_todo := acts\<rparr>
         else st\<lparr>as_chan := [], as_pending := \<lparr>ps_by_ticket = Map.empty, ps_by_deadline = []\<rparr>,
                 as_todo := acts @ concat (map dropped (pending_list ps @ registered_in q)), as_waiter_up := False\<rparr>)"

definition deadline_passed :: "ack_state \<Rightarrow> bool" where
  "deadline_passed st \<longleftrightarrow> (case next_deadline (as_pending st) of Some d \<Rightarrow> d \<le> as_now st | None \<Rightarrow> False)"

definition waiter_ready :: "ack_state \<Rightarrow> bool" where
  "waiter_ready st \<longleftrightarrow> as_todo st \<noteq> [] \<or> as_waiter_up st \<and> (as_chan st \<noteq> [] \<or> deadline_passed st)"

section \<open>The threads together\<close>

text \<open>
  What may happen next, and who does it. The command a client task submits came out of the wire
  decoder, so it is well formed. The lane and the waiter meet any state of the
  server, any behaviour of the encoders and any outcome the pane's writer reports; a report comes
  once for each batch handed to a pane. The owner closes the lane when no task is left to use it and
  the lane has run dry, and then tells the waiter to stop.
\<close>

definition well_formed_operation :: "input_operation_id \<Rightarrow> wire_resource_id \<Rightarrow> input_event list \<Rightarrow> bool" where
  "well_formed_operation op t events \<longleftrightarrow> wf_command (CmdApplyInput op t events)"

datatype actor = ClientTask | Clock | LaneThread | WaiterThread | WriterThread | Owner

inductive ack_step :: "(bytes \<Rightarrow> bytes) \<Rightarrow> externs \<Rightarrow> (wire_resource_id \<Rightarrow> str) \<Rightarrow> actor \<Rightarrow> ack_state \<Rightarrow> ack_state \<Rightarrow> bool"
  for sha ext debug where
  submit: "as_open st \<Longrightarrow> well_formed_operation op t events \<Longrightarrow>
     ack_step sha ext debug ClientTask st (apply_input st client op t events)"
| other: "as_open st \<Longrightarrow> length (as_lane st) < input_lane_capacity \<Longrightarrow>
     ack_step sha ext debug ClientTask st (st\<lparr>as_lane := as_lane st @ [OtherInput]\<rparr>)"
| tick: "as_now st \<le> n \<Longrightarrow> ack_step sha ext debug Clock st (st\<lparr>as_now := n\<rparr>)"
| lane: "lane_ready st \<Longrightarrow> ack_step sha ext debug LaneThread st (lane_step sha ext debug sv en st)"
| act: "as_todo st = a # acts \<Longrightarrow> ack_step sha ext debug WaiterThread st ((perform st a)\<lparr>as_todo := acts\<rparr>)"
| receive: "as_todo st = [] \<Longrightarrow> as_waiter_up st \<Longrightarrow> as_chan st = m # q \<Longrightarrow>
     ack_step sha ext debug WaiterThread st (waiter_receive st (Some m) q)"
| timeout: "as_todo st = [] \<Longrightarrow> as_waiter_up st \<Longrightarrow> deadline_passed st \<Longrightarrow>
     ack_step sha ext debug WaiterThread st (waiter_receive st None (as_chan st))"
| report: "t \<in> set (as_sinks st) \<Longrightarrow>
     ack_step sha ext debug WriterThread st ((tell st [Completed t outcome])\<lparr>as_sinks := remove1 t (as_sinks st)\<rparr>)"
| close: "as_open st \<Longrightarrow> as_pc st = LaneIdle \<Longrightarrow> as_lane st = [] \<Longrightarrow>
     ack_step sha ext debug Owner st ((tell st [Shutdown])\<lparr>as_open := False\<rparr>)"

inductive ack_reach :: "(bytes \<Rightarrow> bytes) \<Rightarrow> externs \<Rightarrow> (wire_resource_id \<Rightarrow> str) \<Rightarrow> ack_state \<Rightarrow> bool"
  for sha ext debug where
  start: "ack_reach sha ext debug ack_start"
| more: "ack_reach sha ext debug st \<Longrightarrow> ack_step sha ext debug who st st' \<Longrightarrow> ack_reach sha ext debug st'"

end
