(* ===== verification/Ack_Pending.thy ===== *)
theory Ack_Pending
  imports Ack_Input "HOL-Library.Multiset"
begin

text \<open>
  The waiter's set of pending operations: its two indices agree, and inserting, taking and expiring
  move operations in and out of it without losing one.
\<close>

definition wf_pending :: "pending_set \<Rightarrow> bool" where
  "wf_pending ps \<longleftrightarrow> sorted (ps_by_deadline ps) \<and> distinct (map snd (ps_by_deadline ps))
     \<and> (\<forall>d t. (d, t) \<in> set (ps_by_deadline ps) \<longleftrightarrow>
          (\<exists>p. ps_by_ticket ps t = Some p \<and> pc_ticket p = t \<and> pc_deadline p = d))
     \<and> (\<forall>t p. ps_by_ticket ps t = Some p \<longrightarrow> pc_ticket p = t)"

lemma wf_pending_ticket:
  "wf_pending ps \<Longrightarrow> ps_by_ticket ps t = Some p \<Longrightarrow> pc_ticket p = t \<and> (pc_deadline p, t) \<in> set (ps_by_deadline ps)"
  unfolding wf_pending_def by blast

lemma wf_pending_deadline:
  assumes "wf_pending ps" and "(d, t) \<in> set (ps_by_deadline ps)"
  obtains p where "ps_by_ticket ps t = Some p" "pc_ticket p = t" "pc_deadline p = d"
  using assms unfolding wf_pending_def by blast

lemma wf_pending_order: "wf_pending ps \<Longrightarrow> sorted (ps_by_deadline ps) \<and> distinct (map snd (ps_by_deadline ps))"
  unfolding wf_pending_def by blast

lemma wf_pending_some: "wf_pending ps \<Longrightarrow> \<forall>(d, t) \<in> set (ps_by_deadline ps). ps_by_ticket ps t \<noteq> None"
  by (auto elim: wf_pending_deadline)

lemma wf_pendingI:
  assumes "sorted (ps_by_deadline ps)" and "distinct (map snd (ps_by_deadline ps))"
    and "\<And>t p. ps_by_ticket ps t = Some p \<Longrightarrow> pc_ticket p = t \<and> (pc_deadline p, t) \<in> set (ps_by_deadline ps)"
    and "\<And>d t. (d, t) \<in> set (ps_by_deadline ps) \<Longrightarrow> \<exists>p. ps_by_ticket ps t = Some p \<and> pc_deadline p = d"
  shows "wf_pending ps"
  unfolding wf_pending_def using assms by blast

lemma pending_list_map:
  assumes "\<forall>(d, t) \<in> set ds. bt t \<noteq> None"
  shows "List.map_filter (\<lambda>(d, t). bt t) ds = map (\<lambda>(d, t). the (bt t)) ds"
  using assms by (induction ds) (auto simp: List.map_filter_simps split: option.splits)

lemma pending_list_wf:
  assumes "wf_pending ps"
  shows "pending_list ps = map (\<lambda>(d, t). the (ps_by_ticket ps t)) (ps_by_deadline ps)"
  unfolding pending_list_def by (intro pending_list_map wf_pending_some assms)

lemma pending_tickets:
  assumes "wf_pending ps"
  shows "map pc_ticket (pending_list ps) = map snd (ps_by_deadline ps)"
  unfolding pending_list_wf [OF assms] by (auto elim: wf_pending_deadline [OF assms])

lemma pending_distinct: "wf_pending ps \<Longrightarrow> distinct (map pc_ticket (pending_list ps))"
  using pending_tickets [of ps] wf_pending_order by simp

lemma in_pending_list:
  assumes "wf_pending ps"
  shows "p \<in> set (pending_list ps) \<longleftrightarrow> ps_by_ticket ps (pc_ticket p) = Some p"
proof
  assume "p \<in> set (pending_list ps)"
  then obtain d t where "(d, t) \<in> set (ps_by_deadline ps)" "p = the (ps_by_ticket ps t)"
    unfolding pending_list_wf [OF assms] by auto
  then show "ps_by_ticket ps (pc_ticket p) = Some p" by (auto elim: wf_pending_deadline [OF assms])
next
  assume a: "ps_by_ticket ps (pc_ticket p) = Some p"
  from wf_pending_ticket [OF assms a] a show "p \<in> set (pending_list ps)"
    unfolding pending_list_wf [OF assms] by force
qed

lemma pending_mset:
  assumes "wf_pending ps"
  shows "mset (pending_list ps) = mset_set (ran (ps_by_ticket ps))"
proof -
  have "set (pending_list ps) = ran (ps_by_ticket ps)"
  proof (intro set_eqI iffI)
    fix p assume "p \<in> set (pending_list ps)"
    then show "p \<in> ran (ps_by_ticket ps)" using in_pending_list [OF assms] by (auto intro: ranI)
  next
    fix p assume "p \<in> ran (ps_by_ticket ps)"
    then obtain t where "ps_by_ticket ps t = Some p" by (auto simp: ran_def)
    moreover from this assms have "pc_ticket p = t" by (auto simp: wf_pending_def)
    ultimately show "p \<in> set (pending_list ps)" using in_pending_list [OF assms] by auto
  qed
  moreover have "distinct (pending_list ps)" using pending_distinct [OF assms] by (simp add: distinct_map)
  ultimately show ?thesis by (metis mset_set_set)
qed

lemma wf_pending_empty [simp]: "wf_pending \<lparr>ps_by_ticket = Map.empty, ps_by_deadline = []\<rparr>"
  by (simp add: wf_pending_def)

lemma pending_list_empty [simp]: "pending_list \<lparr>ps_by_ticket = Map.empty, ps_by_deadline = []\<rparr> = []"
  by (simp add: pending_list_def List.map_filter_simps)

lemma distinct_snd_insort: "distinct (map snd (insort x xs)) \<longleftrightarrow> snd x \<notin> snd ` set xs \<and> distinct (map snd xs)"
  by (induction xs) (auto simp: set_insort_key)

lemma finite_ran_pending: "wf_pending ps \<Longrightarrow> finite (ran (ps_by_ticket ps))"
proof (rule finite_ran, rule finite_subset)
  show "wf_pending ps \<Longrightarrow> dom (ps_by_ticket ps) \<subseteq> snd ` set (ps_by_deadline ps)"
    by (auto dest: wf_pending_ticket intro: rev_image_eqI)
qed simp

lemma wf_pending_insert:
  assumes wf: "wf_pending ps" and new: "ps_by_ticket ps (pc_ticket p) = None"
  shows "wf_pending (pending_insert ps p)"
    and "mset (pending_list (pending_insert ps p)) = add_mset p (mset (pending_list ps))"
proof -
  have fresh: "pc_ticket p \<notin> snd ` set (ps_by_deadline ps)"
    using wf_pending_some [OF wf] new by auto
  then have "(pc_deadline p, pc_ticket p) \<notin> set (ps_by_deadline ps)" by force
  then have ins: "ps_by_deadline (pending_insert ps p) = insort (pc_deadline p, pc_ticket p) (ps_by_deadline ps)"
    by (simp add: pending_insert_def insort_insert_insort)
  have bt: "ps_by_ticket (pending_insert ps p) = (ps_by_ticket ps)(pc_ticket p \<mapsto> p)" by (simp add: pending_insert_def)
  show w: "wf_pending (pending_insert ps p)"
  proof (rule wf_pendingI; unfold ins bt)
    show "sorted (insort (pc_deadline p, pc_ticket p) (ps_by_deadline ps))"
      using wf_pending_order [OF wf] by (simp add: sorted_insort)
    show "distinct (map snd (insort (pc_deadline p, pc_ticket p) (ps_by_deadline ps)))"
      using wf_pending_order [OF wf] fresh by (simp add: distinct_snd_insort)
    show "pc_ticket q = t \<and> (pc_deadline q, t) \<in> set (insort (pc_deadline p, pc_ticket p) (ps_by_deadline ps))"
      if "((ps_by_ticket ps)(pc_ticket p \<mapsto> p)) t = Some q" for t q
      using that wf_pending_ticket [OF wf] by (auto simp: set_insort_key split: if_splits)
    show "\<exists>q. ((ps_by_ticket ps)(pc_ticket p \<mapsto> p)) t = Some q \<and> pc_deadline q = d"
      if "(d, t) \<in> set (insort (pc_deadline p, pc_ticket p) (ps_by_deadline ps))" for d t
    proof (cases "t = pc_ticket p")
      case True
      with that fresh show ?thesis by (force simp: set_insort_key)
    next
      case False
      with that have "(d, t) \<in> set (ps_by_deadline ps)" by (simp add: set_insort_key)
      with False show ?thesis by (auto elim: wf_pending_deadline [OF wf])
    qed
  qed
  have "ran (ps_by_ticket (pending_insert ps p)) = insert p (ran (ps_by_ticket ps))"
    using new by (simp add: pending_insert_def)
  moreover have "p \<notin> ran (ps_by_ticket ps)"
    using wf_pending_ticket [OF wf] new by (fastforce simp: ran_def)
  ultimately show "mset (pending_list (pending_insert ps p)) = add_mset p (mset (pending_list ps))"
    by (simp add: pending_mset [OF w] pending_mset [OF wf] finite_ran_pending [OF wf])
qed

lemma pending_by_ticket:
  assumes "wf_pending ps"
  shows "ps_by_ticket ps t = None \<longleftrightarrow> t \<notin> pc_ticket ` set (pending_list ps)"
proof (cases "ps_by_ticket ps t")
  case None
  with in_pending_list [OF assms] show ?thesis by auto
next
  case (Some p)
  with wf_pending_ticket [OF assms Some] in_pending_list [OF assms, of p] show ?thesis by auto
qed

lemma pending_take_none:
  assumes "wf_pending ps"
  shows "pending_take ps t = None \<longleftrightarrow> t \<notin> pc_ticket ` set (pending_list ps)"
  unfolding pending_by_ticket [OF assms, symmetric] by (simp add: pending_take_def option.case_eq_if)

lemma pending_take_some:
  assumes wf: "wf_pending ps" and t: "pending_take ps t = Some (p, ps')"
  shows "wf_pending ps'" and "mset (pending_list ps) = add_mset p (mset (pending_list ps'))"
    and "pc_ticket p = t"
proof -
  have p: "ps_by_ticket ps t = Some p"
    and ps': "ps' = ps\<lparr>ps_by_ticket := (ps_by_ticket ps)(t := None),
       ps_by_deadline := removeAll (pc_deadline p, t) (ps_by_deadline ps)\<rparr>"
    using t by (auto simp: pending_take_def split: option.splits)
  from wf_pending_ticket [OF wf p] show pt: "pc_ticket p = t" by simp
  have bt: "ps_by_ticket ps' = (ps_by_ticket ps)(t := None)"
    and ds: "ps_by_deadline ps' = filter (\<lambda>x. (pc_deadline p, t) \<noteq> x) (ps_by_deadline ps)"
    by (simp_all add: ps' removeAll_filter_not_eq)
  show w: "wf_pending ps'"
  proof (rule wf_pendingI; unfold bt ds)
    show "sorted (filter (\<lambda>x. (pc_deadline p, t) \<noteq> x) (ps_by_deadline ps))"
      using wf_pending_order [OF wf] sorted_filter [of "\<lambda>x. x" "ps_by_deadline ps"] by simp
    show "distinct (map snd (filter (\<lambda>x. (pc_deadline p, t) \<noteq> x) (ps_by_deadline ps)))"
      using wf_pending_order [OF wf] by (simp add: distinct_map_filter)
    show "pc_ticket q = u \<and> (pc_deadline q, u) \<in> set (filter (\<lambda>x. (pc_deadline p, t) \<noteq> x) (ps_by_deadline ps))"
      if "((ps_by_ticket ps)(t := None)) u = Some q" for u q
      using that wf_pending_ticket [OF wf] by (auto split: if_splits)
    show "\<exists>q. ((ps_by_ticket ps)(t := None)) u = Some q \<and> pc_deadline q = d"
      if "(d, u) \<in> set (filter (\<lambda>x. (pc_deadline p, t) \<noteq> x) (ps_by_deadline ps))" for d u
    proof -
      from that obtain q where "ps_by_ticket ps u = Some q" "pc_deadline q = d" by (auto elim: wf_pending_deadline [OF wf])
      with that p show ?thesis by (cases "u = t") auto
    qed
  qed
  have np: "p \<notin> ran (ps_by_ticket ps')"
  proof
    assume "p \<in> ran (ps_by_ticket ps')"
    then obtain u where "ps_by_ticket ps' u = Some p" by (auto simp: ran_def)
    then show False using wf_pending_ticket [OF w, of u p] pt by (simp add: bt)
  qed
  have "ps_by_ticket ps = (ps_by_ticket ps')(t \<mapsto> p)" using p by (auto simp: bt)
  moreover have "ps_by_ticket ps' t = None" by (simp add: bt)
  ultimately have "ran (ps_by_ticket ps) = insert p (ran (ps_by_ticket ps'))" by simp
  with np show "mset (pending_list ps) = add_mset p (mset (pending_list ps'))"
    by (simp add: pending_mset [OF w] pending_mset [OF wf] finite_ran_pending [OF w])
qed

lemma expire_loop_splits:
  assumes "expire_loop now ds bt = (ex, ds', bt')" and "distinct (map snd ds)"
    and "\<forall>(d, t) \<in> set ds. bt t \<noteq> None"
  shows "\<exists>pre. ds = pre @ ds' \<and> ex = map (\<lambda>(d, t). the (bt t)) pre \<and> bt' = bt |` (- snd ` set pre)
     \<and> (\<forall>(d, t) \<in> set pre. d \<le> now) \<and> (ds' = [] \<or> now < fst (hd ds'))"
  using assms
proof (induction now ds bt arbitrary: ex rule: expire_loop.induct)
  case (1 now bt)
  then show ?case by auto
next
  case (2 now d t ds bt)
  show ?case
  proof (cases "now < d")
    case True
    with 2 show ?thesis by auto
  next
    case False
    from 2(4) obtain p where p: "bt t = Some p" by auto
    from False 2(2) p obtain ex' where e: "expire_loop now ds (bt(t := None)) = (ex', ds', bt')" "ex = p # ex'"
      by (auto split: prod.splits)
    from 2(3) have "t \<notin> snd ` set ds" "distinct (map snd ds)" by auto
    with 2(4) have some: "\<forall>(d, t') \<in> set ds. (bt(t := None)) t' \<noteq> None" by force
    from 2(1) [OF False e(1) \<open>distinct (map snd ds)\<close> some] obtain pre where pre: "ds = pre @ ds'"
      "ex' = map (\<lambda>(d, t'). the ((bt(t := None)) t')) pre" "bt' = (bt(t := None)) |` (- snd ` set pre)"
      "\<forall>(d, t) \<in> set pre. d \<le> now" "ds' = [] \<or> now < fst (hd ds')" by blast
    have "ex' = map (\<lambda>(d, t'). the (bt t')) pre"
      unfolding pre(2) using \<open>t \<notin> snd ` set ds\<close> pre(1) by force
    moreover have "bt' = bt |` (- snd ` set ((d, t) # pre))"
      unfolding pre(3) by (auto simp: restrict_map_def)
    ultimately show ?thesis using pre e p False by (intro exI [of _ "(d, t) # pre"]) auto
  qed
qed

lemma take_expired_splits:
  assumes wf: "wf_pending ps" and te: "take_expired ps now = (ex, ps')"
  shows "wf_pending ps'" and "pending_list ps = ex @ pending_list ps'"
    and "p \<in> set ex \<Longrightarrow> pc_deadline p \<le> now" and "p \<in> set (pending_list ps') \<Longrightarrow> now < pc_deadline p"
proof -
  obtain ds' bt' where el: "expire_loop now (ps_by_deadline ps) (ps_by_ticket ps) = (ex, ds', bt')"
    and "ps' = ps\<lparr>ps_by_deadline := ds', ps_by_ticket := bt'\<rparr>"
    using te by (auto simp: take_expired_def split: prod.splits)
  then have ps': "ps_by_deadline ps' = ds'" "ps_by_ticket ps' = bt'" by simp_all
  have w: "sorted (ps_by_deadline ps)" "distinct (map snd (ps_by_deadline ps))" using wf_pending_order [OF wf] by auto
  from expire_loop_splits [OF el w(2) wf_pending_some [OF wf]] obtain pre where pre: "ps_by_deadline ps = pre @ ds'"
    "ex = map (\<lambda>(d, t). the (ps_by_ticket ps t)) pre" "bt' = ps_by_ticket ps |` (- snd ` set pre)"
    "\<forall>(d, t) \<in> set pre. d \<le> now" "ds' = [] \<or> now < fst (hd ds')" by blast
  have disj: "t \<notin> snd ` set pre" if "(d, t) \<in> set ds'" for d t
  proof -
    from that have "t \<in> set (map snd ds')" by force
    with w(2) show ?thesis unfolding pre(1) by auto
  qed
  show w': "wf_pending ps'"
  proof (rule wf_pendingI; unfold ps')
    show "sorted ds'" "distinct (map snd ds')" using w by (simp_all add: pre(1) sorted_append)
    show "pc_ticket q = t \<and> (pc_deadline q, t) \<in> set ds'" if "bt' t = Some q" for t q
      using that wf_pending_ticket [OF wf, of t q] by (auto simp: pre restrict_map_def image_iff split: if_splits)
    show "\<exists>q. bt' t = Some q \<and> pc_deadline q = d" if "(d, t) \<in> set ds'" for d t
    proof -
      from that have "(d, t) \<in> set (ps_by_deadline ps)" by (simp add: pre(1))
      with disj [OF that] show ?thesis by (auto simp: pre(3) elim: wf_pending_deadline [OF wf])
    qed
  qed
  have "pending_list ps' = map (\<lambda>(d, t). the (ps_by_ticket ps t)) ds'"
    unfolding pending_list_wf [OF w'] ps' using disj by (auto simp: pre(3))
  then show split: "pending_list ps = ex @ pending_list ps'"
    unfolding pending_list_wf [OF wf] by (simp add: pre(1,2))
  show "pc_deadline p \<le> now" if "p \<in> set ex"
  proof -
    from that obtain d t where d: "(d, t) \<in> set pre" "p = the (ps_by_ticket ps t)" unfolding pre(2) by auto
    then have "(d, t) \<in> set (ps_by_deadline ps)" by (simp add: pre(1))
    then obtain q where "ps_by_ticket ps t = Some q" "pc_deadline q = d" by (rule wf_pending_deadline [OF wf])
    with d(2) bspec [OF pre(4) d(1)] show ?thesis by simp
  qed
  show "now < pc_deadline p" if "p \<in> set (pending_list ps')"
  proof -
    from that have "ps_by_ticket ps' (pc_ticket p) = Some p" by (simp only: in_pending_list [OF w'])
    from wf_pending_ticket [OF w' this] have "(pc_deadline p, pc_ticket p) \<in> set ds'" by (simp only: ps')
    moreover from this pre(5) have "now < fst (hd ds')" by auto
    moreover have "sorted ds'" using w(1) by (simp add: pre(1) sorted_append)
    ultimately show ?thesis by (cases ds') (auto simp: less_eq_prod_def)
  qed
qed

end
