(* ===== verification/Ack_Token.thy ===== *)
theory Ack_Token
  imports Ack_Pending
begin

text \<open>
  What an acknowledged operation carries from admission to its answer, the reservation of its
  terminal and the number of the call, is always in exactly one place: the lane's queue, the lane's
  hands, the waiter's queue, the waiter's pending set or the waiter's hands. The interface
  \<open>ack_token\<close> says what it takes for a component of an operation to be handed on like that; both
  components satisfy it.
\<close>

lemma map_filter_append: "List.map_filter f (xs @ ys) = List.map_filter f xs @ List.map_filter f ys"
  by (simp add: List.map_filter_def)

lemma registered_in_simps [simp]:
  "registered_in [] = []"
  "registered_in (ms @ ns) = registered_in ms @ registered_in ns"
  "registered_in (Registered p # ms) = p # registered_in ms"
  "registered_in (Completed t w # ms) = registered_in ms"
  "registered_in (Abandoned t r # ms) = registered_in ms"
  "registered_in (Shutdown # ms) = registered_in ms"
  by (simp_all add: registered_in_def List.map_filter_def)

section \<open>What a round of the waiter does\<close>

text \<open>The waiter's work is a list of operations to finalise and one of operations to release.\<close>

definition work :: "(pending_completion \<times> command_result) list \<Rightarrow> (pending_completion \<times> command_result) list \<Rightarrow> ack_action list" where
  "work fs gs = concat (map (\<lambda>(p, r). finalize p r) fs) @ concat (map (\<lambda>(p, r). resolve_without_writer p r) gs)"

lemma work_expired: "concat (map (\<lambda>p. finalize p r) ps) = work (map (\<lambda>p. (p, r)) ps) []"
  by (simp add: work_def comp_def)

lemma work_finalize: "work fs [] @ finalize p r = work (fs @ [(p, r)]) []"
  by (simp add: work_def)

lemma work_resolve: "work fs gs @ resolve_without_writer p r = work fs (gs @ [(p, r)])"
  by (simp add: work_def)

lemma run_waiter_round_effect:
  assumes wf: "wf_pending ps0"
    and fresh: "\<And>p. m = Some (Registered p) \<Longrightarrow> pc_ticket p \<notin> pc_ticket ` set (pending_list ps0)"
    and r: "run_waiter_round now m ps0 = (acts, ps, go)"
  obtains fs gs where "acts = work fs gs" "wf_pending ps" "go \<longleftrightarrow> m \<noteq> Some Shutdown"
    "mset (map fst fs @ map fst gs @ pending_list ps) = mset (registered_in (case m of None \<Rightarrow> [] | Some x \<Rightarrow> [x]) @ pending_list ps0)"
    "\<forall>p \<in> set (pending_list ps0). pc_deadline p \<le> now \<longrightarrow> p \<in> fst ` set fs"
    "\<forall>(p, r) \<in> set gs. m = Some (Abandoned (pc_ticket p) r)"
proof -
  note result = that
  obtain ex ps1 where te: "take_expired ps0 now = (ex, ps1)" by fastforce
  note s = take_expired_splits [OF wf te]
  let ?fs = "map (\<lambda>p. (p, delivery_unknown)) ex"
  have exp: "\<forall>p \<in> set (pending_list ps0). pc_deadline p \<le> now \<longrightarrow> p \<in> fst ` set (?fs @ xs)" for xs
    using s(4) by (force simp: s(2))
  have keep: ?thesis if "acts = work ?fs []" "ps = ps1" "go \<longleftrightarrow> m \<noteq> Some Shutdown"
      "registered_in (case m of None \<Rightarrow> [] | Some x \<Rightarrow> [x]) = []"
    using that s(1) exp [of "[]"] by (intro result [of ?fs "[]"]) (auto simp: comp_def s(2))
  note rr = r [unfolded run_waiter_round_def te work_expired, simplified]
  show ?thesis
  proof (cases m)
    case None
    with rr show ?thesis by (intro keep) auto
  next
    case (Some x)
    show ?thesis
    proof (cases x)
      case (Registered p)
      have "ps_by_ticket ps1 (pc_ticket p) = None"
        using fresh Some Registered by (auto simp: pending_by_ticket [OF s(1)] s(2))
      note i = wf_pending_insert [OF s(1) this]
      from rr Some Registered have "acts = work ?fs []" "ps = pending_insert ps1 p" "go" by auto
      with i exp [of "[]"] Some Registered show ?thesis
        by (intro result [of ?fs "[]"]) (auto simp: comp_def s(2))
    next
      case (Completed t w)
      show ?thesis
      proof (cases "pending_take ps1 t")
        case None
        with rr Some Completed show ?thesis by (intro keep) auto
      next
        case (Some q)
        then obtain p ps2 where t: "pending_take ps1 t = Some (p, ps2)" by (cases q) auto
        note k = pending_take_some [OF s(1) t]
        from rr \<open>m = Some x\<close> Completed t have "acts = work (?fs @ [(p, completion_result w)]) []" "ps = ps2" "go"
          by (auto simp: work_finalize)
        with k exp [of "[(p, completion_result w)]"] \<open>m = Some x\<close> Completed show ?thesis
          by (intro result [of "?fs @ [(p, completion_result w)]" "[]"]) (auto simp: comp_def s(2))
      qed
    next
      case (Abandoned t c)
      show ?thesis
      proof (cases "pending_take ps1 t")
        case None
        with rr Some Abandoned show ?thesis by (intro keep) auto
      next
        case (Some q)
        then obtain p ps2 where t: "pending_take ps1 t = Some (p, ps2)" by (cases q) auto
        note k = pending_take_some [OF s(1) t]
        from rr \<open>m = Some x\<close> Abandoned t have "acts = work ?fs [(p, c)]" "ps = ps2" "go"
          using work_resolve [of ?fs "[]" p c] by auto
        with k exp [of "[]"] \<open>m = Some x\<close> Abandoned show ?thesis
          by (intro result [of ?fs "[(p, c)]"]) (auto simp: comp_def s(2))
      qed
    next
      case Shutdown
      with rr Some show ?thesis by (intro keep) auto
    qed
  qed
qed

text \<open>Operations the waiter knows of: registered on its queue, or pending.\<close>

definition waiting :: "ack_state \<Rightarrow> pending_completion list" where
  "waiting st = registered_in (as_chan st) @ pending_list (as_pending st)"

definition received :: "waiter_message option \<Rightarrow> waiter_message list" where
  "received m = (case m of None \<Rightarrow> [] | Some x \<Rightarrow> [x])"

lemma waiter_receive_effect:
  assumes wf: "wf_pending (as_pending st)" and dist: "distinct (map pc_ticket (waiting st))"
    and chan: "as_chan st = received m @ q"
  obtains fs gs ps up c where
    "waiter_receive st m q = st\<lparr>as_chan := c, as_pending := ps, as_todo := work fs gs, as_waiter_up := up\<rparr>"
    "wf_pending ps" "mset (map fst fs @ map fst gs @ registered_in c @ pending_list ps) = mset (waiting st)"
    "\<forall>p \<in> set (pending_list (as_pending st)). pc_deadline p \<le> as_now st \<longrightarrow> p \<in> fst ` set fs"
    "\<forall>(p, r) \<in> set gs. m = Some Shutdown \<or> m = Some (Abandoned (pc_ticket p) r)"
    "if m = Some Shutdown then c = [] \<and> ps = \<lparr>ps_by_ticket = Map.empty, ps_by_deadline = []\<rparr> \<and> \<not> up
     else c = q \<and> up = as_waiter_up st"
proof -
  obtain acts ps go where r: "run_waiter_round (as_now st) m (as_pending st) = (acts, ps, go)" by (metis prod_cases3)
  have "pc_ticket p \<notin> pc_ticket ` set (pending_list (as_pending st))" if "m = Some (Registered p)" for p
    using dist that chan by (auto simp: waiting_def received_def)
  from run_waiter_round_effect [OF wf this r] obtain fs gs where e: "acts = work fs gs" "wf_pending ps"
    "go \<longleftrightarrow> m \<noteq> Some Shutdown"
    "mset (map fst fs @ map fst gs @ pending_list ps) = mset (registered_in (received m) @ pending_list (as_pending st))"
    "\<forall>p \<in> set (pending_list (as_pending st)). pc_deadline p \<le> as_now st \<longrightarrow> p \<in> fst ` set fs"
    "\<forall>(p, r) \<in> set gs. m = Some (Abandoned (pc_ticket p) r)" unfolding received_def by blast
  show ?thesis
  proof (cases "m = Some Shutdown")
    case False
    show ?thesis
      by (rule that [where c = q and ps = ps and fs = fs and gs = gs and up = "as_waiter_up st"])
        (use False r e in \<open>auto simp: waiter_receive_def waiting_def chan\<close>)
  next
    case True
    let ?r = "ResError EcInternalError (ascii ''input lane stopped before APPLY_INPUT completed'')"
    let ?gs = "gs @ map (\<lambda>p. (p, ?r)) (pending_list ps @ registered_in q)"
    have "acts @ concat (map dropped (pending_list ps @ registered_in q)) = work fs ?gs"
      by (simp add: e(1) work_def dropped_def [abs_def] comp_def)
    then show ?thesis
      by (intro that [where c = "[]" and ps = "\<lparr>ps_by_ticket = Map.empty, ps_by_deadline = []\<rparr>"
            and fs = fs and gs = ?gs and up = False])
        (use True r e in \<open>auto simp: waiter_receive_def waiting_def chan comp_def\<close>)
  qed
qed

section \<open>Tickets\<close>

definition fresh_ticket :: "lane_state \<Rightarrow> u64 list" where
  "fresh_ticket pc = (case pc of LanePrepared _ t _ _ \<Rightarrow> [t] | _ \<Rightarrow> [])"

definition live_tickets :: "ack_state \<Rightarrow> u64 list" where
  "live_tickets st = fresh_ticket (as_pc st) @ map pc_ticket (waiting st)"

definition tickets_ok :: "ack_state \<Rightarrow> bool" where
  "tickets_ok st \<longleftrightarrow> wf_pending (as_pending st) \<and> as_tickets st = of_nat (as_minted st)
     \<and> distinct (live_tickets st) \<and> (\<forall>t \<in> set (live_tickets st). 0 < unat t \<and> unat t \<le> as_minted st)"

text \<open>The lane closes only when it has run dry, and the waiter ends only after that.\<close>

definition lifecycle_ok :: "ack_state \<Rightarrow> bool" where
  "lifecycle_ok st \<longleftrightarrow> (\<not> as_open st \<longrightarrow> as_pc st = LaneIdle \<and> as_lane st = [])
     \<and> (\<not> as_waiter_up st \<longrightarrow> \<not> as_open st \<and> as_chan st = [] \<and> pending_list (as_pending st) = [])
     \<and> (as_open st \<longrightarrow> Shutdown \<notin> set (as_chan st))"

text \<open>What a step of the lane does, by where the lane stands.\<close>

lemma tell_simps [simp]:
  "as_now (tell st ms) = as_now st" "as_in_flight (tell st ms) = as_in_flight st"
  "as_lane (tell st ms) = as_lane st" "as_pc (tell st ms) = as_pc st" "as_cache (tell st ms) = as_cache st"
  "as_tickets (tell st ms) = as_tickets st" "as_pending (tell st ms) = as_pending st"
  "as_todo (tell st ms) = as_todo st" "as_waiter_up (tell st ms) = as_waiter_up st"
  "as_open (tell st ms) = as_open st" "as_sinks (tell st ms) = as_sinks st" "as_calls (tell st ms) = as_calls st"
  "as_answers (tell st ms) = as_answers st" "as_submitted (tell st ms) = as_submitted st"
  "as_minted (tell st ms) = as_minted st" "as_handed (tell st ms) = as_handed st"
  "as_chan (tell st ms) = (if as_waiter_up st then as_chan st @ ms else as_chan st)"
  by (simp_all add: tell_def)

lemma perform_simps [simp]:
  "as_now (perform st a) = as_now st" "as_lane (perform st a) = as_lane st" "as_pc (perform st a) = as_pc st"
  "as_tickets (perform st a) = as_tickets st" "as_chan (perform st a) = as_chan st"
  "as_pending (perform st a) = as_pending st" "as_todo (perform st a) = as_todo st"
  "as_waiter_up (perform st a) = as_waiter_up st" "as_open (perform st a) = as_open st"
  "as_sinks (perform st a) = as_sinks st" "as_calls (perform st a) = as_calls st"
  "as_submitted (perform st a) = as_submitted st" "as_minted (perform st a) = as_minted st"
  "as_handed (perform st a) = as_handed st"
  by (simp_all add: perform_def split: ack_action.splits)

text \<open>
  The lane's step as a choice: it drops an ordinary input, does one of its actions, takes up the next
  operation (refusing or preparing it), registers it, hands it over, gives it up, or tells the waiter so.
\<close>

inductive lane_effect :: "(bytes \<Rightarrow> bytes) \<Rightarrow> externs \<Rightarrow> (wire_resource_id \<Rightarrow> str) \<Rightarrow> ack_state \<Rightarrow> ack_state \<Rightarrow> bool"
  for sha ext debug st where
  idle: "as_pc st = LaneIdle \<Longrightarrow> as_lane st = [] \<Longrightarrow> lane_effect sha ext debug st st"
| other: "as_pc st = LaneIdle \<Longrightarrow> as_lane st = OtherInput # q \<Longrightarrow> lane_effect sha ext debug st (st\<lparr>as_lane := q\<rparr>)"
| finish: "as_pc st = LaneActs [] \<Longrightarrow> lane_effect sha ext debug st (st\<lparr>as_pc := LaneIdle\<rparr>)"
| act: "as_pc st = LaneActs (a # acts) \<Longrightarrow> lane_effect sha ext debug st ((perform st a)\<lparr>as_pc := LaneActs acts\<rparr>)"
| refuse: "as_pc st = LaneIdle \<Longrightarrow> as_lane st = Acknowledged j # q \<Longrightarrow>
     prepare_acknowledged_batch sha ext debug sv en (as_cache st) (ro_client j) (ro_operation j) (ro_terminal j)
       (ro_events j) (rv_admitted_at (ro_reservation j)) = (Inl r, c) \<Longrightarrow>
     lane_effect sha ext debug st (st\<lparr>as_lane := q, as_tickets := as_tickets st + 1, as_minted := Suc (as_minted st), as_cache := c,
       as_pc := LaneActs [Release (ro_reservation j), Reply (ro_reply j) r]\<rparr>)"
| prepare: "as_pc st = LaneIdle \<Longrightarrow> as_lane st = Acknowledged j # q \<Longrightarrow>
     prepare_acknowledged_batch sha ext debug sv en (as_cache st) (ro_client j) (ro_operation j) (ro_terminal j)
       (ro_events j) (rv_admitted_at (ro_reservation j)) = (Inr b, c) \<Longrightarrow>
     bound = (case oc_entries c (ro_operation j) of Some e \<Rightarrow> co_inserted_at e | None \<Rightarrow> 0) \<Longrightarrow>
     lane_effect sha ext debug st (st\<lparr>as_lane := q, as_tickets := as_tickets st + 1, as_minted := Suc (as_minted st), as_cache := c,
       as_pc := LanePrepared j (as_tickets st + 1) b bound\<rparr>)"
| register: "as_pc st = LanePrepared j t b bound \<Longrightarrow> as_waiter_up st \<Longrightarrow> pc_ticket p = t \<Longrightarrow>
     pc_deadline p = deadline_from (as_now st) acknowledged_completion_timeout \<Longrightarrow> pc_operation p = ro_operation j \<Longrightarrow> pc_reservation p = ro_reservation j \<Longrightarrow> pc_reply p = ro_reply j \<Longrightarrow>
     lane_effect sha ext debug st (st\<lparr>as_chan := as_chan st @ [Registered p], as_pc := LaneRegistered j t b bound\<rparr>)"
| unregistered: "as_pc st = LanePrepared j t b bound \<Longrightarrow> \<not> as_waiter_up st \<Longrightarrow>
     lane_effect sha ext debug st (st\<lparr>as_pc := LaneActs [Release (ro_reservation j), Reply (ro_reply j) r]\<rparr>)"
| handoff: "as_pc st = LaneRegistered j t b bound \<Longrightarrow>
     lane_effect sha ext debug st (st\<lparr>as_pc := LaneIdle, as_sinks := t # as_sinks st,
       as_handed := as_handed st @ [\<lparr>hd_job = j, hd_ticket = t, hd_bytes = pb_bytes b, hd_pane = pane, hd_bound_at = bound\<rparr>]\<rparr>)"
| give_up: "as_pc st = LaneRegistered j t b bound \<Longrightarrow> ms = [] \<or> ms = [Abandoned t r, Completed t Failed] \<Longrightarrow>
     lane_effect sha ext debug st ((tell st ms)\<lparr>as_pc := LaneAbandon t r\<rparr>)"
| abandon: "as_pc st = LaneAbandon t r \<Longrightarrow> lane_effect sha ext debug st ((tell st [Abandoned t r])\<lparr>as_pc := LaneIdle\<rparr>)"

lemma tell_nothing [simp]: "tell st [] = st"
  by (simp add: tell_def)

lemma lane_step_effect: "lane_effect sha ext debug st (lane_step sha ext debug sv en st)"
proof (cases "as_pc st")
  case LaneIdle
  show ?thesis
  proof (cases "as_lane st")
    case Nil
    with LaneIdle show ?thesis by (simp add: lane_step_def idle)
  next
    case (Cons r q)
    show ?thesis
    proof (cases r)
      case OtherInput
      with LaneIdle Cons show ?thesis by (simp add: lane_step_def other)
    next
      case (Acknowledged j)
      with LaneIdle Cons show ?thesis
        by (auto simp: lane_step_def process_prepare_def next_ticket_def Let_def split: prod.splits sum.splits
            intro!: refuse prepare)
    qed
  qed
next
  case (LaneActs acts)
  then show ?thesis by (cases acts) (simp_all add: lane_step_def finish act)
next
  case (LanePrepared j t b bound)
  then show ?thesis
    by (simp add: lane_step_def process_register_def Let_def resolve_without_writer_def tell_def register unregistered)
next
  case (LaneRegistered j t b bound)
  have none: "lane_effect sha ext debug st (st\<lparr>as_pc := LaneAbandon t r\<rparr>)" for r
    using give_up [OF LaneRegistered, of "[]"] by simp
  from LaneRegistered show ?thesis
    by (auto simp: lane_step_def process_handoff_def split: sum.splits mailbox.splits
        intro!: none handoff give_up)
next
  case (LaneAbandon t r)
  then show ?thesis by (simp add: lane_step_def abandon)
qed

end
