(* ===== verification/Ack_Invariant.thy ===== *)
theory Ack_Invariant
  imports Ack_Token
begin

text \<open>
  Invariants of acknowledged input: tickets name one operation each, the lane outlives its work and
  the waiter the lane, and the set of busy terminals is exactly the set of terminals of unresolved
  operations, each admitted once and answered once.
\<close>

section \<open>Every step and what it changes\<close>

text \<open>
  The steps once more, with what an admission and a round of the waiter do spelled out: a call is
  refused at once or admitted, and a round finalises some operations, releases some, and keeps the
  others.
\<close>

inductive step_effect :: "(bytes \<Rightarrow> bytes) \<Rightarrow> externs \<Rightarrow> (wire_resource_id \<Rightarrow> str) \<Rightarrow> actor \<Rightarrow> ack_state \<Rightarrow> ack_state \<Rightarrow> bool"
  for sha ext debug where
  refused: "step_effect sha ext debug ClientTask st
     (st\<lparr>as_calls := Suc (as_calls st), as_answers := as_answers st @ [(as_calls st, r)]\<rparr>)"
| admitted: "as_open st \<Longrightarrow> ro_terminal j \<notin> as_in_flight st \<Longrightarrow>
     well_formed_operation (ro_operation j) (ro_terminal j) (ro_events j) \<Longrightarrow>
     ro_reservation j = \<lparr>rv_terminal = ro_terminal j, rv_admitted_at = as_now st\<rparr> \<Longrightarrow> ro_reply j = as_calls st \<Longrightarrow>
     step_effect sha ext debug ClientTask st (st\<lparr>as_calls := Suc (as_calls st),
       as_in_flight := insert (ro_terminal j) (as_in_flight st), as_lane := as_lane st @ [Acknowledged j],
       as_submitted := as_submitted st @ [(ro_operation j, ro_terminal j, ro_events j)]\<rparr>)"
| other: "as_open st \<Longrightarrow> step_effect sha ext debug ClientTask st (st\<lparr>as_lane := as_lane st @ [OtherInput]\<rparr>)"
| tick: "as_now st \<le> n \<Longrightarrow> step_effect sha ext debug Clock st (st\<lparr>as_now := n\<rparr>)"
| lane: "lane_ready st \<Longrightarrow> lane_effect sha ext debug st st' \<Longrightarrow> step_effect sha ext debug LaneThread st st'"
| act: "as_todo st = a # acts \<Longrightarrow> step_effect sha ext debug WaiterThread st ((perform st a)\<lparr>as_todo := acts\<rparr>)"
| round: "as_todo st = [] \<Longrightarrow> as_waiter_up st \<Longrightarrow> as_chan st = received m @ q \<Longrightarrow> wf_pending ps \<Longrightarrow>
     mset (map fst fs @ map fst gs @ registered_in c @ pending_list ps) = mset (waiting st) \<Longrightarrow>
     \<forall>p \<in> set (pending_list (as_pending st)). pc_deadline p \<le> as_now st \<longrightarrow> p \<in> fst ` set fs \<Longrightarrow>
     \<forall>(p, r) \<in> set gs. m = Some Shutdown \<or> m = Some (Abandoned (pc_ticket p) r) \<Longrightarrow>
     if m = Some Shutdown then c = [] \<and> pending_list ps = [] \<and> \<not> up else c = q \<and> up \<Longrightarrow>
     m = None \<longrightarrow> deadline_passed st \<Longrightarrow>
     step_effect sha ext debug WaiterThread st
       (st\<lparr>as_chan := c, as_pending := ps, as_todo := work fs gs, as_waiter_up := up\<rparr>)"
| report: "t \<in> set (as_sinks st) \<Longrightarrow> step_effect sha ext debug WriterThread st
     ((tell st [Completed t outcome])\<lparr>as_sinks := remove1 t (as_sinks st)\<rparr>)"
| close: "as_open st \<Longrightarrow> as_pc st = LaneIdle \<Longrightarrow> as_lane st = [] \<Longrightarrow>
     step_effect sha ext debug Owner st ((tell st [Shutdown])\<lparr>as_open := False\<rparr>)"

lemma submit_effect:
  assumes "as_open st" and "well_formed_operation op t events"
  shows "step_effect sha ext debug ClientTask st (apply_input st client op t events)"
proof -
  let ?j = "\<lparr>ro_client = client, ro_terminal = t, ro_operation = op, ro_events = events,
    ro_reservation = \<lparr>rv_terminal = t, rv_admitted_at = as_now st\<rparr>, ro_reply = as_calls st\<rparr>"
  show ?thesis
    unfolding apply_input_def try_acquire_def Let_def using assms admitted [of st ?j]
    by (auto intro!: refused)
qed

lemma round_effect:
  assumes todo: "as_todo st = []" and up: "as_waiter_up st" and ok: "tickets_ok st"
    and chan: "as_chan st = received m @ q" and late: "m = None \<longrightarrow> deadline_passed st"
  shows "step_effect sha ext debug WaiterThread st (waiter_receive st m q)"
proof -
  have wf: "wf_pending (as_pending st)" and d: "distinct (map pc_ticket (waiting st))"
    using ok by (simp_all add: tickets_ok_def live_tickets_def)
  obtain fs gs ps up' c where
    e: "waiter_receive st m q = st\<lparr>as_chan := c, as_pending := ps, as_todo := work fs gs, as_waiter_up := up'\<rparr>"
    and r: "wf_pending ps" "mset (map fst fs @ map fst gs @ registered_in c @ pending_list ps) = mset (waiting st)"
    "\<forall>p \<in> set (pending_list (as_pending st)). pc_deadline p \<le> as_now st \<longrightarrow> p \<in> fst ` set fs"
    "\<forall>(p, r) \<in> set gs. m = Some Shutdown \<or> m = Some (Abandoned (pc_ticket p) r)"
    "if m = Some Shutdown then c = [] \<and> ps = \<lparr>ps_by_ticket = Map.empty, ps_by_deadline = []\<rparr> \<and> \<not> up'
     else c = q \<and> up' = as_waiter_up st"
    by (rule waiter_receive_effect [OF wf d chan])
  from r(5) up have "if m = Some Shutdown then c = [] \<and> pending_list ps = [] \<and> \<not> up' else c = q \<and> up'"
    by (auto split: if_splits)
  with r(1-4) show ?thesis unfolding e using late by (rule round [OF todo up chan])
qed

lemma ack_step_effect:
  assumes "ack_step sha ext debug who st st'" and "tickets_ok st"
  shows "step_effect sha ext debug who st st'"
  using assms(1)
proof cases
  case (submit op t events client)
  then show ?thesis by (simp add: submit_effect)
next
  case (lane sv en)
  then show ?thesis by (auto intro: step_effect.lane lane_step_effect)
next
  case (receive m q)
  then show ?thesis using assms(2) by (simp add: round_effect received_def)
next
  case timeout
  then show ?thesis using assms(2) by (simp add: round_effect received_def)
qed (auto intro: step_effect.intros)

section \<open>Tickets and life cycle\<close>

lemma distinct_rest:
  assumes "mset (xs @ ys @ zs) = mset ws" and "distinct (map f ws)"
  shows "distinct (map f zs)" and "set (map f zs) \<subseteq> set (map f ws)"
proof -
  from assms(1) have "mset (map f (xs @ ys @ zs)) = mset (map f ws)" by (simp only: mset_map)
  from mset_eq_imp_distinct_iff [OF this] assms(2) show "distinct (map f zs)" by simp
  from mset_eq_setD [OF \<open>mset (map f (xs @ ys @ zs)) = mset (map f ws)\<close>] show "set (map f zs) \<subseteq> set (map f ws)" by auto
qed

lemma next_ticket_fresh:
  assumes "n + 1 < 2 ^ 64"
  shows "unat (of_nat n + 1 :: u64) = Suc n"
proof -
  have "(of_nat n + 1 :: u64) = of_nat (Suc n)" by simp
  then show ?thesis using assms by (simp only: unat_of_nat) simp
qed

lemma tickets_ok_lane:
  assumes ok: "tickets_ok st" and e: "lane_effect sha ext debug st st'" and m: "as_minted st' < 2 ^ 64"
  shows "tickets_ok st'"
  using e
proof cases
  case (prepare j q sv en b c bound)
  have u: "unat (of_nat (as_minted st) + 1 :: u64) = Suc (as_minted st)"
    using m prepare(1) by (intro next_ticket_fresh) simp
  have t: "as_tickets st = of_nat (as_minted st)" using ok by (simp add: tickets_ok_def)
  have live: "live_tickets st' = (of_nat (as_minted st) + 1) # live_tickets st"
    by (simp add: prepare(1,2) live_tickets_def fresh_ticket_def waiting_def t)
  have old: "\<forall>t \<in> set (live_tickets st). 0 < unat t \<and> unat t \<le> as_minted st" "distinct (live_tickets st)"
    using ok by (simp_all add: tickets_ok_def)
  then have "of_nat (as_minted st) + 1 \<notin> set (live_tickets st)" using u by fastforce
  with old u ok show ?thesis
    unfolding tickets_ok_def live by (auto simp: prepare(1) t)
next
  case (refuse j q sv en r c)
  have live: "live_tickets st' = live_tickets st"
    by (simp add: refuse(1,2) live_tickets_def fresh_ticket_def waiting_def)
  show ?thesis using ok unfolding tickets_ok_def live by (auto simp: refuse(1) add.commute intro: le_SucI)
qed (use ok in \<open>auto simp: tickets_ok_def live_tickets_def fresh_ticket_def waiting_def\<close>)

lemma tickets_ok_step:
  assumes "step_effect sha ext debug who st st'" and ok: "tickets_ok st" and m: "as_minted st' < 2 ^ 64"
  shows "tickets_ok st'"
  using assms(1)
proof cases
  case lane
  then show ?thesis using ok m by (blast intro: tickets_ok_lane)
next
  case (round mm q ps fs gs c up)
  have "distinct (map pc_ticket (waiting st))" using ok by (simp add: tickets_ok_def live_tickets_def)
  note d = distinct_rest [OF round(7) this]
  have live: "live_tickets st' = fresh_ticket (as_pc st) @ map pc_ticket (registered_in c @ pending_list ps)"
    by (simp add: round(2) waiting_def live_tickets_def)
  with d(2) have "set (live_tickets st') \<subseteq> set (live_tickets st)" by (auto simp: live_tickets_def)
  moreover have "distinct (live_tickets st')"
  proof -
    have "set (fresh_ticket (as_pc st)) \<inter> set (map pc_ticket (waiting st)) = {}" "distinct (fresh_ticket (as_pc st))"
      using ok by (simp_all add: tickets_ok_def live_tickets_def)
    with d show ?thesis unfolding live distinct_append by blast
  qed
  ultimately show ?thesis using ok round(6) by (auto simp: tickets_ok_def round(2))
qed (use ok in \<open>auto simp: tickets_ok_def live_tickets_def waiting_def\<close>)

lemma lifecycle_ok_step:
  assumes "step_effect sha ext debug who st st'" and ok: "lifecycle_ok st"
  shows "lifecycle_ok st'"
  using assms(1)
proof cases
  case lane
  from lane(3) show ?thesis by cases (use ok lane(2) in \<open>auto simp: lifecycle_ok_def lane_ready_def\<close>)
next
  case (round m q ps fs gs c up)
  with ok show ?thesis by (cases m) (auto simp: lifecycle_ok_def received_def split: if_splits)
qed (use ok in \<open>auto simp: lifecycle_ok_def\<close>)

section \<open>Nothing is lost on the way\<close>

definition lane_jobs :: "routed_input list \<Rightarrow> routed_operation list" where
  "lane_jobs q = List.map_filter (\<lambda>r. case r of Acknowledged j \<Rightarrow> Some j | OtherInput \<Rightarrow> None) q"

lemma lane_jobs_simps [simp]:
  "lane_jobs [] = []" "lane_jobs (q @ r) = lane_jobs q @ lane_jobs r"
  "lane_jobs (Acknowledged j # q) = j # lane_jobs q" "lane_jobs (OtherInput # q) = lane_jobs q"
  by (simp_all add: lane_jobs_def List.map_filter_def)

definition in_hand :: "(routed_operation \<Rightarrow> 'a) \<Rightarrow> (ack_action \<Rightarrow> 'a option) \<Rightarrow> lane_state \<Rightarrow> 'a list" where
  "in_hand fj fa pc = (case pc of
     LaneActs acts \<Rightarrow> List.map_filter fa acts
   | LanePrepared j _ _ _ \<Rightarrow> [fj j]
   | _ \<Rightarrow> [])"

definition holding :: "(routed_operation \<Rightarrow> 'a) \<Rightarrow> (pending_completion \<Rightarrow> 'a) \<Rightarrow> (ack_action \<Rightarrow> 'a option) \<Rightarrow> ack_state \<Rightarrow> 'a list" where
  "holding fj fp fa st = map fj (lane_jobs (as_lane st)) @ in_hand fj fa (as_pc st)
     @ map fp (waiting st) @ List.map_filter fa (as_todo st)"

text \<open>What a step spends: the component of the action it performs.\<close>

definition spent :: "(ack_action \<Rightarrow> 'a option) \<Rightarrow> ack_action list \<Rightarrow> 'a multiset" where
  "spent fa acts = mset (List.map_filter fa acts)"

locale ack_token =
  fixes fj :: "routed_operation \<Rightarrow> 'a" and fp :: "pending_completion \<Rightarrow> 'a" and fa :: "ack_action \<Rightarrow> 'a option"
  assumes finalize_token: "List.map_filter fa (finalize p r) = [fp p]"
    and resolve_token: "List.map_filter fa (resolve_without_writer p r) = [fp p]"
    and refuse_token: "List.map_filter fa [Release (ro_reservation j), Reply (ro_reply j) r] = [fj j]"
    and register_token: "pc_reservation p = ro_reservation j \<Longrightarrow> pc_reply p = ro_reply j \<Longrightarrow> fp p = fj j"
begin

lemma work_tokens: "List.map_filter fa (work fs gs) = map fp (map fst fs @ map fst gs)"
proof -
  have "List.map_filter fa (concat (map (\<lambda>(p, r). finalize p r) fs)) = map fp (map fst fs)"
    by (induction fs) (auto simp: map_filter_append finalize_token List.map_filter_simps)
  moreover have "List.map_filter fa (concat (map (\<lambda>(p, r). resolve_without_writer p r) gs)) = map fp (map fst gs)"
    by (induction gs) (auto simp: map_filter_append resolve_token List.map_filter_simps)
  ultimately show ?thesis by (simp add: work_def map_filter_append)
qed

lemma lane_conserves:
  assumes "lane_effect sha ext debug st st'"
  shows "mset (holding fj fp fa st) = mset (holding fj fp fa st')
    + (case as_pc st of LaneActs (a # _) \<Rightarrow> spent fa [a] | _ \<Rightarrow> {#})"
  using assms
proof cases
  case (act a acts)
  then show ?thesis
    by (simp add: holding_def in_hand_def waiting_def spent_def List.map_filter_simps split: option.splits)
next
  case (register j t b bound p)
  then show ?thesis
    by (simp add: holding_def in_hand_def waiting_def register_token [of p j])
next
  case (refuse j q sv en r c)
  then show ?thesis using refuse_token [of j r] by (simp add: holding_def in_hand_def waiting_def)
next
  case (unregistered j t b bound r)
  then show ?thesis using refuse_token [of j r] by (simp add: holding_def in_hand_def waiting_def)
next
  case (give_up j t b bound ms r)
  then show ?thesis by (auto simp: holding_def in_hand_def waiting_def)
qed (auto simp: holding_def in_hand_def waiting_def List.map_filter_simps)

lemma round_conserves:
  assumes "as_todo st = []" and "mset (map fst fs @ map fst gs @ registered_in c @ pending_list ps) = mset (waiting st)"
  shows "mset (holding fj fp fa (st\<lparr>as_chan := c, as_pending := ps, as_todo := work fs gs, as_waiter_up := up\<rparr>))
    = mset (holding fj fp fa st)"
proof -
  from assms(2) have "mset (map fp (map fst fs @ map fst gs @ registered_in c @ pending_list ps)) = mset (map fp (waiting st))"
    by (simp only: mset_map)
  with assms(1) show ?thesis
    by (simp add: holding_def waiting_def work_tokens List.map_filter_simps ac_simps)
qed

lemma act_conserves:
  assumes "as_todo st = a # acts"
  shows "mset (holding fj fp fa st) = mset (holding fj fp fa ((perform st a)\<lparr>as_todo := acts\<rparr>)) + spent fa [a]"
  using assms by (simp add: holding_def waiting_def spent_def List.map_filter_simps split: option.splits)

lemma admit_conserves:
  "mset (holding fj fp fa (st\<lparr>as_calls := n, as_in_flight := fl, as_lane := as_lane st @ [Acknowledged j], as_submitted := sb\<rparr>))
    = add_mset (fj j) (mset (holding fj fp fa st))"
  by (simp add: holding_def waiting_def)

lemma quiet_conserves:
  "holding fj fp fa (st\<lparr>as_calls := n, as_answers := ans\<rparr>) = holding fj fp fa st"
  "holding fj fp fa (st\<lparr>as_lane := as_lane st @ [OtherInput]\<rparr>) = holding fj fp fa st"
  "holding fj fp fa (st\<lparr>as_now := n\<rparr>) = holding fj fp fa st"
  "holding fj fp fa ((tell st [Completed t w])\<lparr>as_sinks := sk\<rparr>) = holding fj fp fa st"
  "holding fj fp fa ((tell st [Shutdown])\<lparr>as_open := up\<rparr>) = holding fj fp fa st"
  by (simp_all add: holding_def waiting_def)

end

definition release_of :: "ack_action \<Rightarrow> wire_resource_id option" where
  "release_of a = (case a of Release rv \<Rightarrow> Some (rv_terminal rv) | _ \<Rightarrow> None)"

definition reply_of :: "ack_action \<Rightarrow> nat option" where
  "reply_of a = (case a of Reply k _ \<Rightarrow> Some k | _ \<Rightarrow> None)"

interpretation busy: ack_token "\<lambda>j. rv_terminal (ro_reservation j)" "\<lambda>p. rv_terminal (pc_reservation p)" release_of
  by unfold_locales (simp_all add: finalize_def resolve_without_writer_def release_of_def List.map_filter_simps)

interpretation call: ack_token ro_reply pc_reply reply_of
  by unfold_locales (simp_all add: finalize_def resolve_without_writer_def reply_of_def List.map_filter_simps)

abbreviation busy_terminals :: "ack_state \<Rightarrow> wire_resource_id list" where
  "busy_terminals \<equiv> holding (\<lambda>j. rv_terminal (ro_reservation j)) (\<lambda>p. rv_terminal (pc_reservation p)) release_of"

abbreviation open_calls :: "ack_state \<Rightarrow> nat list" where
  "open_calls \<equiv> holding ro_reply pc_reply reply_of"

definition accounts_ok :: "ack_state \<Rightarrow> bool" where
  "accounts_ok st \<longleftrightarrow> finite (as_in_flight st) \<and> mset (busy_terminals st) = mset_set (as_in_flight st)
     \<and> mset (open_calls st @ map fst (as_answers st)) = mset [0..<as_calls st]"

text \<open>Doing an action takes it off both accounts and does what the account stands for.\<close>

lemma perform_balances:
  assumes ok: "accounts_ok st"
    and b: "mset (busy_terminals st) = mset (busy_terminals st') + spent release_of [a]"
    and c: "mset (open_calls st) = mset (open_calls st') + spent reply_of [a]"
    and s: "as_in_flight st' = as_in_flight (perform st a)" "as_answers st' = as_answers (perform st a)" "as_calls st' = as_calls st"
  shows "accounts_ok st'"
proof (cases a)
  case (SetFinal op r)
  with assms show ?thesis by (simp add: accounts_ok_def spent_def release_of_def reply_of_def List.map_filter_simps perform_def)
next
  case (Release rv)
  then have in_flight: "add_mset (rv_terminal rv) (mset (busy_terminals st')) = mset_set (as_in_flight st)"
    using ok b by (simp add: accounts_ok_def spent_def release_of_def List.map_filter_simps)
  have fin: "finite (as_in_flight st)" using ok by (simp add: accounts_ok_def)
  have "rv_terminal rv \<in># mset_set (as_in_flight st)" by (simp flip: in_flight)
  then have mem: "rv_terminal rv \<in> as_in_flight st" using fin by simp
  have "mset (busy_terminals st') = mset_set (as_in_flight st - {rv_terminal rv})"
    using in_flight mset_set.remove [OF fin mem] by simp
  with ok c s Release fin show ?thesis
    by (simp add: accounts_ok_def spent_def reply_of_def List.map_filter_simps perform_def drop_reservation_def)
next
  case (Reply k r)
  with assms show ?thesis
    by (simp add: accounts_ok_def spent_def release_of_def reply_of_def List.map_filter_simps perform_def)
qed

lemma accounts_ok_step:
  assumes "step_effect sha ext debug who st st'" and ok: "accounts_ok st"
  shows "accounts_ok st'"
  using assms(1)
proof cases
  case (admitted j)
  have "mset (busy_terminals st') = add_mset (ro_terminal j) (mset (busy_terminals st))"
    "mset (open_calls st') = add_mset (as_calls st) (mset (open_calls st))"
    unfolding admitted(2) busy.admit_conserves call.admit_conserves by (simp_all add: admitted)
  with ok admitted show ?thesis by (auto simp: accounts_ok_def)
next
  case lane
  note c = busy.lane_conserves [OF lane(3)] call.lane_conserves [OF lane(3)]
  show ?thesis
  proof (cases "\<exists>a acts. as_pc st = LaneActs (a # acts)")
    case True
    then obtain a acts where pc: "as_pc st = LaneActs (a # acts)" by blast
    from lane(3) pc have "as_in_flight st' = as_in_flight (perform st a)" "as_answers st' = as_answers (perform st a)"
      "as_calls st' = as_calls st" by (cases; simp)+
    with perform_balances [OF ok] c pc show ?thesis by simp
  next
    case False
    then have "(case as_pc st of LaneActs (a # _) \<Rightarrow> spent release_of [a] | _ \<Rightarrow> {#}) = {#}"
      "(case as_pc st of LaneActs (a # _) \<Rightarrow> spent reply_of [a] | _ \<Rightarrow> {#}) = {#}"
      by (auto split: lane_state.splits list.splits)
    moreover from lane(3) False have "as_in_flight st' = as_in_flight st" "as_answers st' = as_answers st"
      "as_calls st' = as_calls st" by (cases; simp)+
    ultimately show ?thesis using ok c by (simp add: accounts_ok_def)
  qed
next
  case (act a acts)
  show ?thesis
    by (rule perform_balances [OF ok]; unfold act(2))
      (simp_all add: busy.act_conserves [OF act(3)] call.act_conserves [OF act(3)])
next
  case (round m q ps fs gs c up)
  have "as_in_flight st' = as_in_flight st" "as_answers st' = as_answers st" "as_calls st' = as_calls st"
    by (simp_all add: round(2))
  with ok busy.round_conserves [OF round(3,7)] call.round_conserves [OF round(3,7)] show ?thesis
    by (simp add: accounts_ok_def round(2))
next
  case (refused r)
  with ok show ?thesis by (simp add: accounts_ok_def busy.quiet_conserves call.quiet_conserves)
qed (use ok in \<open>simp_all add: accounts_ok_def busy.quiet_conserves call.quiet_conserves\<close>)

text \<open>Along a run, tickets are only minted and operations only added.\<close>

lemma effect_grows:
  assumes "step_effect sha ext debug who st st'"
  shows "as_minted st \<le> as_minted st' \<and> set (as_submitted st) \<subseteq> set (as_submitted st')"
  using assms
proof cases
  case lane
  from lane(3) show ?thesis by cases auto
qed auto

lemma ack_step_grows:
  assumes "ack_step sha ext debug who st st'"
  shows "as_minted st \<le> as_minted st' \<and> set (as_submitted st) \<subseteq> set (as_submitted st')"
  using assms
proof cases
  case (submit op t events client)
  from effect_grows [OF submit_effect [OF submit(3,4)]] show ?thesis unfolding submit .
next
  case (lane sv en)
  have "lane_effect sha ext debug st st'" by (simp only: lane lane_step_effect)
  from effect_grows [OF step_effect.lane [OF lane(3) this]] show ?thesis .
next
  case (receive m q)
  then show ?thesis by (simp add: waiter_receive_def split: prod.splits)
next
  case timeout
  then show ?thesis by (simp add: waiter_receive_def split: prod.splits)
qed auto

lemma ack_start_ok: "tickets_ok ack_start" "lifecycle_ok ack_start" "accounts_ok ack_start"
  by (simp_all add: ack_start_def tickets_ok_def live_tickets_def fresh_ticket_def waiting_def lifecycle_ok_def
      accounts_ok_def holding_def in_hand_def)

lemma ack_reach_ok:
  "ack_reach sha ext debug st \<Longrightarrow> as_minted st < 2 ^ 64 \<Longrightarrow> tickets_ok st \<and> lifecycle_ok st \<and> accounts_ok st"
proof (induction rule: ack_reach.induct)
  case start
  then show ?case by (simp add: ack_start_ok)
next
  case (more st who st')
  from ack_step_grows [OF more(2)] more(4) have "as_minted st < 2 ^ 64" by simp
  with more have ok: "tickets_ok st" "lifecycle_ok st" "accounts_ok st" by simp_all
  from ack_step_effect [OF more(2) ok(1)] have e: "step_effect sha ext debug who st st'" .
  show ?case using tickets_ok_step [OF e ok(1) more(4)] lifecycle_ok_step [OF e ok(2)] accounts_ok_step [OF e ok(3)] by simp
qed

lemma busy_distinct:
  assumes "accounts_ok st"
  shows "distinct (busy_terminals st) \<and> set (busy_terminals st) = as_in_flight st"
proof -
  from assms have b: "mset (busy_terminals st) = mset_set (as_in_flight st)" and fin: "finite (as_in_flight st)"
    by (simp_all add: accounts_ok_def)
  from b fin have busy: "set (busy_terminals st) = as_in_flight st" by (metis finite_set_mset_mset_set set_mset_mset)
  moreover have "distinct (busy_terminals st)" unfolding distinct_count_atmost_1 b using fin busy
    by (simp add: count_mset_set')
  ultimately show ?thesis by simp
qed

section \<open>The property\<close>

text \<open>
  C39. One unresolved operation per terminal, and none forgotten: in every state the server can
  reach, the busy terminals are exactly the terminals of the operations that are queued, being
  processed or waited for, each of them once; and every call is either one of those or has been
  answered, never both and never twice. When lane and waiter have nothing left to do, no terminal is
  busy and every call has its answer.
\<close>

theorem one_operation_per_terminal:
  assumes "ack_reach sha ext debug st" and "as_minted st < 2 ^ 64"
  shows "distinct (busy_terminals st) \<and> set (busy_terminals st) = as_in_flight st
    \<and> distinct (open_calls st @ map fst (as_answers st))
    \<and> set (open_calls st) \<union> fst ` set (as_answers st) = {..<as_calls st}
    \<and> (lane_ready st \<or> as_chan st \<noteq> [] \<or> pending_list (as_pending st) \<noteq> [] \<or> as_todo st \<noteq> []
       \<or> (as_in_flight st = {} \<and> fst ` set (as_answers st) = {..<as_calls st}))"
proof -
  from ack_reach_ok [OF assms] have ok: "accounts_ok st" by simp
  then have c: "mset (open_calls st @ map fst (as_answers st)) = mset [0..<as_calls st]" by (simp add: accounts_ok_def)
  note busy_distinct [OF ok]
  moreover have "distinct (open_calls st @ map fst (as_answers st))"
    using mset_eq_imp_distinct_iff [OF c] by simp
  moreover have "set (open_calls st) \<union> fst ` set (as_answers st) = {..<as_calls st}"
    using mset_eq_setD [OF c] by (auto simp: atLeast0LessThan)
  ultimately show ?thesis
    by (auto simp: holding_def in_hand_def lane_ready_def waiting_def split: lane_state.splits)
qed

text \<open>A first call for terminal 1 and a second one while it is queued: one busy terminal, one answer.\<close>

definition demo_operation :: input_operation_id where
  "demo_operation = InputOperationId [7, 7, 7, 7, 7, 7, 7, 7, 7, 7, 7, 7, 7, 7, 7, 7]"

definition demo_events :: "input_event list" where
  "demo_events = [InputEventFocus FocusGained]"

definition demo_queued :: ack_state where
  "demo_queued = apply_input (apply_input ack_start (ServerClientId 1) demo_operation (Local 1) demo_events)
     (ServerClientId 2) demo_operation (Local 1) demo_events"

lemma demo_well_formed: "well_formed_operation demo_operation (Local 1) demo_events"
  by (simp add: well_formed_operation_def wf_command_def demo_operation_def demo_events_def wf_id16_def wf_rid_def
      wf_input_event_def max_apply_input_events_def max_apply_input_command_body_def encode_command_def
      write_all_def write_u8_def encode_terminal_id_def write_u16_be_def write_u32_be_def encode_input_event_def)

lemma demo_queued_reach: "ack_reach (\<lambda>bs. bs) no_externs (\<lambda>_. []) demo_queued"
proof -
  let ?st = "apply_input ack_start (ServerClientId 1) demo_operation (Local 1) demo_events"
  have "as_open ack_start" by (simp add: ack_start_def)
  from ack_reach.more [OF ack_reach.start ack_step.submit [OF this demo_well_formed]]
  have r: "ack_reach (\<lambda>bs. bs) no_externs (\<lambda>_. []) ?st" .
  have "as_open ?st" by (simp add: ack_start_def apply_input_def try_acquire_def input_lane_capacity_def)
  from ack_reach.more [OF r ack_step.submit [OF this demo_well_formed]] show ?thesis unfolding demo_queued_def .
qed

theorem one_operation_per_terminal_witness:
  "as_in_flight demo_queued = {Local 1} \<and> set (busy_terminals demo_queued) = {Local 1}
    \<and> distinct (busy_terminals demo_queued) \<and> open_calls demo_queued = [0] \<and> map fst (as_answers demo_queued) = [1]"
proof -
  have m: "as_minted demo_queued < 2 ^ 64" and f: "as_in_flight demo_queued = {Local 1}"
    and a: "open_calls demo_queued = [0]" "map fst (as_answers demo_queued) = [1]"
    by (simp_all add: demo_queued_def ack_start_def apply_input_def try_acquire_def input_lane_capacity_def
        holding_def in_hand_def waiting_def)
  from one_operation_per_terminal [OF demo_queued_reach m] f a show ?thesis by simp
qed

end
