(* ===== verification/Ack_Once.thy ===== *)
theory Ack_Once
  imports Ack_Invariant
begin

text \<open>
  An operation is written once: while the dedupe record of an operation id lives, at most one batch
  under that id reaches a pane. The record is consulted before the batch is prepared; between that
  moment and the waiter's verdict the terminal's reservation keeps a second attempt out, because the
  digest binds the id to its terminal.
\<close>

section \<open>The dedupe record\<close>

definition wf_cache :: "operation_cache \<Rightarrow> bool" where
  "wf_cache c \<longleftrightarrow> sorted (map fst (oc_expiry c))
     \<and> (\<forall>op e. oc_entries c op = Some e \<longrightarrow> (co_inserted_at e, op) \<in> set (oc_expiry c))"

lemma prune_loop_spec:
  assumes "prune_loop now q es = (q', es')" and "sorted (map fst q)"
    and "\<And>op e. es op = Some e \<Longrightarrow> (co_inserted_at e, op) \<in> set q \<union> r"
  shows "sorted (map fst q') \<and> set q' \<subseteq> set q
    \<and> (\<forall>op e. es' op = Some e \<longrightarrow> es op = Some e \<and> (co_inserted_at e, op) \<in> set q' \<union> r)
    \<and> (\<forall>op e. es op = Some e \<longrightarrow> es' op = Some e \<or> co_inserted_at e + dedupe_retention \<le> now)
    \<and> (\<forall>(t, op) \<in> set q'. now < t + dedupe_retention)"
  using assms
proof (induction now q es rule: prune_loop.induct)
  case (1 now es)
  then show ?case by auto
next
  case (2 now t op q es)
  show ?case
  proof (cases "dedupe_retention \<le> now - t")
    case True
    define es1 where "es1 = (case es op of Some e \<Rightarrow> if co_inserted_at e = t then es(op := None) else es | None \<Rightarrow> es)"
    from True 2(2) have p: "prune_loop now q es1 = (q', es')" by (simp add: es1_def)
    have sub: "es op' = Some e \<and> (co_inserted_at e, op') \<in> set q \<union> r" if "es1 op' = Some e" for op' e
      using that 2(4) [of op' e] by (auto simp: es1_def split: option.splits if_splits)
    have kept: "es1 op' = Some e \<or> co_inserted_at e + dedupe_retention \<le> now" if "es op' = Some e" for op' e
      using that True by (auto simp: es1_def dedupe_retention_def split: option.splits)
    have "sorted (map fst q)" using 2(3) by simp
    from 2(1) [OF True p [unfolded es1_def] this] sub [unfolded es1_def] have
      "sorted (map fst q') \<and> set q' \<subseteq> set q
        \<and> (\<forall>op e. es' op = Some e \<longrightarrow> es1 op = Some e \<and> (co_inserted_at e, op) \<in> set q' \<union> r)
        \<and> (\<forall>op e. es1 op = Some e \<longrightarrow> es' op = Some e \<or> co_inserted_at e + dedupe_retention \<le> now)
        \<and> (\<forall>(t, op) \<in> set q'. now < t + dedupe_retention)" unfolding es1_def by blast
    with sub kept show ?thesis by fastforce
  next
    case False
    with 2(2) have e: "q' = (t, op) # q" "es' = es" by auto
    have "now < t + dedupe_retention" using False by simp
    moreover have "t \<le> u" if "(u, op') \<in> set q" for u op' using 2(3) that by force
    ultimately show ?thesis using 2(3,4) unfolding e by fastforce
  qed
qed

lemma prune_expired_spec:
  assumes wf: "wf_cache c"
  shows "wf_cache (prune_expired c now)"
    and "oc_entries (prune_expired c now) op = Some e \<Longrightarrow> oc_entries c op = Some e \<and> now < co_inserted_at e + dedupe_retention"
    and "oc_entries c op = Some e \<Longrightarrow> oc_entries (prune_expired c now) op = Some e \<or> co_inserted_at e + dedupe_retention \<le> now"
    and "set (oc_expiry (prune_expired c now)) \<subseteq> set (oc_expiry c)"
proof -
  obtain q' es' where p: "prune_loop now (oc_expiry c) (oc_entries c) = (q', es')" by fastforce
  have c': "oc_entries (prune_expired c now) = es'" "oc_expiry (prune_expired c now) = q'"
    by (simp_all add: prune_expired_def p)
  have "sorted (map fst (oc_expiry c))"
    "\<And>op e. oc_entries c op = Some e \<Longrightarrow> (co_inserted_at e, op) \<in> set (oc_expiry c) \<union> {}"
    using wf unfolding wf_cache_def by blast+
  from prune_loop_spec [OF p this]
  have s: "sorted (map fst q')" "set q' \<subseteq> set (oc_expiry c)"
    "\<And>op e. es' op = Some e \<Longrightarrow> oc_entries c op = Some e \<and> (co_inserted_at e, op) \<in> set q'"
    "\<And>op e. oc_entries c op = Some e \<Longrightarrow> es' op = Some e \<or> co_inserted_at e + dedupe_retention \<le> now"
    "\<And>t op. (t, op) \<in> set q' \<Longrightarrow> now < t + dedupe_retention" by blast+
  show "wf_cache (prune_expired c now)" unfolding wf_cache_def c' using s(1,3) by blast
  show "oc_entries (prune_expired c now) op = Some e \<Longrightarrow> oc_entries c op = Some e \<and> now < co_inserted_at e + dedupe_retention"
    unfolding c' using s(3) s(5) by blast
  show "oc_entries c op = Some e \<Longrightarrow> oc_entries (prune_expired c now) op = Some e \<or> co_inserted_at e + dedupe_retention \<le> now"
    unfolding c' by (rule s(4))
  show "set (oc_expiry (prune_expired c now)) \<subseteq> set (oc_expiry c)" unfolding c' by (rule s(2))
qed

text \<open>What binding an id leaves behind, and what it means that the id may be used.\<close>

lemma bind_at_spec:
  assumes wf: "wf_cache c" and old: "\<forall>(t, op) \<in> set (oc_expiry c). t \<le> now" and b: "bind_at c op digest now = (bd, c')"
  shows "wf_cache c'" and "\<forall>(t, op) \<in> set (oc_expiry c'). t \<le> now"
    and "oc_entries c op' = Some e \<Longrightarrow> oc_entries c' op' = Some e \<or> co_inserted_at e + dedupe_retention \<le> now"
    and "bd = BindNew \<or> bd = BindPending \<Longrightarrow> \<exists>e. oc_entries c' op = Some e \<and> co_digest e = digest \<and> co_result e = None
      \<and> co_inserted_at e \<le> now \<and> now < co_inserted_at e + dedupe_retention"
proof -
  let ?c = "prune_expired c now"
  note p = prune_expired_spec [OF wf, where now = now]
  have old': "\<forall>(t, op) \<in> set (oc_expiry ?c). t \<le> now" using p(4) old by blast
  have ins: "wf_cache (?c\<lparr>oc_entries := (oc_entries ?c)(op \<mapsto> x), oc_expiry := oc_expiry ?c @ [(now, op)]\<rparr>)"
    if "co_inserted_at x = now" for x
    using p(1) old' that by (auto simp: wf_cache_def sorted_append)
  have young: "now < now + dedupe_retention" by (simp add: dedupe_retention_def)
  have "wf_cache c' \<and> (\<forall>(t, op) \<in> set (oc_expiry c'). t \<le> now)
    \<and> (oc_entries c op' = Some e \<longrightarrow> oc_entries c' op' = Some e \<or> co_inserted_at e + dedupe_retention \<le> now)
    \<and> (bd = BindNew \<or> bd = BindPending \<longrightarrow> (\<exists>e. oc_entries c' op = Some e \<and> co_digest e = digest \<and> co_result e = None
        \<and> co_inserted_at e \<le> now \<and> now < co_inserted_at e + dedupe_retention))"
  proof (cases "oc_entries ?c op")
    case None
    show ?thesis
    proof (cases "dedupe_max_entries \<le> card (dom (oc_entries ?c))")
      case True
      with b None have "bd = BindFull" "c' = ?c" by (auto simp: bind_at_def Let_def)
      with p old' show ?thesis by auto
    next
      case False
      with b None have c': "bd = BindNew" "c' = ?c\<lparr>oc_entries := (oc_entries ?c)(op \<mapsto>
          \<lparr>co_digest = digest, co_result = None, co_inserted_at = now\<rparr>), oc_expiry := oc_expiry ?c @ [(now, op)]\<rparr>"
        by (auto simp: bind_at_def Let_def)
      have "oc_entries c' op' = Some e \<or> co_inserted_at e + dedupe_retention \<le> now" if "oc_entries c op' = Some e"
        using p(3) [OF that] None by (auto simp: c'(2))
      with ins [of "\<lparr>co_digest = digest, co_result = None, co_inserted_at = now\<rparr>"] old' young show ?thesis
        unfolding c' by auto
    qed
  next
    case (Some x)
    with b have c': "c' = ?c" "bd = BindNew \<or> bd = BindPending \<Longrightarrow> co_digest x = digest \<and> co_result x = None"
      by (auto simp: bind_at_def Let_def split: if_splits option.splits)
    have "co_inserted_at x \<le> now" using p(1) old' Some by (force simp: wf_cache_def)
    with p Some c' old' show ?thesis by blast
  qed
  then show "wf_cache c'" "\<forall>(t, op) \<in> set (oc_expiry c'). t \<le> now"
    "oc_entries c op' = Some e \<Longrightarrow> oc_entries c' op' = Some e \<or> co_inserted_at e + dedupe_retention \<le> now"
    "bd = BindNew \<or> bd = BindPending \<Longrightarrow> \<exists>e. oc_entries c' op = Some e \<and> co_digest e = digest \<and> co_result e = None
      \<and> co_inserted_at e \<le> now \<and> now < co_inserted_at e + dedupe_retention" by blast+
qed

lemma prepare_spec:
  assumes wf: "wf_cache c" and old: "\<forall>(t, op) \<in> set (oc_expiry c). t \<le> now"
    and b: "prepare_acknowledged_batch sha ext debug sv en c client op t events now = (prepared, c')"
  shows "wf_cache c'" and "\<forall>(t, op) \<in> set (oc_expiry c'). t \<le> now"
    and "oc_entries c op' = Some e \<Longrightarrow> oc_entries c' op' = Some e \<or> co_inserted_at e + dedupe_retention \<le> now"
    and "prepared = Inr batch \<Longrightarrow> \<exists>e. oc_entries c' op = Some e \<and> co_digest e = operation_digest sha ext op t events
      \<and> co_result e = None \<and> co_inserted_at e \<le> now \<and> now < co_inserted_at e + dedupe_retention"
proof -
  obtain bd cb where bind: "bind_at c op (operation_digest sha ext op t events) now = (bd, cb)" by fastforce
  note s = bind_at_spec [OF wf old bind]
  have c': "c' = c \<and> (\<exists>r. prepared = Inl r) \<or> c' = cb \<and> (prepared = Inr batch \<longrightarrow> bd = BindNew \<or> bd = BindPending)"
    using b bind by (auto simp: prepare_acknowledged_batch_def split: if_splits cache_binding.splits)
  show "wf_cache c'" using c' wf s(1) by blast
  show "\<forall>(t, op) \<in> set (oc_expiry c'). t \<le> now" using c' old s(2) by blast
  show "oc_entries c op' = Some e \<Longrightarrow> oc_entries c' op' = Some e \<or> co_inserted_at e + dedupe_retention \<le> now"
    using c' s(3) by blast
  show "prepared = Inr batch \<Longrightarrow> \<exists>e. oc_entries c' op = Some e \<and> co_digest e = operation_digest sha ext op t events
      \<and> co_result e = None \<and> co_inserted_at e \<le> now \<and> now < co_inserted_at e + dedupe_retention"
    using c' s(4) by auto
qed

section \<open>The digest binds an id to its terminal\<close>

definition operation_frame :: "externs \<Rightarrow> input_operation_id \<times> wire_resource_id \<times> input_event list \<Rightarrow> bytes" where
  "operation_frame ext = (\<lambda>(op, t, events). encode ext (CommandFrame 0 (CmdApplyInput op t events)))"

text \<open>No two of the submitted operations have encodings that collide under SHA-256.\<close>

definition collision_free :: "(bytes \<Rightarrow> bytes) \<Rightarrow> externs \<Rightarrow> (input_operation_id \<times> wire_resource_id \<times> input_event list) list \<Rightarrow> bool" where
  "collision_free sha ext ops \<longleftrightarrow> inj_on sha (operation_frame ext ` set ops)"

lemma command_frame_length:
  assumes "length cmd \<le> 65536"
  shows "length (frame_bytes tb [(1, write_u32_be r), (2, cmd)]) \<le> 4 + unat max_frame_len"
proof -
  have "length (write_fields [(1, write_u32_be r), (2, cmd)]) \<le> 65552"
    using length_fields_le [of "[(1, write_u32_be r), (2, cmd)]"] assms by simp
  then show ?thesis by (simp add: frame_bytes_def Let_def write_u8_def)
qed

lemma operation_frame_decodes:
  assumes "well_formed_operation op t es"
  shows "decode_with_limits ext (operation_frame ext (op, t, es)) bootstrap_limits_default
    = Ok (CommandFrame 0 (CmdApplyInput op t es), [])"
proof -
  let ?cmd = "CmdApplyInput op t es"
  have wf: "wf_command ?cmd" using assms by (simp only: well_formed_operation_def)
  then have "length (encode_command ?cmd) \<le> 65536"
    unfolding wf_command_def max_apply_input_command_body_def command.case by simp
  from command_frame_length [OF this]
  have len: "length (encode ext (CommandFrame 0 ?cmd)) \<le> 4 + unat max_frame_len"
    unfolding encode_def encode_payload.simps encode_command_frame_def .
  have "wf_frame ext (max_chunk_bytes bootstrap_limits_default) (max_page_bytes bootstrap_limits_default) (CommandFrame 0 ?cmd)"
    using wf by (simp only: wf_frame.simps)
  from frame_decodes [OF this len, where rest = "[]"] show ?thesis
    unfolding operation_frame_def by (simp only: split append_Nil2) simp
qed

lemma operation_frame_inj:
  assumes "well_formed_operation op t es" "well_formed_operation op' t' es'"
    and eq: "operation_frame ext (op, t, es) = operation_frame ext (op', t', es')"
  shows "(op, t, es) = (op', t', es')"
  using operation_frame_decodes [OF assms(1), of ext] operation_frame_decodes [OF assms(2), of ext]
  unfolding eq by (simp only: sum.inject prod.inject frame_kind.inject command.inject simp_thms)

lemma digest_terminal:
  assumes "collision_free sha ext ops" and "(op, t, es) \<in> set ops" and "(op, t', es') \<in> set ops"
    and "well_formed_operation op t es" and "well_formed_operation op t' es'"
    and "operation_digest sha ext op t es = operation_digest sha ext op t' es'"
  shows "t = t'"
proof -
  from assms(6) have "sha (operation_frame ext (op, t, es)) = sha (operation_frame ext (op, t', es'))"
    by (simp add: operation_digest_def operation_frame_def)
  with assms(1-3) have "operation_frame ext (op, t, es) = operation_frame ext (op, t', es')"
    unfolding collision_free_def by (blast dest: inj_onD)
  with operation_frame_inj [OF assms(4,5)] show ?thesis by blast
qed

section \<open>The invariant\<close>

abbreviation admitted_of :: "routed_operation \<Rightarrow> instant" where
  "admitted_of j \<equiv> rv_admitted_at (ro_reservation j)"

definition bound_entry :: "(bytes \<Rightarrow> bytes) \<Rightarrow> externs \<Rightarrow> ack_state \<Rightarrow> routed_operation \<Rightarrow> instant \<Rightarrow> bool" where
  "bound_entry sha ext st j b \<longleftrightarrow> (\<exists>e. oc_entries (as_cache st) (ro_operation j) = Some e \<and> co_inserted_at e = b
     \<and> co_digest e = operation_digest sha ext (ro_operation j) (ro_terminal j) (ro_events j))"

definition result_known :: "ack_state \<Rightarrow> routed_operation \<Rightarrow> bool" where
  "result_known st j \<longleftrightarrow> (\<exists>e. oc_entries (as_cache st) (ro_operation j) = Some e \<and> co_result e \<noteq> None)"

definition awaiting :: "ack_state \<Rightarrow> routed_operation \<Rightarrow> u64 \<Rightarrow> bool" where
  "awaiting st j t \<longleftrightarrow> (\<exists>p. pc_ticket p = t \<and> pc_operation p = ro_operation j \<and> pc_reservation p = ro_reservation j
     \<and> (p \<in> set (waiting st)
        \<or> (\<exists>r pre post. as_todo st = pre @ SetFinal (pc_operation p) r # Release (pc_reservation p) # post)))"

text \<open>An attempt in the open keeps the record bound to it, and has a result or is waited for.\<close>

definition guarded :: "(bytes \<Rightarrow> bytes) \<Rightarrow> externs \<Rightarrow> ack_state \<Rightarrow> routed_operation \<Rightarrow> u64 \<Rightarrow> instant \<Rightarrow> bool" where
  "guarded sha ext st j t b \<longleftrightarrow> bound_entry sha ext st j b \<and> (result_known st j \<or> awaiting st j t)"

text \<open>Whatever is still to be taken up was admitted after the record's horizon.\<close>

definition past_horizon :: "ack_state \<Rightarrow> instant \<Rightarrow> bool" where
  "past_horizon st b \<longleftrightarrow> b + dedupe_retention \<le> as_now st
     \<and> (\<forall>k \<in> set (lane_jobs (as_lane st)). b + dedupe_retention \<le> admitted_of k)"

definition lane_job :: "lane_state \<Rightarrow> (routed_operation \<times> u64) list" where
  "lane_job pc = (case pc of LanePrepared j t _ _ \<Rightarrow> [(j, t)] | LaneRegistered j t _ _ \<Rightarrow> [(j, t)] | _ \<Rightarrow> [])"

definition jobs_ok :: "ack_state \<Rightarrow> bool" where
  "jobs_ok st \<longleftrightarrow> (\<forall>j \<in> set (lane_jobs (as_lane st) @ map fst (lane_job (as_pc st)) @ map hd_job (as_handed st)).
     (ro_operation j, ro_terminal j, ro_events j) \<in> set (as_submitted st)
     \<and> well_formed_operation (ro_operation j) (ro_terminal j) (ro_events j)
     \<and> rv_terminal (ro_reservation j) = ro_terminal j)"

definition times_ok :: "ack_state \<Rightarrow> bool" where
  "times_ok st \<longleftrightarrow> wf_cache (as_cache st) \<and> sorted (map admitted_of (lane_jobs (as_lane st)))
     \<and> (\<forall>k \<in> set (lane_jobs (as_lane st)). admitted_of k \<le> as_now st)
     \<and> (\<forall>(t, op) \<in> set (oc_expiry (as_cache st)). t \<le> as_now st \<and> (\<forall>k \<in> set (lane_jobs (as_lane st)). t \<le> admitted_of k))"

definition claimed :: "ack_state \<Rightarrow> routed_operation \<Rightarrow> instant \<Rightarrow> bool" where
  "claimed st j b \<longleftrightarrow> b \<le> admitted_of j \<and> admitted_of j < b + dedupe_retention
     \<and> (\<forall>h \<in> set (as_handed st). ro_operation (hd_job h) = ro_operation j \<longrightarrow> hd_bound_at h + dedupe_retention \<le> admitted_of j)"

definition lane_ok :: "(bytes \<Rightarrow> bytes) \<Rightarrow> externs \<Rightarrow> ack_state \<Rightarrow> bool" where
  "lane_ok sha ext st \<longleftrightarrow> (case as_pc st of
     LanePrepared j _ _ b \<Rightarrow> bound_entry sha ext st j b \<and> claimed st j b
   | LaneRegistered j t _ b \<Rightarrow> guarded sha ext st j t b \<and> claimed st j b
   | _ \<Rightarrow> True)"

definition handed_ok :: "(bytes \<Rightarrow> bytes) \<Rightarrow> externs \<Rightarrow> ack_state \<Rightarrow> bool" where
  "handed_ok sha ext st \<longleftrightarrow> (\<forall>h \<in> set (as_handed st).
     past_horizon st (hd_bound_at h) \<or> guarded sha ext st (hd_job h) (hd_ticket h) (hd_bound_at h))"

text \<open>Tickets the lane gave up were never handed to a pane.\<close>

definition given_up :: "ack_state \<Rightarrow> u64 set" where
  "given_up st = {t. (\<exists>r. Abandoned t r \<in> set (as_chan st)) \<or> (\<exists>r. as_pc st = LaneAbandon t r)}"

definition gone_ok :: "ack_state \<Rightarrow> bool" where
  "gone_ok st \<longleftrightarrow> given_up st \<inter> (hd_ticket ` set (as_handed st) \<union> snd ` set (lane_job (as_pc st))) = {}
     \<and> hd_ticket ` set (as_handed st) \<inter> snd ` set (lane_job (as_pc st)) = {}
     \<and> (\<forall>t \<in> given_up st \<union> hd_ticket ` set (as_handed st) \<union> snd ` set (lane_job (as_pc st)). unat t \<le> as_minted st)"

definition log_ok :: "handoff list \<Rightarrow> bool" where
  "log_ok hs \<longleftrightarrow> sorted_wrt (\<lambda>h k. ro_operation (hd_job h) = ro_operation (hd_job k) \<longrightarrow>
       hd_bound_at h + dedupe_retention \<le> admitted_of (hd_job k)) hs
     \<and> (\<forall>h \<in> set hs. hd_bound_at h \<le> admitted_of (hd_job h) \<and> admitted_of (hd_job h) < hd_bound_at h + dedupe_retention)"

definition once_ok :: "(bytes \<Rightarrow> bytes) \<Rightarrow> externs \<Rightarrow> ack_state \<Rightarrow> bool" where
  "once_ok sha ext st \<longleftrightarrow> log_ok (as_handed st) \<and> (as_waiter_up st \<longrightarrow>
     jobs_ok st \<and> times_ok st \<and> lane_ok sha ext st \<and> handed_ok sha ext st \<and> gone_ok st)"

section \<open>Steps and the record\<close>

text \<open>A step keeps the record of an id if it leaves it bound as it was and does not lose its result.\<close>

definition keeps_record :: "ack_state \<Rightarrow> ack_state \<Rightarrow> bool" where
  "keeps_record st st' \<longleftrightarrow> (\<forall>op e. oc_entries (as_cache st) op = Some e \<longrightarrow>
     (\<exists>e'. oc_entries (as_cache st') op = Some e' \<and> co_inserted_at e' = co_inserted_at e \<and> co_digest e' = co_digest e
        \<and> (co_result e \<noteq> None \<longrightarrow> co_result e' \<noteq> None)))"

lemma keeps_same: "as_cache st' = as_cache st \<Longrightarrow> keeps_record st st'"
  by (simp add: keeps_record_def)

lemma keeps_perform: "as_cache st' = as_cache (perform st a) \<Longrightarrow> keeps_record st st'"
  by (cases a) (auto simp: keeps_record_def perform_def set_final_def split: option.splits)

lemma keeps_bound: "keeps_record st st' \<Longrightarrow> bound_entry sha ext st j b \<Longrightarrow> bound_entry sha ext st' j b"
  unfolding keeps_record_def bound_entry_def by fastforce

lemma keeps_known: "keeps_record st st' \<Longrightarrow> result_known st j \<Longrightarrow> result_known st' j"
  unfolding keeps_record_def result_known_def by fastforce

lemma keeps_guarded:
  assumes "keeps_record st st'" and "awaiting st j t \<Longrightarrow> bound_entry sha ext st j b \<Longrightarrow> awaiting st' j t \<or> result_known st' j"
  shows "guarded sha ext st j t b \<Longrightarrow> guarded sha ext st' j t b"
  using keeps_bound [OF assms(1)] keeps_known [OF assms(1)] assms(2) unfolding guarded_def by blast

lemma final_known:
  "bound_entry sha ext st j b \<Longrightarrow> as_cache st' = as_cache (perform st (SetFinal (ro_operation j) r)) \<Longrightarrow> result_known st' j"
  by (auto simp: bound_entry_def result_known_def perform_def set_final_def)

text \<open>Waiting operations stay waiting until the waiter takes them up.\<close>

lemma awaiting_more:
  "set (waiting st) \<subseteq> set (waiting st') \<Longrightarrow> as_todo st' = as_todo st \<Longrightarrow> awaiting st j t \<Longrightarrow> awaiting st' j t"
  unfolding awaiting_def by auto

lemma awaiting_act:
  assumes "awaiting st j t" and "as_todo st = a # acts" and "waiting st' = waiting st" and "as_todo st' = acts"
    and "as_cache st' = as_cache (perform st a)" and "bound_entry sha ext st j b"
  shows "awaiting st' j t \<or> result_known st' j"
proof -
  from assms(1) obtain p where p: "pc_ticket p = t" "pc_operation p = ro_operation j" "pc_reservation p = ro_reservation j"
    "p \<in> set (waiting st) \<or> (\<exists>r pre post. as_todo st = pre @ SetFinal (pc_operation p) r # Release (pc_reservation p) # post)"
    unfolding awaiting_def by blast
  from p(4) show ?thesis
  proof
    assume "p \<in> set (waiting st)"
    with p assms(3) show ?thesis unfolding awaiting_def by auto
  next
    assume "\<exists>r pre post. as_todo st = pre @ SetFinal (pc_operation p) r # Release (pc_reservation p) # post"
    then obtain r pre post where t: "a # acts = pre @ SetFinal (pc_operation p) r # Release (pc_reservation p) # post"
      using assms(2) by metis
    show ?thesis
    proof (cases pre)
      case Nil
      with t p have "a = SetFinal (ro_operation j) r" by simp
      with final_known [OF assms(6)] assms(5) show ?thesis by blast
    next
      case (Cons x pre')
      with t have "as_todo st' = pre' @ SetFinal (pc_operation p) r # Release (pc_reservation p) # post"
        by (simp add: assms(4))
      with p show ?thesis unfolding awaiting_def by blast
    qed
  qed
qed

lemma work_has:
  assumes "(p, r) \<in> set fs"
  shows "\<exists>pre post. work fs gs = pre @ SetFinal (pc_operation p) r # Release (pc_reservation p) # post"
proof -
  from split_list [OF assms] obtain xs ys where "fs = xs @ (p, r) # ys" by blast
  then show ?thesis
    by (rule_tac exI [of _ "concat (map (\<lambda>(p, r). finalize p r) xs)"]) (simp add: work_def finalize_def)
qed

lemma awaiting_round:
  assumes "awaiting st j t" and "as_todo st = []"
    and m: "mset (map fst fs @ map fst gs @ registered_in c @ pending_list ps) = mset (waiting st)"
    and g: "\<forall>(p, r) \<in> set gs. pc_ticket p \<noteq> t"
    and st': "as_chan st' = c" "as_pending st' = ps" "as_todo st' = work fs gs"
  shows "awaiting st' j t"
proof -
  from assms(1,2) obtain p where p: "pc_ticket p = t" "pc_operation p = ro_operation j" "pc_reservation p = ro_reservation j"
    "p \<in> set (waiting st)" unfolding awaiting_def by auto
  from p(4) mset_eq_setD [OF m] have "p \<in> fst ` set fs \<or> p \<in> fst ` set gs \<or> p \<in> set (waiting st')"
    by (auto simp: waiting_def st')
  with g p(1) have "p \<in> fst ` set fs \<or> p \<in> set (waiting st')" by auto
  then show ?thesis
  proof
    assume "p \<in> fst ` set fs"
    then obtain r where "(p, r) \<in> set fs" by auto
    from work_has [OF this, of gs] p(1-3) show ?thesis unfolding awaiting_def st'(3) by blast
  qed (use p in \<open>auto simp: awaiting_def\<close>)
qed

text \<open>An operation that is waited for holds its terminal's reservation.\<close>

lemma awaiting_busy:
  assumes "awaiting st j t"
  shows "rv_terminal (ro_reservation j) \<in> set (map (\<lambda>p. rv_terminal (pc_reservation p)) (waiting st) @ List.map_filter release_of (as_todo st))"
proof -
  from assms obtain p where p: "pc_reservation p = ro_reservation j" and
    "p \<in> set (waiting st) \<or> (\<exists>r pre post. as_todo st = pre @ SetFinal (pc_operation p) r # Release (pc_reservation p) # post)"
    unfolding awaiting_def by blast
  then show ?thesis by (auto simp: map_filter_append release_of_def simp flip: p)
qed

lemma prepare_excludes:
  assumes busy: "distinct (busy_terminals st)" and jobs: "jobs_ok st" and times: "times_ok st"
    and handed: "handed_ok sha ext st" and cf: "collision_free sha ext (as_submitted st)"
    and lane: "as_lane st = Acknowledged j # q" and h: "h \<in> set (as_handed st)" and op: "ro_operation (hd_job h) = ro_operation j"
    and prep: "prepare_acknowledged_batch sha ext debug sv en (as_cache st) (ro_client j) (ro_operation j) (ro_terminal j)
       (ro_events j) (admitted_of j) = (Inr b, c)"
  shows "hd_bound_at h + dedupe_retention \<le> admitted_of j"
proof (rule ccontr)
  assume late: "\<not> ?thesis"
  then have "\<not> past_horizon st (hd_bound_at h)" by (simp add: past_horizon_def lane)
  with handed h have g: "guarded sha ext st (hd_job h) (hd_ticket h) (hd_bound_at h)" by (auto simp: handed_ok_def)
  then obtain e where e: "oc_entries (as_cache st) (ro_operation j) = Some e" "co_inserted_at e = hd_bound_at h"
    "co_digest e = operation_digest sha ext (ro_operation j) (ro_terminal (hd_job h)) (ro_events (hd_job h))"
    by (auto simp: guarded_def bound_entry_def op)
  have wf: "wf_cache (as_cache st)" "\<forall>(t, op) \<in> set (oc_expiry (as_cache st)). t \<le> admitted_of j"
    using times lane by (auto simp: times_ok_def)
  note s = prepare_spec [OF wf prep]
  from s(3) [OF e(1)] late e(2) have "oc_entries c (ro_operation j) = Some e" by simp
  with s(4) [OF refl] have d: "co_digest e = operation_digest sha ext (ro_operation j) (ro_terminal j) (ro_events j)"
    and r: "co_result e = None" by auto
  have jobs': "(ro_operation k, ro_terminal k, ro_events k) \<in> set (as_submitted st)"
    "well_formed_operation (ro_operation k) (ro_terminal k) (ro_events k)" "rv_terminal (ro_reservation k) = ro_terminal k"
    if "k = j \<or> k = hd_job h" for k using jobs lane h that by (auto simp: jobs_ok_def)
  have t: "ro_terminal (hd_job h) = ro_terminal j"
    using digest_terminal [OF cf] jobs' [of j] jobs' [of "hd_job h"] d e(3) op by metis
  from g r e(1) have "awaiting st (hd_job h) (hd_ticket h)" by (auto simp: guarded_def result_known_def op)
  from awaiting_busy [OF this] jobs'(3) t
  have "ro_terminal j \<in> set (map (\<lambda>p. rv_terminal (pc_reservation p)) (waiting st) @ List.map_filter release_of (as_todo st))"
    by auto
  with busy jobs'(3) [of j] show False by (auto simp: holding_def lane)
qed

section \<open>Every step keeps the invariant\<close>

lemma jobs_ok_step:
  assumes "step_effect sha ext debug who st st'" and ok: "jobs_ok st"
  shows "jobs_ok st'"
  using assms(1)
proof cases
  case lane
  from lane(3) show ?thesis by cases (use ok in \<open>auto simp: jobs_ok_def lane_job_def\<close>)
next
  case (admitted j)
  with ok show ?thesis by (auto simp: jobs_ok_def)
qed (use ok in \<open>auto simp: jobs_ok_def\<close>)

lemma set_final_times [simp]: "oc_expiry (set_final c op r) = oc_expiry c" "wf_cache (set_final c op r) = wf_cache c"
  by (auto simp: set_final_def wf_cache_def split: option.splits if_splits)

lemma perform_times [simp]:
  "oc_expiry (as_cache (perform st a)) = oc_expiry (as_cache st)" "wf_cache (as_cache (perform st a)) = wf_cache (as_cache st)"
  by (cases a; simp add: perform_def)+

lemma times_prepare:
  assumes ok: "times_ok st" and lane: "as_lane st = Acknowledged j # q"
    and prep: "prepare_acknowledged_batch sha ext debug sv en (as_cache st) (ro_client j) (ro_operation j) (ro_terminal j)
       (ro_events j) (admitted_of j) = (prepared, c)"
    and st': "as_cache st' = c" "as_lane st' = q" "as_now st' = as_now st"
  shows "times_ok st'"
proof -
  have wf: "wf_cache (as_cache st)" "\<forall>(t, op) \<in> set (oc_expiry (as_cache st)). t \<le> admitted_of j"
    and j: "admitted_of j \<le> as_now st" "\<forall>k \<in> set (lane_jobs q). admitted_of j \<le> admitted_of k"
    using ok lane by (auto simp: times_ok_def)
  note s = prepare_spec [OF wf prep]
  have "t \<le> as_now st \<and> (\<forall>k \<in> set (lane_jobs q). t \<le> admitted_of k)" if "(t, op) \<in> set (oc_expiry c)" for t op
    using s(2) that j by fastforce
  with s(1) ok lane show ?thesis by (auto simp: times_ok_def st')
qed

lemma times_ok_step:
  assumes "step_effect sha ext debug who st st'" and ok: "times_ok st"
  shows "times_ok st'"
  using assms(1)
proof cases
  case lane
  from lane(3) show ?thesis
  proof cases
    case (refuse j q sv en r c)
    show ?thesis by (rule times_prepare [OF ok refuse(3,4)]) (simp_all add: refuse(1))
  next
    case (prepare j q sv en b c bound)
    show ?thesis by (rule times_prepare [OF ok prepare(3,4)]) (simp_all add: prepare(1))
  qed (use ok in \<open>auto simp: times_ok_def\<close>)
next
  case (admitted j)
  with ok show ?thesis by (auto simp: times_ok_def sorted_append)
next
  case (tick n)
  with ok show ?thesis by (fastforce simp: times_ok_def)
qed (use ok in \<open>auto simp: times_ok_def\<close>)

lemma given_up_sub:
  "set (as_chan st') \<subseteq> set (as_chan st) \<union> {m. \<forall>t r. m \<noteq> Abandoned t r} \<Longrightarrow> as_pc st' = as_pc st \<Longrightarrow> given_up st' \<subseteq> given_up st"
  unfolding given_up_def by auto

lemma gone_ok_less:
  "gone_ok st \<Longrightarrow> given_up st' \<subseteq> given_up st \<Longrightarrow> as_pc st' = as_pc st \<Longrightarrow> as_handed st' = as_handed st \<Longrightarrow>
     as_minted st' = as_minted st \<Longrightarrow> gone_ok st'"
  unfolding gone_ok_def by auto

lemma gone_ok_step:
  assumes "step_effect sha ext debug who st st'" and ok: "gone_ok st" and tk: "tickets_ok st" and m: "as_minted st' < 2 ^ 64"
  shows "gone_ok st'"
  using assms(1)
proof cases
  case lane
  from lane(3) show ?thesis
  proof cases
    case (prepare j q sv en b c bound)
    have "unat (as_tickets st + 1) = Suc (as_minted st)"
      using next_ticket_fresh [of "as_minted st"] tk m prepare(1) by (simp add: tickets_ok_def)
    moreover have "\<forall>t \<in> given_up st \<union> hd_ticket ` set (as_handed st). unat t \<le> as_minted st" using ok by (auto simp: gone_ok_def)
    moreover have "given_up st' = given_up st" by (simp add: prepare(1,2) given_up_def)
    ultimately show ?thesis using ok by (force simp: gone_ok_def lane_job_def prepare(1,2))
  next
    case (refuse j q sv en r c)
    have "given_up st' = given_up st" by (simp add: refuse(1,2) given_up_def)
    with ok show ?thesis by (force simp: gone_ok_def lane_job_def refuse(1,2))
  next
    case (give_up j t b bound ms r)
    then have "given_up st' \<subseteq> insert t (given_up st)" by (auto simp: given_up_def)
    with ok give_up show ?thesis by (auto simp: gone_ok_def lane_job_def)
  next
    case (abandon t r)
    then have "given_up st' \<subseteq> given_up st" by (auto simp: given_up_def)
    with ok abandon show ?thesis by (auto simp: gone_ok_def lane_job_def)
  next
    case (register j t b bound p)
    then have "given_up st' = given_up st" by (auto simp: given_up_def)
    with ok register show ?thesis by (auto simp: gone_ok_def lane_job_def)
  qed (use ok in \<open>auto simp: gone_ok_def lane_job_def given_up_def\<close>)
next
  case (round mm q ps fs gs c up)
  then have "given_up st' \<subseteq> given_up st" by (intro given_up_sub) (auto split: if_splits)
  from gone_ok_less [OF ok this] show ?thesis by (simp add: round(2))
next
  case (report t outcome)
  then have "given_up st' \<subseteq> given_up st" by (intro given_up_sub) auto
  from gone_ok_less [OF ok this] show ?thesis by (simp add: report(2))
next
  case close
  then have "given_up st' \<subseteq> given_up st" by (intro given_up_sub) auto
  from gone_ok_less [OF ok this] show ?thesis by (simp add: close(2))
qed (use ok in \<open>auto simp: gone_ok_def given_up_def\<close>)

lemma past_horizon_step:
  assumes "step_effect sha ext debug who st st'" and "past_horizon st b"
  shows "past_horizon st' b"
  using assms(1)
proof cases
  case lane
  from lane(3) show ?thesis by cases (use assms(2) in \<open>simp_all add: past_horizon_def\<close>)
qed (use assms(2) in \<open>auto simp: past_horizon_def\<close>)

lemma keeps_other: "step_effect sha ext debug who st st' \<Longrightarrow> who \<noteq> LaneThread \<Longrightarrow> keeps_record st st'"
  by (erule step_effect.cases) (auto intro: keeps_same keeps_perform)

lemma guarded_other:
  assumes "step_effect sha ext debug who st st'" and who: "who \<noteq> LaneThread" and up: "as_waiter_up st'"
    and t: "t \<notin> given_up st" and g: "guarded sha ext st j t b"
  shows "guarded sha ext st' j t b"
proof (rule keeps_guarded [OF keeps_other [OF assms(1) who] _ g])
  assume aw: "awaiting st j t" and be: "bound_entry sha ext st j b"
  from assms(1) show "awaiting st' j t \<or> result_known st' j"
  proof cases
    case (act a acts)
    show ?thesis by (rule awaiting_act [OF aw act(3) _ _ _ be]) (simp_all add: act(2) waiting_def)
  next
    case (round m q ps fs gs c up')
    have "pc_ticket p \<noteq> t" if "(p, r) \<in> set gs" for p r
    proof
      assume "pc_ticket p = t"
      moreover from up round(2,10) have "m \<noteq> Some Shutdown" by (auto split: if_splits)
      with that round(9) have "m = Some (Abandoned (pc_ticket p) r)" by auto
      ultimately show False using t round(5) by (auto simp: given_up_def received_def)
    qed
    then have "\<forall>(p, r) \<in> set gs. pc_ticket p \<noteq> t" by blast
    from awaiting_round [OF aw round(3) round(7) this] show ?thesis by (simp add: round(2))
  next
    case lane
    with who show ?thesis by simp
  qed (rule disjI1, rule awaiting_more [OF _ _ aw], simp_all add: waiting_def)+
qed

lemma guarded_prepare:
  assumes ok: "times_ok st" and lane: "as_lane st = Acknowledged k # q"
    and prep: "prepare_acknowledged_batch sha ext debug sv en (as_cache st) (ro_client k) (ro_operation k) (ro_terminal k)
       (ro_events k) (admitted_of k) = (prepared, c)"
    and st': "as_cache st' = c" "as_lane st' = q" "as_now st' = as_now st" "waiting st' = waiting st" "as_todo st' = as_todo st"
    and g: "guarded sha ext st j t b"
  shows "guarded sha ext st' j t b \<or> past_horizon st' b"
proof -
  have wf: "wf_cache (as_cache st)" "\<forall>(t, op) \<in> set (oc_expiry (as_cache st)). t \<le> admitted_of k"
    and k: "admitted_of k \<le> as_now st" "\<forall>i \<in> set (lane_jobs q). admitted_of k \<le> admitted_of i"
    using ok lane by (auto simp: times_ok_def)
  note s = prepare_spec [OF wf prep]
  from g obtain e where e: "oc_entries (as_cache st) (ro_operation j) = Some e" "co_inserted_at e = b"
    by (auto simp: guarded_def bound_entry_def)
  from s(3) [OF e(1)] show ?thesis
  proof
    assume "oc_entries c (ro_operation j) = Some e"
    then have same: "oc_entries (as_cache st') (ro_operation j) = oc_entries (as_cache st) (ro_operation j)"
      by (simp add: st' e(1))
    have "awaiting st' j t = awaiting st j t" by (simp add: awaiting_def st')
    with g same show ?thesis by (auto simp: guarded_def bound_entry_def result_known_def)
  next
    assume "co_inserted_at e + dedupe_retention \<le> admitted_of k"
    with k have "past_horizon st' b" by (auto simp: past_horizon_def st' e(2))
    then show ?thesis ..
  qed
qed

lemma guarded_lane:
  assumes "lane_effect sha ext debug st st'" and ok: "times_ok st" and g: "guarded sha ext st j t b"
  shows "guarded sha ext st' j t b \<or> past_horizon st' b"
proof -
  have easy: "guarded sha ext st2 j t b"
    if "keeps_record st st2" "set (waiting st) \<subseteq> set (waiting st2)" "as_todo st2 = as_todo st" for st2
    using that by (intro keeps_guarded [OF _ _ g]) (auto intro: awaiting_more)
  from assms(1) show ?thesis
  proof cases
    case (refuse k q sv en r c)
    show ?thesis by (rule guarded_prepare [OF ok refuse(3,4) _ _ _ _ _ g]) (simp_all add: refuse(1) waiting_def)
  next
    case (prepare k q sv en bb c bound)
    show ?thesis by (rule guarded_prepare [OF ok prepare(3,4) _ _ _ _ _ g]) (simp_all add: prepare(1) waiting_def)
  next
    case (act a acts)
    have "keeps_record st st'" by (rule keeps_perform [of _ _ a]) (simp add: act(1))
    from easy [OF this] show ?thesis by (simp add: act(1) waiting_def)
  qed (auto simp: waiting_def intro!: disjI1 easy keeps_same)
qed

lemma handed_ok_step:
  assumes e: "step_effect sha ext debug who st st'" and up: "as_waiter_up st'" and ok: "handed_ok sha ext st"
    and times: "times_ok st" and lane_ok: "lane_ok sha ext st" and gone: "gone_ok st"
  shows "handed_ok sha ext st'"
  unfolding handed_ok_def
proof
  fix h assume h: "h \<in> set (as_handed st')"
  show "past_horizon st' (hd_bound_at h) \<or> guarded sha ext st' (hd_job h) (hd_ticket h) (hd_bound_at h)"
  proof (cases "h \<in> set (as_handed st)")
    case True
    with ok consider "past_horizon st (hd_bound_at h)" | "guarded sha ext st (hd_job h) (hd_ticket h) (hd_bound_at h)"
      by (auto simp: handed_ok_def)
    then show ?thesis
    proof cases
      case 1
      then show ?thesis using past_horizon_step [OF e] by blast
    next
      case 2
      show ?thesis
      proof (cases "who = LaneThread")
        case True
        from e True have "lane_effect sha ext debug st st'" by cases simp_all
        from guarded_lane [OF this times 2] show ?thesis by blast
      next
        case False
        have "hd_ticket h \<notin> given_up st" using gone \<open>h \<in> set (as_handed st)\<close> by (auto simp: gone_ok_def)
        from guarded_other [OF e False up this 2] show ?thesis by blast
      qed
    qed
  next
    case False
    from e h False obtain j t b bound pane where new: "as_pc st = LaneRegistered j t b bound"
      "h = \<lparr>hd_job = j, hd_ticket = t, hd_bytes = pb_bytes b, hd_pane = pane, hd_bound_at = bound\<rparr>"
      "as_cache st' = as_cache st" "waiting st' = waiting st" "as_todo st' = as_todo st"
      by (elim step_effect.cases lane_effect.cases) (auto simp: waiting_def)
    from lane_ok new(1) have "guarded sha ext st j t bound" by (simp add: lane_ok_def)
    with new show ?thesis by (simp add: guarded_def bound_entry_def result_known_def awaiting_def)
  qed
qed

lemma log_ok_step:
  assumes "step_effect sha ext debug who st st'" and ok: "log_ok (as_handed st)" and lane_ok: "as_waiter_up st \<longrightarrow> lane_ok sha ext st"
    and life: "lifecycle_ok st"
  shows "log_ok (as_handed st')"
  using assms(1)
proof cases
  case lane
  from lane(3) show ?thesis
  proof cases
    case (handoff j t b bound pane)
    with life have "as_waiter_up st" by (auto simp: lifecycle_ok_def)
    with lane_ok handoff(2) have "claimed st j bound" by (simp add: lane_ok_def)
    with ok show ?thesis by (auto simp: handoff(1) log_ok_def sorted_wrt_append claimed_def)
  qed (use ok in simp_all)
qed (use ok in simp_all)

lemma lane_ok_other:
  assumes e: "step_effect sha ext debug who st st'" and who: "who \<noteq> LaneThread" and up: "as_waiter_up st'"
    and ok: "lane_ok sha ext st" and gone: "gone_ok st"
  shows "lane_ok sha ext st'"
proof -
  from e who have same: "as_pc st' = as_pc st" "as_handed st' = as_handed st" by (cases; simp)+
  have claimed: "claimed st' j b = claimed st j b" for j b by (simp add: claimed_def same)
  show ?thesis
  proof (cases "as_pc st")
    case (LanePrepared j t b bound)
    with ok keeps_bound [OF keeps_other [OF e who]] show ?thesis by (simp add: lane_ok_def same claimed)
  next
    case (LaneRegistered j t b bound)
    have "t \<notin> given_up st" using gone LaneRegistered by (auto simp: gone_ok_def lane_job_def)
    with LaneRegistered ok guarded_other [OF e who up] show ?thesis by (simp add: lane_ok_def same claimed)
  qed (simp_all add: lane_ok_def same)
qed

lemma lane_ok_lane:
  assumes e: "lane_effect sha ext debug st st'" and ok: "lane_ok sha ext st"
    and busy: "distinct (busy_terminals st)" and jobs: "jobs_ok st" and times: "times_ok st"
    and handed: "handed_ok sha ext st" and cf: "collision_free sha ext (as_submitted st)"
  shows "lane_ok sha ext st'"
  using e
proof cases
  case (prepare j q sv en b c bound)
  have wf: "wf_cache (as_cache st)" "\<forall>(t, op) \<in> set (oc_expiry (as_cache st)). t \<le> admitted_of j"
    using times prepare(3) by (auto simp: times_ok_def)
  from prepare_spec(4) [OF wf prepare(4) refl] prepare(5) have "bound_entry sha ext st' j bound"
    "bound \<le> admitted_of j" "admitted_of j < bound + dedupe_retention" by (auto simp: bound_entry_def prepare(1))
  moreover have "hd_bound_at h + dedupe_retention \<le> admitted_of j"
    if "h \<in> set (as_handed st)" "ro_operation (hd_job h) = ro_operation j" for h
    by (rule prepare_excludes [OF busy jobs times handed cf prepare(3) that prepare(4)])
  ultimately show ?thesis by (simp add: lane_ok_def claimed_def prepare(1))
next
  case (register j t b bound p)
  with ok have "bound_entry sha ext st j bound" "claimed st j bound" by (simp_all add: lane_ok_def)
  moreover have "awaiting st' j t" using register by (auto simp: awaiting_def waiting_def)
  ultimately show ?thesis by (simp add: lane_ok_def guarded_def register(1) bound_entry_def claimed_def)
qed (simp_all add: lane_ok_def)

lemma once_ok_step:
  assumes e: "step_effect sha ext debug who st st'" and ok: "once_ok sha ext st" and tk: "tickets_ok st"
    and life: "lifecycle_ok st" and acc: "accounts_ok st" and m: "as_minted st' < 2 ^ 64"
    and cf: "collision_free sha ext (as_submitted st)"
  shows "once_ok sha ext st'"
proof -
  have log: "log_ok (as_handed st')" using log_ok_step [OF e _ _ life] ok by (simp add: once_ok_def)
  show ?thesis
  proof (cases "as_waiter_up st'")
    case True
    with e have up: "as_waiter_up st" by (elim step_effect.cases lane_effect.cases) (auto split: if_splits)
    with ok have o: "jobs_ok st" "times_ok st" "lane_ok sha ext st" "handed_ok sha ext st" "gone_ok st"
      by (simp_all add: once_ok_def)
    have busy: "distinct (busy_terminals st)"
      using busy_distinct [OF acc] by simp
    have "lane_ok sha ext st'"
    proof (cases "who = LaneThread")
      case True
      from e True have "lane_effect sha ext debug st st'" by cases simp_all
      from lane_ok_lane [OF this o(3) busy o(1,2,4) cf] show ?thesis .
    qed (rule lane_ok_other [OF e _ \<open>as_waiter_up st'\<close> o(3,5)])
    with log jobs_ok_step [OF e o(1)] times_ok_step [OF e o(2)] handed_ok_step [OF e True o(4,2,3,5)]
      gone_ok_step [OF e o(5) tk m] show ?thesis by (simp add: once_ok_def)
  qed (simp add: once_ok_def log)
qed

lemma ack_reach_once:
  "ack_reach sha ext debug st \<Longrightarrow> as_minted st < 2 ^ 64 \<Longrightarrow> collision_free sha ext (as_submitted st) \<Longrightarrow> once_ok sha ext st"
proof (induction rule: ack_reach.induct)
  case start
  then show ?case
    by (simp add: once_ok_def log_ok_def jobs_ok_def times_ok_def lane_ok_def handed_ok_def gone_ok_def given_up_def
        lane_job_def wf_cache_def ack_start_def)
next
  case (more st who st')
  from ack_step_grows [OF more(2)] more(4) have m: "as_minted st < 2 ^ 64" by simp
  have cf: "collision_free sha ext (as_submitted st)"
    using more(5) ack_step_grows [OF more(2)] unfolding collision_free_def by (blast intro: inj_on_subset)
  from ack_reach_ok [OF more(1) m] have ok: "tickets_ok st" "lifecycle_ok st" "accounts_ok st" by simp_all
  show ?case
    by (rule once_ok_step [OF ack_step_effect [OF more(2) ok(1)] more(3) [OF m cf] ok more(4) cf])
qed

end
