(* ===== verification/Ack_Run.thy ===== *)
theory Ack_Run
  imports Ack_Once
begin

text \<open>
  Running acknowledged input: a schedule says who moves next and what the environment answers, and a
  schedule whose moves are possible reaches its final state. One schedule shows the horizon of the
  dedupe record at work.
\<close>

datatype ack_move =
    MoveSubmit server_client_id input_operation_id wire_resource_id "input_event list"
  | MoveTick instant
  | MoveLane server_view encoders
  | MoveWaiter
  | MoveReport u64 write_completion

definition waiter_move :: "ack_state \<Rightarrow> ack_state" where
  "waiter_move st = (case as_todo st of
     a # acts \<Rightarrow> (perform st a)\<lparr>as_todo := acts\<rparr>
   | [] \<Rightarrow> (case as_chan st of
       m # q \<Rightarrow> waiter_receive st (Some m) q
     | [] \<Rightarrow> waiter_receive st None []))"

definition do_move :: "(bytes \<Rightarrow> bytes) \<Rightarrow> externs \<Rightarrow> (wire_resource_id \<Rightarrow> str) \<Rightarrow> ack_move \<Rightarrow> ack_state \<Rightarrow> ack_state" where
  "do_move sha ext debug m st = (case m of
     MoveSubmit client op t events \<Rightarrow> apply_input st client op t events
   | MoveTick n \<Rightarrow> st\<lparr>as_now := n\<rparr>
   | MoveLane sv en \<Rightarrow> lane_step sha ext debug sv en st
   | MoveWaiter \<Rightarrow> waiter_move st
   | MoveReport t outcome \<Rightarrow> (tell st [Completed t outcome])\<lparr>as_sinks := remove1 t (as_sinks st)\<rparr>)"

definition can_move :: "ack_move \<Rightarrow> ack_state \<Rightarrow> bool" where
  "can_move m st = (case m of
     MoveSubmit client op t events \<Rightarrow> as_open st \<and> well_formed_operation op t events
   | MoveTick n \<Rightarrow> as_now st \<le> n
   | MoveLane _ _ \<Rightarrow> lane_ready st
   | MoveWaiter \<Rightarrow> waiter_ready st
   | MoveReport t _ \<Rightarrow> t \<in> set (as_sinks st))"

definition mover :: "ack_move \<Rightarrow> actor" where
  "mover m = (case m of MoveSubmit _ _ _ _ \<Rightarrow> ClientTask | MoveTick _ \<Rightarrow> Clock | MoveLane _ _ \<Rightarrow> LaneThread
     | MoveWaiter \<Rightarrow> WaiterThread | MoveReport _ _ \<Rightarrow> WriterThread)"

lemma move_step:
  assumes "can_move m st"
  shows "ack_step sha ext debug (mover m) st (do_move sha ext debug m st)"
proof (cases m)
  case MoveWaiter
  show ?thesis
  proof (cases "as_todo st")
    case Nil
    show ?thesis
    proof (cases "as_chan st")
      case Nil
      with \<open>as_todo st = []\<close> assms MoveWaiter ack_step.timeout [of st sha ext debug] show ?thesis
        by (simp add: do_move_def can_move_def mover_def waiter_ready_def waiter_move_def)
    next
      case (Cons x q)
      with \<open>as_todo st = []\<close> assms MoveWaiter show ?thesis
        by (auto simp: do_move_def can_move_def mover_def waiter_ready_def waiter_move_def intro: ack_step.receive)
    qed
  next
    case (Cons a acts)
    with MoveWaiter show ?thesis by (auto simp: do_move_def mover_def waiter_move_def intro: ack_step.act)
  qed
qed (use assms in \<open>auto simp: do_move_def can_move_def mover_def intro: ack_step.intros\<close>)

fun run_moves :: "(bytes \<Rightarrow> bytes) \<Rightarrow> externs \<Rightarrow> (wire_resource_id \<Rightarrow> str) \<Rightarrow> ack_move list \<Rightarrow> ack_state \<Rightarrow> ack_state option" where
  "run_moves sha ext debug [] st = Some st"
| "run_moves sha ext debug (m # ms) st =
     (if can_move m st then run_moves sha ext debug ms (do_move sha ext debug m st) else None)"

lemma run_moves_reach:
  "run_moves sha ext debug ms st = Some st' \<Longrightarrow> ack_reach sha ext debug st \<Longrightarrow> ack_reach sha ext debug st'"
  by (induction ms arbitrary: st) (auto split: if_splits intro: ack_reach.more move_step)

lemma run_moves_append:
  "run_moves sha ext debug (ms @ ns) st = (case run_moves sha ext debug ms st of None \<Rightarrow> None | Some st' \<Rightarrow> run_moves sha ext debug ns st')"
  by (induction ms arbitrary: st) simp_all

section \<open>A schedule\<close>

text \<open>A server with one ready pane, known as terminal 1, or with the pane gone.\<close>

definition demo_view :: "bool \<Rightarrow> server_view" where
  "demo_view present = \<lparr>sv_ids = bind_terminal (id_space_new (ServerInstance [])) (ResourceId 3) (Local 1),
     sv_leases = lease_table_new,
     sv_handles = (if present then [ResourceId 3 \<mapsto> TerminalFacet \<lparr>th_channel = 5, th_mailbox = MailboxReady\<rparr>] else Map.empty)\<rparr>"

definition demo_encoders :: encoders where
  "demo_encoders = \<lparr>en_available = True, en_would_reject = (\<lambda>_. False), en_encode = (\<lambda>_ _. Some (Some [27]))\<rparr>"

definition demo_submit :: ack_move where
  "demo_submit = MoveSubmit (ServerClientId 1) demo_operation (Local 1) demo_events"

definition demo_lane :: "bool \<Rightarrow> ack_move" where
  "demo_lane present = MoveLane (demo_view present) demo_encoders"

lemma demo_route:
  "with_route_input_destination debug (demo_view True) c (Local 1) = Ok (ResourceId 3, \<lparr>th_channel = 5, th_mailbox = MailboxReady\<rparr>)"
  "with_route_input_destination debug (demo_view False) c (Local 1) = Err (ResError EcTerminalNotFound (ascii ''no such terminal: '' @ debug (Local 1)))"
  by (simp_all add: with_route_input_destination_def resolve_resource_def demo_view_def terminal_from_wire_def bridge_resolve_def
      bind_terminal_def bridge_bind_def id_space_new_def bridge_new_def lease_blocked_def lease_table_new_def)

lemma demo_prepare:
  "prepare_acknowledged_batch sha ext debug (demo_view True) demo_encoders c client demo_operation (Local 1) demo_events a =
     (case bind_at c demo_operation (operation_digest sha ext demo_operation (Local 1) demo_events) a of (bd, c') \<Rightarrow>
        (case bd of BindFinal r \<Rightarrow> Err r
         | BindConflict \<Rightarrow> Err (invalid_command ''APPLY_INPUT operation id reused with a different payload'')
         | BindFull \<Rightarrow> Err (acknowledged_resource_exhausted ''acknowledged-input dedupe cache is full'')
         | _ \<Rightarrow> Ok \<lparr>pb_pane = ResourceId 3, pb_handle = \<lparr>th_channel = 5, th_mailbox = MailboxReady\<rparr>, pb_bytes = [27]\<rparr>, c'))"
  by (simp add: prepare_acknowledged_batch_def demo_route demo_events_def encode_checked_def demo_encoders_def
      max_apply_input_events_def max_apply_input_command_body_def split: prod.splits cache_binding.splits)

definition demo_job :: "instant \<Rightarrow> nat \<Rightarrow> routed_operation" where
  "demo_job n k = \<lparr>ro_client = ServerClientId 1, ro_terminal = Local 1, ro_operation = demo_operation, ro_events = demo_events,
     ro_reservation = \<lparr>rv_terminal = Local 1, rv_admitted_at = n\<rparr>, ro_reply = k\<rparr>"

definition demo_batch :: prepared_batch where
  "demo_batch = \<lparr>pb_pane = ResourceId 3, pb_handle = \<lparr>th_channel = 5, th_mailbox = MailboxReady\<rparr>, pb_bytes = [27]\<rparr>"

definition demo_handoff :: "instant \<Rightarrow> nat \<Rightarrow> u64 \<Rightarrow> instant \<Rightarrow> handoff" where
  "demo_handoff n k t bound = \<lparr>hd_job = demo_job n k, hd_ticket = t, hd_bytes = [27], hd_pane = ResourceId 3, hd_bound_at = bound\<rparr>"

definition demo_digest :: "(bytes \<Rightarrow> bytes) \<Rightarrow> externs \<Rightarrow> bytes" where
  "demo_digest sha ext = operation_digest sha ext demo_operation (Local 1) demo_events"

definition demo_cache :: "bytes \<Rightarrow> command_result option \<Rightarrow> instant \<Rightarrow> operation_cache" where
  "demo_cache d r n = \<lparr>oc_entries = [demo_operation \<mapsto> \<lparr>co_digest = d, co_result = r, co_inserted_at = n\<rparr>], oc_expiry = [(n, demo_operation)]\<rparr>"

text \<open>The states of the schedule: the parts that change, for a server with one terminal.\<close>

definition demo_state :: "instant \<Rightarrow> wire_resource_id set \<Rightarrow> routed_input list \<Rightarrow> lane_state \<Rightarrow> operation_cache \<Rightarrow> nat
    \<Rightarrow> waiter_message list \<Rightarrow> pending_set \<Rightarrow> ack_action list \<Rightarrow> u64 list \<Rightarrow> (nat \<times> command_result) list
    \<Rightarrow> nat \<Rightarrow> handoff list \<Rightarrow> ack_state" where
  "demo_state n fl q pc c mt ch ps td sk ans k hs = \<lparr>as_now = n, as_in_flight = fl, as_lane = q, as_pc = pc, as_cache = c,
     as_tickets = of_nat mt, as_chan = ch, as_pending = ps, as_todo = td, as_waiter_up = True, as_open = True, as_sinks = sk,
     as_calls = k, as_answers = ans, as_submitted = replicate k (demo_operation, Local 1, demo_events), as_minted = mt,
     as_handed = hs\<rparr>"

abbreviation no_pending :: pending_set where
  "no_pending \<equiv> \<lparr>ps_by_ticket = Map.empty, ps_by_deadline = []\<rparr>"

lemma demo_start: "ack_start = demo_state 0 {} [] LaneIdle \<lparr>oc_entries = Map.empty, oc_expiry = []\<rparr> 0 [] no_pending [] [] [] 0 []"
  by (simp add: ack_start_def demo_state_def)

lemma demo_submits:
  "can_move demo_submit (demo_state n {} [] pc c mt ch ps td sk ans k hs)"
  "do_move sha ext debug demo_submit (demo_state n {} [] pc c mt ch ps td sk ans k hs)
     = demo_state n {Local 1} [Acknowledged (demo_job n k)] pc c mt ch ps td sk ans (Suc k) hs"
  by (simp_all add: demo_submit_def can_move_def do_move_def demo_state_def demo_well_formed apply_input_def try_acquire_def
      input_lane_capacity_def demo_job_def replicate_append_same)

lemma demo_ticks:
  "n \<le> m \<Longrightarrow> can_move (MoveTick m) (demo_state n fl q pc c mt ch ps td sk ans k hs)"
  "do_move sha ext debug (MoveTick m) (demo_state n fl q pc c mt ch ps td sk ans k hs)
     = demo_state m fl q pc c mt ch ps td sk ans k hs"
  by (simp_all add: can_move_def do_move_def demo_state_def)

lemma demo_lane_can:
  "can_move (demo_lane b) (demo_state n fl (x # q) pc c mt ch ps td sk ans k hs)"
  "pc \<noteq> LaneIdle \<Longrightarrow> can_move (demo_lane b) (demo_state n fl q pc c mt ch ps td sk ans k hs)"
  by (simp_all add: can_move_def demo_lane_def demo_state_def lane_ready_def)

lemma demo_refuses:
  assumes "bind_at c demo_operation (demo_digest sha ext) a = (BindNew, c')"
  shows "do_move sha ext debug (demo_lane False) (demo_state n fl [Acknowledged (demo_job a i)] LaneIdle c mt ch ps td sk ans k hs)
    = demo_state n fl [] (LaneActs [Release \<lparr>rv_terminal = Local 1, rv_admitted_at = a\<rparr>,
        Reply i (ResError EcTerminalNotFound (ascii ''no such terminal: '' @ debug (Local 1)))]) c' (Suc mt) ch ps td sk ans k hs"
  using assms
  by (simp add: do_move_def demo_lane_def demo_state_def lane_step_def process_prepare_def demo_job_def demo_digest_def
      prepare_acknowledged_batch_def demo_route demo_events_def max_apply_input_events_def next_ticket_def add.commute)

lemma demo_prepares:
  assumes "bind_at c demo_operation (demo_digest sha ext) a = (bd, c')" and "bd = BindNew \<or> bd = BindPending"
    and "oc_entries c' demo_operation = Some e"
  shows "do_move sha ext debug (demo_lane True) (demo_state n fl [Acknowledged (demo_job a i)] LaneIdle c mt ch ps td sk ans k hs)
    = demo_state n fl [] (LanePrepared (demo_job a i) (of_nat (Suc mt)) demo_batch (co_inserted_at e)) c' (Suc mt) ch ps td sk ans k hs"
  using assms
  by (auto simp: do_move_def demo_lane_def demo_state_def lane_step_def process_prepare_def demo_job_def demo_digest_def
      demo_prepare demo_batch_def next_ticket_def Let_def add.commute)

text \<open>A repeat of an operation whose result is on record is answered with it.\<close>

lemma demo_repeats:
  assumes "bind_at c demo_operation (demo_digest sha ext) a = (BindFinal r, c')"
  shows "do_move sha ext debug (demo_lane b) (demo_state n fl [Acknowledged (demo_job a i)] LaneIdle c mt ch ps td sk ans k hs)
    = demo_state n fl [] (LaneActs [Release \<lparr>rv_terminal = Local 1, rv_admitted_at = a\<rparr>, Reply i r]) c' (Suc mt) ch ps td sk ans k hs"
  using assms
  by (simp add: do_move_def demo_lane_def demo_state_def lane_step_def process_prepare_def demo_job_def demo_digest_def
      prepare_acknowledged_batch_def demo_events_def max_apply_input_events_def next_ticket_def add.commute)

lemma demo_acts:
  "do_move sha ext debug (demo_lane b) (demo_state n fl q (LaneActs []) c mt ch ps td sk ans k hs)
     = demo_state n fl q LaneIdle c mt ch ps td sk ans k hs"
  "do_move sha ext debug (demo_lane b) (demo_state n fl q (LaneActs (Release rv # as)) c mt ch ps td sk ans k hs)
     = demo_state n (fl - {rv_terminal rv}) q (LaneActs as) c mt ch ps td sk ans k hs"
  "do_move sha ext debug (demo_lane b) (demo_state n fl q (LaneActs (Reply i r # as)) c mt ch ps td sk ans k hs)
     = demo_state n fl q (LaneActs as) c mt ch ps td sk (ans @ [(i, r)]) k hs"
  by (simp_all add: do_move_def demo_lane_def demo_state_def lane_step_def perform_def drop_reservation_def)

lemma demo_registers:
  "do_move sha ext debug (demo_lane b) (demo_state n fl q (LanePrepared (demo_job a i) t demo_batch bound) c mt ch ps td sk ans k hs)
     = demo_state n fl q (LaneRegistered (demo_job a i) t demo_batch bound) c mt
         (ch @ [Registered \<lparr>pc_ticket = t, pc_operation = demo_operation, pc_deadline = deadline_from n acknowledged_completion_timeout,
            pc_reservation = \<lparr>rv_terminal = Local 1, rv_admitted_at = a\<rparr>, pc_reply = i\<rparr>]) ps td sk ans k hs"
  by (simp add: do_move_def demo_lane_def demo_state_def lane_step_def process_register_def tell_def demo_job_def Let_def)

lemma demo_hands:
  "do_move sha ext debug (demo_lane True) (demo_state n fl q (LaneRegistered (demo_job a i) t demo_batch bound) c mt ch ps td sk ans k hs)
     = demo_state n fl q LaneIdle c mt ch ps td (t # sk) ans k (hs @ [demo_handoff a i t bound])"
  by (simp add: do_move_def demo_lane_def demo_state_def lane_step_def process_handoff_def demo_job_def demo_route demo_batch_def
      demo_handoff_def)

lemma demo_reports:
  "t \<in> set sk \<Longrightarrow> can_move (MoveReport t w) (demo_state n fl q pc c mt ch ps td sk ans k hs)"
  "do_move sha ext debug (MoveReport t w) (demo_state n fl q pc c mt ch ps td sk ans k hs)
     = demo_state n fl q pc c mt (ch @ [Completed t w]) ps td (remove1 t sk) ans k hs"
  by (simp_all add: can_move_def do_move_def demo_state_def tell_def)

definition one_pending :: "pending_completion \<Rightarrow> pending_set" where
  "one_pending p = \<lparr>ps_by_ticket = [pc_ticket p \<mapsto> p], ps_by_deadline = [(pc_deadline p, pc_ticket p)]\<rparr>"

lemma demo_waits:
  "can_move MoveWaiter (demo_state n fl q pc c mt (m # ch) ps [] sk ans k hs)"
  "do_move sha ext debug MoveWaiter (demo_state n fl q pc c mt (Registered p # ch) no_pending [] sk ans k hs)
     = demo_state n fl q pc c mt ch (one_pending p) [] sk ans k hs"
  "n < pc_deadline p \<Longrightarrow> pc_ticket p = t \<Longrightarrow>
     do_move sha ext debug MoveWaiter (demo_state n fl q pc c mt (Completed t w # ch) (one_pending p) [] sk ans k hs)
     = demo_state n fl q pc c mt ch no_pending (finalize p (completion_result w)) sk ans k hs"
  by (simp_all add: can_move_def do_move_def demo_state_def waiter_ready_def waiter_move_def waiter_receive_def
      run_waiter_round_def take_expired_def pending_insert_def pending_take_def one_pending_def insort_insert_key_def)

lemma demo_finishes:
  "can_move MoveWaiter (demo_state n fl q pc c mt ch ps (a # td) sk ans k hs)"
  "do_move sha ext debug MoveWaiter (demo_state n fl q pc c mt ch ps (SetFinal op r # td) sk ans k hs)
     = demo_state n fl q pc (set_final c op r) mt ch ps td sk ans k hs"
  "do_move sha ext debug MoveWaiter (demo_state n fl q pc c mt ch ps (Release rv # td) sk ans k hs)
     = demo_state n (fl - {rv_terminal rv}) q pc c mt ch ps td sk ans k hs"
  "do_move sha ext debug MoveWaiter (demo_state n fl q pc c mt ch ps (Reply i r # td) sk ans k hs)
     = demo_state n fl q pc c mt ch ps td sk (ans @ [(i, r)]) k hs"
  by (simp_all add: can_move_def do_move_def demo_state_def waiter_ready_def waiter_move_def perform_def drop_reservation_def)

lemma demo_binds:
  "bind_at \<lparr>oc_entries = Map.empty, oc_expiry = []\<rparr> demo_operation d n = (BindNew, demo_cache d None n)"
  "m < n + dedupe_retention \<Longrightarrow> bind_at (demo_cache d None n) demo_operation d m = (BindPending, demo_cache d None n)"
  "n + dedupe_retention \<le> m \<Longrightarrow> bind_at (demo_cache d r' n) demo_operation d m = (BindNew, demo_cache d None m)"
  "set_final (demo_cache d r' n) demo_operation r = demo_cache d (Some r) n"
  "oc_entries (demo_cache d r' n) demo_operation = Some \<lparr>co_digest = d, co_result = r', co_inserted_at = n\<rparr>"
  "m < n + dedupe_retention \<Longrightarrow> bind_at (demo_cache d (Some r) n) demo_operation d m = (BindFinal r, demo_cache d (Some r) n)"
  by (simp_all add: bind_at_def prune_expired_def demo_cache_def dedupe_max_entries_def set_final_def dedupe_retention_def)

text \<open>
  The schedule: one client submits the same operation three times. The first attempt, at time 0, is
  refused because the pane is gone; the second, at \<open>second\<close>, finds the pane, is handed over, reported
  as delivered and acknowledged; the third, at \<open>third\<close>, is the retry, with three steps of the lane.
\<close>

definition demo_schedule :: "instant \<Rightarrow> instant \<Rightarrow> ack_move list" where
  "demo_schedule second third = [demo_submit, demo_lane False, demo_lane False, demo_lane False, demo_lane False,
     MoveTick second, demo_submit, demo_lane True, demo_lane True, demo_lane True, MoveReport 2 Delivered,
     MoveWaiter, MoveWaiter, MoveWaiter, MoveWaiter, MoveWaiter,
     MoveTick third, demo_submit, demo_lane True, demo_lane True, demo_lane True]"

definition demo_refusal :: "(wire_resource_id \<Rightarrow> str) \<Rightarrow> command_result" where
  "demo_refusal debug = ResError EcTerminalNotFound (ascii ''no such terminal: '' @ debug (Local 1))"

lemma demo_schedule_runs:
  assumes "second < dedupe_retention" and "second \<le> third"
  obtains st where "run_moves sha ext debug (demo_schedule second third) ack_start = Some st"
    "as_handed st = demo_handoff second 1 2 0 # (if dedupe_retention \<le> third then [demo_handoff third 2 3 third] else [])"
    "as_answers st = [(0, demo_refusal debug), (1, ResOk)] @ (if dedupe_retention \<le> third then [] else [(2, ResOk)])"
    "as_minted st = 3" "set (as_submitted st) = {(demo_operation, Local 1, demo_events)}"
proof -
  have d: "second < deadline_from second acknowledged_completion_timeout"
    using assms(1) by (simp add: deadline_from_def acknowledged_completion_timeout_def dedupe_retention_def)
  let ?d = "demo_digest sha ext"
  have b: "bind_at \<lparr>oc_entries = Map.empty, oc_expiry = []\<rparr> demo_operation ?d 0 = (BindNew, demo_cache ?d None 0)"
    "bind_at (demo_cache ?d None 0) demo_operation ?d second = (BindPending, demo_cache ?d None 0)"
    using assms by (simp_all add: demo_binds)
  note p2 = demo_prepares [OF b(2) _ demo_binds(5), where debug = debug]
  note steps = demo_schedule_def demo_start demo_submits demo_ticks demo_lane_can demo_refuses [OF b(1)] p2 demo_refusal_def
    demo_acts demo_registers demo_hands demo_reports demo_waits demo_finishes demo_binds d finalize_def completion_result_def
    numeral_2_eq_2 numeral_3_eq_3
  show ?thesis
  proof (cases "dedupe_retention \<le> third")
    case True
    then have "bind_at (demo_cache ?d (Some ResOk) 0) demo_operation ?d third = (BindNew, demo_cache ?d None third)"
      by (simp add: demo_binds)
    note p3 = demo_prepares [OF this _ demo_binds(5), where debug = debug]
    let ?st = "demo_state third {Local 1} [] LaneIdle (demo_cache ?d None third) 3
      [Registered \<lparr>pc_ticket = 3, pc_operation = demo_operation, pc_deadline = deadline_from third acknowledged_completion_timeout,
         pc_reservation = \<lparr>rv_terminal = Local 1, rv_admitted_at = third\<rparr>, pc_reply = 2\<rparr>] no_pending [] [3]
      [(0, demo_refusal debug), (1, ResOk)] 3 [demo_handoff second 1 2 0, demo_handoff third 2 3 third]"
    have "run_moves sha ext debug (demo_schedule second third) ack_start = Some ?st"
      using assms True by (simp add: steps p3)
    then show ?thesis by (rule that) (use True in \<open>simp_all add: demo_state_def\<close>)
  next
    case False
    then have "bind_at (demo_cache ?d (Some ResOk) 0) demo_operation ?d third = (BindFinal ResOk, demo_cache ?d (Some ResOk) 0)"
      by (simp add: demo_binds)
    note p3 = demo_repeats [OF this, where debug = debug]
    let ?st = "demo_state third {} [] (LaneActs []) (demo_cache ?d (Some ResOk) 0) 3 [] no_pending [] []
      [(0, demo_refusal debug), (1, ResOk), (2, ResOk)] 3 [demo_handoff second 1 2 0]"
    have "run_moves sha ext debug (demo_schedule second third) ack_start = Some ?st"
      using assms False by (simp add: steps p3)
    then show ?thesis by (rule that) (use False in \<open>simp_all add: demo_state_def\<close>)
  qed
qed

lemma demo_collision_free: "set ops = {x} \<Longrightarrow> collision_free sha ext ops"
  by (simp add: collision_free_def)

section \<open>The properties\<close>

text \<open>
  C37. Input is typed at most once: of the batches that reach panes under one operation id, in any
  interleaving of the clients, the lane, the waiter and the writers, the later one was admitted no
  sooner than ten minutes after the earlier one's id was bound, and that binding is less than ten
  minutes older than the earlier batch's admission.
\<close>

theorem handed_over_once:
  assumes "ack_reach sha ext debug st" and "as_minted st < 2 ^ 64" and "collision_free sha ext (as_submitted st)"
    and "i < k" and "k < length (as_handed st)"
    and "ro_operation (hd_job (as_handed st ! i)) = ro_operation (hd_job (as_handed st ! k))"
  shows "hd_bound_at (as_handed st ! i) + dedupe_retention \<le> rv_admitted_at (ro_reservation (hd_job (as_handed st ! k)))
    \<and> hd_bound_at (as_handed st ! i) \<le> rv_admitted_at (ro_reservation (hd_job (as_handed st ! i)))
    \<and> rv_admitted_at (ro_reservation (hd_job (as_handed st ! i))) < hd_bound_at (as_handed st ! i) + dedupe_retention"
proof -
  from ack_reach_once [OF assms(1-3)] have log: "log_ok (as_handed st)" by (simp add: once_ok_def)
  then have "sorted_wrt (\<lambda>h k. ro_operation (hd_job h) = ro_operation (hd_job k) \<longrightarrow>
       hd_bound_at h + dedupe_retention \<le> admitted_of (hd_job k)) (as_handed st)" by (simp add: log_ok_def)
  from sorted_wrt_nth_less [OF this assms(4,5)] assms(6)
  have "hd_bound_at (as_handed st ! i) + dedupe_retention \<le> admitted_of (hd_job (as_handed st ! k))" by simp
  moreover have "as_handed st ! i \<in> set (as_handed st)" using assms(4,5) by simp
  ultimately show ?thesis using log by (auto simp: log_ok_def)
qed

theorem handed_over_once_witness:
  "\<exists>st. ack_reach (\<lambda>bs. bs) no_externs (\<lambda>_. []) st \<and> length (as_handed st) = 2
    \<and> ro_operation (hd_job (as_handed st ! 0)) = ro_operation (hd_job (as_handed st ! 1))
    \<and> hd_bound_at (as_handed st ! 0) + dedupe_retention \<le> rv_admitted_at (ro_reservation (hd_job (as_handed st ! 1)))"
proof -
  have t: "599 * 10 ^ 9 < dedupe_retention" "dedupe_retention \<le> 600 * 10 ^ 9" by (simp_all add: dedupe_retention_def)
  obtain st where st: "run_moves (\<lambda>bs. bs) no_externs (\<lambda>_. []) (demo_schedule (599 * 10 ^ 9) (600 * 10 ^ 9)) ack_start = Some st"
    "as_handed st = [demo_handoff (599 * 10 ^ 9) 1 2 0, demo_handoff (600 * 10 ^ 9) 2 3 (600 * 10 ^ 9)]"
    "as_minted st = 3" "set (as_submitted st) = {(demo_operation, Local 1, demo_events)}"
    using demo_schedule_runs [OF t(1), of "600 * 10 ^ 9" "\<lambda>bs. bs" no_externs "\<lambda>_. []"] t(2) by auto
  have r: "ack_reach (\<lambda>bs. bs) no_externs (\<lambda>_. []) st" by (rule run_moves_reach [OF st(1) ack_reach.start])
  have "as_minted st < 2 ^ 64" "0 < (1::nat)" "1 < length (as_handed st)"
    "ro_operation (hd_job (as_handed st ! 0)) = ro_operation (hd_job (as_handed st ! 1))"
    by (simp_all add: st demo_handoff_def demo_job_def)
  from handed_over_once [OF r this(1) demo_collision_free [OF st(4)] this(2-4)] r this(4) st(2) show ?thesis by auto
qed



end
