(* ===== verification/Ack_Live.thy ===== *)
theory Ack_Live
  imports Ack_Run
begin

text \<open>
  Every call of acknowledged input gets its answer. A run is an infinite sequence of steps; it is fair
  when neither the lane nor the waiter is passed over for ever while it has something to do, and when
  time goes on. A call moves from the lane to the waiter's queue, to the pending set, to the waiter's
  hands and to its answer; in each place a measure goes down with every move of the thread that
  holds it.
\<close>

lemma fair_progress:
  fixes f :: "nat \<Rightarrow> 'm :: wellorder"
  assumes fair: "\<And>i. \<exists>k \<ge> i. T k \<or> \<not> R k"
    and ready: "\<And>i. P i \<Longrightarrow> R i"
    and step: "\<And>i. P i \<Longrightarrow> P (Suc i) \<Longrightarrow> f (Suc i) \<le> f i"
    and move: "\<And>i. P i \<Longrightarrow> P (Suc i) \<Longrightarrow> T i \<Longrightarrow> f (Suc i) < f i"
  shows "\<exists>k \<ge> i. \<not> P k"
proof (rule ccontr)
  assume "\<not> ?thesis"
  then have "\<forall>k \<ge> i. P k" by blast
  then show False
  proof (induction "f i" arbitrary: i rule: less_induct)
    case less
    obtain k where k: "i \<le> k" "T k \<or> \<not> R k" using fair by blast
    have "f m \<le> f i" if "i \<le> m" for m
      using that
    proof (induction m rule: dec_induct)
      case (step m)
      with less(2) have "f (Suc m) \<le> f m" by (intro assms(3)) simp_all
      with step show ?case by simp
    qed simp
    with k(1) have "f k \<le> f i" by simp
    moreover from less(2) k ready have "T k" "P k" "P (Suc k)" by auto
    then have "f (Suc k) < f k" by (intro move)
    ultimately have "f (Suc k) < f i" by simp
    moreover have "\<forall>m \<ge> Suc k. P m" using less(2) k(1) by auto
    ultimately show False by (rule less(1))
  qed
qed

section \<open>Where a call is\<close>

definition in_lane :: "nat \<Rightarrow> ack_state \<Rightarrow> bool" where
  "in_lane k st \<longleftrightarrow> k \<in> ro_reply ` set (lane_jobs (as_lane st)) \<or> k \<in> set (in_hand ro_reply reply_of (as_pc st))"

definition in_chan :: "nat \<Rightarrow> ack_state \<Rightarrow> bool" where
  "in_chan k st \<longleftrightarrow> k \<in> pc_reply ` set (registered_in (as_chan st))"

definition in_pending :: "nat \<Rightarrow> ack_state \<Rightarrow> bool" where
  "in_pending k st \<longleftrightarrow> k \<in> pc_reply ` set (pending_list (as_pending st))"

definition in_todo :: "nat \<Rightarrow> ack_state \<Rightarrow> bool" where
  "in_todo k st \<longleftrightarrow> k \<in> set (List.map_filter reply_of (as_todo st))"

lemma call_somewhere:
  assumes "accounts_ok st" and "k < as_calls st"
  shows "in_lane k st \<or> in_chan k st \<or> in_pending k st \<or> in_todo k st \<or> k \<in> fst ` set (as_answers st)"
proof -
  from assms(1) have c: "mset (open_calls st @ map fst (as_answers st)) = mset [0..<as_calls st]" by (simp add: accounts_ok_def)
  have "k \<in> set (open_calls st @ map fst (as_answers st))" unfolding mset_eq_setD [OF c] using assms(2) by simp
  then show ?thesis
    by (auto simp: holding_def waiting_def in_lane_def in_chan_def in_pending_def in_todo_def)
qed

text \<open>A call that has left the lane, the waiter's queue or the pending set does not come back.\<close>

lemma calls_grow: "step_effect sha ext debug who st st' \<Longrightarrow> as_calls st \<le> as_calls st'"
  by (elim step_effect.cases lane_effect.cases) simp_all

lemma leaves_lane:
  assumes "step_effect sha ext debug who st st'" and "k < as_calls st" and "\<not> in_lane k st"
  shows "\<not> in_lane k st'"
  using assms(1)
proof cases
  case lane
  from lane(3) show ?thesis
  proof cases
    case (act a acts)
    with assms(3) show ?thesis by (auto simp: in_lane_def in_hand_def split: option.splits)
  qed (use assms(3) in \<open>auto simp: in_lane_def in_hand_def reply_of_def\<close>)
qed (use assms(2,3) in \<open>auto simp: in_lane_def\<close>)

lemma leaves_chan:
  assumes "step_effect sha ext debug who st st'" and "\<not> in_lane k st" and "\<not> in_chan k st"
  shows "\<not> in_chan k st'"
  using assms(1)
proof cases
  case lane
  from lane(3) show ?thesis
    by cases (use assms(2,3) in \<open>auto simp: in_chan_def in_lane_def in_hand_def split: if_splits\<close>)
next
  case (round m q ps fs gs c up)
  with assms(3) show ?thesis by (auto simp: in_chan_def split: if_splits)
qed (use assms(3) in \<open>auto simp: in_chan_def\<close>)

lemma leaves_pending:
  assumes "step_effect sha ext debug who st st'" and "\<not> in_chan k st" and "\<not> in_pending k st"
  shows "\<not> in_pending k st'"
  using assms(1)
proof cases
  case lane
  from lane(3) show ?thesis by cases (use assms(3) in \<open>auto simp: in_pending_def\<close>)
next
  case (round m q ps fs gs c up)
  from mset_eq_setD [OF round(7)] have "set (pending_list ps) \<subseteq> set (waiting st)" by auto
  with assms(2,3) show ?thesis by (auto simp: round(2) in_pending_def in_chan_def waiting_def)
qed (use assms(3) in \<open>auto simp: in_pending_def\<close>)

section \<open>The lane\<close>

definition waits_for :: "nat \<Rightarrow> routed_input \<Rightarrow> bool" where
  "waits_for k r = (case r of Acknowledged j \<Rightarrow> ro_reply j = k | OtherInput \<Rightarrow> False)"

definition ahead :: "nat \<Rightarrow> ack_state \<Rightarrow> nat" where
  "ahead k st = (if k \<in> set (in_hand ro_reply reply_of (as_pc st)) then 0
     else Suc (length (takeWhile (\<lambda>r. \<not> waits_for k r) (as_lane st))))"

definition phase :: "lane_state \<Rightarrow> nat" where
  "phase pc = (case pc of LaneIdle \<Rightarrow> 0 | LaneActs acts \<Rightarrow> Suc (length acts) | LanePrepared _ _ _ _ \<Rightarrow> 10
     | LaneRegistered _ _ _ _ \<Rightarrow> 5 | LaneAbandon _ _ \<Rightarrow> 1)"

lemma in_lane_queue: "k \<in> ro_reply ` set (lane_jobs q) \<longleftrightarrow> (\<exists>r \<in> set q. waits_for k r)"
proof (induction q)
  case (Cons r q)
  then show ?case by (cases r) (auto simp: waits_for_def)
qed simp

lemma lane_once:
  assumes "accounts_ok st" and "k \<in> set (in_hand ro_reply reply_of (as_pc st))"
  shows "k \<notin> ro_reply ` set (lane_jobs (as_lane st))"
proof -
  from assms(1) have c: "mset (open_calls st @ map fst (as_answers st)) = mset [0..<as_calls st]" by (simp add: accounts_ok_def)
  from mset_eq_imp_distinct_iff [OF c] have "distinct (open_calls st)" by simp
  with assms(2) show ?thesis by (auto simp: holding_def)
qed

lemma ahead_append:
  assumes "in_lane k st" and "as_lane st' = as_lane st @ q" and "as_pc st' = as_pc st"
  shows "ahead k st' = ahead k st"
proof (cases "k \<in> set (in_hand ro_reply reply_of (as_pc st))")
  case False
  with assms(1) obtain r where "r \<in> set (as_lane st)" "waits_for k r" by (auto simp: in_lane_def in_lane_queue)
  then have "takeWhile (\<lambda>r. \<not> waits_for k r) (as_lane st @ q) = takeWhile (\<lambda>r. \<not> waits_for k r) (as_lane st)"
    by (intro takeWhile_append1) auto
  with False assms(2,3) show ?thesis by (simp add: ahead_def)
qed (simp add: ahead_def assms(3))

lemma lane_measure_other:
  assumes "step_effect sha ext debug who st st'" and "who \<noteq> LaneThread" and "in_lane k st"
  shows "(ahead k st', phase (as_pc st')) = (ahead k st, phase (as_pc st))"
proof -
  have "\<exists>q. as_lane st' = as_lane st @ q \<and> as_pc st' = as_pc st"
    using assms(1) by cases (use assms(2) in simp_all)
  then obtain q where q: "as_lane st' = as_lane st @ q" "as_pc st' = as_pc st" by blast
  show ?thesis unfolding ahead_append [OF assms(3) q] q(2) ..
qed

lemma lane_measure_lane:
  assumes "lane_effect sha ext debug st st'" and ready: "lane_ready st" and k: "in_lane k st'" and ok: "accounts_ok st"
  shows "(ahead k st', phase (as_pc st')) < (ahead k st, phase (as_pc st))"
  using assms(1)
proof cases
  case (act a acts)
  have "ahead k st' \<le> ahead k st"
  proof (cases "k \<in> set (in_hand ro_reply reply_of (as_pc st))")
    case True
    with lane_once [OF ok True] k act show ?thesis by (auto simp: in_lane_def ahead_def)
  next
    case False
    with act show ?thesis by (auto simp: ahead_def in_hand_def split: option.splits)
  qed
  with act show ?thesis by (simp add: less_prod_def phase_def)
next
  case (register j t b bound p)
  have "ahead k st' \<le> ahead k st"
  proof (cases "k = ro_reply j")
    case True
    then have "k \<in> set (in_hand ro_reply reply_of (as_pc st))" by (simp add: register in_hand_def)
    from lane_once [OF ok this] k register show ?thesis by (auto simp: in_lane_def in_hand_def)
  next
    case False
    with register show ?thesis by (simp add: ahead_def in_hand_def)
  qed
  with register show ?thesis by (simp add: less_prod_def phase_def)
qed (use ready in \<open>auto simp: less_prod_def phase_def ahead_def in_hand_def waits_for_def lane_ready_def reply_of_def\<close>)

section \<open>The waiter\<close>

definition registers :: "nat \<Rightarrow> waiter_message \<Rightarrow> bool" where
  "registers k m = (case m of Registered p \<Rightarrow> pc_reply p = k | _ \<Rightarrow> False)"

definition queued_before :: "nat \<Rightarrow> ack_state \<Rightarrow> nat" where
  "queued_before k st = length (takeWhile (\<lambda>m. \<not> registers k m) (as_chan st))"

lemma in_chan_registers: "k \<in> pc_reply ` set (registered_in q) \<longleftrightarrow> (\<exists>m \<in> set q. registers k m)"
proof (induction q)
  case (Cons m q)
  then show ?case by (cases m) (auto simp: registers_def)
qed simp

lemma waiting_once: "accounts_ok st \<Longrightarrow> distinct (map pc_reply (waiting st))"
  using mset_eq_imp_distinct_iff [of "open_calls st @ map fst (as_answers st)" "[0..<as_calls st]"]
  by (simp add: accounts_ok_def holding_def)

lemma queued_before_append:
  assumes "in_chan k st" and "as_chan st' = as_chan st @ q"
  shows "queued_before k st' = queued_before k st"
proof -
  from assms(1) obtain m where "m \<in> set (as_chan st)" "registers k m" by (auto simp: in_chan_def in_chan_registers)
  then have "takeWhile (\<lambda>m. \<not> registers k m) (as_chan st @ q) = takeWhile (\<lambda>m. \<not> registers k m) (as_chan st)"
    by (intro takeWhile_append1) auto
  then show ?thesis by (simp add: queued_before_def assms(2))
qed

lemma waiter_idle_other:
  assumes "step_effect sha ext debug who st st'" and "who \<noteq> WaiterThread"
  shows "as_pending st' = as_pending st \<and> as_todo st' = as_todo st \<and> (\<exists>q. as_chan st' = as_chan st @ q)"
  using assms(1)
proof cases
  case lane
  from lane(3) show ?thesis by cases simp_all
qed (use assms(2) in simp_all)

lemma late_round_shrinks:
  assumes tk: "tickets_ok st" and late: "deadline_passed st"
    and m: "mset (map fst fs @ map fst gs @ registered_in (as_chan st) @ pending_list ps) = mset (waiting st)"
    and f: "\<forall>p \<in> set (pending_list (as_pending st)). pc_deadline p \<le> as_now st \<longrightarrow> p \<in> fst ` set fs"
  shows "length (pending_list ps) < length (pending_list (as_pending st))"
proof -
  have wf: "wf_pending (as_pending st)" using tk by (simp add: tickets_ok_def)
  from late obtain d t ds where d: "ps_by_deadline (as_pending st) = (d, t) # ds" "d \<le> as_now st"
    by (cases "ps_by_deadline (as_pending st)") (auto simp: deadline_passed_def next_deadline_def)
  then have "(d, t) \<in> set (ps_by_deadline (as_pending st))" by simp
  then obtain p where p: "ps_by_ticket (as_pending st) t = Some p" "pc_ticket p = t" "pc_deadline p = d"
    by (rule wf_pending_deadline [OF wf])
  then have "p \<in> set (pending_list (as_pending st))" unfolding in_pending_list [OF wf] by simp
  with f p(3) d(2) have "fs \<noteq> []" by auto
  then have "0 < length fs" by simp
  moreover from arg_cong [OF m, of size] have "length fs + length gs + length (pending_list ps) = length (pending_list (as_pending st))"
    by (simp add: waiting_def)
  ultimately show ?thesis by linarith
qed

lemma chan_measure:
  assumes e: "step_effect sha ext debug who st st'" and k: "in_chan k st" "in_chan k st'"
    and tk: "tickets_ok st" and acc: "accounts_ok st"
  shows "if who = WaiterThread
    then (queued_before k st', length (pending_list (as_pending st')), length (as_todo st'))
       < (queued_before k st, length (pending_list (as_pending st)), length (as_todo st))
    else (queued_before k st', length (pending_list (as_pending st')), length (as_todo st'))
       = (queued_before k st, length (pending_list (as_pending st)), length (as_todo st))"
proof (cases "who = WaiterThread")
  case False
  from waiter_idle_other [OF e False] obtain q where q: "as_chan st' = as_chan st @ q"
    "as_pending st' = as_pending st" "as_todo st' = as_todo st" by blast
  show ?thesis unfolding queued_before_append [OF k(1) q(1)] q(2,3) using False by simp
next
  case True
  from e True show ?thesis
  proof cases
    case (act a acts)
    then show ?thesis by (simp add: less_prod_def queued_before_def)
  next
    case (round m q ps fs gs c up)
    have c: "m \<noteq> Some Shutdown" "c = q" using k(2) round by (auto simp: in_chan_def split: if_splits)
    show ?thesis
    proof (cases m)
      case None
      with c round(5) have "c = as_chan st" by (simp add: received_def)
      with late_round_shrinks [OF tk _ _ round(8)] round None show ?thesis
        by (simp add: less_prod_def queued_before_def)
    next
      case (Some x)
      then have chan: "as_chan st = x # q" using round(5) by (simp add: received_def)
      have "\<not> registers k x"
      proof
        assume "registers k x"
        then obtain p where "x = Registered p" "pc_reply p = k" by (cases x) (auto simp: registers_def)
        then show False using waiting_once [OF acc] k(2) c(2) chan
          by (auto simp: waiting_def in_chan_def round(2))
      qed
      then have "queued_before k st = Suc (queued_before k st')" by (simp add: queued_before_def chan round(2) c(2))
      then show ?thesis using True by (simp add: less_prod_def)
    qed
  qed simp_all
qed

lemma waiter_todo:
  assumes e: "step_effect sha ext debug who st st'"
    and quiet: "as_todo st \<noteq> [] \<or> who \<noteq> WaiterThread"
  shows "if who = WaiterThread then length (as_todo st') < length (as_todo st) else length (as_todo st') = length (as_todo st)"
proof (cases "who = WaiterThread")
  case False
  with waiter_idle_other [OF e False] show ?thesis by simp
next
  case True
  from e True quiet show ?thesis by cases simp_all
qed

text \<open>A round past the deadline takes the operation out of the pending set.\<close>

lemma round_takes_late:
  assumes e: "step_effect sha ext debug WaiterThread st st'" and todo: "as_todo st = []" and acc: "accounts_ok st"
    and p: "p \<in> set (pending_list (as_pending st))" "pc_reply p = k" "pc_deadline p \<le> as_now st"
  shows "\<not> in_pending k st'"
  using e
proof cases
  case (round m q ps fs gs c up)
  have "mset (map pc_reply (map fst fs @ map fst gs @ registered_in c @ pending_list ps)) = mset (map pc_reply (waiting st))"
    using round(6) by (simp only: mset_map)
  from mset_eq_imp_distinct_iff [OF this] waiting_once [OF acc]
  have "distinct (map pc_reply (map fst fs @ map fst gs @ registered_in c @ pending_list ps))" by blast
  moreover from round(7) p have "k \<in> pc_reply ` fst ` set fs" by blast
  ultimately show ?thesis by (auto simp: in_pending_def round(1))
qed (use todo in simp_all)

lemma pending_from:
  assumes "step_effect sha ext debug who st st'" and "\<not> in_chan k st"
    and "p \<in> set (pending_list (as_pending st'))" and "pc_reply p = k"
  shows "p \<in> set (pending_list (as_pending st))"
  using assms(1)
proof cases
  case (round m q ps fs gs c up)
  from mset_eq_setD [OF round(7)] assms(3) have "p \<in> set (waiting st)" by (auto simp: round(2))
  with assms(2,4) show ?thesis by (auto simp: waiting_def in_chan_def)
next
  case lane
  from lane(3) assms(3) show ?thesis by cases simp_all
qed (use assms(3) in simp_all)

lemma late_ready:
  assumes tk: "tickets_ok st" and life: "lifecycle_ok st" and p: "p \<in> set (pending_list (as_pending st))" "pc_deadline p \<le> as_now st"
  shows "waiter_ready st"
proof -
  have wf: "wf_pending (as_pending st)" using tk by (simp add: tickets_ok_def)
  have "ps_by_ticket (as_pending st) (pc_ticket p) = Some p" using p(1) unfolding in_pending_list [OF wf] .
  from wf_pending_ticket [OF wf this] have mem: "(pc_deadline p, pc_ticket p) \<in> set (ps_by_deadline (as_pending st))" by simp
  then obtain d t ds where d: "ps_by_deadline (as_pending st) = (d, t) # ds" by (cases "ps_by_deadline (as_pending st)") auto
  have "d \<le> pc_deadline p" using mem wf_pending_order [OF wf] by (auto simp: d less_eq_prod_def)
  with p(2) d have "deadline_passed st" by (simp add: deadline_passed_def next_deadline_def)
  moreover have "as_waiter_up st" using life p(1) by (auto simp: lifecycle_ok_def)
  ultimately show ?thesis by (simp add: waiter_ready_def)
qed

section \<open>Fair runs\<close>

definition ack_run :: "(bytes \<Rightarrow> bytes) \<Rightarrow> externs \<Rightarrow> (wire_resource_id \<Rightarrow> str) \<Rightarrow> (nat \<Rightarrow> ack_state) \<Rightarrow> (nat \<Rightarrow> actor) \<Rightarrow> bool" where
  "ack_run sha ext debug s who \<longleftrightarrow> s 0 = ack_start \<and> (\<forall>i. ack_step sha ext debug (who i) (s i) (s (Suc i)))"

definition fair_run :: "(nat \<Rightarrow> ack_state) \<Rightarrow> (nat \<Rightarrow> actor) \<Rightarrow> bool" where
  "fair_run s who \<longleftrightarrow> (\<forall>i. \<exists>k \<ge> i. who k = LaneThread \<or> \<not> lane_ready (s k))
     \<and> (\<forall>i. \<exists>k \<ge> i. who k = WaiterThread \<or> \<not> waiter_ready (s k))
     \<and> (\<forall>n. \<exists>i. n \<le> as_now (s i))"

text \<open>Tickets name operations as long as fewer than \<open>2 ^ 64\<close> have been taken up.\<close>

definition tickets_last :: "(nat \<Rightarrow> ack_state) \<Rightarrow> bool" where
  "tickets_last s \<longleftrightarrow> (\<forall>i. as_minted (s i) < 2 ^ 64)"

lemma run_ok:
  assumes "ack_run sha ext debug s who" and "tickets_last s"
  shows "tickets_ok (s i)" and "lifecycle_ok (s i)" and "accounts_ok (s i)"
    and "step_effect sha ext debug (who i) (s i) (s (Suc i))"
proof -
  have "ack_reach sha ext debug (s i)"
    by (induction i) (use assms(1) in \<open>auto simp: ack_run_def intro: ack_reach.intros\<close>)
  from ack_reach_ok [OF this] assms(2) show ok: "tickets_ok (s i)" "lifecycle_ok (s i)" "accounts_ok (s i)"
    by (simp_all add: tickets_last_def)
  from assms(1) have "ack_step sha ext debug (who i) (s i) (s (Suc i))" by (simp add: ack_run_def)
  then show "step_effect sha ext debug (who i) (s i) (s (Suc i))" by (rule ack_step_effect [OF _ ok(1)])
qed

lemma run_stable:
  assumes "\<And>i. Q i \<Longrightarrow> Q (Suc i)" and "Q i" and "i \<le> n"
  shows "Q n"
  using assms(3) by (induction n rule: dec_induct) (auto intro: assms(1,2))

lemma run_calls:
  assumes "ack_run sha ext debug s who" "tickets_last s" "k < as_calls (s i)" "i \<le> n"
  shows "k < as_calls (s n)"
proof (rule run_stable [where Q = "\<lambda>i. k < as_calls (s i)", OF _ assms(3,4)])
  fix i assume "k < as_calls (s i)"
  with calls_grow [OF run_ok(4) [OF assms(1,2)], of i] show "k < as_calls (s (Suc i))" by simp
qed

lemma run_now:
  assumes "ack_run sha ext debug s who" "tickets_last s" "i \<le> n"
  shows "as_now (s i) \<le> as_now (s n)"
  using assms(3)
proof (induction n rule: dec_induct)
  case (step n)
  have "as_now (s n) \<le> as_now (s (Suc n))"
    using run_ok(4) [OF assms(1,2), of n] by (elim step_effect.cases lane_effect.cases) simp_all
  with step show ?case by simp
qed simp

text \<open>The lane lets go of every call.\<close>

lemma run_lane:
  assumes run: "ack_run sha ext debug s who" "tickets_last s" and fair: "fair_run s who"
  shows "\<exists>n \<ge> i. \<not> in_lane k (s n)"
proof (rule fair_progress [where T = "\<lambda>i. who i = LaneThread" and R = "\<lambda>i. lane_ready (s i)"
      and f = "\<lambda>i. (ahead k (s i), phase (as_pc (s i)))" and P = "\<lambda>i. in_lane k (s i)"])
  show "\<exists>n \<ge> i. who n = LaneThread \<or> \<not> lane_ready (s n)" for i using fair by (simp add: fair_run_def)
  show "lane_ready (s i)" if "in_lane k (s i)" for i
    using that by (auto simp: in_lane_def lane_ready_def in_hand_def)
  show less: "(ahead k (s (Suc i)), phase (as_pc (s (Suc i)))) < (ahead k (s i), phase (as_pc (s i)))"
    if "in_lane k (s i)" "in_lane k (s (Suc i))" "who i = LaneThread" for i
  proof -
    from run_ok(4) [OF run, of i] that(3) have "lane_effect sha ext debug (s i) (s (Suc i)) \<and> lane_ready (s i)" by cases simp_all
    with lane_measure_lane [OF _ _ that(2) run_ok(3) [OF run, of i]] show ?thesis by blast
  qed
  show "(ahead k (s (Suc i)), phase (as_pc (s (Suc i)))) \<le> (ahead k (s i), phase (as_pc (s i)))"
    if "in_lane k (s i)" "in_lane k (s (Suc i))" for i
  proof (cases "who i = LaneThread")
    case True
    from less [OF that True] show ?thesis by (rule less_imp_le)
  next
    case False
    from lane_measure_other [OF run_ok(4) [OF run] False that(1)] show ?thesis by simp
  qed
qed

text \<open>So does the waiter's queue.\<close>

lemma run_chan:
  assumes run: "ack_run sha ext debug s who" "tickets_last s" and fair: "fair_run s who"
  shows "\<exists>n \<ge> i. \<not> in_chan k (s n)"
proof (rule fair_progress [where T = "\<lambda>i. who i = WaiterThread" and R = "\<lambda>i. waiter_ready (s i)"
      and f = "\<lambda>i. (queued_before k (s i), length (pending_list (as_pending (s i))), length (as_todo (s i)))"
      and P = "\<lambda>i. in_chan k (s i)"])
  show "\<exists>n \<ge> i. who n = WaiterThread \<or> \<not> waiter_ready (s n)" for i using fair by (simp add: fair_run_def)
  show "waiter_ready (s i)" if "in_chan k (s i)" for i
    using that run_ok(2) [OF run, of i] by (auto simp: in_chan_def waiter_ready_def lifecycle_ok_def)
  fix i assume k: "in_chan k (s i)" "in_chan k (s (Suc i))"
  note m = chan_measure [OF run_ok(4) [OF run] k run_ok(1,3) [OF run, of i]]
  then show "(queued_before k (s (Suc i)), length (pending_list (as_pending (s (Suc i)))), length (as_todo (s (Suc i))))
      \<le> (queued_before k (s i), length (pending_list (as_pending (s i))), length (as_todo (s i)))"
    by (cases "who i = WaiterThread") auto
  show "(queued_before k (s (Suc i)), length (pending_list (as_pending (s (Suc i)))), length (as_todo (s (Suc i))))
      < (queued_before k (s i), length (pending_list (as_pending (s i))), length (as_todo (s i)))" if "who i = WaiterThread"
    using m that by simp
qed

text \<open>Once a call is past the queue, its deadline is fixed and goes by.\<close>

lemma run_pending:
  assumes run: "ack_run sha ext debug s who" "tickets_last s" and fair: "fair_run s who"
    and gone: "\<And>n. i \<le> n \<Longrightarrow> \<not> in_chan k (s n)"
  shows "\<exists>n \<ge> i. \<not> in_pending k (s n)"
proof -
  let ?D = "Max (insert 0 (pc_deadline ` set (pending_list (as_pending (s i)))))"
  have same: "p \<in> set (pending_list (as_pending (s i)))" if "i \<le> n" "p \<in> set (pending_list (as_pending (s n)))" "pc_reply p = k" for n p
    using that
  proof (induction n rule: dec_induct)
    case (step n)
    with pending_from [OF run_ok(4) [OF run] gone [OF step(1)]] show ?case by blast
  qed
  obtain t where "?D \<le> as_now (s t)" using fair unfolding fair_run_def by blast
  moreover define c where "c = max i t"
  ultimately have c: "i \<le> c" "?D \<le> as_now (s n)" if "c \<le> n" for n
    using run_now [OF run, of t n] that by (auto simp del: Max_insert)
  have late: "pc_deadline p \<le> as_now (s n)" if "c \<le> n" "p \<in> set (pending_list (as_pending (s n)))" "pc_reply p = k" for n p
  proof -
    have "p \<in> set (pending_list (as_pending (s i)))" by (rule same [OF order_trans [OF c(1) [OF order_refl] that(1)] that(2,3)])
    then have "pc_deadline p \<le> ?D" by (intro Max_ge) auto
    from order_trans [OF this c(2) [OF that(1)]] show ?thesis .
  qed
  have "\<exists>n \<ge> c. \<not> (c \<le> n \<and> in_pending k (s n))"
  proof (rule fair_progress [where T = "\<lambda>i. who i = WaiterThread" and R = "\<lambda>i. waiter_ready (s i)"
        and f = "\<lambda>i. length (as_todo (s i))" and P = "\<lambda>n. c \<le> n \<and> in_pending k (s n)"])
    show "\<exists>n \<ge> i. who n = WaiterThread \<or> \<not> waiter_ready (s n)" for i using fair by (simp add: fair_run_def)
    fix n assume n: "c \<le> n \<and> in_pending k (s n)"
    then obtain p where p: "p \<in> set (pending_list (as_pending (s n)))" "pc_reply p = k" by (auto simp: in_pending_def)
    with late n have d: "pc_deadline p \<le> as_now (s n)" by blast
    from late_ready [OF run_ok(1,2) [OF run] p(1) d] show "waiter_ready (s n)" .
    assume next_in: "c \<le> Suc n \<and> in_pending k (s (Suc n))"
    have "as_todo (s n) \<noteq> [] \<or> who n \<noteq> WaiterThread"
      using round_takes_late [OF _ _ run_ok(3) [OF run] p d] run_ok(4) [OF run, of n] next_in by auto
    note m = waiter_todo [OF run_ok(4) [OF run] this]
    then show "length (as_todo (s (Suc n))) \<le> length (as_todo (s n))" by (auto split: if_splits)
    show "length (as_todo (s (Suc n))) < length (as_todo (s n))" if "who n = WaiterThread" using m that by simp
  qed
  then show ?thesis using c(1) [OF order_refl] by (meson order_trans)
qed

lemma run_todo:
  assumes run: "ack_run sha ext debug s who" "tickets_last s" and fair: "fair_run s who"
  shows "\<exists>n \<ge> i. \<not> in_todo k (s n)"
proof (rule fair_progress [where T = "\<lambda>i. who i = WaiterThread" and R = "\<lambda>i. waiter_ready (s i)"
      and f = "\<lambda>i. length (as_todo (s i))" and P = "\<lambda>n. in_todo k (s n)"])
  show "\<exists>n \<ge> i. who n = WaiterThread \<or> \<not> waiter_ready (s n)" for i using fair by (simp add: fair_run_def)
  fix n assume "in_todo k (s n)"
  then have todo: "as_todo (s n) \<noteq> []" by (auto simp: in_todo_def)
  then show "waiter_ready (s n)" by (simp add: waiter_ready_def)
  note m = waiter_todo [OF run_ok(4) [OF run] disjI1 [OF todo]]
  then show "length (as_todo (s (Suc n))) \<le> length (as_todo (s n))" by (auto split: if_splits)
  show "length (as_todo (s (Suc n))) < length (as_todo (s n))" if "who n = WaiterThread" using m that by simp
qed

section \<open>The property\<close>

text \<open>
  C38. Every call of \<open>APPLY_INPUT\<close> is answered: in every fair run, whatever panes are gone, mailboxes
  are full, leases change hands and writers never report, the call that was made eventually has a
  result, and by then neither the lane nor the waiter carries it any more. A run is fair when the
  lane and the waiter are each scheduled again as long as they have work and the clock grows without
  bound; tickets are distinct as long as fewer than \<open>2 ^ 64\<close> operations were taken up.
\<close>

theorem every_call_answered:
  assumes "ack_run sha ext debug s who" and "fair_run s who" and "tickets_last s" and "k < as_calls (s i)"
  shows "\<exists>n \<ge> i. (\<exists>r. (k, r) \<in> set (as_answers (s n))) \<and> k \<notin> set (open_calls (s n))"
proof -
  note run = assms(1,3)
  note e = run_ok(4) [OF run]
  obtain a where a: "i \<le> a" "\<not> in_lane k (s a)" using run_lane [OF run assms(2)] by blast
  have calls: "k < as_calls (s n)" if "i \<le> n" for n by (rule run_calls [OF run assms(4) that])
  have lane: "\<not> in_lane k (s n)" if "a \<le> n" for n
    using that
  proof (induction n rule: dec_induct)
    case (step n)
    with leaves_lane [OF e calls] a(1) show ?case by simp
  qed (rule a(2))
  obtain b where b: "a \<le> b" "\<not> in_chan k (s b)" using run_chan [OF run assms(2)] by blast
  have chan: "\<not> in_chan k (s n)" if "b \<le> n" for n
    using that
  proof (induction n rule: dec_induct)
    case (step n)
    with leaves_chan [OF e lane] b(1) show ?case by simp
  qed (rule b(2))
  obtain c where c: "b \<le> c" "\<not> in_pending k (s c)" using run_pending [OF run assms(2) chan] by blast
  have pending: "\<not> in_pending k (s n)" if "c \<le> n" for n
    using that
  proof (induction n rule: dec_induct)
    case (step n)
    with leaves_pending [OF e chan] c(1) show ?case by simp
  qed (rule c(2))
  obtain d where d: "c \<le> d" "\<not> in_todo k (s d)" using run_todo [OF run assms(2)] by blast
  have n: "i \<le> d" "a \<le> d" "b \<le> d" using a(1) b(1) c(1) d(1) by simp_all
  with call_somewhere [OF run_ok(3) [OF run] calls [OF n(1)]] lane chan pending d
  have "k \<in> fst ` set (as_answers (s d))" by blast
  moreover have "k \<notin> set (open_calls (s d))"
    using lane [OF n(2)] chan [OF n(3)] pending [OF d(1)] d(2)
    by (auto simp: holding_def waiting_def in_lane_def in_chan_def in_pending_def in_todo_def)
  ultimately show ?thesis using n(1) by (auto intro!: exI [of _ d])
qed

text \<open>A schedule that ends in a quiet state, with nothing but the clock ticking afterwards, is a fair run.\<close>

definition then_ticks :: "ack_move list \<Rightarrow> nat \<Rightarrow> ack_move" where
  "then_ticks ms i = (if i < length ms then ms ! i else MoveTick (i * 10 ^ 9))"

primrec state_at :: "(bytes \<Rightarrow> bytes) \<Rightarrow> externs \<Rightarrow> (wire_resource_id \<Rightarrow> str) \<Rightarrow> ack_move list \<Rightarrow> nat \<Rightarrow> ack_state" where
  "state_at sha ext debug ms 0 = ack_start"
| "state_at sha ext debug ms (Suc i) = do_move sha ext debug (then_ticks ms i) (state_at sha ext debug ms i)"

lemma state_at_prefix:
  assumes "run_moves sha ext debug ms ack_start = Some st" and "i \<le> length ms"
  shows "run_moves sha ext debug (take i ms) ack_start = Some (state_at sha ext debug ms i)"
  using assms(2)
proof (induction i)
  case (Suc i)
  then have ih: "run_moves sha ext debug (take i ms) ack_start = Some (state_at sha ext debug ms i)" by simp
  have ms: "ms = take i ms @ ms ! i # drop (Suc i) ms" using Suc(2) by (simp add: id_take_nth_drop)
  from assms(1) have "can_move (ms ! i) (state_at sha ext debug ms i)"
    by (subst (asm) ms) (simp add: run_moves_append ih split: if_splits)
  with ih Suc(2) show ?case by (simp add: take_Suc_conv_app_nth run_moves_append then_ticks_def)
qed simp

lemma state_at_can_move:
  assumes "run_moves sha ext debug ms ack_start = Some st" and "i < length ms"
  shows "can_move (ms ! i) (state_at sha ext debug ms i)"
proof -
  have "run_moves sha ext debug (take i ms) ack_start = Some (state_at sha ext debug ms i)"
    using state_at_prefix [OF assms(1)] assms(2) by simp
  moreover from state_at_prefix [OF assms(1), of "Suc i"] assms(2)
  have "run_moves sha ext debug (take i ms @ [ms ! i]) ack_start = Some (state_at sha ext debug ms (Suc i))"
    by (simp add: take_Suc_conv_app_nth)
  ultimately show ?thesis by (simp add: run_moves_append split: if_splits)
qed

lemma state_at_after:
  assumes "run_moves sha ext debug ms ack_start = Some st"
  shows "state_at sha ext debug ms (length ms + j) = (if j = 0 then st else st\<lparr>as_now := (length ms + j - 1) * 10 ^ 9\<rparr>)"
proof (induction j)
  case 0
  from state_at_prefix [OF assms, of "length ms"] assms show ?case by simp
next
  case (Suc j)
  then show ?case by (simp add: then_ticks_def do_move_def)
qed

lemma schedule_run:
  assumes run: "run_moves sha ext debug ms ack_start = Some st" and now: "as_now st \<le> length ms * 10 ^ 9"
    and quiet: "\<not> lane_ready st" "as_todo st = []" "as_chan st = []" "ps_by_deadline (as_pending st) = []"
    and minted: "as_minted st < 2 ^ 64"
  shows "ack_run sha ext debug (state_at sha ext debug ms) (\<lambda>i. mover (then_ticks ms i))"
    and "fair_run (state_at sha ext debug ms) (\<lambda>i. mover (then_ticks ms i))"
    and "tickets_last (state_at sha ext debug ms)"
proof -
  let ?s = "state_at sha ext debug ms"
  have after: "\<exists>n. ?s i = st\<lparr>as_now := n\<rparr> \<and> n \<le> i * 10 ^ 9 \<and> (i > length ms \<longrightarrow> n = (i - 1) * 10 ^ 9)" if "length ms \<le> i" for i
    using state_at_after [OF run, of "i - length ms"] that now
    by (cases "i = length ms") (auto intro!: exI [of _ "as_now st"])
  have can: "can_move (then_ticks ms i) (?s i)" for i
  proof (cases "i < length ms")
    case True
    with state_at_can_move [OF run True] show ?thesis by (simp add: then_ticks_def)
  next
    case False
    with after [of i] show ?thesis by (auto simp: then_ticks_def can_move_def)
  qed
  have step: "ack_step sha ext debug (mover (then_ticks ms i)) (?s i) (?s (Suc i))" for i
    using move_step [OF can] by simp
  then show "ack_run sha ext debug ?s (\<lambda>i. mover (then_ticks ms i))" by (simp add: ack_run_def)
  have idle: "\<not> lane_ready (?s i) \<and> \<not> waiter_ready (?s i)" if "length ms \<le> i" for i
    using after [OF that] quiet by (auto simp: lane_ready_def waiter_ready_def deadline_passed_def next_deadline_def)
  have "n \<le> as_now (?s (length ms + n + 1))" for n
    using after [of "length ms + n + 1"] by auto
  with idle show "fair_run ?s (\<lambda>i. mover (then_ticks ms i))"
    unfolding fair_run_def by (meson max.cobounded1 max.cobounded2)
  have mono: "as_minted (?s i) \<le> as_minted (?s (i + j))" for i j
    by (induction j) (use ack_step_grows [OF step] in \<open>auto intro: order_trans\<close>)
  have "as_minted (?s i) < 2 ^ 64" for i
    using mono [of i "length ms"] after [of "i + length ms"] minted by auto
  then show "tickets_last ?s" by (simp add: tickets_last_def)
qed

text \<open>A batch that reaches the pane and whose writer never reports is answered when its deadline passes.\<close>

definition silent_writer :: "ack_move list" where
  "silent_writer = [demo_submit, demo_lane True, demo_lane True, demo_lane True, MoveWaiter, MoveTick (6 * 10 ^ 9),
     MoveWaiter, MoveWaiter, MoveWaiter, MoveWaiter]"

lemma demo_times_out:
  assumes "pc_deadline p \<le> n"
  shows "can_move MoveWaiter (demo_state n fl q pc c mt [] (one_pending p) [] sk ans k hs)"
    and "do_move sha ext debug MoveWaiter (demo_state n fl q pc c mt [] (one_pending p) [] sk ans k hs)
      = demo_state n fl q pc c mt [] no_pending (finalize p delivery_unknown) sk ans k hs"
  using assms
  by (simp_all add: can_move_def do_move_def demo_state_def waiter_ready_def waiter_move_def waiter_receive_def deadline_passed_def
      next_deadline_def run_waiter_round_def take_expired_def one_pending_def)

lemma silent_writer_runs:
  "run_moves sha ext debug silent_writer ack_start =
     Some (demo_state (6 * 10 ^ 9) {} [] LaneIdle (demo_cache (demo_digest sha ext) (Some delivery_unknown) 0) 1 [] no_pending []
       [1] [(0, delivery_unknown)] 1 [demo_handoff 0 0 1 0])"
proof -
  have d: "deadline_from 0 acknowledged_completion_timeout = 5 * 10 ^ 9"
    by (simp add: deadline_from_def acknowledged_completion_timeout_def)
  let ?d = "demo_digest sha ext"
  note prepares = demo_prepares [OF demo_binds(1) _ demo_binds(5), where debug = debug and sha = sha and ext = ext]
  show ?thesis
    by (simp add: silent_writer_def demo_start demo_submits demo_ticks demo_lane_can prepares
        demo_registers demo_hands demo_waits demo_times_out demo_finishes demo_binds d finalize_def)
qed

theorem every_call_answered_witness:
  "\<exists>n r. (0, r) \<in> set (as_answers (state_at (\<lambda>bs. bs) no_externs (\<lambda>_. []) silent_writer n))
    \<and> 0 \<notin> set (open_calls (state_at (\<lambda>bs. bs) no_externs (\<lambda>_. []) silent_writer n))"
proof -
  note r = silent_writer_runs [of "\<lambda>bs. bs" no_externs "\<lambda>_. []"]
  note fair = schedule_run [OF r]
  have "0 < as_calls (state_at (\<lambda>bs. bs) no_externs (\<lambda>_. []) silent_writer (length silent_writer))"
    using state_at_after [OF r, of 0] by (simp add: demo_state_def)
  from every_call_answered [OF fair this] show ?thesis
    by (auto simp: demo_state_def lane_ready_def silent_writer_def)
qed

end
