(* ===== verification/Spec2Isabelle.thy ===== *)
theory Spec2Isabelle
  imports Core_Registry_Inv Core_Window_Focus Client_Workspace_Store Framing Layout_Mirror Client_Workspace_Inv Multi_Pane_Props
    Wire_Restamp Spawn_Ledger Record_Ring Ack_Live
begin

text \<open>
  \<^bold>\<open>A verification library for phux\<close>

  phux is a terminal multiplexer: a server owns terminals and other resources, grouped into
  windows and sessions; clients attach over a byte stream, receive the state of the terminals and
  draw them in split panes. This library models the deterministic core of both sides and the
  protocol between them. Paths below are relative to \<open>src/crates/\<close>.

  \<^bold>\<open>Conventions.\<close> Machine integers are words of their width and wrap as in the release build;
  floats are their IEEE bit patterns (theory \<open>F32\<close>); a Rust string is its list of UTF-8 bytes.
  \<open>Result\<close> is a sum type with \<open>Ok\<close> for \<open>Inr\<close> and \<open>Err\<close> for \<open>Inl\<close>, \<open>Option\<close> is \<open>option\<close>, a panic
  where one is possible is \<open>None\<close> around the result. Code outside the repository (slot maps,
  SHA-256, CBOR, JSON, deflate) is an argument of the definitions that use it.

  \<^bold>\<open>Server core\<close> (\<open>phux-core\<close>).
  \<^item> \<open>Core_Window\<close>, \<open>Core_Window_Focus\<close>: \<open>window.rs\<close>, the split tree of a window. Splitting inserts
    after its target, killing undoes splitting, and directional focus lands on a pane across the edge
    of the current one in any picture of the tree, or finds nothing at the border.
  \<^item> \<open>Core_Registry\<close>, \<open>Core_Registry_Inv\<close>: \<open>registry.rs\<close>, sessions, windows and resources in slot
    maps. Every registry built by its structural operations and the field edits of the running server
    is well formed; removal cascades to exactly the owned entries. Relinking a registry restored from
    an upgrade blob writes the links through mutable borrows and is outside that invariant.

  \<^bold>\<open>Server state\<close> (\<open>phux-server\<close>).
  \<^item> \<open>Id_Bridge\<close>: \<open>id_bridge.rs\<close> and \<open>state/id_space.rs\<close>, the numbers clients know entities by. An id
    is minted once for the life of the server and resolves to what it was minted for or nothing. The
    history starts with a fresh server; restoring the ids of an upgraded one is not part of it.
  \<^item> \<open>Input_Lease\<close>: \<open>state/lease_table.rs\<close>, who may type into a pane. The table answers from the
    history of grants and withdrawals, one argument for panes, satellite panes and proxies.
  \<^item> \<open>Spawn_Ledger\<close>: \<open>state/satellite_spawns.rs\<close>, which satellite resources the hub may still kill
    without asking. It vouches for exactly the recent spawns nobody else has used.
  \<^item> \<open>Record_Ring\<close>: \<open>resource/agent_session/ring.rs\<close>, the bounded log of an agent session. It is the
    newest part of the log that fits.

  \<^bold>\<open>Acknowledged input\<close> (\<open>phux-server/src/runtime/input_lane/\<close>). \<open>APPLY_INPUT\<close> types a batch into a
  pane at most once and reports whether it arrived. A client task reserves the terminal and queues
  the batch, the lane thread binds its id in the dedupe cache, encodes it, registers it with the
  waiter thread and hands it to the pane, whose writer may report; the waiter answers from the report
  or when five seconds have passed.
  \<^item> \<open>Ack_Input\<close>: the definitions: \<open>acknowledged.rs\<close> with its cache, tickets, pending set and waiter,
    the acknowledged path of \<open>mod.rs\<close>, \<open>with_route_input_destination\<close> and \<open>resolve_resource\<close>. Each
    thread advances by the blocks it runs between two operations on shared state, and \<open>ack_step\<close>
    interleaves the threads, the clock and the environment in any order. The state the lane sees
    under the server's lock may differ at every step. Logs of calls, answers and handoffs record the
    history and influence nothing.
  \<^item> \<open>Ack_Pending\<close>, \<open>Ack_Token\<close>, \<open>Ack_Invariant\<close>: the effect of each step, and the conservation of
    reservations and of reply channels, one argument in the locale \<open>ack_token\<close>. A terminal has at most
    one operation, and every call is open or answered once.
  \<^item> \<open>Ack_Once\<close>, \<open>Ack_Run\<close>: no batch is typed twice within the horizon of its id's binding, given that
    SHA-256 does not collide on what was submitted; and the schedules in which a refused operation is
    retried twice, whose second retry is typed again exactly when the binding of the refused attempt
    has expired.
  \<^item> \<open>Ack_Live\<close>: every call is answered in every run in which lane and waiter are scheduled again while
    they have work and time passes.

  \<^bold>\<open>Protocol\<close> (\<open>phux-protocol\<close>).
  \<^item> \<open>Wire_Prim\<close>, \<open>Wire_Round\<close>: the primitives of \<open>wire/encode.rs\<close> and \<open>wire/decode.rs\<close>, the loop over
    tagged fields every message decoder is built from, and the calculus of round trips.
  \<^item> \<open>Framing\<close>: \<open>wire/framing.rs\<close>, the Unix-socket reader (\<open>phux-server/src/transport.rs\<close>) and the
    reassembly loop of the federation link (\<open>phux-server/src/hub/link.rs\<close>).
  \<^item> \<open>Net_Addr\<close>: printing and parsing of IP addresses in the standard library, used by the
    protocol's textual addresses.
  \<^item> \<open>Wire_Types\<close>, \<open>Wire_Caps\<close>, \<open>Wire_Codec\<close>, \<open>Wire_Info\<close>, \<open>Wire_Status\<close>, \<open>Wire_Command\<close>,
    \<open>Wire_Directory\<close>, \<open>Wire_Ssh_Origin\<close>: identifiers, capabilities and their negotiation, payloads,
    snapshots, status codes, commands and events, each with encoder and decoder; the theories
    ending in \<open>_Round\<close> show that each decoder reads back what its encoder wrote.
  \<^item> \<open>Wire_Frame\<close>, \<open>Wire_Decode\<close>: the catalogue of messages, \<open>wire/frame/kind.rs\<close> and the message
    decoders of \<open>wire/decode.rs\<close>, with the compressed envelope of \<open>wire/compress.rs\<close>.
  \<^item> \<open>Wire_Framed\<close>, \<open>Wire_Skip\<close>, \<open>Wire_Limits\<close>: what holds of each message decoder on its own. It reads
    nothing past the declared length, it skips every field whose id is not in \<open>field_ids\<close> of its
    message, and what it returns is \<open>within_limits\<close>, the caps the decoders enforce.
  \<^item> \<open>Wire_Frame_Round\<close>, \<open>Wire_Frame_Props\<close>, \<open>Wire_Compress\<close>: the whole codec. Every message survives
    the trip, and the three facts above for every frame, compressed or not. The compressed round trip
    needs terminal ids of at most 32 KiB.
  \<^item> \<open>Wire_Restamp\<close>: the ssh bridge, \<open>restamp_hello\<close> of \<open>wire/ssh_origin.rs\<close> and \<open>forward_hello\<close> of
    \<open>phux/src/commands/stdio_bridge.rs\<close>. A HELLO leaves it with the bridge's origin or none, unless it
    comes in a compressed envelope.

  \<^bold>\<open>Client\<close> (\<open>phux-client-core\<close>).
  \<^item> \<open>Client_Layout\<close>, \<open>Layout_Mirror\<close>: \<open>layout/mod.rs\<close>, the client's tree, which implements the server's.
  \<^item> \<open>Client_Workspace\<close>, \<open>Client_Workspace_Inv\<close>, \<open>Client_Workspace_Store\<close>: windows, identities and
    their stored form. Workspaces built or decoded by the module keep their window ids apart, and a
    stored one reads back, for every CBOR library that inverts itself on what the code writes; a plain
    serializer shows that there is one. Callers that edit the window list directly are left out.
  \<^item> \<open>Multi_Pane\<close>, \<open>Multi_Pane_Tiling\<close>, \<open>Multi_Pane_Props\<close>: \<open>multi_pane/\<close>, the tiling of the screen, the
    divider glyphs and the routing of mouse events.

  \<^bold>\<open>Bounds and fuel.\<close> The varint reader is bounded by the ten bytes the code allows; the loop over
  fields is bounded by the bytes left, since a field takes at least one; the layout decoder by
  \<open>MAX_LAYOUT_DEPTH\<close>. The loop that looks for an unused window id can run for ever for a constant
  digest; its theorem gives the number of rounds that suffice. No other definition uses fuel. The
  theorems on acknowledged input assume fewer than \<open>2 ^ 64\<close> operations since the server started,
  after which its tickets would repeat.

  \<^bold>\<open>Not modelled.\<close> The terminal engine, PTYs and processes, TLS and QUIC transports, screen
  painting, the command line, recording, crash handling and the foreign-function interfaces: they
  are bindings to external libraries and operating-system calls. The asynchronous tasks of the
  server and the hub are modelled only through the state they drive, the threads of acknowledged
  input apart; input that is not acknowledged is only an entry of the lane's queue there, and the
  key and mouse encoders are arguments, since they call the terminal engine. Also left out are the
  client's connection library and session kernel, configuration, agent detection and the relay, which
  are mostly plumbing around sockets, files, TOML and regular expressions.
\<close>

end
